(* ===== verification/Prelude.thy ===== *)
theory Prelude
  imports Main "HOL-Library.AList" "HOL-Library.Multiset" "HOL-Library.Sublist"
begin

text \<open>
  The JavaScript built-ins the panel relies on, as executable HOL functions, and the lemmas every
  component shares.

  \<^item> \<open>undefined\<close> (and \<open>null\<close>, which the code compares with the same \<open>==\<close>) is \<open>None\<close>.
  \<^item> A JavaScript \<open>Map\<close> keeps its keys in insertion order: it is an association list whose \<open>set\<close>
    overwrites in place or appends. The contract is the locale \<open>insertion_map\<close>, interpreted below.
  \<^item> A JavaScript \<open>Set\<close> is the list of its elements in insertion order.
  \<^item> Arrays are lists; \<open>slice\<close>, \<open>indexOf\<close> and \<open>findIndex\<close> follow the language's rules out of range.
  \<^item> A callback is a token; an operation that runs callbacks returns the calls it makes, in order.
\<close>

named_theorems js_simps "characteristic equations of the JavaScript built-ins"
named_theorems preserves "operations that keep a component's invariant"

section \<open>Arrays\<close>

text \<open>\<open>Array.prototype.slice\<close>: a negative bound counts from the end, bounds are clipped.\<close>

definition js_bound :: "'a list \<Rightarrow> int \<Rightarrow> nat" where
  "js_bound xs i =
     (let n = int (length xs) in nat (if i < 0 then max (n + i) 0 else min i n))"

definition js_slice :: "'a list \<Rightarrow> int \<Rightarrow> int \<Rightarrow> 'a list" where
  "js_slice xs i j = take (js_bound xs j - js_bound xs i) (drop (js_bound xs i) xs)"

text \<open>\<open>findIndex\<close> and \<open>indexOf\<close>: \<open>-1\<close> when there is no match.\<close>

fun js_find_index :: "('a \<Rightarrow> bool) \<Rightarrow> 'a list \<Rightarrow> int" where
  "js_find_index p [] = - 1"
| "js_find_index p (x # xs) =
     (if p x then 0 else let i = js_find_index p xs in if i = - 1 then - 1 else i + 1)"

definition js_index_of :: "'a list \<Rightarrow> 'a \<Rightarrow> int" where
  "js_index_of xs x = js_find_index (\<lambda>y. y = x) xs"

definition js_last :: "'a list \<Rightarrow> 'a option" where
  "js_last xs = (if xs = [] then None else Some (last xs))"

text \<open>\<open>array[index]\<close>: reading out of range gives \<open>undefined\<close>.\<close>

definition js_at :: "'a list \<Rightarrow> nat \<Rightarrow> 'a option" where
  "js_at xs i = (if i < length xs then Some (xs ! i) else None)"

lemma js_slice_forward [js_simps]:
  "0 \<le> i \<Longrightarrow> 0 \<le> n \<Longrightarrow> js_slice xs i (i + n) = take (nat n) (drop (nat i) xs)"
proof -
  assume i: "0 \<le> i" and n: "0 \<le> n"
  show ?thesis
  proof (cases "i + n \<le> int (length xs)")
    case True
    with i n have b: "js_bound xs i = nat i" "js_bound xs (i + n) = nat (i + n)"
      by (auto simp: js_bound_def Let_def min_def)
    from i n have "nat (i + n) - nat i = nat n" by arith
    with b show ?thesis by (simp add: js_slice_def)
  next
    case False
    with i n have e: "js_bound xs (i + n) = length xs"
      by (auto simp: js_bound_def Let_def min_def)
    from i have s: "js_bound xs i = min (nat i) (length xs)"
      by (auto simp: js_bound_def Let_def min_def)
    from False i n have "length xs \<le> nat i + nat n" by arith
    with e s show ?thesis by (auto simp: js_slice_def min_def)
  qed
qed

lemma js_find_index_ge: "- 1 \<le> js_find_index p xs"
  by (induction xs) (auto simp: Let_def)

lemma js_find_index_none [js_simps]: "js_find_index p xs = - 1 \<longleftrightarrow> (\<forall>x\<in>set xs. \<not> p x)"
proof (induction xs)
  case Nil
  show ?case by simp
next
  case (Cons x xs)
  have "- 1 \<le> js_find_index p xs" by (rule js_find_index_ge)
  with Cons show ?case by (auto simp: Let_def)
qed

lemma js_find_index_some:
  assumes "js_find_index p xs = i" and "i \<noteq> - 1"
  shows "0 \<le> i \<and> nat i < length xs \<and> p (xs ! nat i) \<and> (\<forall>j < nat i. \<not> p (xs ! j))"
  using assms
proof (induction xs arbitrary: i)
  case Nil
  then show ?case by simp
next
  case (Cons x xs)
  show ?case
  proof (cases "p x")
    case True
    with Cons.prems show ?thesis by simp
  next
    case False
    define k where "k = js_find_index p xs"
    from False Cons.prems have k: "k \<noteq> - 1" "i = k + 1"
      by (auto simp: k_def Let_def split: if_splits)
    from Cons.IH [OF k_def [symmetric] k(1)]
    have ih: "0 \<le> k" "nat k < length xs" "p (xs ! nat k)" "\<forall>j < nat k. \<not> p (xs ! j)"
      by auto
    from ih(1) k(2) have "nat i = Suc (nat k)" by arith
    with ih k False show ?thesis by (auto simp: nth_Cons split: nat.splits)
  qed
qed

lemma js_last_append [js_simps, simp]: "js_last (xs @ [x]) = Some x"
  by (simp add: js_last_def)

lemma js_last_empty [js_simps, simp]: "js_last [] = None"
  by (simp add: js_last_def)

section \<open>Sets in insertion order\<close>

definition set_add :: "'a \<Rightarrow> 'a list \<Rightarrow> 'a list" where
  "set_add x s = (if x \<in> set s then s else s @ [x])"

definition set_remove :: "'a \<Rightarrow> 'a list \<Rightarrow> 'a list" where
  "set_remove x s = filter (\<lambda>y. y \<noteq> x) s"

text \<open>\<open>new Set(array)\<close>: the first occurrence of every element, in order.\<close>

definition set_of_array :: "'a list \<Rightarrow> 'a list" where
  "set_of_array xs = fold set_add xs []"

lemma set_set_add [simp]: "set (set_add x s) = insert x (set s)"
  by (auto simp: set_add_def)

lemma distinct_set_add [simp]: "distinct (set_add x s) = distinct s"
  by (auto simp: set_add_def)

lemma set_set_remove [simp]: "set (set_remove x s) = set s - {x}"
  by (auto simp: set_remove_def)

lemma distinct_set_remove [simp]: "distinct s \<Longrightarrow> distinct (set_remove x s)"
  by (simp add: set_remove_def)

lemma set_fold_set_add [simp]: "set (fold set_add xs s) = set s \<union> set xs"
  by (induction xs arbitrary: s) auto

lemma distinct_fold_set_add [simp]: "distinct (fold set_add xs s) = distinct s"
  by (induction xs arbitrary: s) auto

lemma fold_set_add_extends: "\<exists>ys. fold set_add xs s = s @ ys \<and> set s \<inter> set ys = {}"
proof (induction xs arbitrary: s)
  case Nil
  show ?case by simp
next
  case (Cons x xs)
  from Cons.IH [of "set_add x s"] show ?case by (auto simp: set_add_def split: if_splits)
qed

text \<open>The elements that adding \<open>xs\<close> to \<open>s\<close> brings in, in order.\<close>

definition set_news :: "'a list \<Rightarrow> 'a list \<Rightarrow> 'a list" where
  "set_news xs s = drop (length s) (fold set_add xs s)"

lemma set_news_nil [simp]: "set_news [] s = []"
  by (simp add: set_news_def)

lemma set_news_cons [simp]:
  "set_news (x # xs) s = (if x \<in> set s then set_news xs s else x # set_news xs (s @ [x]))"
proof -
  obtain ys where "fold set_add xs (s @ [x]) = (s @ [x]) @ ys"
    using fold_set_add_extends [of xs "s @ [x]"] by blast
  then show ?thesis by (simp add: set_news_def set_add_def)
qed

lemma set_news_empty: "set_news xs [] = set_of_array xs"
  by (simp add: set_news_def set_of_array_def)

lemma length_fold_set_add_le: "length (fold set_add xs s) \<le> length s + length xs"
proof (induction xs arbitrary: s)
  case Nil
  show ?case by simp
next
  case (Cons x xs)
  from Cons.IH [of "set_add x s"] show ?case by (simp add: set_add_def split: if_splits)
qed

lemma set_set_of_array [simp]: "set (set_of_array xs) = set xs"
  by (simp add: set_of_array_def)

lemma distinct_set_of_array [simp]: "distinct (set_of_array xs)"
  by (simp add: set_of_array_def)

text \<open>The size of \<open>new Set(array)\<close> tells whether the array has duplicates.\<close>

lemma length_set_of_array: "length (set_of_array xs) = card (set xs)"
  using distinct_card [OF distinct_set_of_array, of xs] by simp

lemma length_set_of_array_eq [js_simps]: "length (set_of_array xs) = length xs \<longleftrightarrow> distinct xs"
  using card_distinct [of xs] distinct_card [of xs] by (auto simp: length_set_of_array)

section \<open>Maps in insertion order\<close>

text \<open>
  The interface of \<open>Map\<close> as the panel uses it (groupings, stream subscribers, context registry,
  filter checkboxes): lookup, \<open>set\<close>, \<open>delete\<close>, and the keys in iteration order.
\<close>

locale insertion_map =
  fixes empty :: "'m"
    and lookup :: "'m \<Rightarrow> 'k \<Rightarrow> 'v option"
    and put :: "'k \<Rightarrow> 'v \<Rightarrow> 'm \<Rightarrow> 'm"
    and remove :: "'k \<Rightarrow> 'm \<Rightarrow> 'm"
    and keys :: "'m \<Rightarrow> 'k list"
  assumes lookup_empty: "lookup empty k = None"
    and keys_empty: "keys empty = []"
    and lookup_put: "lookup (put k v m) = (lookup m)(k \<mapsto> v)"
    and keys_put: "keys (put k v m) = set_add k (keys m)"
    and lookup_remove: "lookup (remove k m) = (lookup m)(k := None)"
    and keys_remove: "keys (remove k m) = set_remove k (keys m)"
    and lookup_keys: "lookup m k = None \<longleftrightarrow> k \<notin> set (keys m)"
begin

lemma lookup_put_same: "lookup (put k v m) k = Some v"
  by (simp add: lookup_put)

lemma lookup_put_other: "k \<noteq> l \<Longrightarrow> lookup (put k v m) l = lookup m l"
  by (simp add: lookup_put)

lemma keys_put_all:
  "keys (fold (\<lambda>x. put (f x) (g x)) xs m) = fold set_add (map f xs) (keys m)"
  by (induction xs arbitrary: m) (simp_all add: keys_put)

text \<open>Storing a whole array keeps, for each key, the value of its last element.\<close>

lemma lookup_put_all:
  "lookup (fold (\<lambda>x. put (f x) (g x)) xs m) k =
     (case find (\<lambda>x. f x = k) (rev xs) of None \<Rightarrow> lookup m k | Some x \<Rightarrow> Some (g x))"
proof (induction xs rule: rev_induct)
  case Nil
  show ?case by simp
next
  case (snoc x xs)
  then show ?case by (simp add: lookup_put)
qed

lemma lookup_put_all_fresh:
  "k \<notin> f ` set xs \<Longrightarrow> lookup (fold (\<lambda>x. put (f x) (g x)) xs m) k = lookup m k"
  by (induction xs arbitrary: m) (simp_all add: lookup_put)

lemma keys_put_all_from_empty:
  "keys (fold (\<lambda>x. put (f x) (g x)) xs empty) = set_of_array (map f xs)"
  by (simp add: keys_put_all keys_empty set_of_array_def)

end

type_synonym ('k, 'v) js_map = "('k \<times> 'v) list"

definition map_get :: "('k, 'v) js_map \<Rightarrow> 'k \<Rightarrow> 'v option" where
  "map_get m k = map_of m k"

definition map_has :: "('k, 'v) js_map \<Rightarrow> 'k \<Rightarrow> bool" where
  "map_has m k = list_ex (\<lambda>e. fst e = k) m"

definition map_put :: "'k \<Rightarrow> 'v \<Rightarrow> ('k, 'v) js_map \<Rightarrow> ('k, 'v) js_map" where
  "map_put k v m = AList.update k v m"

definition map_remove :: "'k \<Rightarrow> ('k, 'v) js_map \<Rightarrow> ('k, 'v) js_map" where
  "map_remove k m = filter (\<lambda>e. fst e \<noteq> k) m"

definition map_keys :: "('k, 'v) js_map \<Rightarrow> 'k list" where
  "map_keys m = map fst m"

definition map_values :: "('k, 'v) js_map \<Rightarrow> 'v list" where
  "map_values m = map snd m"

lemma map_keys_put: "map_keys (map_put k v m) = set_add k (map_keys m)"
  by (induction m) (auto simp: map_keys_def map_put_def set_add_def)

lemma map_of_filter_key:
  "map_of (filter (\<lambda>e. fst e \<noteq> k) m) = (map_of m)(k := None)"
  by (induction m) (auto simp: fun_eq_iff)

lemma map_get_remove: "map_get (map_remove k m) = (map_get m)(k := None)"
  by (simp add: map_get_def map_remove_def map_of_filter_key fun_eq_iff)

lemma map_keys_remove: "map_keys (map_remove k m) = set_remove k (map_keys m)"
  by (induction m) (auto simp: map_keys_def map_remove_def set_remove_def)

interpretation js: insertion_map "[]" map_get map_put map_remove map_keys
proof unfold_locales
  fix m :: "('k, 'v) js_map" and k :: 'k and v :: 'v
  show "map_get [] k = None" and "map_keys [] = []"
    by (simp_all add: map_get_def map_keys_def)
  show "map_get (map_put k v m) = (map_get m)(k \<mapsto> v)"
    by (simp add: map_get_def map_put_def update_conv' fun_eq_iff)
  show "map_keys (map_put k v m) = set_add k (map_keys m)" by (rule map_keys_put)
  show "map_get (map_remove k m) = (map_get m)(k := None)" by (rule map_get_remove)
  show "map_keys (map_remove k m) = set_remove k (map_keys m)" by (rule map_keys_remove)
  show "map_get m k = None \<longleftrightarrow> k \<notin> set (map_keys m)"
    by (simp add: map_get_def map_keys_def map_of_eq_None_iff)
qed

lemma map_has_get [js_simps]: "map_has m k \<longleftrightarrow> map_get m k \<noteq> None"
  by (auto simp: map_has_def map_get_def list_ex_iff map_of_eq_None_iff image_iff split_paired_Ex
      intro: rev_bexI)

lemma map_get_empty [simp]: "map_get [] k = None"
  by (rule js.lookup_empty)

lemma map_get_put [simp]: "map_get (map_put k v m) l = (if l = k then Some v else map_get m l)"
  by (simp add: js.lookup_put)

lemma length_keys [simp]: "length (map_keys m) = length m"
  by (simp add: map_keys_def)

lemma map_values_get:
  assumes "distinct (map_keys m)"
  shows "map_values m = map (\<lambda>k. the (map_get m k)) (map_keys m)"
proof -
  have "snd e = the (map_of m (fst e))" if "e \<in> set m" for e
  proof -
    from that have "(fst e, snd e) \<in> set m" by simp
    then have "map_of m (fst e) = Some (snd e)"
      using assms by (simp add: map_keys_def map_of_is_SomeI)
    then show ?thesis by simp
  qed
  then show ?thesis by (simp add: map_values_def map_keys_def map_get_def comp_def)
qed

section \<open>Runs of operations that emit calls\<close>

text \<open>The final state of a sequence of operations, and all the calls they emit, in order.\<close>

fun emit_run :: "('op \<Rightarrow> 's \<Rightarrow> 's \<times> 'e list) \<Rightarrow> 'op list \<Rightarrow> 's \<Rightarrow> 's \<times> 'e list" where
  "emit_run step [] s = (s, [])"
| "emit_run step (op # ops) s =
     (let (s', calls) = step op s; (s'', rest) = emit_run step ops s' in (s'', calls @ rest))"

lemma emit_run_cons [simp]:
  "fst (emit_run step (op # ops) s) = fst (emit_run step ops (fst (step op s)))"
  "snd (emit_run step (op # ops) s) = snd (step op s) @ snd (emit_run step ops (fst (step op s)))"
  by (simp_all add: Let_def split_beta)

declare emit_run.simps(2) [simp del]

lemma emit_run_append [simp]:
  "fst (emit_run step (xs @ ys) s) = fst (emit_run step ys (fst (emit_run step xs s)))"
  "snd (emit_run step (xs @ ys) s) =
     snd (emit_run step xs s) @ snd (emit_run step ys (fst (emit_run step xs s)))"
  by (induction xs arbitrary: s) simp_all

text \<open>What each of the steps of a run emits, step by step.\<close>

fun emit_trace :: "('op \<Rightarrow> 's \<Rightarrow> 's \<times> 'e list) \<Rightarrow> 'op list \<Rightarrow> 's \<Rightarrow> 'e list list" where
  "emit_trace step [] s = []"
| "emit_trace step (op # ops) s = snd (step op s) # emit_trace step ops (fst (step op s))"

lemma emit_trace_append [simp]:
  "emit_trace step (xs @ ys) s =
     emit_trace step xs s @ emit_trace step ys (fst (emit_run step xs s))"
  by (induction xs arbitrary: s) simp_all

lemma emit_trace_map: "emit_trace step (map f ps) s = emit_trace (\<lambda>p. step (f p)) ps s"
  by (induction ps arbitrary: s) simp_all

lemma emit_trace_replicate:
  "emit_trace step (replicate n op) s = emit_trace (\<lambda>_. step op) (replicate n ()) s"
  by (induction n arbitrary: s) simp_all

lemma emit_run_trace: "snd (emit_run step ops s) = concat (emit_trace step ops s)"
  by (induction ops arbitrary: s) simp_all

lemma length_emit_trace [simp]: "length (emit_trace step ops s) = length ops"
  by (induction ops arbitrary: s) simp_all

lemma emit_run_invariant:
  assumes "\<And>op s. I s \<Longrightarrow> I (fst (step op s))" and "I s"
  shows "I (fst (emit_run step ops s))"
  using assms(2) by (induction ops arbitrary: s) (simp_all add: assms(1))

lemma emit_run_map:
  "emit_run step (map f ps) s = emit_run (\<lambda>p. step (f p)) ps s"
  by (induction ps arbitrary: s) (simp_all add: emit_run.simps(2))

lemma emit_run_replicate:
  "emit_run step (replicate n op) s = emit_run (\<lambda>_. step op) (replicate n ()) s"
  by (induction n arbitrary: s) (simp_all add: emit_run.simps(2))

section \<open>Completion barriers\<close>

text \<open>
  The panel often starts several asynchronous requests and continues when the last one has answered:
  a counter is compared with the number of requests (\<open>Synchronizer.process\<close>, the loaders, the module
  services). \<open>tick\<close> is one answer; the payload \<open>'p\<close> is what it carries.
\<close>

locale completion_barrier =
  fixes tick :: "'p \<Rightarrow> 's \<Rightarrow> 's \<times> 'e list"
    and count :: "'s \<Rightarrow> nat"
    and goal :: "'s \<Rightarrow> nat"
    and completion :: "'s \<Rightarrow> 'e list"
    and invar :: "'s \<Rightarrow> bool"
  assumes invar_tick: "invar s \<Longrightarrow> invar (fst (tick p s))"
    and count_tick: "invar s \<Longrightarrow> count (fst (tick p s)) = Suc (count s)"
    and goal_tick: "invar s \<Longrightarrow> goal (fst (tick p s)) = goal s"
    and emits_not: "invar s \<Longrightarrow> Suc (count s) < goal s \<Longrightarrow> snd (tick p s) = []"
    and emits_last: "invar s \<Longrightarrow> Suc (count s) = goal s \<Longrightarrow>
      snd (tick p s) = completion (fst (tick p s))"
begin

lemma run_facts:
  assumes "invar s"
  shows "invar (fst (emit_run tick ps s)) \<and>
    count (fst (emit_run tick ps s)) = count s + length ps \<and>
    goal (fst (emit_run tick ps s)) = goal s"
  using assms
  by (induction ps arbitrary: s) (simp_all add: invar_tick count_tick goal_tick)

lemma silent_before:
  assumes "invar s" and "count s + length ps < goal s"
  shows "snd (emit_run tick ps s) = []"
  using assms
proof (induction ps arbitrary: s)
  case Nil
  show ?case by simp
next
  case (Cons p ps)
  from Cons.prems have "snd (tick p s) = []" by (simp add: emits_not)
  with Cons.IH [of "fst (tick p s)"] Cons.prems show ?case
    by (simp add: invar_tick count_tick goal_tick)
qed

text \<open>Whatever the order of the answers, the last of them, and only it, completes.\<close>

lemma completes_at_goal:
  assumes "invar s" and "count s + length ps = goal s" and "ps \<noteq> []"
  shows "snd (emit_run tick ps s) = completion (fst (emit_run tick ps s))"
proof -
  from assms(3) obtain qs q where ps: "ps = qs @ [q]"
    using rev_exhaust by blast
  from assms ps have "snd (emit_run tick qs s) = []"
    by (intro silent_before) simp_all
  with assms ps run_facts [OF assms(1), of qs] show ?thesis
    by (simp add: emits_last)
qed

text \<open>Answer by answer: all but the last are silent.\<close>

lemma trace_before:
  assumes "invar s" and "count s + length ps < goal s"
  shows "emit_trace tick ps s = replicate (length ps) []"
  using assms
  by (induction ps arbitrary: s) (simp_all add: emits_not invar_tick count_tick goal_tick)

lemma trace_at_goal:
  assumes "invar s" and "count s + length ps = goal s" and "ps \<noteq> []"
  shows "emit_trace tick ps s =
    replicate (length ps - 1) [] @ [completion (fst (emit_run tick ps s))]"
proof -
  from assms(3) obtain qs q where ps: "ps = qs @ [q]"
    using rev_exhaust by blast
  from assms ps have "emit_trace tick qs s = replicate (length qs) []"
    by (intro trace_before) simp_all
  with assms ps run_facts [OF assms(1), of qs] show ?thesis
    by (simp add: emits_last)
qed

end

end
