(* ===== verification/Extensions.thy ===== *)
theory Extensions
  imports Prelude
begin

text \<open>
  The collection extensions of \<open>framework/extensions/extensions.ts\<close>: the methods the panel adds to
  \<open>Set\<close>, \<open>Map\<close> and \<open>Array\<close>, and the free functions beside them. A method that mutates its receiver
  and returns a copy yields the pair of the mutated receiver and the result. Deep equality
  (\<open>fast-deep-equal\<close>) is the parameter \<open>eq\<close> of the definitions that use it.
\<close>

section \<open>Set and Map\<close>

definition set_to_array :: "('a \<Rightarrow> 'b) \<Rightarrow> 'a list \<Rightarrow> 'b list" where
  "set_to_array functor s = map functor s"

definition set_with :: "'a list \<Rightarrow> 'a \<Rightarrow> 'a list \<times> 'a list" where
  "set_with s x = (let this = set_add x s in (this, set_of_array this))"

definition set_without :: "'a list \<Rightarrow> 'a \<Rightarrow> 'a list \<times> 'a list" where
  "set_without s x = (let this = set_remove x s in (this, set_of_array this))"

text \<open>\<open>new Map(entries)\<close> stores the entries one after the other.\<close>

definition map_of_entries :: "('k \<times> 'v) list \<Rightarrow> ('k, 'v) js_map" where
  "map_of_entries es = fold (\<lambda>e. map_put (fst e) (snd e)) es []"

definition map_values_to_array :: "('v \<Rightarrow> 'r) \<Rightarrow> ('k, 'v) js_map \<Rightarrow> 'r list" where
  "map_values_to_array functor m = map functor (map_values m)"

definition map_to_array :: "('k \<Rightarrow> 'v \<Rightarrow> 'r) \<Rightarrow> ('k, 'v) js_map \<Rightarrow> 'r list" where
  "map_to_array functor m = map (\<lambda>entry. functor (fst entry) (snd entry)) m"

definition map_is_empty :: "('k, 'v) js_map \<Rightarrow> bool" where
  "map_is_empty m \<longleftrightarrow> length m = 0"

definition map_some :: "('k \<Rightarrow> 'v \<Rightarrow> bool) \<Rightarrow> ('k, 'v) js_map \<Rightarrow> bool" where
  "map_some functor m \<longleftrightarrow> list_ex (\<lambda>entry. functor (fst entry) (snd entry)) m"

definition map_filter_entries :: "('k \<Rightarrow> 'v \<Rightarrow> bool) \<Rightarrow> ('k, 'v) js_map \<Rightarrow> ('k, 'v) js_map" where
  "map_filter_entries functor m =
     map_of_entries (filter (\<lambda>entry. functor (fst entry) (snd entry)) m)"

definition map_filter_values :: "('v \<Rightarrow> bool) \<Rightarrow> ('k, 'v) js_map \<Rightarrow> ('k, 'v) js_map" where
  "map_filter_values functor m = map_of_entries (filter (\<lambda>entry. functor (snd entry)) m)"

definition map_filter_keys :: "('k \<Rightarrow> bool) \<Rightarrow> ('k, 'v) js_map \<Rightarrow> ('k, 'v) js_map" where
  "map_filter_keys functor m = map_of_entries (filter (\<lambda>entry. functor (fst entry)) m)"

definition map_without :: "('k, 'v) js_map \<Rightarrow> 'k \<Rightarrow> ('k, 'v) js_map \<times> ('k, 'v) js_map" where
  "map_without m k = (let this = map_remove k m in (this, map_of_entries this))"

definition map_with :: "('k, 'v) js_map \<Rightarrow> 'k \<Rightarrow> 'v \<Rightarrow> ('k, 'v) js_map \<times> ('k, 'v) js_map" where
  "map_with m k v = (let this = map_put k v m in (this, map_of_entries this))"

section \<open>Grouping and uniqueness\<close>

definition group_by :: "('a \<Rightarrow> 'k) \<Rightarrow> 'a list \<Rightarrow> ('k, 'a) js_map" where
  "group_by functor xs = fold (\<lambda>item. map_put (functor item) item) xs []"

definition group_by_many_step ::
  "('a \<Rightarrow> 'k) \<Rightarrow> 'a \<Rightarrow> ('k, 'a list) js_map \<Rightarrow> ('k, 'a list) js_map" where
  "group_by_many_step functor item m =
     (let key = functor item in
      case map_get m key of
        Some values \<Rightarrow> map_put key (values @ [item]) m
      | None \<Rightarrow> map_put key [item] m)"

definition group_by_many :: "('a \<Rightarrow> 'k) \<Rightarrow> 'a list \<Rightarrow> ('k, 'a list) js_map" where
  "group_by_many functor xs = fold (group_by_many_step functor) xs []"

definition has_duplicates :: "('a \<Rightarrow> 'k) \<Rightarrow> 'a list \<Rightarrow> bool" where
  "has_duplicates functor xs \<longleftrightarrow> length (set_of_array (map functor xs)) \<noteq> length xs"

definition duplicates :: "('a \<Rightarrow> 'k) \<Rightarrow> 'a list \<Rightarrow> 'a list" where
  "duplicates functor xs =
     (let filtered = set_to_array (\<lambda>element. element) (set_of_array (map functor xs)) in
      if length filtered = length xs then []
      else filter (\<lambda>element. functor element \<in> set filtered) xs)"

definition unique :: "('a \<Rightarrow> 'k) \<Rightarrow> 'a list \<Rightarrow> 'a list" where
  "unique functor xs =
     map_values_to_array (\<lambda>element. element)
       (fold (\<lambda>element. map_put (functor element) element) xs [])"

definition has_element :: "('a \<Rightarrow> 'a \<Rightarrow> bool) \<Rightarrow> 'a list \<Rightarrow> 'a \<Rightarrow> bool" where
  "has_element eq xs element \<longleftrightarrow> list_ex (\<lambda>current. eq current element) xs"

definition to_map :: "('a \<Rightarrow> nat \<Rightarrow> 'k \<times> 'v) \<Rightarrow> 'a list \<Rightarrow> ('k, 'v) js_map" where
  "to_map functor xs =
     fold (\<lambda>(item, index) m. case functor item index of (k, v) \<Rightarrow> map_put k v m)
       (zip xs [0..<length xs]) []"

section \<open>Slicing, replacing, searching\<close>

text \<open>The loop of \<open>chunks\<close>: it may not end, which is \<open>None\<close>.\<close>

partial_function (option) chunks_from ::
  "'a list \<Rightarrow> int \<Rightarrow> int \<Rightarrow> 'a list list \<Rightarrow> 'a list list option" where
  "chunks_from xs chunk_size i result =
     (if i < int (length xs)
      then chunks_from xs chunk_size (i + chunk_size) (result @ [js_slice xs i (i + chunk_size)])
      else Some result)"

definition chunks :: "'a list \<Rightarrow> int \<Rightarrow> 'a list list option" where
  "chunks xs chunk_size = chunks_from xs chunk_size 0 []"

definition put :: "('a \<Rightarrow> 'a \<Rightarrow> bool) \<Rightarrow> 'a list \<Rightarrow> 'a \<Rightarrow> 'a list" where
  "put eq xs element =
     (let index = js_find_index (\<lambda>current. eq current element) xs in
      if index = - 1 then xs @ [element] else xs[nat index := element])"

definition array_with :: "'a list \<Rightarrow> 'a \<Rightarrow> 'a list" where
  "array_with xs element = xs @ [element]"

definition with_out :: "('a \<Rightarrow> 'a \<Rightarrow> bool) \<Rightarrow> 'a list \<Rightarrow> 'a \<Rightarrow> 'a list" where
  "with_out eq xs element = filter (\<lambda>removed. \<not> eq removed element) xs"

definition safe_index_of :: "'a list \<Rightarrow> 'a option \<Rightarrow> int" where
  "safe_index_of xs element =
     (case element of None \<Rightarrow> - 1 | Some e \<Rightarrow> js_index_of xs e)"

definition last_of :: "'a list \<Rightarrow> 'a option" where
  "last_of xs = (if length xs = 0 then None else js_at xs (length xs - 1))"

definition count_of :: "('a \<Rightarrow> bool) \<Rightarrow> 'a list \<Rightarrow> nat" where
  "count_of predicate xs = length (filter predicate xs)"

definition length_of :: "'a list option \<Rightarrow> nat" where
  "length_of array = (case array of None \<Rightarrow> 0 | Some xs \<Rightarrow> length xs)"

definition is_empty_array :: "'a list option \<Rightarrow> bool" where
  "is_empty_array array \<longleftrightarrow> (case array of None \<Rightarrow> True | Some xs \<Rightarrow> length xs < 1)"

definition is_not_empty_array :: "'a list option \<Rightarrow> bool" where
  "is_not_empty_array array \<longleftrightarrow> (case array of None \<Rightarrow> False | Some xs \<Rightarrow> length xs > 0)"

definition has_index :: "int \<Rightarrow> 'a list option \<Rightarrow> bool" where
  "has_index index array \<longleftrightarrow>
     is_not_empty_array array \<and> index \<ge> 0 \<and> int (length (the array)) > index"

text \<open>
  \<open>crossEquals\<close>: with both sides undefined the lengths agree but \<open>left?.every\<close> is undefined, which
  is falsy.
\<close>

definition cross_equals :: "('a \<Rightarrow> 'a \<Rightarrow> bool) \<Rightarrow> 'a list option \<Rightarrow> 'a list option \<Rightarrow> bool" where
  "cross_equals eq left right \<longleftrightarrow>
     (case (left, right) of
        (Some l, Some r) \<Rightarrow> length l = length r \<and> list_all (has_element eq r) l
      | _ \<Rightarrow> False)"

section \<open>Ranges and random identifiers\<close>

text \<open>\<open>Math.ceil (a / b)\<close> on integers, with \<open>step || 1\<close> as the divisor.\<close>

definition ceil_div :: "int \<Rightarrow> int \<Rightarrow> int" where
  "ceil_div a b = - ((- a) div b)"

definition range_length :: "int \<Rightarrow> int \<Rightarrow> int \<Rightarrow> nat" where
  "range_length end_value start step =
     nat (max (ceil_div (end_value - start) (if step = 0 then 1 else step)) 0 + 1)"

fun range_fill :: "nat \<Rightarrow> int \<Rightarrow> int \<Rightarrow> int list" where
  "range_fill 0 start step = []"
| "range_fill (Suc len) start step = start # range_fill len (start + step) step"

definition range_of :: "int \<Rightarrow> int \<Rightarrow> int \<Rightarrow> int list" where
  "range_of end_value start step = range_fill (range_length end_value start step) start step"

text \<open>
  \<open>random\<close> redraws while the number equals the previous one. The draws of \<open>Math.random\<close>, already
  scaled to the bounds, are the argument; \<open>None\<close> means that more draws are needed.
\<close>

fun random_number :: "int \<Rightarrow> int \<Rightarrow> int option \<Rightarrow> int list \<Rightarrow> int option" where
  "random_number minimum maximum previous [] = None"
| "random_number minimum maximum previous (number # draws) =
     (if Some number = previous \<and> minimum \<noteq> maximum
      then random_number minimum maximum previous draws
      else Some number)"

section \<open>Maps built from entries\<close>

lemma map_of_entries_snoc: "map_of_entries (es @ [e]) = map_put (fst e) (snd e) (map_of_entries es)"
  by (simp add: map_of_entries_def)

lemma map_put_fresh: "k \<notin> set (map_keys m) \<Longrightarrow> map_put k v m = m @ [(k, v)]"
  by (induction m) (auto simp: map_put_def map_keys_def)

lemma map_of_entries_distinct [js_simps]: "distinct (map fst es) \<Longrightarrow> map_of_entries es = es"
proof (induction es rule: rev_induct)
  case Nil
  show ?case by (simp add: map_of_entries_def)
next
  case (snoc e es)
  then show ?case by (simp add: map_of_entries_snoc map_put_fresh map_keys_def)
qed

lemma distinct_keys_filter: "distinct (map fst m) \<Longrightarrow> distinct (map fst (filter p m))"
  by (induction m) auto

lemma map_filter_values_distinct [js_simps]:
  "distinct (map_keys m) \<Longrightarrow> map_filter_values p m = filter (\<lambda>e. p (snd e)) m"
  by (simp add: map_filter_values_def map_of_entries_distinct distinct_keys_filter map_keys_def)

section \<open>Grouping\<close>

lemma map_get_group_by:
  "map_get (group_by f xs) k = find (\<lambda>x. f x = k) (rev xs)"
  by (simp add: group_by_def js.lookup_put_all split: option.split)

lemma map_keys_group_by: "map_keys (group_by f xs) = set_of_array (map f xs)"
  unfolding group_by_def by (rule js.keys_put_all_from_empty)

lemma group_by_many_snoc:
  "group_by_many f (xs @ [x]) = group_by_many_step f x (group_by_many f xs)"
  by (simp add: group_by_many_def)

lemma map_get_group_by_many:
  "map_get (group_by_many f xs) k =
     (if k \<in> f ` set xs then Some (filter (\<lambda>x. f x = k) xs) else None)"
proof (induction xs arbitrary: k rule: rev_induct)
  case Nil
  show ?case by (simp add: group_by_many_def)
next
  case (snoc x xs)
  show ?case
    using snoc.IH [of k] snoc.IH [of "f x"]
    by (auto simp: group_by_many_snoc group_by_many_step_def Let_def filter_empty_conv
        intro: rev_image_eqI)
qed

lemma map_keys_group_by_many_step:
  "map_keys (group_by_many_step f x m) = set_add (f x) (map_keys m)"
  by (simp add: group_by_many_step_def Let_def js.keys_put split: option.split)

lemma map_keys_fold_group_by_many:
  "map_keys (fold (group_by_many_step f) xs m) = fold set_add (map f xs) (map_keys m)"
  by (induction xs arbitrary: m) (simp_all add: map_keys_group_by_many_step)

lemma map_keys_group_by_many: "map_keys (group_by_many f xs) = set_of_array (map f xs)"
  by (simp add: group_by_many_def map_keys_fold_group_by_many set_of_array_def js.keys_empty)

lemma unique_group_by: "unique f xs = map_values (group_by f xs)"
  by (simp add: unique_def map_values_to_array_def group_by_def)

lemma find_key_exists:
  "k \<in> f ` set xs \<Longrightarrow> \<exists>x. find (\<lambda>x. f x = k) xs = Some x \<and> f x = k \<and> x \<in> set xs"
  by (induction xs) auto

lemma unique_by_keys:
  "unique f xs = map (\<lambda>k. the (find (\<lambda>x. f x = k) (rev xs))) (set_of_array (map f xs))"
  by (simp add: unique_group_by map_values_get map_keys_group_by map_get_group_by)

lemma map_the_find_keys:
  "set ks \<subseteq> f ` set xs \<Longrightarrow> map (\<lambda>k. f (the (find (\<lambda>x. f x = k) (rev xs)))) ks = ks"
proof (induction ks)
  case Nil
  show ?case by simp
next
  case (Cons k ks)
  from Cons.prems have "k \<in> f ` set (rev xs)" by simp
  from find_key_exists [OF this] Cons show ?case by auto
qed

section \<open>Chunks\<close>

text \<open>The specification: consecutive pieces of \<open>k\<close> elements.\<close>

function pieces :: "nat \<Rightarrow> 'a list \<Rightarrow> 'a list list" where
  "pieces k xs = (if xs = [] \<or> k = 0 then [] else take k xs # pieces k (drop k xs))"
  by pat_completeness auto
termination
  by (relation "measure (\<lambda>(k, xs). length xs)") auto

declare pieces.simps [simp del]

lemma pieces_nil [simp]: "pieces k [] = []"
  by (simp add: pieces.simps)

lemma concat_pieces: "0 < k \<Longrightarrow> concat (pieces k xs) = xs"
proof (induction k xs rule: pieces.induct)
  case (1 k xs)
  then show ?case by (cases "xs = []") (auto simp: pieces.simps [of k xs])
qed

lemma length_in_pieces: "c \<in> set (pieces k xs) \<Longrightarrow> c \<noteq> [] \<and> length c \<le> k"
proof (induction k xs rule: pieces.induct)
  case (1 k xs)
  then show ?case by (auto simp: pieces.simps [of k xs] split: if_splits)
qed

lemma length_butlast_pieces: "c \<in> set (butlast (pieces k xs)) \<Longrightarrow> length c = k"
proof (induction k xs rule: pieces.induct)
  case (1 k xs)
  show ?case
  proof (cases "drop k xs = []")
    case True
    with 1 show ?thesis
      by (auto simp: pieces.simps [of k xs] split: if_splits)
  next
    case False
    with 1 show ?thesis
      by (auto simp: pieces.simps [of k xs] min_def split: if_splits)
  qed
qed

lemma chunks_from_pieces:
  assumes "0 < n" and "0 \<le> i"
  shows "chunks_from xs n i r = Some (r @ pieces (nat n) (drop (nat i) xs))"
  using assms(2)
proof (induction "length xs - nat i" arbitrary: i r rule: less_induct)
  case less
  show ?case
  proof (cases "i < int (length xs)")
    case True
    with less.prems assms(1) have "length xs - nat (i + n) < length xs - nat i" by arith
    with less.hyps less.prems assms(1)
    have ih: "chunks_from xs n (i + n) (r @ [js_slice xs i (i + n)]) =
        Some ((r @ [js_slice xs i (i + n)]) @ pieces (nat n) (drop (nat (i + n)) xs))"
      by simp
    from less.prems assms(1) have e: "nat (i + n) = nat n + nat i" by arith
    from True less.prems have "drop (nat i) xs \<noteq> []" by simp
    then have "pieces (nat n) (drop (nat i) xs) =
        take (nat n) (drop (nat i) xs) # pieces (nat n) (drop (nat (i + n)) xs)"
      using assms(1) by (simp add: pieces.simps [of "nat n" "drop (nat i) xs"] e)
    with True less.prems assms(1) ih show ?thesis
      by (subst chunks_from.simps) (simp add: js_slice_forward)
  next
    case False
    then have "drop (nat i) xs = []" by simp
    with False show ?thesis
      by (subst chunks_from.simps) simp
  qed
qed

lemma chunks_pieces: "0 < n \<Longrightarrow> chunks xs n = Some (pieces (nat n) xs)"
  by (simp add: chunks_def chunks_from_pieces)

lemma chunks_from_diverges:
  assumes "chunks_from xs n i r = Some result"
  shows "0 < n \<or> int (length xs) \<le> i"
proof (rule chunks_from.raw_induct [where P = "\<lambda>xs n i r result. 0 < n \<or> int (length xs) \<le> i",
        OF _ assms])
  fix f :: "'b list \<Rightarrow> int \<Rightarrow> int \<Rightarrow> 'b list list \<Rightarrow> 'b list list option" and xs n i r result
  assume ih: "\<And>xs n i r result. f xs n i r = Some result \<Longrightarrow> 0 < n \<or> int (length xs) \<le> i"
    and eq: "(if i < int (length xs) then f xs n (i + n) (r @ [js_slice xs i (i + n)]) else Some r)
      = Some result"
  show "0 < n \<or> int (length xs) \<le> i"
  proof (cases "i < int (length xs)")
    case True
    with eq ih have "0 < n \<or> int (length xs) \<le> i + n" by auto
    with True show ?thesis by arith
  next
    case False
    then show ?thesis by simp
  qed
qed

section \<open>Replacing and comparing\<close>

lemma has_element_iff: "has_element eq xs x \<longleftrightarrow> (\<exists>y\<in>set xs. eq y x)"
  by (simp add: has_element_def list_ex_iff)

lemma cross_equals_iff:
  "cross_equals eq (Some l) (Some r) \<longleftrightarrow> length l = length r \<and> (\<forall>x\<in>set l. \<exists>y\<in>set r. eq y x)"
  by (simp add: cross_equals_def list_all_iff has_element_iff)

lemma put_cases:
  "(\<forall>y\<in>set xs. \<not> eq y x) \<and> put eq xs x = xs @ [x] \<or>
   (\<exists>i < length xs. eq (xs ! i) x \<and> (\<forall>j < i. \<not> eq (xs ! j) x) \<and> put eq xs x = xs[i := x])"
proof (cases "js_find_index (\<lambda>y. eq y x) xs = - 1")
  case True
  then show ?thesis by (simp add: put_def js_find_index_none)
next
  case False
  from js_find_index_some [OF refl False] False show ?thesis
    by (auto simp: put_def Let_def)
qed

lemma subset_length_perm:
  assumes "distinct l" and "length l = length r" and "set l \<subseteq> set r"
  shows "mset l = mset r"
proof -
  from assms have "length r \<le> card (set r)"
    by (metis List.finite_set card_mono distinct_card)
  then have d: "distinct r"
    by (metis card_distinct card_length le_antisym)
  with assms have "set l = set r"
    by (metis List.finite_set card_subset_eq distinct_card)
  with d assms(1) show ?thesis by (simp add: set_eq_iff_mset_eq_distinct)
qed

section \<open>Ranges\<close>

lemma range_fill_nth: "i < n \<Longrightarrow> range_fill n start step ! i = start + int i * step"
proof (induction n arbitrary: start i)
  case 0
  then show ?case by simp
next
  case (Suc n)
  then show ?case by (cases i) (simp_all add: algebra_simps)
qed

lemma length_range_fill [simp]: "length (range_fill n start step) = n"
  by (induction n arbitrary: start) auto

lemma ceil_div_upper: "0 < b \<Longrightarrow> a \<le> b * ceil_div a b"
proof -
  assume b: "0 < b"
  have "b * (- a div b) \<le> - a"
    using b mult_div_mod_eq [of b "- a"] pos_mod_sign [of b "- a"] by linarith
  then show ?thesis by (simp add: ceil_div_def)
qed

lemma ceil_div_lower: "0 < b \<Longrightarrow> b * ceil_div a b < a + b"
proof -
  assume b: "0 < b"
  have "- a < b * (- a div b) + b"
    using b mult_div_mod_eq [of b "- a"] pos_mod_bound [of b "- a"] by linarith
  then show ?thesis by (simp add: ceil_div_def)
qed

section \<open>Properties\<close>

text \<open>
  \<open>Array.chunks\<close> cuts the array into consecutive pieces: for a positive chunk size it returns,
  the pieces concatenate to the array, none is empty, all but the last have exactly the chunk size;
  for a chunk size of zero or less it returns only on the empty array (otherwise the loop never ends).
\<close>

theorem chunks_correct:
  "(if 0 < n then
      \<exists>cs. chunks xs n = Some cs \<and> concat cs = xs \<and>
        list_all (\<lambda>c. c \<noteq> [] \<and> int (length c) \<le> n) cs \<and>
        list_all (\<lambda>c. int (length c) = n) (butlast cs)
    else chunks xs n = (if xs = [] then Some [] else None))"
proof (cases "0 < n")
  case True
  have "list_all (\<lambda>c. int (length c) = n) (butlast (pieces (nat n) xs))"
    using True length_butlast_pieces [of _ "nat n" xs] by (fastforce simp: list_all_iff)
  moreover have "list_all (\<lambda>c. c \<noteq> [] \<and> int (length c) \<le> n) (pieces (nat n) xs)"
    using True length_in_pieces [of _ "nat n" xs] by (fastforce simp: list_all_iff)
  ultimately show ?thesis using True by (simp add: chunks_pieces concat_pieces)
next
  case False
  have "chunks xs n = None" if "xs \<noteq> []"
    using chunks_from_diverges [of xs n 0 "[]"] False that
    by (cases "chunks xs n") (auto simp: chunks_def)
  moreover have "chunks ([] :: 'a list) n = Some []"
    by (simp add: chunks_def chunks_from.simps)
  ultimately show ?thesis using False by simp
qed

text \<open>
  \<open>Array.unique\<close> returns one element per key, the keys in the order of their first occurrence,
  and each element is the \<^emph>\<open>last\<close> one of the array with its key.
\<close>

theorem unique_correct:
  "map functor (unique functor xs) = set_of_array (map functor xs) \<and>
   list_all (\<lambda>x. find (\<lambda>y. functor y = functor x) (rev xs) = Some x) (unique functor xs)"
proof
  show "map functor (unique functor xs) = set_of_array (map functor xs)"
    by (simp add: unique_by_keys map_the_find_keys comp_def)
  show "list_all (\<lambda>x. find (\<lambda>y. functor y = functor x) (rev xs) = Some x) (unique functor xs)"
  proof (unfold list_all_iff, rule ballI)
    fix x
    assume "x \<in> set (unique functor xs)"
    then obtain k where k: "k \<in> functor ` set (rev xs)"
        and x: "x = the (find (\<lambda>y. functor y = k) (rev xs))"
      by (auto simp: unique_by_keys)
    from find_key_exists [OF k] x show "find (\<lambda>y. functor y = functor x) (rev xs) = Some x"
      by auto
  qed
qed

text \<open>
  \<open>Array.groupByMany\<close> partitions the array: the keys come in the order of their first occurrence,
  and each key is mapped to exactly the elements with that key, in array order.
\<close>

theorem group_by_many_correct:
  "map_keys (group_by_many functor xs) = set_of_array (map functor xs) \<and>
   map_get (group_by_many functor xs) k =
     (if k \<in> functor ` set xs then Some (filter (\<lambda>x. functor x = k) xs) else None)"
  by (simp add: map_keys_group_by_many map_get_group_by_many)

text \<open>
  \<open>Array.duplicates\<close> does not return the duplicated elements: its filter keeps every element whose
  key is among the de-duplicated keys, which is every element, so the result is the empty array when
  all keys differ and the whole array otherwise. \<open>hasDuplicates\<close> says which case it is.
\<close>

theorem duplicates_all_or_nothing:
  "duplicates functor xs = (if has_duplicates functor xs then xs else []) \<and>
   has_duplicates functor xs = (\<not> distinct (map functor xs))"
proof -
  have "has_duplicates functor xs = (\<not> distinct (map functor xs))"
    using length_set_of_array_eq [of "map functor xs"] by (simp add: has_duplicates_def)
  moreover have "filter (\<lambda>x. functor x \<in> set (set_of_array (map functor xs))) xs = xs"
    by (rule filter_True) simp
  ultimately show ?thesis
    by (simp add: duplicates_def set_to_array_def Let_def has_duplicates_def)
qed

text \<open>
  \<open>crossEquals\<close> with a deep equality that decides equality: on a left array without duplicates it
  holds exactly when the right array is a permutation of the left one; on arrays with duplicates it
  is not even symmetric.
\<close>

theorem cross_equals_permutation:
  assumes "\<And>x y. eq x y \<longleftrightarrow> x = y"
  shows "(distinct l \<longrightarrow> cross_equals eq (Some l) (Some r) = (mset l = mset r)) \<and>
    (a \<noteq> b \<longrightarrow> cross_equals eq (Some [a, a]) (Some [a, b]) \<and>
      \<not> cross_equals eq (Some [a, b]) (Some [a, a]))"
proof -
  have "cross_equals eq (Some l) (Some r) = (mset l = mset r)" if "distinct l"
    using that assms subset_length_perm [of l r]
    by (auto simp: cross_equals_iff dest: mset_eq_setD mset_eq_length)
  with assms show ?thesis by (auto simp: cross_equals_iff)
qed

theorem cross_equals_permutation_witness:
  "cross_equals (=) (Some [1::nat, 2]) (Some [2, 1]) \<and>
   \<not> cross_equals (=) (Some [1::nat, 2]) (Some [1, 1])"
  using cross_equals_permutation [of "(=)" "[1::nat, 2]" "[2, 1]" 1 2] by (simp add: add_mset_commute)

text \<open>
  \<open>range\<close> with a positive step and a start not above the end: the values are \<open>start\<close>,
  \<open>start + step\<close>, \<dots>, they reach the end value and overshoot it by less than one step; the end
  value itself is the last one when the step divides the distance.
\<close>

theorem range_correct:
  assumes "0 < step" and "start \<le> end_value"
  shows "range_of end_value start step =
      map (\<lambda>i. start + int i * step) [0..<range_length end_value start step] \<and>
    range_of end_value start step \<noteq> [] \<and>
    end_value \<le> last (range_of end_value start step) \<and>
    last (range_of end_value start step) < end_value + step"
proof -
  let ?n = "range_length end_value start step"
  let ?c = "ceil_div (end_value - start) step"
  have up: "end_value - start \<le> step * ?c" and low: "step * ?c < end_value - start + step"
    using assms(1) by (rule ceil_div_upper, rule ceil_div_lower)
  have c0: "0 \<le> ?c"
  proof -
    from up assms(2) have "0 \<le> step * ?c" by linarith
    with assms(1) show ?thesis by (simp add: zero_le_mult_iff)
  qed
  then have n: "?n = Suc (nat ?c)"
    using assms(1) c0 by (simp add: range_length_def nat_add_distrib max_def)
  have vals: "range_of end_value start step = map (\<lambda>i. start + int i * step) [0..<?n]"
    by (rule nth_equalityI) (simp_all add: range_of_def range_fill_nth)
  have ne: "range_of end_value start step \<noteq> []"
    unfolding vals n by simp
  have l: "last (range_of end_value start step) = start + step * ?c"
    unfolding vals n using c0 by (simp add: mult.commute)
  from vals ne show ?thesis
    unfolding l using up low by (intro conjI) (assumption | linarith)+
qed

theorem range_correct_witness: "range_of 10 1 3 = [1, 4, 7, 10] \<and> (10::int) \<le> last (range_of 10 1 3)"
proof -
  have "range_of 10 1 3 = [1, 4, 7, 10]" by code_simp
  moreover have "(10::int) \<le> last (range_of 10 1 3)"
    using range_correct [of 3 1 10, THEN conjunct2, THEN conjunct2, THEN conjunct1] by linarith
  ultimately show ?thesis by blast
qed

text \<open>
  The identifier generator \<open>random\<close> never returns the previous number again when the bounds differ,
  and returns as soon as one draw differs from it.
\<close>

theorem random_number_fresh:
  assumes "minimum \<noteq> maximum" and "list_ex (\<lambda>d. Some d \<noteq> previous) draws"
  shows "\<exists>number. random_number minimum maximum previous draws = Some number \<and>
    Some number \<noteq> previous \<and> number \<in> set draws"
  using assms by (induction draws) auto

theorem random_number_fresh_witness: "random_number 1 100 (Some 5) [5, 5, 7] = Some 7"
  using random_number_fresh [of 1 100 "Some 5" "[5, 5, 7]"] by simp

end
