(* ===== verification/Reactive.thy ===== *)
theory Reactive
  imports Extensions
begin

text \<open>
  The reactive value cells of \<open>framework/pattern\<close>: \<open>Property\<close> (a value with veto, update and clear
  consumers), \<open>Event\<close>, \<open>lazy\<close>, \<open>HookContainer\<close> and \<open>arrayCache\<close>. Consumers are tokens; an
  operation returns the new object and the calls it makes, in order. Every consumer call is the last
  thing an operation does, so what a consumer does in turn is a later operation. Copies made by
  \<open>clone\<close> are the values themselves; a change made through a reference the getter handed out is the
  operation \<open>property_mutate\<close>.
\<close>

section \<open>Property\<close>

record ('v, 'c) property =
  before_update_consumers :: "('v option \<Rightarrow> bool) list"
  after_update_consumers :: "'c list"
  clear_consumers :: "'c list"
  property_previous :: "'v option"
  property_value :: "'v option"
  property_pending :: "'v option"

datatype ('v, 'c) property_call = Updated 'c "'v option" | Cleared 'c

definition new_property :: "'v option \<Rightarrow> ('v, 'c) property" where
  "new_property v =
     \<lparr>before_update_consumers = [], after_update_consumers = [], clear_consumers = [],
      property_previous = None, property_value = v, property_pending = None\<rparr>"

text \<open>\<open>equal(this.#value, value)\<close> where the stored value is defined.\<close>

fun equal_to_new :: "('v \<Rightarrow> 'v \<Rightarrow> bool) \<Rightarrow> 'v \<Rightarrow> 'v option \<Rightarrow> bool" where
  "equal_to_new eq current None = False"
| "equal_to_new eq current (Some v) = eq current v"

definition prevented :: "('v, 'c) property \<Rightarrow> 'v option \<Rightarrow> bool" where
  "prevented p v \<longleftrightarrow> list_ex (\<lambda>action. \<not> action v) (before_update_consumers p)"

definition notify_updated :: "('v, 'c) property \<Rightarrow> 'v option \<Rightarrow> ('v, 'c) property_call list" where
  "notify_updated p v = map (\<lambda>action. Updated action v) (after_update_consumers p)"

definition property_set ::
  "('v \<Rightarrow> 'v \<Rightarrow> bool) \<Rightarrow> 'v option \<Rightarrow> ('v, 'c) property \<Rightarrow>
    ('v, 'c) property \<times> ('v, 'c) property_call list" where
  "property_set eq v p =
     (case property_value p of
        None \<Rightarrow>
          if prevented p v then (p, [])
          else (p\<lparr>property_previous := None, property_value := v, property_pending := v\<rparr>,
                notify_updated p v)
      | Some current \<Rightarrow>
          if equal_to_new eq current v
          then (p\<lparr>property_value := v, property_pending := v\<rparr>, [])
          else if prevented p v then (p, [])
          else (p\<lparr>property_previous := Some current, property_value := v, property_pending := v\<rparr>,
                notify_updated p v))"

definition property_prevent :: "('v option \<Rightarrow> bool) \<Rightarrow> ('v, 'c) property \<Rightarrow> ('v, 'c) property" where
  "property_prevent action p =
     p\<lparr>before_update_consumers := before_update_consumers p @ [action]\<rparr>"

definition property_consume ::
  "'c \<Rightarrow> ('v, 'c) property \<Rightarrow> ('v, 'c) property \<times> ('v, 'c) property_call list" where
  "property_consume action p =
     (p\<lparr>after_update_consumers := after_update_consumers p @ [action]\<rparr>,
      if property_pending p \<noteq> None then [Updated action (property_pending p)] else [])"

definition property_cleared :: "'c \<Rightarrow> ('v, 'c) property \<Rightarrow> ('v, 'c) property" where
  "property_cleared action p = p\<lparr>clear_consumers := clear_consumers p @ [action]\<rparr>"

definition property_clear ::
  "('v, 'c) property \<Rightarrow> ('v, 'c) property \<times> ('v, 'c) property_call list" where
  "property_clear p =
     (p\<lparr>property_previous := property_value p, property_pending := None, property_value := None\<rparr>,
      map Cleared (clear_consumers p))"

text \<open>
  The getter returns the stored object itself, and \<open>#pending\<close> is the same object whenever it is
  defined: changing the object in place changes both and calls nobody.
\<close>

definition property_mutate :: "('v \<Rightarrow> 'v) \<Rightarrow> ('v, 'c) property \<Rightarrow> ('v, 'c) property" where
  "property_mutate f p =
     p\<lparr>property_value := map_option f (property_value p),
       property_pending := map_option f (property_pending p)\<rparr>"

text \<open>A pending value is always the current value.\<close>

definition property_wf :: "('v, 'c) property \<Rightarrow> bool" where
  "property_wf p \<longleftrightarrow> (property_pending p = None \<or> property_pending p = property_value p)"

lemma property_wf_new [preserves]: "property_wf (new_property v)"
  by (simp add: property_wf_def new_property_def)

lemma property_wf_set [preserves]: "property_wf p \<Longrightarrow> property_wf (fst (property_set eq v p))"
  by (auto simp: property_wf_def property_set_def split: option.splits)

lemma property_wf_prevent [preserves]: "property_wf p \<Longrightarrow> property_wf (property_prevent a p)"
  by (simp add: property_wf_def property_prevent_def)

lemma property_wf_consume [preserves]: "property_wf p \<Longrightarrow> property_wf (fst (property_consume a p))"
  by (simp add: property_wf_def property_consume_def)

lemma property_wf_cleared [preserves]: "property_wf p \<Longrightarrow> property_wf (property_cleared a p)"
  by (simp add: property_wf_def property_cleared_def)

lemma property_wf_clear [preserves]: "property_wf (fst (property_clear p))"
  by (simp add: property_wf_def property_clear_def)

lemma property_wf_mutate [preserves]: "property_wf p \<Longrightarrow> property_wf (property_mutate f p)"
  by (auto simp: property_wf_def property_mutate_def)

text \<open>Operations on a property, and a run of them with all the calls it makes.\<close>

datatype ('v, 'c) property_op =
    Set_value "'v option" | Clear_value | Consume 'c | On_clear 'c | Mutate "'v \<Rightarrow> 'v"
  | Prevent "'v option \<Rightarrow> bool"

fun property_step ::
  "('v \<Rightarrow> 'v \<Rightarrow> bool) \<Rightarrow> ('v, 'c) property_op \<Rightarrow> ('v, 'c) property \<Rightarrow>
    ('v, 'c) property \<times> ('v, 'c) property_call list" where
  "property_step eq (Set_value v) p = property_set eq v p"
| "property_step eq Clear_value p = property_clear p"
| "property_step eq (Consume c) p = property_consume c p"
| "property_step eq (On_clear c) p = (property_cleared c p, [])"
| "property_step eq (Mutate f) p = (property_mutate f p, [])"
| "property_step eq (Prevent a) p = (property_prevent a p, [])"

fun property_run ::
  "('v \<Rightarrow> 'v \<Rightarrow> bool) \<Rightarrow> ('v, 'c) property_op list \<Rightarrow> ('v, 'c) property \<Rightarrow>
    ('v, 'c) property \<times> ('v, 'c) property_call list" where
  "property_run eq [] p = (p, [])"
| "property_run eq (op # ops) p =
     (let (p', calls) = property_step eq op p; (p'', rest) = property_run eq ops p'
      in (p'', calls @ rest))"

lemma property_wf_step [preserves]: "property_wf p \<Longrightarrow> property_wf (fst (property_step eq op p))"
  by (cases op) (simp_all add: preserves)

lemma property_wf_run [preserves]: "property_wf p \<Longrightarrow> property_wf (fst (property_run eq ops p))"
proof (induction ops arbitrary: p)
  case Nil
  then show ?case by simp
next
  case (Cons op ops)
  from Cons.IH [OF property_wf_step [OF Cons.prems]] show ?case
    by (simp add: Let_def split_beta)
qed

lemma property_set_keeps_consumers:
  "before_update_consumers (fst (property_set eq v p)) = before_update_consumers p"
  "after_update_consumers (fst (property_set eq v p)) = after_update_consumers p"
  "clear_consumers (fst (property_set eq v p)) = clear_consumers p"
  by (auto simp: property_set_def split: option.splits)

section \<open>Event\<close>

definition event_handle :: "'c list \<Rightarrow> 'c \<Rightarrow> 'c list" where
  "event_handle consumers action = consumers @ [action]"

definition event_execute :: "'c list \<Rightarrow> 'd \<Rightarrow> ('c \<times> 'd) list" where
  "event_execute consumers data = map (\<lambda>consumer. (consumer, data)) consumers"

definition event_clear :: "'c list \<Rightarrow> 'c list" where
  "event_clear consumers = []"

section \<open>Lazy\<close>

text \<open>
  The memo cell of \<open>lazy\<close>: the result of the factory is stored; a factory that gives \<open>undefined\<close> is
  run again. The last component tells whether the factory ran.
\<close>

definition lazy_get :: "'v option \<Rightarrow> 'v option \<Rightarrow> 'v option \<times> 'v option \<times> bool" where
  "lazy_get factory_result cell =
     (if cell = None then (factory_result, factory_result, True) else (cell, cell, False))"

section \<open>HookContainer\<close>

datatype hook_error = Hooks_outside_rendering

record ('f, 'h) hook_container =
  hook_factories :: "'f list"
  evaluated_hooks :: "'h list"
  hooks_evaluated :: bool

definition new_hook_container :: "('f, 'h) hook_container" where
  "new_hook_container = \<lparr>hook_factories = [], evaluated_hooks = [], hooks_evaluated = False\<rparr>"

text \<open>Registering a factory returns the index that the returned getter reads.\<close>

definition hook_value ::
  "'f \<Rightarrow> ('f, 'h) hook_container \<Rightarrow> nat \<times> ('f, 'h) hook_container" where
  "hook_value factory hc =
     (length (hook_factories hc), hc\<lparr>hook_factories := hook_factories hc @ [factory]\<rparr>)"

definition hook_read ::
  "('h \<Rightarrow> bool) \<Rightarrow> nat \<Rightarrow> ('f, 'h) hook_container \<Rightarrow> hook_error + 'h" where
  "hook_read truthy index hc =
     (case js_at (evaluated_hooks hc) index of
        None \<Rightarrow> Inl Hooks_outside_rendering
      | Some hook \<Rightarrow> if truthy hook then Inr hook else Inl Hooks_outside_rendering)"

definition hook_apply ::
  "('h \<Rightarrow> bool) \<Rightarrow> ('h \<Rightarrow> 'a \<Rightarrow> 'r) \<Rightarrow> nat \<Rightarrow> 'a \<Rightarrow> ('f, 'h) hook_container \<Rightarrow> hook_error + 'r" where
  "hook_apply truthy apply_hook index args hc =
     (case js_at (evaluated_hooks hc) index of
        None \<Rightarrow> Inl Hooks_outside_rendering
      | Some hook \<Rightarrow>
          if truthy hook then Inr (apply_hook hook args) else Inl Hooks_outside_rendering)"

definition hooks_evaluate ::
  "('f \<Rightarrow> 'h) \<Rightarrow> ('f, 'h) hook_container \<Rightarrow> ('f, 'h) hook_container" where
  "hooks_evaluate run hc =
     hc\<lparr>evaluated_hooks := map run (hook_factories hc), hooks_evaluated := True\<rparr>"

section \<open>arrayCache\<close>

text \<open>
  One call of the cached receiver: \<open>hash\<close> is the third-party hash of the received elements. The last
  component tells whether the factory ran.
\<close>

definition array_cache_get ::
  "('a list \<Rightarrow> 'h) \<Rightarrow> ('a list \<Rightarrow> 'w) \<Rightarrow> 'a list \<Rightarrow> ('h, 'w) js_map \<Rightarrow>
    'w \<times> ('h, 'w) js_map \<times> bool" where
  "array_cache_get hash factory elements cache =
     (case map_get cache (hash elements) of
        Some widgets \<Rightarrow> (widgets, cache, False)
      | None \<Rightarrow>
          let widgets = factory elements in (widgets, map_put (hash elements) widgets cache, True))"

text \<open>A sequence of calls: the widgets returned and the inputs on which the factory ran.\<close>

fun array_cache_run ::
  "('a list \<Rightarrow> 'h) \<Rightarrow> ('a list \<Rightarrow> 'w) \<Rightarrow> 'a list list \<Rightarrow> ('h, 'w) js_map \<Rightarrow>
    'w list \<times> 'a list list" where
  "array_cache_run hash factory [] cache = ([], [])"
| "array_cache_run hash factory (elements # rest) cache =
     (let (w, cache', ran) = array_cache_get hash factory elements cache;
          (ws, runs) = array_cache_run hash factory rest cache'
      in (w # ws, (if ran then elements # runs else runs)))"

lemma array_cache_run_hashes:
  "map hash (snd (array_cache_run hash factory inputs cache)) =
     set_news (map hash inputs) (map_keys cache)"
proof (induction inputs arbitrary: cache)
  case Nil
  show ?case by simp
next
  case (Cons elements rest)
  show ?case
  proof (cases "map_get cache (hash elements)")
    case None
    then have "hash elements \<notin> set (map_keys cache)"
      by (simp add: js.lookup_keys)
    with None Cons.IH show ?thesis
      by (simp add: array_cache_get_def Let_def split_beta js.keys_put set_add_def)
  next
    case (Some w)
    then have "hash elements \<in> set (map_keys cache)"
      using js.lookup_keys [of cache "hash elements"] by simp
    with Cons.IH Some show ?thesis by (simp add: array_cache_get_def split_beta)
  qed
qed

lemma array_cache_run_hits:
  "\<forall>h w. map_get cache h = Some w \<longrightarrow> (\<forall>xs. hash xs = h \<longrightarrow> w = factory xs) \<Longrightarrow>
   \<forall>xs ys. hash xs = hash ys \<longrightarrow> factory xs = factory ys \<Longrightarrow>
   fst (array_cache_run hash factory inputs cache) = map factory inputs"
proof (induction inputs arbitrary: cache)
  case Nil
  show ?case by simp
next
  case (Cons elements rest)
  show ?case
  proof (cases "map_get cache (hash elements)")
    case None
    have "\<forall>h w. map_get (map_put (hash elements) (factory elements) cache) h = Some w \<longrightarrow>
        (\<forall>xs. hash xs = h \<longrightarrow> w = factory xs)"
    proof (intro allI impI)
      fix h w xs
      assume w: "map_get (map_put (hash elements) (factory elements) cache) h = Some w"
        and xs: "hash xs = h"
      show "w = factory xs"
      proof (cases "h = hash elements")
        case True
        with w have "w = factory elements" by simp
        with True xs Cons.prems(2) show ?thesis by metis
      next
        case False
        with w have "map_get cache h = Some w" by simp
        with xs Cons.prems(1) show ?thesis by blast
      qed
    qed
    note ih = Cons.IH [OF this Cons.prems(2)]
    show ?thesis by (simp add: array_cache_get_def Let_def split_beta None ih)
  next
    case (Some w)
    with Cons.prems(1) have "w = factory elements" by blast
    then show ?thesis by (simp add: array_cache_get_def split_beta Some Cons.IH [OF Cons.prems])
  qed
qed

section \<open>Values delivered to a consumer\<close>

text \<open>
  A run of assignments that no consumer prevents, seen by a consumer registered before it: the value
  is delivered exactly when it differs from its predecessor.
\<close>

lemma property_run_sets:
  assumes "\<And>x y. eq x y \<longleftrightarrow> x = y"
    and "property_value p = Some v" and "before_update_consumers p = []"
    and "after_update_consumers p = [c]"
  shows "snd (property_run eq (map (\<lambda>v. Set_value (Some v)) vs) p) =
    map (\<lambda>v. Updated c (Some v)) (tl (remdups_adj (v # vs)))"
  using assms(2-)
proof (induction vs arbitrary: v p)
  case Nil
  then show ?case by simp
next
  case (Cons w vs)
  show ?case
  proof (cases "v = w")
    case True
    with Cons.IH [of "fst (property_set eq (Some w) p)" w] Cons.prems assms(1)
    show ?thesis by (simp add: property_set_def split_beta)
  next
    case False
    define d where "d = tl (remdups_adj (w # vs))"
    have e: "remdups_adj (w # vs) = w # d"
      by (simp only: remdups_adj_Cons_alt d_def)
    have t: "tl (remdups_adj (v # w # vs)) = w # d"
      using False e by simp
    have ih: "snd (property_run eq (map (\<lambda>v. Set_value (Some v)) vs)
        (fst (property_set eq (Some w) p))) = map (\<lambda>v. Updated c (Some v)) d"
      unfolding d_def
      by (rule Cons.IH) (use False Cons.prems assms(1) in
          \<open>simp_all add: property_set_def prevented_def\<close>)
    have calls: "snd (property_set eq (Some w) p) = [Updated c (Some w)]"
      using False Cons.prems assms(1)
      by (simp add: property_set_def prevented_def notify_updated_def)
    show ?thesis unfolding t using ih calls by (simp add: split_beta)
  qed
qed

section \<open>Properties\<close>

text \<open>
  \<open>Property.value = v\<close>, on every branch: an equal value replaces the stored object silently; a
  different value that a \<open>prevent\<close> consumer rejects changes nothing; any other value becomes both the
  current and the pending value, the old value becomes \<open>previous\<close>, and every update consumer is called
  once with it, in the order of registration.
\<close>

theorem property_set_correct:
  "property_set eq v p =
     (if \<exists>current. property_value p = Some current \<and> equal_to_new eq current v
      then (p\<lparr>property_value := v, property_pending := v\<rparr>, [])
      else if \<exists>action \<in> set (before_update_consumers p). \<not> action v then (p, [])
      else (p\<lparr>property_previous := property_value p, property_value := v, property_pending := v\<rparr>,
            map (\<lambda>action. Updated action v) (after_update_consumers p)))"
  by (auto simp: property_set_def prevented_def notify_updated_def list_ex_iff split: option.splits)

text \<open>
  A property that starts with a value and is assigned a sequence of values delivers to a consumer
  exactly the sequence without consecutive repetitions (with a deep equality that decides equality).
\<close>

theorem property_delivers_changes:
  assumes "\<And>x y. eq x y \<longleftrightarrow> x = y"
  shows "snd (property_run eq (map (\<lambda>v. Set_value (Some v)) vs)
      (fst (property_consume c (new_property (Some v))))) =
    map (\<lambda>v. Updated c (Some v)) (tl (remdups_adj (v # vs)))"
  by (rule property_run_sets [OF assms]) (simp_all add: property_consume_def new_property_def)

theorem property_delivers_changes_witness:
  "snd (property_run (=) (map (\<lambda>v. Set_value (Some v)) [1, 1, 2, 2, 1])
      (fst (property_consume ''c'' (new_property (Some (1::nat)))))) =
    [Updated ''c'' (Some 2), Updated ''c'' (Some 1)]"
  using property_delivers_changes [where eq = "(=)" and c = "''c''" and v = 1
      and vs = "[1::nat, 1, 2, 2, 1]"] by simp

text \<open>
  In every state a run of operations from a fresh property reaches, a consumer that registers late is
  called at once exactly when a value is pending, and then with the current value; the initial value
  alone is never replayed, and after a \<open>clear\<close> nothing is.
\<close>

theorem property_late_consumer:
  fixes ops :: "('v, 'c) property_op list"
  shows "let p = fst (property_run eq ops (new_property v)) in
    snd (property_consume c p) =
      (if property_pending p = None then [] else [Updated c (property_value p)]) \<and>
    snd (property_consume c (new_property v)) = ([] :: ('v, 'c) property_call list) \<and>
    snd (property_consume c (fst (property_clear p))) = []"
proof -
  have "property_wf (fst (property_run eq ops (new_property v)))"
    by (rule property_wf_run [OF property_wf_new])
  then show ?thesis
    by (auto simp: Let_def property_consume_def property_wf_def new_property_def property_clear_def)
qed

text \<open>
  A value changed in place through the getter and assigned back is never announced: the stored value
  is the same object, so the assignment compares it with itself and, with a reflexive deep equality,
  calls no consumer (this is how \<open>UserPrivilegesEditingDialog\<close> edits the user).
\<close>

theorem property_mutate_silent:
  assumes "\<And>x. eq x x" and "property_value p = Some v"
  shows "snd (property_run eq [Mutate f, Set_value (Some (f v))] p) = [] \<and>
    property_value (fst (property_run eq [Mutate f, Set_value (Some (f v))] p)) = Some (f v)"
  using assms by (simp add: property_set_def property_mutate_def)

theorem property_mutate_silent_witness:
  "snd (property_run (=) [Mutate (\<lambda>xs. xs @ [3]), Set_value (Some [1, 2, 3])]
     (fst (property_consume ''c'' (new_property (Some [1::nat, 2]))))) = []"
  using property_mutate_silent [of "(=)" "fst (property_consume ''c'' (new_property (Some [1::nat, 2])))"
      "[1, 2]" "\<lambda>xs. xs @ [3]"]
  by (simp add: property_consume_def new_property_def)

text \<open>
  \<open>HookContainer\<close>: after \<open>evaluate\<close> the getter that registering a factory returned gives that
  factory's value whatever was registered before and after it, unless the value is falsy; a falsy value
  raises the same error as reading before any evaluation.
\<close>

theorem hook_container_correct:
  fixes hc :: "('f, 'h) hook_container"
  shows "hook_read truthy (fst (hook_value factory hc))
      (hooks_evaluate run (fold (\<lambda>f hc. snd (hook_value f hc)) later (snd (hook_value factory hc)))) =
    (if truthy (run factory) then Inr (run factory) else Inl Hooks_outside_rendering) \<and>
    hook_read truthy index (new_hook_container :: ('f, 'h) hook_container) =
      Inl Hooks_outside_rendering"
proof -
  have "hook_factories (fold (\<lambda>f hc. snd (hook_value f hc)) fs hc') = hook_factories hc' @ fs"
    for fs and hc' :: "('f, 'h) hook_container"
    by (induction fs arbitrary: hc') (simp_all add: hook_value_def)
  then show ?thesis
    by (simp add: hook_read_def hooks_evaluate_def hook_value_def js_at_def new_hook_container_def
        nth_append)
qed

text \<open>
  \<open>arrayCache\<close> runs its factory exactly once for each distinct hash among the inputs, in the order of
  their first occurrence; if inputs with equal hashes give equal widgets, every call returns what the
  factory would.
\<close>

theorem array_cache_correct:
  "map hash (snd (array_cache_run hash factory inputs [])) = set_of_array (map hash inputs) \<and>
   ((\<forall>xs ys. hash xs = hash ys \<longrightarrow> factory xs = factory ys) \<longrightarrow>
     fst (array_cache_run hash factory inputs []) = map factory inputs)"
proof (intro conjI impI)
  show "map hash (snd (array_cache_run hash factory inputs [])) = set_of_array (map hash inputs)"
    by (simp add: array_cache_run_hashes js.keys_empty set_news_empty)
  assume h: "\<forall>xs ys. hash xs = hash ys \<longrightarrow> factory xs = factory ys"
  show "fst (array_cache_run hash factory inputs []) = map factory inputs"
    by (rule array_cache_run_hits [OF _ h]) simp
qed

theorem array_cache_correct_witness:
  "fst (array_cache_run (\<lambda>xs. xs) length [[1::nat], [2, 3], [1]] []) = [1, 2, 1]"
  using array_cache_correct [of "\<lambda>xs. xs" length "[[1::nat], [2, 3], [1]]"] by simp

end
