(* ===== verification/Synchronization.thy ===== *)
theory Synchronization
  imports Prelude
begin

text \<open>
  \<open>framework/pattern/Synchronizer.ts\<close>: a list of actions, a counter of finished actions, and handlers
  for the start and the completion. The handler chains that \<open>onStart\<close> and \<open>onComplete\<close> build by
  wrapping closures are the lists of handlers in the order in which they run. Actions and handlers
  are tokens; \<open>start\<close> and \<open>process\<close> return what they run, in order. Actions run last in each
  operation, so their own calls of \<open>process\<close> are later operations.
\<close>

record ('a, 'h) synchronizer =
  sync_actions :: "'a list"
  sync_managed :: bool
  sync_counter :: nat
  sync_done :: bool
  sync_on_start :: "'h list"
  sync_on_complete :: "'h list"

datatype ('a, 'h) sync_call = Run_action 'a | Run_handler 'h

definition new_synchronizer :: "('a, 'h) synchronizer" where
  "new_synchronizer =
     \<lparr>sync_actions = [], sync_managed = False, sync_counter = 0, sync_done = False,
      sync_on_start = [], sync_on_complete = []\<rparr>"

definition sync_manage :: "('a, 'h) synchronizer \<Rightarrow> ('a, 'h) synchronizer" where
  "sync_manage s = s\<lparr>sync_managed := True\<rparr>"

definition sync_start :: "('a, 'h) synchronizer \<Rightarrow> ('a, 'h) synchronizer \<times> ('a, 'h) sync_call list" where
  "sync_start s =
     (if sync_counter s = length (sync_actions s)
      then (s, map Run_handler (sync_on_complete s))
      else
        let starts = map Run_handler (sync_on_start s) in
        if \<not> sync_managed s then (s, starts @ map Run_action (sync_actions s))
        else case sync_actions s of
               [] \<Rightarrow> (s, starts)
             | action # rest \<Rightarrow> (s\<lparr>sync_actions := rest\<rparr>, starts @ [Run_action action]))"

definition sync_action :: "'a \<Rightarrow> ('a, 'h) synchronizer \<Rightarrow> ('a, 'h) synchronizer" where
  "sync_action action s = s\<lparr>sync_actions := sync_actions s @ [action]\<rparr>"

definition sync_process :: "('a, 'h) synchronizer \<Rightarrow> ('a, 'h) synchronizer \<times> ('a, 'h) sync_call list" where
  "sync_process s =
     (let s = s\<lparr>sync_counter := Suc (sync_counter s)\<rparr> in
      if sync_counter s \<ge> length (sync_actions s)
      then (s\<lparr>sync_done := True\<rparr>, map Run_handler (sync_on_complete s))
      else if sync_managed s
      then (case sync_actions s of
              [] \<Rightarrow> (s, [])
            | action # rest \<Rightarrow> (s\<lparr>sync_actions := rest\<rparr>, [Run_action action]))
      else (s, []))"

definition sync_execute ::
  "'a \<Rightarrow> ('a, 'h) synchronizer \<Rightarrow> ('a, 'h) synchronizer \<times> ('a, 'h) sync_call list" where
  "sync_execute action s = (let (s', calls) = sync_process s in (s', Run_action action # calls))"

definition sync_reset :: "('a, 'h) synchronizer \<Rightarrow> ('a, 'h) synchronizer" where
  "sync_reset s = s\<lparr>sync_actions := [], sync_counter := 0, sync_done := False\<rparr>"

definition sync_add_on_start :: "'h \<Rightarrow> ('a, 'h) synchronizer \<Rightarrow> ('a, 'h) synchronizer" where
  "sync_add_on_start action s = s\<lparr>sync_on_start := sync_on_start s @ [action]\<rparr>"

definition sync_add_on_complete :: "'h \<Rightarrow> ('a, 'h) synchronizer \<Rightarrow> ('a, 'h) synchronizer" where
  "sync_add_on_complete action s = s\<lparr>sync_on_complete := action # sync_on_complete s\<rparr>"

definition synchronize :: "'a option \<Rightarrow> ('a, 'h) synchronizer" where
  "synchronize action =
     (case action of None \<Rightarrow> new_synchronizer | Some a \<Rightarrow> sync_action a new_synchronizer)"

text \<open>The sequence of calls of \<open>process\<close>, one per finished action.\<close>

definition sync_processes ::
  "nat \<Rightarrow> ('a, 'h) synchronizer \<Rightarrow> ('a, 'h) synchronizer \<times> ('a, 'h) sync_call list" where
  "sync_processes n s = emit_run (\<lambda>_. sync_process) (replicate n ()) s"

definition actions_run :: "('a, 'h) sync_call list \<Rightarrow> 'a list" where
  "actions_run calls = concat (map (\<lambda>c. case c of Run_action a \<Rightarrow> [a] | Run_handler _ \<Rightarrow> []) calls)"

lemma actions_run_simps [simp]:
  "actions_run [] = []"
  "actions_run (Run_action a # calls) = a # actions_run calls"
  "actions_run (Run_handler h # calls) = actions_run calls"
  "actions_run (xs @ ys) = actions_run xs @ actions_run ys"
  "actions_run (map Run_action as) = as"
  "actions_run (map Run_handler hs) = []"
  by (simp_all add: actions_run_def comp_def)

lemma sync_processes_simps [simp]:
  "sync_processes 0 s = (s, [])"
  "fst (sync_processes (Suc n) s) = fst (sync_processes n (fst (sync_process s)))"
  "snd (sync_processes (Suc n) s) =
     snd (sync_process s) @ snd (sync_processes n (fst (sync_process s)))"
  by (simp_all add: sync_processes_def)

section \<open>The unmanaged synchronizer is a completion barrier\<close>

interpretation unmanaged: completion_barrier
  "\<lambda>_::unit. sync_process" sync_counter "\<lambda>s. length (sync_actions s)"
  "\<lambda>s. map Run_handler (sync_on_complete s)" "\<lambda>s. \<not> sync_managed s"
  by unfold_locales (auto simp: sync_process_def Let_def)

lemma process_unmanaged_late:
  assumes "\<not> sync_managed s" and "length (sync_actions s) \<le> Suc (sync_counter s)"
  shows "sync_process s =
    (s\<lparr>sync_counter := Suc (sync_counter s), sync_done := True\<rparr>, map Run_handler (sync_on_complete s))"
  using assms by (simp add: sync_process_def Let_def)

lemma processes_unmanaged_late:
  assumes "\<not> sync_managed s" and "length (sync_actions s) \<le> Suc (sync_counter s)"
  shows "snd (sync_processes n s) = concat (replicate n (map Run_handler (sync_on_complete s)))"
  using assms
proof (induction n arbitrary: s)
  case 0
  show ?case by simp
next
  case (Suc n)
  with Suc.IH [of "fst (sync_process s)"] show ?case by (simp add: process_unmanaged_late)
qed

lemma processes_done:
  assumes "\<not> sync_managed s" and "\<not> sync_done s" and "0 < n"
  shows "sync_done (fst (sync_processes n s)) \<longleftrightarrow> length (sync_actions s) \<le> sync_counter s + n"
  using assms
proof (induction n arbitrary: s)
  case 0
  then show ?case by simp
next
  case (Suc n)
  show ?case
  proof (cases "length (sync_actions s) \<le> Suc (sync_counter s)")
    case True
    have "sync_done (fst (sync_processes n t))" if "sync_done t" for t :: "('a, 'b) synchronizer"
      using that
      by (induction n arbitrary: t) (simp_all add: sync_process_def Let_def split: list.split)
    with True Suc.prems show ?thesis by (simp add: process_unmanaged_late)
  next
    case False
    with Suc.IH [of "fst (sync_process s)"] Suc.prems show ?thesis
      by (cases n) (auto simp: sync_process_def Let_def)
  qed
qed

section \<open>The managed synchronizer\<close>

lemma managed_process_runs:
  assumes "sync_managed s" and "n = length (sync_actions s)" and "n \<le> k"
  shows "actions_run (snd (sync_processes k s)) =
    take ((n - sync_counter s) div 2) (sync_actions s)"
  using assms
proof (induction k arbitrary: s n)
  case 0
  then show ?case by simp
next
  case (Suc k)
  show ?case
  proof (cases "length (sync_actions s) \<le> Suc (sync_counter s)")
    case True
    have idle: "actions_run (snd (sync_processes k t)) = []"
      if "length (sync_actions t) \<le> Suc (sync_counter t)" for t :: "('a, 'b) synchronizer"
      using that by (induction k arbitrary: t) (simp_all add: sync_process_def Let_def)
    from True Suc.prems have "(n - sync_counter s) div 2 = 0" by simp
    with True idle show ?thesis by (simp add: sync_process_def Let_def)
  next
    case False
    then obtain a as where as: "sync_actions s = a # as"
      by (cases "sync_actions s") auto
    let ?t = "s\<lparr>sync_counter := Suc (sync_counter s), sync_actions := as\<rparr>"
    have p: "sync_process s = (?t, [Run_action a])"
      using False as Suc.prems(1) by (simp add: sync_process_def Let_def)
    have ih: "actions_run (snd (sync_processes k ?t)) =
        take ((length as - Suc (sync_counter s)) div 2) as"
      using Suc.IH [of ?t "length as"] Suc.prems as by simp
    have d: "(n - sync_counter s) div 2 = Suc ((length as - Suc (sync_counter s)) div 2)"
      using False Suc.prems(2) as by simp
    show ?thesis by (simp add: p ih d as)
  qed
qed

section \<open>Properties\<close>

text \<open>
  An unmanaged synchronizer with at least one action: \<open>start\<close> runs the start handlers and then every
  action in order; it becomes done with the \<open>n\<close>-th call of \<open>process\<close> (\<open>n\<close> the number of actions) and
  not before, and the completion handlers run in that call and again in every later one.
\<close>

theorem unmanaged_synchronizer:
  assumes "\<not> sync_managed s" and "sync_counter s = 0" and "\<not> sync_done s" and "sync_actions s \<noteq> []"
  shows "sync_start s = (s, map Run_handler (sync_on_start s) @ map Run_action (sync_actions s)) \<and>
    (sync_done (fst (sync_processes k s)) \<longleftrightarrow> length (sync_actions s) \<le> k) \<and>
    snd (sync_processes k s) =
      concat (replicate (Suc k - length (sync_actions s)) (map Run_handler (sync_on_complete s)))"
proof (intro conjI)
  show "sync_start s = (s, map Run_handler (sync_on_start s) @ map Run_action (sync_actions s))"
    using assms by (simp add: sync_start_def)
  show "sync_done (fst (sync_processes k s)) \<longleftrightarrow> length (sync_actions s) \<le> k"
    using assms processes_done [of s k] by (cases k) auto
  let ?n = "length (sync_actions s)"
  show "snd (sync_processes k s) =
      concat (replicate (Suc k - ?n) (map Run_handler (sync_on_complete s)))"
  proof (cases "k < ?n")
    case True
    then show ?thesis
      using assms unmanaged.silent_before [of s "replicate k ()"] by (simp add: sync_processes_def)
  next
    case False
    let ?m = "?n - 1"
    let ?t = "fst (sync_processes ?m s)"
    have k: "replicate k () = replicate ?m () @ replicate (Suc k - ?n) ()"
    proof -
      from assms(4) have "0 < ?n" by simp
      with False have "?m + (Suc k - ?n) = k" by linarith
      with replicate_add [of ?m "Suc k - ?n" "()"] show ?thesis by simp
    qed
    have pre: "snd (sync_processes ?m s) = []"
      using assms unmanaged.silent_before [of s "replicate ?m ()"] by (simp add: sync_processes_def)
    have t: "\<not> sync_managed ?t \<and> sync_counter ?t = ?m \<and> length (sync_actions ?t) = ?n"
      using assms unmanaged.run_facts [of s "replicate ?m ()"] by (simp add: sync_processes_def)
    have h: "sync_on_complete (fst (sync_processes j u)) = sync_on_complete u"
      for j and u :: "('a, 'b) synchronizer"
      by (induction j arbitrary: u) (simp_all add: sync_process_def Let_def split: list.split)
    have "snd (sync_processes k s) = snd (sync_processes (Suc k - ?n) ?t)"
      using pre by (simp add: sync_processes_def k)
    with t h [of ?m s] processes_unmanaged_late [of ?t "Suc k - ?n"] show ?thesis by simp
  qed
qed

theorem unmanaged_synchronizer_witness:
  "snd (sync_processes 2 (sync_add_on_complete ''c'' (sync_action ''b'' (synchronize (Some ''a''))))) =
    [Run_handler ''c'']"
  using unmanaged_synchronizer
    [of "sync_add_on_complete ''c'' (sync_action ''b'' (synchronize (Some ''a'')))" 2]
  by (simp add: sync_add_on_complete_def sync_action_def synchronize_def new_synchronizer_def)

text \<open>
  A managed synchronizer, meant to run its actions one after the other, compares the counter with the
  \<^emph>\<open>remaining\<close> actions: of \<open>n\<close> actions it ever runs only the first half, rounded up, however often
  \<open>process\<close> is called; with two actions the second never runs.
\<close>

theorem managed_synchronizer_drops_actions:
  assumes "sync_managed s" and "sync_counter s = 0" and "sync_actions s \<noteq> []"
    and "length (sync_actions s) \<le> k"
  shows "actions_run (snd (sync_start s) @ snd (sync_processes k (fst (sync_start s)))) =
    take ((length (sync_actions s) + 1) div 2) (sync_actions s)"
proof -
  from assms(3) obtain a as where as: "sync_actions s = a # as"
    by (cases "sync_actions s") auto
  with assms have "actions_run (snd (sync_processes k (s\<lparr>sync_actions := as\<rparr>))) =
      take (length as div 2) as"
    using managed_process_runs [of "s\<lparr>sync_actions := as\<rparr>" "length as" k] by simp
  with as assms show ?thesis by (simp add: sync_start_def)
qed

theorem managed_synchronizer_drops_actions_witness:
  "let s = sync_manage (sync_action ''b'' (synchronize (Some ''a'')))
   in actions_run (snd (sync_start s) @ snd (sync_processes 5 (fst (sync_start s)))) = [''a'']"
  using managed_synchronizer_drops_actions
    [of "sync_manage (sync_action ''b'' (synchronize (Some ''a'')))" 5]
  by (simp add: Let_def sync_manage_def sync_action_def synchronize_def new_synchronizer_def)

text \<open>
  \<open>reset\<close> forgets the actions, the counter and the done flag but not the handlers; starting a
  synchronizer with nothing to do runs the completion handlers (those of earlier rounds too) and
  leaves \<open>done\<close> false. Completion handlers run in reverse order of registration, start handlers in
  order.
\<close>

theorem synchronizer_reset_start:
  "sync_start (sync_reset (fold sync_add_on_complete hs s)) =
     (sync_reset (fold sync_add_on_complete hs s),
      map Run_handler (rev hs @ sync_on_complete s)) \<and>
   \<not> sync_done (fst (sync_start (sync_reset s))) \<and>
   sync_on_start (sync_reset (fold sync_add_on_start hs s)) = sync_on_start s @ hs"
proof -
  have "sync_on_complete (fold sync_add_on_complete hs s) = rev hs @ sync_on_complete s"
    by (induction hs arbitrary: s) (simp_all add: sync_add_on_complete_def)
  moreover have "sync_on_start (fold sync_add_on_start hs s) = sync_on_start s @ hs"
    by (induction hs arbitrary: s) (simp_all add: sync_add_on_start_def)
  ultimately show ?thesis by (simp add: sync_start_def sync_reset_def)
qed

end
