(* ===== verification/Model.thy ===== *)
theory Model
  imports Prelude "HOL-Library.Word"
begin

text \<open>
  The data types of \<open>model/\<close>, one record per TypeScript type with the type's fields in order: a
  number is \<open>int\<close>, an optional field an \<open>option\<close>, a byte buffer a list of 8-bit words, an intersection
  with an object type a record extension. A string is a list of characters with codes below 256.
  Field names carry a prefix for their type, since HOL record fields share one name space.
\<close>

type_synonym bytes = "8 word list"

text \<open>Values of type \<open>any\<close>.\<close>

datatype js =
    JUndefined | JNull | JBool bool | JNumber int | JString string
  | JArray "js list" | JObject "(string \<times> js) list"

text \<open>The truthiness of \<open>if\<close>, \<open>!\<close>, \<open>&&\<close> and \<open>||\<close>.\<close>

fun js_truthy :: "js \<Rightarrow> bool" where
  "js_truthy JUndefined = False"
| "js_truthy JNull = False"
| "js_truthy (JBool b) = b"
| "js_truthy (JNumber n) = (n \<noteq> 0)"
| "js_truthy (JString s) = (s \<noteq> [])"
| "js_truthy (JArray xs) = True"
| "js_truthy (JObject fields) = True"

text \<open>Truthiness of optional strings and numbers: absent, empty and zero are falsy.\<close>

definition truthy_string :: "string option \<Rightarrow> bool" where
  "truthy_string s \<longleftrightarrow> s \<noteq> None \<and> s \<noteq> Some []"

definition truthy_number :: "int option \<Rightarrow> bool" where
  "truthy_number n \<longleftrightarrow> n \<noteq> None \<and> n \<noteq> Some 0"

definition truthy_bool :: "bool option \<Rightarrow> bool" where
  "truthy_bool b \<longleftrightarrow> b = Some True"

section \<open>Records\<close>

text \<open>\<open>model/OpenShiftTypes.ts\<close>: \<open>OpenShiftLabel\<close>.\<close>

record open_shift_label =
  label_name :: string
  label_value :: string

text \<open>\<open>model/OpenShiftTypes.ts\<close>: \<open>OpenShiftPodConfiguration\<close>.\<close>

record open_shift_pod_configuration =
  pod_node_selector :: "open_shift_label list"

text \<open>\<open>model/ResourceTypes.ts\<close>: \<open>ResourceIdentifier\<close>.\<close>

record resource_identifier =
  rid_id :: int
  rid_name :: string
  rid_type :: string

text \<open>\<open>model/ResourceTypes.ts\<close>: \<open>OpenShiftResource\<close>.\<close>

record open_shift_resource =
  open_shift_resource_id :: int
  open_shift_resource_name :: string
  open_shift_resource_api_url :: string
  open_shift_resource_applications_domain :: string
  open_shift_resource_private_registry_url :: string
  open_shift_resource_user_name :: string
  open_shift_resource_password :: string

text \<open>\<open>model/ResourceTypes.ts\<close>: \<open>PlatformResource\<close>.\<close>

record platform_resource =
  platform_resource_id :: int
  platform_resource_name :: string
  platform_resource_url :: string
  platform_resource_user_name :: string
  platform_resource_password :: string

text \<open>\<open>model/ResourceTypes.ts\<close>: \<open>ArtifactsResource\<close>.\<close>

record artifacts_resource =
  artifacts_resource_id :: int
  artifacts_resource_name :: string
  artifacts_resource_url :: string
  artifacts_resource_user_name :: string
  artifacts_resource_password :: string

text \<open>\<open>model/ResourceTypes.ts\<close>: \<open>GitResource\<close>.\<close>

record git_resource =
  git_resource_id :: int
  git_resource_name :: string
  git_resource_url :: string
  git_resource_user_name :: string
  git_resource_password :: string

text \<open>\<open>model/ResourceTypes.ts\<close>: \<open>ProxyResource\<close>.\<close>

record proxy_resource =
  proxy_resource_id :: int
  proxy_resource_name :: string
  proxy_resource_host :: string
  proxy_resource_port :: int
  proxy_resource_user_name :: string
  proxy_resource_password :: string

text \<open>\<open>model/ResourceTypes.ts\<close>: \<open>OpenShiftResourceRequest\<close>.\<close>

record open_shift_resource_request =
  open_shift_resource_request_name :: string
  open_shift_resource_request_api_url :: string
  open_shift_resource_request_applications_domain :: string
  open_shift_resource_request_user_name :: string
  open_shift_resource_request_password :: string

text \<open>\<open>model/ResourceTypes.ts\<close>: \<open>ArtifactsResourceRequest\<close>.\<close>

record artifacts_resource_request =
  artifacts_resource_request_name :: string
  artifacts_resource_request_url :: string
  artifacts_resource_request_user_name :: string
  artifacts_resource_request_password :: string

text \<open>\<open>model/ResourceTypes.ts\<close>: \<open>GitResourceRequest\<close>.\<close>

record git_resource_request =
  git_resource_request_name :: string
  git_resource_request_url :: string
  git_resource_request_user_name :: string
  git_resource_request_password :: string

text \<open>\<open>model/ResourceTypes.ts\<close>: \<open>ProxyResourceRequest\<close>.\<close>

record proxy_resource_request =
  proxy_resource_request_name :: string
  proxy_resource_request_host :: string
  proxy_resource_request_port :: int
  proxy_resource_request_user_name :: string
  proxy_resource_request_password :: string

text \<open>\<open>model/ResourceTypes.ts\<close>: \<open>Resources\<close>.\<close>

record resources =
  resources_open_shift :: "open_shift_resource list"
  resources_artifacts :: "artifacts_resource list"
  resources_git :: "git_resource list"
  resources_platform :: "platform_resource list"
  resources_proxy :: "proxy_resource list"

text \<open>\<open>model/ExternalTypes.ts\<close>: \<open>ExternalIdentifier\<close>.\<close>

record external_identifier =
  eid_id :: string
  eid_resource_id :: resource_identifier

text \<open>\<open>model/ExternalTypes.ts\<close>: \<open>ExternalArtifact\<close>.\<close>

record external_artifact =
  external_artifact_name :: string
  external_artifact_version :: string
  external_artifact_external_id :: external_identifier
  external_artifact_project_id :: int

text \<open>\<open>model/ExternalTypes.ts\<close>: \<open>ExternalArtifactsRequest\<close>.\<close>

record external_artifacts_request =
  external_artifacts_request_artifacts :: "external_artifact list"
  external_artifacts_request_open_shift_resources :: "open_shift_resource list"
  external_artifacts_request_artifacts_resources :: "artifacts_resource list"

text \<open>\<open>model/TextProperty.ts\<close>: \<open>TextProperty\<close>.\<close>

record text_property =
  text_property_value :: string

text \<open>\<open>model/ResourceProperty.ts\<close>: \<open>ResourceProperty\<close>.\<close>

record resource_property =
  resource_property_value :: "string option"
  resource_property_name :: "string option"
  resource_property_resource_id :: "resource_identifier option"

text \<open>\<open>model/ResourceProperty.ts\<close>: \<open>ResourceAttribute\<close>.\<close>

record resource_attribute =
  resource_attribute_name :: string
  resource_attribute_value :: string
  resource_attribute_is_password :: "bool option"

text \<open>\<open>model/Property.ts\<close>: \<open>Property\<close>.\<close>

record managed_property =
  prop_name :: string
  prop_type :: string
  prop_text_property :: "text_property option"
  prop_resource_property :: "resource_property option"

text \<open>\<open>model/Variable.ts\<close>: \<open>Variable\<close>.\<close>

record environment_variable =
  variable_name :: string
  variable_value :: string

text \<open>\<open>model/GradleTypes.ts\<close>: \<open>GradleCacheConfiguration\<close>.\<close>

record gradle_cache_configuration =
  gradle_cache_configuration_server_url_property :: "string option"

text \<open>\<open>model/GradleTypes.ts\<close>: \<open>GradleAssemblyConfiguration\<close>.\<close>

record gradle_assembly_configuration =
  gradle_arguments :: "string option"
  gradle_version :: "string option"
  gradle_jdk_version :: "string option"
  gradle_init_script_groovy_content :: "string option"
  gradle_init_script_kotlin_content :: "string option"
  gradle_init_script_format :: "string option"
  gradle_properties :: "managed_property list option"
  gradle_cache_configuration :: "gradle_cache_configuration option"

text \<open>\<open>model/GradleTypes.ts\<close>: \<open>GradleArtifactConfiguration\<close>.\<close>

record gradle_artifact_configuration =
  gradle_artifact_arguments :: "string option"

text \<open>\<open>model/DockerTypes.ts\<close>: \<open>DockerArchiveConfiguration\<close>.\<close>

record docker_archive_configuration =
  docker_image :: string
  docker_container_technology :: string
  docker_source_paths :: "string list option"

text \<open>\<open>model/PlatformFileTypes.ts\<close>: \<open>PlatformFileIdentifier\<close>.\<close>

record platform_file_identifier =
  fid_id :: int
  fid_name :: string

text \<open>\<open>model/PlatformFileTypes.ts\<close>: \<open>PlatformFile\<close>.\<close>

record platform_file =
  platform_file_id :: int
  platform_file_name :: string
  platform_file_bytes :: bytes

text \<open>\<open>model/PlatformFileTypes.ts\<close>: \<open>PlatformFilePayload\<close>.\<close>

record platform_file_payload =
  platform_file_payload_id :: platform_file_identifier
  platform_file_payload_bytes :: bytes

text \<open>\<open>model/PlatformFileTypes.ts\<close>: \<open>PlatformFileChunk\<close>.\<close>

record platform_file_chunk =
  platform_file_chunk_id :: platform_file_identifier
  platform_file_chunk_size :: int
  platform_file_chunk_bytes :: bytes

text \<open>\<open>model/PlatformFileTypes.ts\<close>: \<open>PlatformFileCloneRequest\<close>.\<close>

record platform_file_clone_request =
  platform_file_clone_request_current_file_id :: platform_file_identifier
  platform_file_clone_request_new_file_id :: platform_file_identifier

text \<open>\<open>model/PlatformFileTypes.ts\<close>: \<open>StringFile\<close>.\<close>

record string_file =
  string_file_name :: string
  string_file_content :: string

text \<open>\<open>model/PreparedConfigurationTypes.ts\<close>: \<open>PreparedConfigurationRequest\<close>.\<close>

record prepared_configuration_request =
  prepared_configuration_request_project_id :: int
  prepared_configuration_request_profile :: string
  prepared_configuration_request_name :: string
  prepared_configuration_request_configuration :: string

text \<open>\<open>model/PreparedConfigurationTypes.ts\<close>: \<open>PreparedConfigurationFilterCriteria\<close>.\<close>

record prepared_configuration_filter_criteria =
  prepared_configuration_filter_criteria_project_ids :: "int list"
  prepared_configuration_filter_criteria_profiles :: "string list"
  prepared_configuration_filter_criteria_names :: "string list"

text \<open>\<open>model/PreparedConfigurationTypes.ts\<close>: \<open>PreparedConfigurationIdentifier\<close>.\<close>

record prepared_configuration_identifier =
  pcid_id :: int
  pcid_project_id :: int
  pcid_profile :: string
  pcid_name :: string

text \<open>\<open>model/PreparedConfigurationTypes.ts\<close>: \<open>PreparedConfiguration\<close>.\<close>

record prepared_configuration =
  prepared_id :: int
  prepared_project_id :: int
  prepared_profile :: string
  prepared_name :: string
  prepared_configuration :: string

text \<open>\<open>model/ProjectTypes.ts\<close>: \<open>ProjectVersion\<close>.\<close>

record project_version =
  version_reference :: string
  version_version :: string

text \<open>\<open>model/ProjectTypes.ts\<close>: \<open>ProjectArtifact\<close>.\<close>

record project_artifact =
  project_artifact_name :: string
  project_artifact_technologies :: "string list"
  project_artifact_versions :: "project_version list"

text \<open>\<open>model/ProjectTypes.ts\<close>: \<open>AssembledProjectArtifactsRequest\<close>.\<close>

record assembled_project_artifacts_request =
  assembled_project_artifacts_request_project_id :: int
  assembled_project_artifacts_request_version :: "string option"

text \<open>\<open>model/ProjectTypes.ts\<close>: \<open>ProjectOpenShiftConfiguration\<close>.\<close>

record project_open_shift_configuration =
  project_open_shift_configuration_platform_pods_node_selector :: "open_shift_label list option"

text \<open>\<open>model/ProjectTypes.ts\<close>: \<open>ProjectNotificationsConfiguration\<close>.\<close>

record project_notifications_configuration =
  project_notifications_configuration_url :: string
  project_notifications_configuration_additional_message :: string
  project_notifications_configuration_proxy_id :: "resource_identifier option"

text \<open>\<open>model/ProjectTypes.ts\<close>: \<open>Project\<close>.\<close>

record project =
  project_id :: int
  project_name :: string
  project_external_id :: external_identifier
  project_git_resource_id :: resource_identifier
  project_technologies :: "string list"
  project_state :: string
  project_creation_time_stamp :: int
  project_versions :: "project_version list"
  project_artifacts :: "project_artifact list"
  project_open_shift_configuration :: "project_open_shift_configuration option"
  project_notifications_configuration :: "project_notifications_configuration option"

text \<open>\<open>model/ProjectTypes.ts\<close>: \<open>ProjectRequest\<close>.\<close>

record project_request =
  project_request_name :: string
  project_request_git_resource_id :: int
  project_request_initialization_resource_id :: "resource_identifier option"
  project_request_open_shift_configuration :: "project_open_shift_configuration option"
  project_request_notifications_configuration :: "project_notifications_configuration option"

text \<open>\<open>model/ProjectTypes.ts\<close>: \<open>ProjectUpdateRequest\<close>.\<close>

record project_update_request =
  project_update_request_id :: int
  project_update_request_name :: string
  project_update_request_open_shift_configuration :: "project_open_shift_configuration option"
  project_update_request_notifications_configuration :: "project_notifications_configuration option"

text \<open>\<open>model/AssemblyTypes.ts\<close>: \<open>ArtifactArchiveConfiguration\<close>.\<close>

record artifact_archive_configuration =
  archive_resource_id :: resource_identifier
  archive_archive_technology :: "string option"
  archive_docker_configuration :: "docker_archive_configuration option"

text \<open>\<open>model/AssemblyTypes.ts\<close>: \<open>ArtifactConfiguration\<close>.\<close>

record artifact_configuration =
  artifact_configuration_name :: string
  artifact_configuration_artifact :: "project_artifact option"
  artifact_configuration_archives :: "artifact_archive_configuration list"
  artifact_configuration_gradle_configuration :: "gradle_artifact_configuration option"

text \<open>\<open>model/AssemblyTypes.ts\<close>: \<open>AssemblyConfiguration\<close>; the default resource is what the selector of the configurator
  holds, \<open>undefined\<close> while nothing is selected.\<close>

record assembly_configuration =
  assembly_configuration_id :: int
  assembly_configuration_artifact_configurations :: "artifact_configuration list option"
  assembly_configuration_technology :: "string option"
  assembly_configuration_gradle_configuration :: "gradle_assembly_configuration option"
  assembly_configuration_default_resource_id :: "resource_identifier option"

text \<open>\<open>model/AssemblyTypes.ts\<close>: \<open>AssembledArtifact\<close>.\<close>

record assembled_artifact =
  artifact_name :: string
  artifact_version :: string
  artifact_external_id :: external_identifier

text \<open>\<open>model/AssemblyTypes.ts\<close>: \<open>AssemblyInformation\<close>.\<close>

record assembly_information =
  assembly_id :: int
  assembly_project_id :: int
  assembly_technology :: string
  assembly_version :: project_version
  assembly_state :: string
  assembly_start_time_stamp :: int
  assembly_end_time_stamp :: int
  assembly_resource_id :: resource_identifier
  assembly_log_id :: int
  assembly_artifacts :: "assembled_artifact list"

text \<open>\<open>model/AssemblyTypes.ts\<close>: \<open>Assembly\<close>.\<close>

record assembly = assembly_information +
  assembly_artifact_configurations :: "artifact_configuration list"

text \<open>\<open>model/AssemblyTypes.ts\<close>: \<open>AssemblyFilterCriteria\<close>.\<close>

record assembly_filter_criteria =
  assembly_filter_criteria_project_ids :: "int list option"
  assembly_filter_criteria_states :: "string list option"
  assembly_filter_criteria_versions :: "string list option"
  assembly_filter_criteria_sorted :: "bool option"
  assembly_filter_criteria_count :: int

text \<open>\<open>model/AssemblyTypes.ts\<close>: \<open>BuildRequest\<close>.\<close>

record build_request =
  build_request_project_id :: int
  build_request_configuration_id :: int
  build_request_version :: project_version
  build_request_resource_id :: resource_identifier
  build_request_artifact_configurations :: "artifact_configuration list"

text \<open>\<open>model/ApplicationTypes.ts\<close>: \<open>ApplicationIdentifier\<close>.\<close>

record application_identifier =
  aid_id :: int
  aid_name :: string
  aid_type :: string

text \<open>\<open>model/FilebeatTypes.ts\<close>: \<open>FilebeatApplication\<close>.\<close>

record filebeat_application =
  filebeat_application_id :: int
  filebeat_application_name :: string
  filebeat_application_url :: string
  filebeat_application_resource_id :: resource_identifier

text \<open>\<open>model/ApplicationTypes.ts\<close>: \<open>Applications\<close>.\<close>

record applications =
  applications_filebeat :: "filebeat_application list"

text \<open>\<open>model/FilebeatTypes.ts\<close>: \<open>FilebeatApplicationRequest\<close>.\<close>

record filebeat_application_request =
  filebeat_application_request_name :: string
  filebeat_application_request_url :: string
  filebeat_application_request_resource_id :: resource_identifier

text \<open>\<open>model/FilebeatTypes.ts\<close>: \<open>FilebeatModuleApplication\<close>.\<close>

record filebeat_module_application =
  filebeat_module_application_application_id :: application_identifier
  filebeat_module_application_port :: int
  filebeat_module_application_url :: string
  filebeat_module_application_resource_id :: resource_identifier
  filebeat_module_application_configuration :: string

text \<open>\<open>model/ModuleTypes.ts\<close>: \<open>PortMapping\<close>.\<close>

record port_mapping =
  port_mapping_internal_port :: int
  port_mapping_external_port :: int

text \<open>\<open>model/ModuleTypes.ts\<close>: \<open>ModuleUrl\<close>.\<close>

record module_url =
  url_url :: "string option"
  url_port :: "int option"

text \<open>\<open>model/ModuleTypes.ts\<close>: \<open>ProbeConfiguration\<close>.\<close>

record probe_configuration =
  probe_path :: "string option"
  probe_liveness_probe :: "bool option"
  probe_readiness_probe :: "bool option"

text \<open>\<open>model/ModuleTypes.ts\<close>: \<open>ModuleInformation\<close>; the card tests the resource and the external identifier
  for \<open>undefined\<close>, which the declared types exclude.\<close>

record module_information =
  mod_id :: int
  mod_name :: string
  mod_project_id :: int
  mod_resource_id :: "resource_identifier option"
  mod_internal_ip :: string
  mod_external_id :: "external_identifier option"
  mod_artifact :: assembled_artifact
  mod_parameters :: "string option"
  mod_url :: "module_url option"
  mod_count :: int
  mod_ports :: "int list option"
  mod_port_mappings :: "port_mapping list option"
  mod_prepared_configurations :: "prepared_configuration_identifier list option"
  mod_manual_configurations :: "string_file list option"
  mod_additional_files :: "platform_file_identifier list option"
  mod_state :: string
  mod_update_time_stamp :: "int option"

text \<open>\<open>model/ModuleTypes.ts\<close>: \<open>ModuleApplication\<close>.\<close>

record module_application =
  module_application_application_id :: application_identifier
  module_application_application :: js

text \<open>\<open>model/ModuleTypes.ts\<close>: \<open>ModuleConfiguration\<close>.\<close>

record module_configuration =
  configuration_resource_id :: resource_identifier
  configuration_artifact :: assembled_artifact
  configuration_name :: "string option"
  configuration_url :: "module_url option"
  configuration_parameters :: "string option"
  configuration_count :: int
  configuration_ports :: "int list option"
  configuration_prepared_configurations :: "prepared_configuration_identifier list option"
  configuration_manual_configurations :: "string_file list option"
  configuration_additional_files :: "platform_file_identifier list option"
  configuration_applications :: "module_application list option"
  configuration_probes_configuration :: "probe_configuration option"

text \<open>\<open>model/ModuleTypes.ts\<close>: \<open>Module\<close>.\<close>

record module_full = module_information +
  mod_applications :: "module_application list option"
  mod_probes_configuration :: "probe_configuration option"

text \<open>\<open>model/ModuleTypes.ts\<close>: \<open>ModuleFilterCriteria\<close>.\<close>

record module_filter_criteria =
  module_filter_criteria_project_ids :: "int list option"
  module_filter_criteria_states :: "string list option"
  module_filter_criteria_ids :: "int list option"
  module_filter_criteria_versions :: "string list option"
  module_filter_criteria_sorted :: bool

text \<open>\<open>model/ModuleTypes.ts\<close>: \<open>ModuleFile\<close>.\<close>

record module_file =
  module_file_name :: string
  module_file_bytes :: bytes

text \<open>\<open>model/ModuleTypes.ts\<close>: \<open>ModuleConfigurationDraft\<close>.\<close>

record module_configuration_draft =
  draft_resource_id :: resource_identifier
  draft_artifact :: assembled_artifact
  draft_name :: "string option"
  draft_url :: "module_url option"
  draft_parameters :: "string option"
  draft_count :: int
  draft_ports :: "int list option"
  draft_prepared_configurations :: "prepared_configuration_identifier list option"
  draft_manual_configurations :: "string_file list option"
  draft_additional_files :: "module_file list option"
  draft_applications :: "module_application list option"
  draft_has_parameters :: "bool option"
  draft_has_url :: "bool option"
  draft_has_ports :: "bool option"
  draft_has_string_configurations :: "bool option"
  draft_has_probe :: "bool option"
  draft_probes_configuration :: "probe_configuration option"

text \<open>\<open>model/ModuleTypes.ts\<close>: \<open>ModuleInstallationRequest\<close>.\<close>

record module_installation_request =
  module_installation_request_project_id :: int
  module_installation_request_configuration :: module_configuration

text \<open>\<open>model/ModuleTypes.ts\<close>: \<open>ModuleUpdateRequest\<close>.\<close>

record module_update_request =
  module_update_request_module_id :: int
  module_update_request_new_module_configuration :: module_configuration

text \<open>\<open>model/ModuleTypes.ts\<close>: \<open>UpdateModulesVersionRequest\<close>.\<close>

record update_modules_version_request =
  update_modules_version_request_ids :: "int list"
  update_modules_version_request_version :: string

text \<open>\<open>model/LoadTestingTypes.ts\<close>: \<open>LoadTestRequest\<close>.\<close>

record load_test_request =
  load_test_request_scenario_id :: int
  load_test_request_resource_id :: resource_identifier
  load_test_request_project_id :: int
  load_test_request_version :: project_version
  load_test_request_environment_variables :: "environment_variable list"

text \<open>\<open>model/LoadTestingTypes.ts\<close>: \<open>LoadTest\<close>.\<close>

record load_test =
  load_test_id :: int
  load_test_scenario_id :: int
  load_test_project_id :: int
  load_test_version :: project_version
  load_test_start_time_stamp :: int
  load_test_end_time_stamp :: int
  load_test_state :: string
  load_test_resource_id :: resource_identifier
  load_test_log_id :: int
  load_test_report_archive_name :: platform_file_identifier
  load_test_environment_variables :: "environment_variable list"

text \<open>\<open>model/LoadTestingTypes.ts\<close>: \<open>LoadTestScenarioRequest\<close>.\<close>

record load_test_scenario_request =
  load_test_scenario_request_name :: string
  load_test_scenario_request_default_resource_id :: resource_identifier
  load_test_scenario_request_project_id :: int
  load_test_scenario_request_launch_technology :: string
  load_test_scenario_request_report_technology :: string
  load_test_scenario_request_gradle_configuration :: gradle_assembly_configuration

text \<open>\<open>model/LoadTestingTypes.ts\<close>: \<open>LoadTestScenario\<close>.\<close>

record load_test_scenario =
  load_test_scenario_id :: int
  load_test_scenario_name :: string
  load_test_scenario_default_resource_id :: resource_identifier
  load_test_scenario_project_id :: int
  load_test_scenario_launch_technology :: string
  load_test_scenario_report_technology :: string
  load_test_scenario_gradle_configuration :: gradle_assembly_configuration

text \<open>\<open>model/LogTypes.ts\<close>: \<open>Log\<close>.\<close>

record log =
  log_id :: int
  log_records :: "string list"

text \<open>\<open>model/LogTypes.ts\<close>: \<open>LogRecordRequest\<close>.\<close>

record log_record_request =
  log_record_request_log_id :: int
  log_record_request_record :: string

text \<open>\<open>model/NetworkTypes.ts\<close>: \<open>NetworkAccessRequest\<close>.\<close>

record network_access_request =
  network_access_request_resource_id :: resource_identifier
  network_access_request_host_name :: string
  network_access_request_port :: int
  network_access_request_timeout :: int
  network_access_request_open_shift_pod_configuration :: "open_shift_pod_configuration option"

text \<open>\<open>model/UserTypes.ts\<close>: \<open>UserRegistrationRequest\<close>.\<close>

record user_registration_request =
  user_registration_request_name :: string
  user_registration_request_full_name :: string
  user_registration_request_email :: string
  user_registration_request_password :: string

text \<open>\<open>model/UserTypes.ts\<close>: \<open>UserAuthorizationRequest\<close>.\<close>

record user_authorization_request =
  user_authorization_request_name :: string
  user_authorization_request_password :: string

text \<open>\<open>model/UserTypes.ts\<close>: \<open>User\<close>.\<close>

record user =
  user_id :: int
  user_name :: string
  user_full_name :: string
  user_password :: bytes
  user_email :: string
  user_token :: string
  user_update_time_stamp :: int
  user_admin :: "bool option"
  user_available_projects :: "int list"
  user_available_actions :: "string list"

text \<open>\<open>model/ApiTypes.ts\<close>: \<open>ServiceMethodCommand\<close>.\<close>

record service_method_command =
  command_service_id :: string
  command_method_id :: string

text \<open>\<open>model/ApiTypes.ts\<close>: \<open>ServiceExecutionException\<close>.\<close>

record service_execution_exception =
  error_code :: string
  error_message :: string
  stack_trace :: string

text \<open>\<open>model/ApiTypes.ts\<close>: \<open>ServiceResponse\<close>; the code tests whether the exception is present.\<close>

record 'd service_response =
  response_command :: service_method_command
  response_data :: 'd
  response_exception :: "service_execution_exception option"

end
