(* ===== verification/Constants.thy ===== *)
theory Constants
  imports Prelude
begin

text \<open>
  The named constants of \<open>src/constants\<close>: the values the operations compare and send. Texts shown to the
  user in Russian are not here; where a decision selects one, it is a constructor of a label datatype.
\<close>

section \<open>Service identifiers and methods, transport limits (\<open>constants/ApiConstants.ts\<close>)\<close>

definition DEFAULT_RSOCKET_CLIENT_NAME :: string where
  "DEFAULT_RSOCKET_CLIENT_NAME = ''Default RSocket client''"
definition STREAM_RSOCKET_CLIENT_NAME :: string where
  "STREAM_RSOCKET_CLIENT_NAME = ''Stream RSocket client''"
definition INFINITY_STREAM_RSOCKET_CLIENT_NAME :: string where
  "INFINITY_STREAM_RSOCKET_CLIENT_NAME = ''Infinity stream RSocket client''"
definition RSOCKET_DEFAULT_PORT :: int where "RSOCKET_DEFAULT_PORT = 10001"
definition RSOCKET_REQUEST_COUNT :: int where "RSOCKET_REQUEST_COUNT = 9007199254740991"
definition RSOCKET_FUNCTION :: string where "RSOCKET_FUNCTION = ''RSOCKET_FUNCTION_SERVICE''"
definition REGISTER_USER :: string where "REGISTER_USER = ''registerUser''"
definition AUTHORIZE :: string where "AUTHORIZE = ''authorize''"
definition AUTHENTICATE :: string where "AUTHENTICATE = ''authenticate''"
definition GET_USER_NAMES :: string where "GET_USER_NAMES = ''getUserNames''"
definition GET_USER :: string where "GET_USER = ''getUser''"
definition GET_USERS :: string where "GET_USERS = ''getUsers''"
definition GET_USER_EMAILS :: string where "GET_USER_EMAILS = ''getUserEmails''"
definition UPDATE_USER :: string where "UPDATE_USER = ''updateUser''"
definition DELETE_USER :: string where "DELETE_USER = ''deleteUser''"
definition SUBSCRIBE_ON_USER :: string where "SUBSCRIBE_ON_USER = ''subscribeOnUser''"
definition ADD_OPEN_SHIFT_RESOURCE :: string where
  "ADD_OPEN_SHIFT_RESOURCE = ''addOpenShiftResource''"
definition ADD_ARTIFACTS_RESOURCE :: string where
  "ADD_ARTIFACTS_RESOURCE = ''addArtifactsResource''"
definition ADD_GIT_RESOURCE :: string where "ADD_GIT_RESOURCE = ''addGitResource''"
definition ADD_PROXY_RESOURCE :: string where "ADD_PROXY_RESOURCE = ''addProxyResource''"
definition GET_OPEN_SHIFT_RESOURCE :: string where
  "GET_OPEN_SHIFT_RESOURCE = ''getOpenShiftResource''"
definition GET_OPEN_SHIFT_RESOURCES :: string where
  "GET_OPEN_SHIFT_RESOURCES = ''getOpenShiftResources''"
definition GET_PROXY_RESOURCE :: string where "GET_PROXY_RESOURCE = ''getProxyResource''"
definition GET_PROXY_RESOURCES :: string where "GET_PROXY_RESOURCES = ''getProxyResources''"
definition GET_PLATFORM_RESOURCES :: string where
  "GET_PLATFORM_RESOURCES = ''getPlatformResources''"
definition GET_GIT_RESOURCE :: string where "GET_GIT_RESOURCE = ''getGitResource''"
definition GET_GIT_RESOURCES :: string where "GET_GIT_RESOURCES = ''getGitResources''"
definition GET_ARTIFACTS_RESOURCE :: string where
  "GET_ARTIFACTS_RESOURCE = ''getArtifactsResource''"
definition GET_ARTIFACTS_RESOURCES :: string where
  "GET_ARTIFACTS_RESOURCES = ''getArtifactsResources''"
definition GET_RESOURCES_IDS :: string where "GET_RESOURCES_IDS = ''getResourceIds''"
definition UPDATE_GIT_RESOURCE :: string where "UPDATE_GIT_RESOURCE = ''updateGitResource''"
definition UPDATE_OPEN_SHIFT_RESOURCE :: string where
  "UPDATE_OPEN_SHIFT_RESOURCE = ''updateOpenShiftResource''"
definition UPDATE_ARTIFACTS_RESOURCE :: string where
  "UPDATE_ARTIFACTS_RESOURCE = ''updateArtifactsResource''"
definition UPDATE_PROXY_RESOURCE :: string where "UPDATE_PROXY_RESOURCE = ''updateProxyResource''"
definition DELETE_GIT_RESOURCE :: string where "DELETE_GIT_RESOURCE = ''deleteGitResource''"
definition DELETE_OPEN_SHIFT_RESOURCE :: string where
  "DELETE_OPEN_SHIFT_RESOURCE = ''deleteOpenShiftResource''"
definition DELETE_ARTIFACTS_RESOURCE :: string where
  "DELETE_ARTIFACTS_RESOURCE = ''deleteArtifactsResource''"
definition DELETE_PROXY_RESOURCE :: string where "DELETE_PROXY_RESOURCE = ''deleteProxyResource''"
definition ADD_PROJECT :: string where "ADD_PROJECT = ''addProject''"
definition UPDATE_PROJECT :: string where "UPDATE_PROJECT = ''updateProject''"
definition DELETE_PROJECT :: string where "DELETE_PROJECT = ''deleteProject''"
definition ADD_EXTERNAL_ARTIFACTS :: string where
  "ADD_EXTERNAL_ARTIFACTS = ''addExternalArtifacts''"
definition GET_PROJECTS :: string where "GET_PROJECTS = ''getProjects''"
definition GET_ASSEMBLED_PROJECT_ARTIFACTS :: string where
  "GET_ASSEMBLED_PROJECT_ARTIFACTS = ''getAssembledProjectArtifacts''"
definition GET_PROJECT :: string where "GET_PROJECT = ''getProject''"
definition RELOAD_PROJECT :: string where "RELOAD_PROJECT = ''reloadProject''"
definition SUBSCRIBE_ON_PROJECT :: string where "SUBSCRIBE_ON_PROJECT = ''subscribeOnProject''"
definition BUILD_PROJECT :: string where "BUILD_PROJECT = ''buildProject''"
definition REBUILD_PROJECT :: string where "REBUILD_PROJECT = ''rebuildProject''"
definition GET_ASSEMBLIES :: string where "GET_ASSEMBLIES = ''getAssemblies''"
definition SUBSCRIBE_ON_ASSEMBLY :: string where "SUBSCRIBE_ON_ASSEMBLY = ''subscribeOnAssembly''"
definition SAVE_ASSEMBLY_CONFIGURATION :: string where
  "SAVE_ASSEMBLY_CONFIGURATION = ''saveAssemblyConfiguration''"
definition GET_ASSEMBLY_CONFIGURATION :: string where
  "GET_ASSEMBLY_CONFIGURATION = ''getAssemblyConfiguration''"
definition GET_ASSEMBLY :: string where "GET_ASSEMBLY = ''getAssembly''"
definition DELETE_ASSEMBLY :: string where "DELETE_ASSEMBLY = ''deleteAssembly''"
definition CANCEL_ASSEMBLY :: string where "CANCEL_ASSEMBLY = ''cancelAssembly''"
definition GET_FILTERED_ASSEMBLIES :: string where
  "GET_FILTERED_ASSEMBLIES = ''getFilteredAssemblies''"
definition ADD_LOG_RECORD :: string where "ADD_LOG_RECORD = ''addLogRecord''"
definition UPDATE_LOG :: string where "UPDATE_LOG = ''updateLog''"
definition DELETE_LOG :: string where "DELETE_LOG = ''deleteLog''"
definition GET_LOG :: string where "GET_LOG = ''getLog''"
definition GET_LOGS :: string where "GET_LOGS = ''getLogs''"
definition SUBSCRIBE_ON_LOG :: string where "SUBSCRIBE_ON_LOG = ''subscribeOnLog''"
definition START_MODULE_INSTALLATION :: string where
  "START_MODULE_INSTALLATION = ''startModuleInstallation''"
definition PROCESS_MODULE_INSTALLATION :: string where
  "PROCESS_MODULE_INSTALLATION = ''processModuleInstallation''"
definition START_MODULE_UPDATING :: string where "START_MODULE_UPDATING = ''startModuleUpdating''"
definition PROCESS_MODULE_UPDATING :: string where
  "PROCESS_MODULE_UPDATING = ''processModuleUpdating''"
definition REFRESH_MODULE_ARTIFACT :: string where
  "REFRESH_MODULE_ARTIFACT = ''refreshModuleArtifact''"
definition UPDATE_MODULES_VERSION :: string where
  "UPDATE_MODULES_VERSION = ''updateModulesVersion''"
definition STOP_MODULE :: string where "STOP_MODULE = ''stopModule''"
definition DELETE_MODULE_FROM_RESOURCE :: string where
  "DELETE_MODULE_FROM_RESOURCE = ''deleteModuleFromResource''"
definition DELETE_MODULE :: string where "DELETE_MODULE = ''deleteModule''"
definition GET_MODULE :: string where "GET_MODULE = ''getModule''"
definition GET_MODULES :: string where "GET_MODULES = ''getModules''"
definition SUBSCRIBE_ON_MODULE :: string where "SUBSCRIBE_ON_MODULE = ''subscribeOnModule''"
definition REINSTALL_MODULE :: string where "REINSTALL_MODULE = ''reinstallModule''"
definition RESTART_MODULE :: string where "RESTART_MODULE = ''restartModule''"
definition GET_FILTERED_MODULES :: string where "GET_FILTERED_MODULES = ''getFilteredModules''"
definition CHECK_NETWORK_ACCESS :: string where "CHECK_NETWORK_ACCESS = ''checkNetworkAccess''"
definition ALLOCATE_FILE :: string where "ALLOCATE_FILE = ''allocateFile''"
definition UPLOAD_FILE :: string where "UPLOAD_FILE = ''uploadFile''"
definition GET_FILE :: string where "GET_FILE = ''getFile''"
definition CLONE_FILE :: string where "CLONE_FILE = ''cloneFile''"
definition START_LOAD_TEST :: string where "START_LOAD_TEST = ''startLoadTest''"
definition CANCEL_LOAD_TEST :: string where "CANCEL_LOAD_TEST = ''cancelLoadTest''"
definition SAVE_LOAD_TEST_SCENARIO :: string where
  "SAVE_LOAD_TEST_SCENARIO = ''saveLoadTestScenario''"
definition UPDATE_LOAD_TEST_SCENARIO :: string where
  "UPDATE_LOAD_TEST_SCENARIO = ''updateLoadTestScenario''"
definition GET_LOAD_TEST_SCENARIO :: string where
  "GET_LOAD_TEST_SCENARIO = ''getLoadTestScenario''"
definition GET_PROJECTS_LOAD_TEST_SCENARIOS :: string where
  "GET_PROJECTS_LOAD_TEST_SCENARIOS = ''getProjectsLoadTestScenarios''"
definition GET_PROJECTS_LOAD_TESTS :: string where
  "GET_PROJECTS_LOAD_TESTS = ''getProjectsLoadTests''"
definition GET_LOAD_TEST :: string where "GET_LOAD_TEST = ''getLoadTest''"
definition DELETE_LOAD_TEST_SCENARIO :: string where
  "DELETE_LOAD_TEST_SCENARIO = ''deleteLoadTestScenario''"
definition SUBSCRIBE_ON_LOAD_TEST :: string where
  "SUBSCRIBE_ON_LOAD_TEST = ''subscribeOnLoadTest''"
definition DELETE_LOAD_TEST :: string where "DELETE_LOAD_TEST = ''deleteLoadTest''"
definition ADD_FILEBEAT_APPLICATION :: string where
  "ADD_FILEBEAT_APPLICATION = ''addFilebeatApplication''"
definition GET_FILEBEAT_APPLICATION :: string where
  "GET_FILEBEAT_APPLICATION = ''getFilebeatApplication''"
definition GET_FILEBEAT_APPLICATIONS :: string where
  "GET_FILEBEAT_APPLICATIONS = ''getFilebeatApplications''"
definition GET_APPLICATIONS_IDS :: string where "GET_APPLICATIONS_IDS = ''getApplicationIds''"
definition UPDATE_FILEBEAT_APPLICATION :: string where
  "UPDATE_FILEBEAT_APPLICATION = ''updateFilebeatApplication''"
definition DELETE_FILEBEAT_APPLICATION :: string where
  "DELETE_FILEBEAT_APPLICATION = ''deleteFilebeatApplication''"
definition GET_VERSION :: string where "GET_VERSION = ''getVersion''"
definition GET_PREPARED_CONFIGURATION :: string where
  "GET_PREPARED_CONFIGURATION = ''getPreparedConfiguration''"
definition GET_PREPARED_CONFIGURATIONS :: string where
  "GET_PREPARED_CONFIGURATIONS = ''getPreparedConfigurations''"
definition GET_FILTERED_PREPARED_CONFIGURATIONS :: string where
  "GET_FILTERED_PREPARED_CONFIGURATIONS = ''getFilteredPreparedConfigurations''"
definition ADD_PREPARED_CONFIGURATION :: string where
  "ADD_PREPARED_CONFIGURATION = ''addPreparedConfiguration''"
definition UPDATE_PREPARED_CONFIGURATION :: string where
  "UPDATE_PREPARED_CONFIGURATION = ''updatePreparedConfiguration''"
definition DELETE_PREPARED_CONFIGURATION :: string where
  "DELETE_PREPARED_CONFIGURATION = ''deletePreparedConfiguration''"
definition GET_PREPARED_CONFIGURATION_IDS :: string where
  "GET_PREPARED_CONFIGURATION_IDS = ''getPreparedConfigurationIds''"
definition RETRY_TIMEOUT_SECONDS :: int where "RETRY_TIMEOUT_SECONDS = 10"

lemmas api_constants_defs =
  DEFAULT_RSOCKET_CLIENT_NAME_def STREAM_RSOCKET_CLIENT_NAME_def
  INFINITY_STREAM_RSOCKET_CLIENT_NAME_def RSOCKET_DEFAULT_PORT_def RSOCKET_REQUEST_COUNT_def
  RSOCKET_FUNCTION_def REGISTER_USER_def AUTHORIZE_def AUTHENTICATE_def GET_USER_NAMES_def
  GET_USER_def GET_USERS_def GET_USER_EMAILS_def UPDATE_USER_def DELETE_USER_def
  SUBSCRIBE_ON_USER_def ADD_OPEN_SHIFT_RESOURCE_def ADD_ARTIFACTS_RESOURCE_def
  ADD_GIT_RESOURCE_def ADD_PROXY_RESOURCE_def GET_OPEN_SHIFT_RESOURCE_def
  GET_OPEN_SHIFT_RESOURCES_def GET_PROXY_RESOURCE_def GET_PROXY_RESOURCES_def
  GET_PLATFORM_RESOURCES_def GET_GIT_RESOURCE_def GET_GIT_RESOURCES_def
  GET_ARTIFACTS_RESOURCE_def GET_ARTIFACTS_RESOURCES_def GET_RESOURCES_IDS_def
  UPDATE_GIT_RESOURCE_def UPDATE_OPEN_SHIFT_RESOURCE_def UPDATE_ARTIFACTS_RESOURCE_def
  UPDATE_PROXY_RESOURCE_def DELETE_GIT_RESOURCE_def DELETE_OPEN_SHIFT_RESOURCE_def
  DELETE_ARTIFACTS_RESOURCE_def DELETE_PROXY_RESOURCE_def ADD_PROJECT_def UPDATE_PROJECT_def
  DELETE_PROJECT_def ADD_EXTERNAL_ARTIFACTS_def GET_PROJECTS_def
  GET_ASSEMBLED_PROJECT_ARTIFACTS_def GET_PROJECT_def RELOAD_PROJECT_def SUBSCRIBE_ON_PROJECT_def
  BUILD_PROJECT_def REBUILD_PROJECT_def GET_ASSEMBLIES_def SUBSCRIBE_ON_ASSEMBLY_def
  SAVE_ASSEMBLY_CONFIGURATION_def GET_ASSEMBLY_CONFIGURATION_def GET_ASSEMBLY_def
  DELETE_ASSEMBLY_def CANCEL_ASSEMBLY_def GET_FILTERED_ASSEMBLIES_def ADD_LOG_RECORD_def
  UPDATE_LOG_def DELETE_LOG_def GET_LOG_def GET_LOGS_def SUBSCRIBE_ON_LOG_def
  START_MODULE_INSTALLATION_def PROCESS_MODULE_INSTALLATION_def START_MODULE_UPDATING_def
  PROCESS_MODULE_UPDATING_def REFRESH_MODULE_ARTIFACT_def UPDATE_MODULES_VERSION_def
  STOP_MODULE_def DELETE_MODULE_FROM_RESOURCE_def DELETE_MODULE_def GET_MODULE_def
  GET_MODULES_def SUBSCRIBE_ON_MODULE_def REINSTALL_MODULE_def RESTART_MODULE_def
  GET_FILTERED_MODULES_def CHECK_NETWORK_ACCESS_def ALLOCATE_FILE_def UPLOAD_FILE_def
  GET_FILE_def CLONE_FILE_def START_LOAD_TEST_def CANCEL_LOAD_TEST_def
  SAVE_LOAD_TEST_SCENARIO_def UPDATE_LOAD_TEST_SCENARIO_def GET_LOAD_TEST_SCENARIO_def
  GET_PROJECTS_LOAD_TEST_SCENARIOS_def GET_PROJECTS_LOAD_TESTS_def GET_LOAD_TEST_def
  DELETE_LOAD_TEST_SCENARIO_def SUBSCRIBE_ON_LOAD_TEST_def DELETE_LOAD_TEST_def
  ADD_FILEBEAT_APPLICATION_def GET_FILEBEAT_APPLICATION_def GET_FILEBEAT_APPLICATIONS_def
  GET_APPLICATIONS_IDS_def UPDATE_FILEBEAT_APPLICATION_def DELETE_FILEBEAT_APPLICATION_def
  GET_VERSION_def GET_PREPARED_CONFIGURATION_def GET_PREPARED_CONFIGURATIONS_def
  GET_FILTERED_PREPARED_CONFIGURATIONS_def ADD_PREPARED_CONFIGURATION_def
  UPDATE_PREPARED_CONFIGURATION_def DELETE_PREPARED_CONFIGURATION_def
  GET_PREPARED_CONFIGURATION_IDS_def RETRY_TIMEOUT_SECONDS_def

section \<open>Error codes of the service (\<open>constants/ErrorCodes.ts\<close>)\<close>

definition API_ERROR :: string where "API_ERROR = ''API_ERROR''"
definition UNAUTHORIZED :: string where "UNAUTHORIZED = ''UNAUTHORIZED''"
definition USER_DOES_NOT_EXISTS :: string where "USER_DOES_NOT_EXISTS = ''USER_DOES_NOT_EXISTS''"
definition INVALID_PASSWORD :: string where "INVALID_PASSWORD = ''INVALID_PASSWORD''"
definition USER_ALREADY_EXISTS :: string where "USER_ALREADY_EXISTS = ''USER_ALREADY_EXISTS''"
definition RESOURCE_ALREADY_EXISTS :: string where
  "RESOURCE_ALREADY_EXISTS = ''RESOURCE_ALREADY_EXISTS''"
definition RESOURCE_DOES_NOT_EXISTS :: string where
  "RESOURCE_DOES_NOT_EXISTS = ''RESOURCE_DOES_NOT_EXISTS''"
definition PROJECT_ALREADY_EXISTS :: string where
  "PROJECT_ALREADY_EXISTS = ''PROJECT_ALREADY_EXISTS''"
definition PROJECT_DOES_NOT_EXISTS :: string where
  "PROJECT_DOES_NOT_EXISTS = ''PROJECT_DOES_NOT_EXISTS''"
definition UNKNOWN_RESOURCE_TYPE :: string where
  "UNKNOWN_RESOURCE_TYPE = ''UNKNOWN_RESOURCE_TYPE''"
definition PROJECT_INITIALIZATION_ERROR :: string where
  "PROJECT_INITIALIZATION_ERROR = ''PROJECT_INITIALIZATION_ERROR''"
definition PLATFORM_ERROR :: string where "PLATFORM_ERROR = ''PLATFORM_ERROR''"
definition OPEN_SHIFT_ERROR :: string where "OPEN_SHIFT_ERROR = ''OPEN_SHIFT_ERROR''"
definition ASSEMBLY_DOES_NOT_EXISTS :: string where
  "ASSEMBLY_DOES_NOT_EXISTS = ''ASSEMBLY_DOES_NOT_EXISTS''"
definition BUILD_FAILED :: string where "BUILD_FAILED = ''BUILD_FAILED''"
definition GRADLE_BUILD_ERROR :: string where "GRADLE_BUILD_ERROR = ''GRADLE_BUILD_ERROR''"
definition LOG_DOES_NOT_EXISTS :: string where "LOG_DOES_NOT_EXISTS = ''LOG_DOES_NOT_EXISTS''"
definition MODULE_DOES_NOT_EXISTS :: string where
  "MODULE_DOES_NOT_EXISTS = ''MODULE_DOES_NOT_EXISTS''"
definition MODULE_ALREADY_EXISTS :: string where
  "MODULE_ALREADY_EXISTS = ''MODULE_ALREADY_EXISTS''"
definition FILE_DOES_NOT_EXISTS :: string where "FILE_DOES_NOT_EXISTS = ''FILE_DOES_NOT_EXISTS''"
definition INSTALLATION_FAILED :: string where "INSTALLATION_FAILED = ''INSTALLATION_FAILED''"
definition UPDATING_FAILED :: string where "UPDATING_FAILED = ''UPDATING_FAILED''"
definition STOPPING_FAILED :: string where "STOPPING_FAILED = ''SOPPING_FAILED''"
definition DELETING_FAILED :: string where "DELETING_FAILED = ''DELETING_FAILED''"
definition KNOWN_ERROR_CODES :: "string list" where
  "KNOWN_ERROR_CODES = [UNAUTHORIZED, USER_DOES_NOT_EXISTS, INVALID_PASSWORD]"

lemmas error_codes_defs =
  API_ERROR_def UNAUTHORIZED_def USER_DOES_NOT_EXISTS_def INVALID_PASSWORD_def
  USER_ALREADY_EXISTS_def RESOURCE_ALREADY_EXISTS_def RESOURCE_DOES_NOT_EXISTS_def
  PROJECT_ALREADY_EXISTS_def PROJECT_DOES_NOT_EXISTS_def UNKNOWN_RESOURCE_TYPE_def
  PROJECT_INITIALIZATION_ERROR_def PLATFORM_ERROR_def OPEN_SHIFT_ERROR_def
  ASSEMBLY_DOES_NOT_EXISTS_def BUILD_FAILED_def GRADLE_BUILD_ERROR_def LOG_DOES_NOT_EXISTS_def
  MODULE_DOES_NOT_EXISTS_def MODULE_ALREADY_EXISTS_def FILE_DOES_NOT_EXISTS_def
  INSTALLATION_FAILED_def UPDATING_FAILED_def STOPPING_FAILED_def DELETING_FAILED_def
  KNOWN_ERROR_CODES_def

section \<open>States of projects, assemblies, modules and load tests (\<open>constants/States.ts\<close>)\<close>

definition PROJECT_CREATED_STATE :: string where "PROJECT_CREATED_STATE = ''PROJECT_CREATED''"
definition PROJECT_INITIALIZED_STATE :: string where
  "PROJECT_INITIALIZED_STATE = ''PROJECT_INITIALIZED''"
definition PROJECT_INITIALIZATION_FAILED_STATE :: string where
  "PROJECT_INITIALIZATION_FAILED_STATE = ''PROJECT_INITIALIZATION_FAILED''"
definition PROJECT_RELOAD_STARTED_STATE :: string where
  "PROJECT_RELOAD_STARTED_STATE = ''PROJECT_REFRESH_STARTED''"
definition PROJECT_RELOADING_STATE :: string where
  "PROJECT_RELOADING_STATE = ''PROJECT_RELOADING''"
definition ASSEMBLY_STARTED_STATE :: string where "ASSEMBLY_STARTED_STATE = ''ASSEMBLY_STARTED''"
definition ASSEMBLY_DONE_STATE :: string where "ASSEMBLY_DONE_STATE = ''ASSEMBLY_DONE''"
definition ASSEMBLY_FAILED_STATE :: string where "ASSEMBLY_FAILED_STATE = ''ASSEMBLY_FAILED''"
definition ASSEMBLY_CANCELED_STATE :: string where
  "ASSEMBLY_CANCELED_STATE = ''ASSEMBLY_CANCELED''"
definition ASSEMBLY_STARTED_ON_RESOURCE_STATE :: string where
  "ASSEMBLY_STARTED_ON_RESOURCE_STATE = ''ASSEMBLY_STARTED_ON_RESOURCE''"
definition ASSEMBLY_BUILDING_STATE :: string where
  "ASSEMBLY_BUILDING_STATE = ''ASSEMBLY_BUILDING''"
definition ASSEMBLY_RESTARTED_STATE :: string where
  "ASSEMBLY_RESTARTED_STATE = ''ASSEMBLY_RESTARTED''"
definition MODULE_INSTALLING_STATE :: string where
  "MODULE_INSTALLING_STATE = ''MODULE_INSTALLING''"
definition MODULE_INSTALLATION_STARTED_STATE :: string where
  "MODULE_INSTALLATION_STARTED_STATE = ''MODULE_INSTALLATION_STARTED''"
definition MODULE_UPDATE_STARTED_STATE :: string where
  "MODULE_UPDATE_STARTED_STATE = ''MODULE_UPDATE_STARTED''"
definition MODULE_STOP_STARTED_STATE :: string where
  "MODULE_STOP_STARTED_STATE = ''MODULE_STOP_STARTED''"
definition MODULE_RESTART_STARTED_STATE :: string where
  "MODULE_RESTART_STARTED_STATE = ''MODULE_RESTART_STARTED''"
definition MODULE_UNINSTALL_STARTED_STATE :: string where
  "MODULE_UNINSTALL_STARTED_STATE = ''MODULE_UNINSTALL_STARTED''"
definition MODULE_UPDATING_STATE :: string where "MODULE_UPDATING_STATE = ''MODULE_UPDATING''"
definition MODULE_STOPPING_STATE :: string where "MODULE_STOPPING_STATE = ''MODULE_STOPPING''"
definition MODULE_RESTARTING_STATE :: string where
  "MODULE_RESTARTING_STATE = ''MODULE_RESTARTING''"
definition MODULE_UNINSTALLING_STATE :: string where
  "MODULE_UNINSTALLING_STATE = ''MODULE_UNINSTALLING''"
definition MODULE_NOT_INSTALLED_STATE :: string where
  "MODULE_NOT_INSTALLED_STATE = ''MODULE_NOT_INSTALLED''"
definition MODULE_INVALID_STATE :: string where "MODULE_INVALID_STATE = ''MODULE_INVALID''"
definition MODULE_RUN_STATE :: string where "MODULE_RUN_STATE = ''MODULE_RUN''"
definition MODULE_STOPPED_STATE :: string where "MODULE_STOPPED_STATE = ''MODULE_STOPPED''"
definition LOAD_TEST_STARTED_STATE :: string where
  "LOAD_TEST_STARTED_STATE = ''LOAD_TEST_STARTED''"
definition LOAD_TEST_DONE_STATE :: string where "LOAD_TEST_DONE_STATE = ''LOAD_TEST_DONE''"
definition LOAD_TEST_FAILED_STATE :: string where "LOAD_TEST_FAILED_STATE = ''LOAD_TEST_FAILED''"
definition LOAD_TEST_CANCELED_STATE :: string where
  "LOAD_TEST_CANCELED_STATE = ''LOAD_TEST_CANCELED''"
definition LOAD_TEST_STARTED_ON_RESOURCE_STATE :: string where
  "LOAD_TEST_STARTED_ON_RESOURCE_STATE = ''LOAD_TEST_STARTED_ON_RESOURCE''"
definition LOAD_TEST_RUNNING_STATE :: string where
  "LOAD_TEST_RUNNING_STATE = ''LOAD_TEST_RUNNING''"

lemmas states_defs =
  PROJECT_CREATED_STATE_def PROJECT_INITIALIZED_STATE_def PROJECT_INITIALIZATION_FAILED_STATE_def
  PROJECT_RELOAD_STARTED_STATE_def PROJECT_RELOADING_STATE_def ASSEMBLY_STARTED_STATE_def
  ASSEMBLY_DONE_STATE_def ASSEMBLY_FAILED_STATE_def ASSEMBLY_CANCELED_STATE_def
  ASSEMBLY_STARTED_ON_RESOURCE_STATE_def ASSEMBLY_BUILDING_STATE_def ASSEMBLY_RESTARTED_STATE_def
  MODULE_INSTALLING_STATE_def MODULE_INSTALLATION_STARTED_STATE_def
  MODULE_UPDATE_STARTED_STATE_def MODULE_STOP_STARTED_STATE_def MODULE_RESTART_STARTED_STATE_def
  MODULE_UNINSTALL_STARTED_STATE_def MODULE_UPDATING_STATE_def MODULE_STOPPING_STATE_def
  MODULE_RESTARTING_STATE_def MODULE_UNINSTALLING_STATE_def MODULE_NOT_INSTALLED_STATE_def
  MODULE_INVALID_STATE_def MODULE_RUN_STATE_def MODULE_STOPPED_STATE_def
  LOAD_TEST_STARTED_STATE_def LOAD_TEST_DONE_STATE_def LOAD_TEST_FAILED_STATE_def
  LOAD_TEST_CANCELED_STATE_def LOAD_TEST_STARTED_ON_RESOURCE_STATE_def
  LOAD_TEST_RUNNING_STATE_def

section \<open>Types of stream events (\<open>constants/EventTypes.ts\<close>)\<close>

definition ADD_EVENT :: string where "ADD_EVENT = ''added''"
definition UPDATE_EVENT :: string where "UPDATE_EVENT = ''updated''"
definition DELETE_EVENT :: string where "DELETE_EVENT = ''deleted''"

lemmas event_types_defs =
  ADD_EVENT_def UPDATE_EVENT_def DELETE_EVENT_def

section \<open>Paths of the pages (\<open>constants/Routers.ts\<close>)\<close>

definition SLASH :: string where "SLASH = ''/''"
definition PLATFORM_PATH :: string where "PLATFORM_PATH = ''/platform''"
definition AUTHORIZE_PATH :: string where "AUTHORIZE_PATH = PLATFORM_PATH @ ''/authorize''"
definition REGISTER_PATH :: string where "REGISTER_PATH = PLATFORM_PATH @ ''/register''"
definition PROJECTS_PATH :: string where "PROJECTS_PATH = PLATFORM_PATH @ ''/projects''"
definition RESOURCES_PATH :: string where "RESOURCES_PATH = PLATFORM_PATH @ ''/resources''"
definition ASSEMBLIES_PATH :: string where "ASSEMBLIES_PATH = PLATFORM_PATH @ ''/assemblies''"
definition MODULES_PATH :: string where "MODULES_PATH = PLATFORM_PATH @ ''/modules''"
definition CONFIGURATIONS_PATH :: string where
  "CONFIGURATIONS_PATH = PLATFORM_PATH @ ''/configurations''"
definition NETWORK_ACCESSES_PATH :: string where
  "NETWORK_ACCESSES_PATH = PLATFORM_PATH @ ''/networkAccesses''"
definition LOAD_TESTING_PATH :: string where
  "LOAD_TESTING_PATH = PLATFORM_PATH @ ''/loadTesting''"
definition ADMINISTRATION_PATH :: string where
  "ADMINISTRATION_PATH = PLATFORM_PATH @ ''/administration''"
definition APPLICATIONS_PATH :: string where
  "APPLICATIONS_PATH = PLATFORM_PATH @ ''/applications''"
definition ROUTING_DEFAULT_PATH :: string where "ROUTING_DEFAULT_PATH = PROJECTS_PATH"

lemmas routers_defs =
  SLASH_def PLATFORM_PATH_def AUTHORIZE_PATH_def REGISTER_PATH_def PROJECTS_PATH_def
  RESOURCES_PATH_def ASSEMBLIES_PATH_def MODULES_PATH_def CONFIGURATIONS_PATH_def
  NETWORK_ACCESSES_PATH_def LOAD_TESTING_PATH_def ADMINISTRATION_PATH_def APPLICATIONS_PATH_def
  ROUTING_DEFAULT_PATH_def

section \<open>Kinds of user rights (\<open>constants/UserRightType.ts\<close>)\<close>

definition RIGHT_ON_ALL :: string where "RIGHT_ON_ALL = ''ALL''"
definition RIGHT_ON_CONCRETE :: string where "RIGHT_ON_CONCRETE = ''CONCRETE''"

lemmas user_right_type_defs =
  RIGHT_ON_ALL_def RIGHT_ON_CONCRETE_def

section \<open>Resource types (\<open>constants/ResourceConstants.ts\<close>)\<close>

definition OPEN_SHIFT_RESOURCE :: string where "OPEN_SHIFT_RESOURCE = ''OPEN_SHIFT_RESOURCE''"
definition ARTIFACTS_RESOURCE :: string where "ARTIFACTS_RESOURCE = ''ARTIFACTS_RESOURCE''"
definition GIT_RESOURCE :: string where "GIT_RESOURCE = ''GIT_RESOURCE''"
definition PLATFORM_RESOURCE :: string where "PLATFORM_RESOURCE = ''PLATFORM_RESOURCE''"
definition PROXY_RESOURCE :: string where "PROXY_RESOURCE = ''PROXY_RESOURCE''"
definition EXECUTORS :: "string list" where "EXECUTORS = [OPEN_SHIFT_RESOURCE]"
definition REGISTRIES :: "string list" where
  "REGISTRIES = [OPEN_SHIFT_RESOURCE, ARTIFACTS_RESOURCE]"
definition PROXIES :: "string list" where "PROXIES = [PROXY_RESOURCE]"
definition ALL_RESOURCES :: "string list" where
  "ALL_RESOURCES = [ARTIFACTS_RESOURCE,
     OPEN_SHIFT_RESOURCE,
     GIT_RESOURCE,
     PLATFORM_RESOURCE,
     PROXY_RESOURCE]"

lemmas resource_constants_defs =
  OPEN_SHIFT_RESOURCE_def ARTIFACTS_RESOURCE_def GIT_RESOURCE_def PLATFORM_RESOURCE_def
  PROXY_RESOURCE_def EXECUTORS_def REGISTRIES_def PROXIES_def ALL_RESOURCES_def

section \<open>Limits of modules (\<open>constants/ModuleConstants.ts\<close>)\<close>

definition MODULE_MIN_COUNT :: int where "MODULE_MIN_COUNT = 1"
definition MODULE_MAX_COUNT :: int where "MODULE_MAX_COUNT = 10"
definition MAX_MODULES_FILE_COUNT :: int where "MAX_MODULES_FILE_COUNT = 5"
definition MAX_MODULES_FILE_SIZE_BYTES :: int where "MAX_MODULES_FILE_SIZE_BYTES = 20 * 1024"
definition MAX_MODULE_NAME_SIZE :: int where "MAX_MODULE_NAME_SIZE = 63"
definition MODULE_CONFIGURATION_EDITOR_HEIGHT :: int where
  "MODULE_CONFIGURATION_EDITOR_HEIGHT = 250"
definition MODULE_APPLICATION_CONFIGURATION_EDITOR_HEIGHT :: int where
  "MODULE_APPLICATION_CONFIGURATION_EDITOR_HEIGHT = 250"

lemmas module_constants_defs =
  MODULE_MIN_COUNT_def MODULE_MAX_COUNT_def MAX_MODULES_FILE_COUNT_def
  MAX_MODULES_FILE_SIZE_BYTES_def MAX_MODULE_NAME_SIZE_def MODULE_CONFIGURATION_EDITOR_HEIGHT_def
  MODULE_APPLICATION_CONFIGURATION_EDITOR_HEIGHT_def

section \<open>Network access checks (\<open>constants/NetworkConstants.ts\<close>)\<close>

definition NETWORK_CHECKING_TIMEOUT :: int where "NETWORK_CHECKING_TIMEOUT = 10"
definition DEFAULT_PORT :: string where "DEFAULT_PORT = ''80''"

lemmas network_constants_defs =
  NETWORK_CHECKING_TIMEOUT_def DEFAULT_PORT_def

section \<open>Cookies (\<open>constants/Cookies.ts\<close>)\<close>

definition TOKEN_COOKIE :: string where "TOKEN_COOKIE = ''token''"
definition THEME_COOKIE :: string where "THEME_COOKIE = ''theme''"

lemmas cookies_defs =
  TOKEN_COOKIE_def THEME_COOKIE_def

section \<open>Property sources (\<open>constants/PropertySources.ts\<close>)\<close>

definition TEXT_PROPERTY :: string where "TEXT_PROPERTY = ''TEXT''"
definition VERSION_PROPERTY :: string where "VERSION_PROPERTY = ''VERSION''"
definition RESOURCE_PROPERTY :: string where "RESOURCE_PROPERTY = ''RESOURCE''"

lemmas property_sources_defs =
  TEXT_PROPERTY_def VERSION_PROPERTY_def RESOURCE_PROPERTY_def

section \<open>Keys of the context registry (\<open>constants/ContextConstants.ts\<close>)\<close>

definition PROJECTS_CONTEXT :: string where "PROJECTS_CONTEXT = ''PROJECT_CONTEXT''"
definition RESOURCES_CONTEXT :: string where "RESOURCES_CONTEXT = ''RESOURCES_CONTEXT''"
definition ASSEMBLIES_CONTEXT :: string where "ASSEMBLIES_CONTEXT = ''ASSEMBLIES_CONTEXT''"
definition MODULES_CONTEXT :: string where "MODULES_CONTEXT = ''MODULES_CONTEXT''"
definition PREPARED_CONFIGURATIONS_CONTEXT :: string where
  "PREPARED_CONFIGURATIONS_CONTEXT = ''PREPARED_CONFIGURATIONS_CONTEXT''"
definition APPLICATIONS_CONTEXT :: string where "APPLICATIONS_CONTEXT = ''APPLICATIONS_CONTEXT''"
definition NETWORK_ACCESSES_CONTEXT :: string where
  "NETWORK_ACCESSES_CONTEXT = ''NETWORK_ACCESSES_CONTEXT''"
definition ADMINISTRATION_CONTEXT :: string where
  "ADMINISTRATION_CONTEXT = ''ADMINISTRATION_CONTEXT''"

lemmas context_constants_defs =
  PROJECTS_CONTEXT_def RESOURCES_CONTEXT_def ASSEMBLIES_CONTEXT_def MODULES_CONTEXT_def
  PREPARED_CONFIGURATIONS_CONTEXT_def APPLICATIONS_CONTEXT_def NETWORK_ACCESSES_CONTEXT_def
  ADMINISTRATION_CONTEXT_def

section \<open>Application types (\<open>constants/ApplicationConstants.ts\<close>)\<close>

definition FILEBEAT_APPLICATION :: string where "FILEBEAT_APPLICATION = ''FILEBEAT_APPLICATION''"
definition FILEBEAT_CONFIG_FILE :: string where "FILEBEAT_CONFIG_FILE = ''filebeat.yml''"
definition ALL_APPLICATIONS :: "string list" where "ALL_APPLICATIONS = [FILEBEAT_APPLICATION]"

lemmas application_constants_defs =
  FILEBEAT_APPLICATION_def FILEBEAT_CONFIG_FILE_def ALL_APPLICATIONS_def

section \<open>Assemblies (\<open>constants/AssemblyConstants.ts\<close>)\<close>

definition MAX_ASSEMBLIES :: int where "MAX_ASSEMBLIES = 30"

lemmas assembly_constants_defs =
  MAX_ASSEMBLIES_def

section \<open>Configuration files (\<open>constants/ConfigurationConstants.ts\<close>)\<close>

definition CONFIGURATION_FILE_FORMATS :: "string list" where
  "CONFIGURATION_FILE_FORMATS = [''xml'',
     ''yml'',
     ''yaml'',
     ''groovy'',
     ''properties'',
     ''json'',
     ''conf'',
     ''js'',
     ''ts'']"

lemmas configuration_constants_defs =
  CONFIGURATION_FILE_FORMATS_def

section \<open>Files (\<open>constants/FileConstants.ts\<close>)\<close>

definition FILE_CHUNK_SIZE :: int where "FILE_CHUNK_SIZE = 1024"

lemmas file_constants_defs =
  FILE_CHUNK_SIZE_def

section \<open>Gradle (\<open>constants/GradleConstants.ts\<close>)\<close>

definition GRADLE_GROOVY_SCRIPT_FORMAT :: string where "GRADLE_GROOVY_SCRIPT_FORMAT = ''groovy''"
definition GRADLE_KTS_SCRIPT_FORMAT :: string where "GRADLE_KTS_SCRIPT_FORMAT = ''kts''"
definition GRADLE_VERSION_6_0_1 :: string where "GRADLE_VERSION_6_0_1 = ''6.0.1''"
definition GRADLE_VERSION_5_6_1 :: string where "GRADLE_VERSION_5_6_1 = ''5.6.1''"
definition GRADLE_VERSIONS :: "string list" where
  "GRADLE_VERSIONS = [GRADLE_VERSION_5_6_1, GRADLE_VERSION_6_0_1]"

lemmas gradle_constants_defs =
  GRADLE_GROOVY_SCRIPT_FORMAT_def GRADLE_KTS_SCRIPT_FORMAT_def GRADLE_VERSION_6_0_1_def
  GRADLE_VERSION_5_6_1_def GRADLE_VERSIONS_def

section \<open>JDK (\<open>constants/JavaConstants.ts\<close>)\<close>

definition JDK_VERSION_1_8 :: string where "JDK_VERSION_1_8 = ''1.8''"
definition JDK_VERSION_11 :: string where "JDK_VERSION_11 = ''11''"
definition JDK_VERSIONS :: "string list" where "JDK_VERSIONS = [JDK_VERSION_1_8, JDK_VERSION_11]"

lemmas java_constants_defs =
  JDK_VERSION_1_8_def JDK_VERSION_11_def JDK_VERSIONS_def

section \<open>Technology names (\<open>constants/TechnologyConstants.ts\<close>)\<close>

definition GRADLE :: string where "GRADLE = ''gradle''"
definition GATLING :: string where "GATLING = ''gatling''"
definition NPM :: string where "NPM = ''npm''"
definition YARN :: string where "YARN = ''yarn''"
definition DOCKER :: string where "DOCKER = ''docker''"
definition MAVEN :: string where "MAVEN = ''maven''"
definition JAVA :: string where "JAVA = ''java''"
definition JAR :: string where "JAR = ''JAR''"
definition JVM :: string where "JVM = ''jvm''"
definition JS :: string where "JS = ''js''"
definition KOTLIN :: string where "KOTLIN = ''kotlin''"
definition GROOVY :: string where "GROOVY = ''groovy''"
definition TS :: string where "TS = ''ts''"
definition ENVOY :: string where "ENVOY = ''envoy''"
definition NGINX :: string where "NGINX = ''nginx''"
definition CADDY :: string where "CADDY = ''caddy''"
definition ARTIFACT_FORMATS :: "string list" where "ARTIFACT_FORMATS = [DOCKER]"
definition OPEN_SHIFT_ARTIFACT_FORMATS :: "string list" where
  "OPEN_SHIFT_ARTIFACT_FORMATS = [DOCKER]"
definition DEFAULT_ARTIFACT_ARCHIVE_FORMAT :: string where
  "DEFAULT_ARTIFACT_ARCHIVE_FORMAT = DOCKER"
definition DOCKER_CONTAINERS :: "string list" where "DOCKER_CONTAINERS = [NGINX, JVM]"
definition DEFAULT_DOCKER_CONTAINER :: string where "DEFAULT_DOCKER_CONTAINER = NGINX"

lemmas technology_constants_defs =
  GRADLE_def GATLING_def NPM_def YARN_def DOCKER_def MAVEN_def JAVA_def JAR_def JVM_def JS_def
  KOTLIN_def GROOVY_def TS_def ENVOY_def NGINX_def CADDY_def ARTIFACT_FORMATS_def
  OPEN_SHIFT_ARTIFACT_FORMATS_def DEFAULT_ARTIFACT_ARCHIVE_FORMAT_def DOCKER_CONTAINERS_def
  DEFAULT_DOCKER_CONTAINER_def

section \<open>Widgets (\<open>constants/WidgetsConstants.ts\<close>)\<close>

definition MAIN_COMPONENT :: string where "MAIN_COMPONENT = ''MainComponent''"
definition MAX_SNAKES :: int where "MAX_SNAKES = 3"
definition MIN_DRAWER_WIDTH :: int where "MIN_DRAWER_WIDTH = 250"

lemmas widgets_constants_defs =
  MAIN_COMPONENT_def MAX_SNAKES_def MIN_DRAWER_WIDTH_def

end
