(* ===== verification/Catalog.thy ===== *)
theory Catalog
  imports Constants Model
begin

text \<open>
  The decision tables over the constants: how a module's state is named and coloured
  (\<open>constants/ModuleStateConstants.ts\<close>), which states mean that a module or an assembly is changing
  (\<open>service/ModuleService.ts\<close>, \<open>service/AssemblyService.ts\<close>), the technologies and artifact formats
  (\<open>constants/TechnologyConstants.ts\<close>), the attributes shown for a resource
  (\<open>constants/ResourcesAttributes.ts\<close>) and the actions of the side bar
  (\<open>constants/UserActions.ts\<close>, \<open>constants/SideBarActions.tsx\<close>). A Russian text is a constructor of a
  label datatype, a Material UI colour the pair of its hue and shade.
\<close>

section \<open>Module states\<close>

datatype colour = Purple int | Orange int | Light_blue int | Grey int | Red int | Green int

datatype module_label =
    Label_installing | Label_updating | Label_stopping | Label_starting | Label_uninstalling
  | Label_stopped | Label_not_installed | Label_invalid | Label_running

datatype palette = Dark | Light

definition MODULE_INSTALLING_BACKGROUND_LIGHT :: colour where "MODULE_INSTALLING_BACKGROUND_LIGHT = Purple 800"
definition MODULE_CHANGING_BACKGROUND_LIGHT :: colour where "MODULE_CHANGING_BACKGROUND_LIGHT = Orange 700"
definition MODULE_STOPPED_BACKGROUND_LIGHT :: colour where "MODULE_STOPPED_BACKGROUND_LIGHT = Light_blue 700"
definition MODULE_NOT_INSTALLED_BACKGROUND_LIGHT :: colour where
  "MODULE_NOT_INSTALLED_BACKGROUND_LIGHT = Grey 700"
definition MODULE_INVALID_BACKGROUND_LIGHT :: colour where "MODULE_INVALID_BACKGROUND_LIGHT = Red 700"
definition MODULE_RUNNING_BACKGROUND_LIGHT :: colour where "MODULE_RUNNING_BACKGROUND_LIGHT = Green 700"
definition MODULE_INSTALLING_BACKGROUND_DARK :: colour where "MODULE_INSTALLING_BACKGROUND_DARK = Purple 800"
definition MODULE_CHANGING_BACKGROUND_DARK :: colour where "MODULE_CHANGING_BACKGROUND_DARK = Orange 700"
definition MODULE_STOPPED_BACKGROUND_DARK :: colour where "MODULE_STOPPED_BACKGROUND_DARK = Light_blue 700"
definition MODULE_NOT_INSTALLED_BACKGROUND_DARK :: colour where
  "MODULE_NOT_INSTALLED_BACKGROUND_DARK = Grey 700"
definition MODULE_INVALID_BACKGROUND_DARK :: colour where "MODULE_INVALID_BACKGROUND_DARK = Red 700"
definition MODULE_RUNNING_BACKGROUND_DARK :: colour where "MODULE_RUNNING_BACKGROUND_DARK = Green 700"

lemmas background_defs =
  MODULE_INSTALLING_BACKGROUND_LIGHT_def MODULE_CHANGING_BACKGROUND_LIGHT_def
  MODULE_STOPPED_BACKGROUND_LIGHT_def MODULE_NOT_INSTALLED_BACKGROUND_LIGHT_def
  MODULE_INVALID_BACKGROUND_LIGHT_def MODULE_RUNNING_BACKGROUND_LIGHT_def
  MODULE_INSTALLING_BACKGROUND_DARK_def MODULE_CHANGING_BACKGROUND_DARK_def
  MODULE_STOPPED_BACKGROUND_DARK_def MODULE_NOT_INSTALLED_BACKGROUND_DARK_def
  MODULE_INVALID_BACKGROUND_DARK_def MODULE_RUNNING_BACKGROUND_DARK_def

record filterable_state =
  filterable_state_id :: string
  filterable_label :: module_label
  filterable_color :: colour

definition MODULE_FILTERABLE_STATES :: "filterable_state list list" where
  "MODULE_FILTERABLE_STATES =
     [[\<lparr>filterable_state_id = MODULE_INSTALLING_STATE, filterable_label = Label_installing,
        filterable_color = Purple 800\<rparr>,
       \<lparr>filterable_state_id = MODULE_RUN_STATE, filterable_label = Label_running,
        filterable_color = Green 700\<rparr>,
       \<lparr>filterable_state_id = MODULE_INVALID_STATE, filterable_label = Label_invalid,
        filterable_color = Red 700\<rparr>,
       \<lparr>filterable_state_id = MODULE_STOPPED_STATE, filterable_label = Label_stopped,
        filterable_color = Light_blue 700\<rparr>,
       \<lparr>filterable_state_id = MODULE_NOT_INSTALLED_STATE, filterable_label = Label_not_installed,
        filterable_color = Grey 700\<rparr>],
      [\<lparr>filterable_state_id = MODULE_RESTARTING_STATE, filterable_label = Label_starting,
        filterable_color = Orange 700\<rparr>,
       \<lparr>filterable_state_id = MODULE_UPDATING_STATE, filterable_label = Label_updating,
        filterable_color = Orange 700\<rparr>,
       \<lparr>filterable_state_id = MODULE_STOPPING_STATE, filterable_label = Label_stopping,
        filterable_color = Orange 700\<rparr>,
       \<lparr>filterable_state_id = MODULE_UNINSTALLING_STATE, filterable_label = Label_uninstalling,
        filterable_color = Orange 700\<rparr>]]"

definition translate_module_state_to_human :: "string \<Rightarrow> module_label" where
  "translate_module_state_to_human state =
     (if state = MODULE_INSTALLATION_STARTED_STATE \<or> state = MODULE_INSTALLING_STATE
      then Label_installing
      else if state = MODULE_UPDATE_STARTED_STATE \<or> state = MODULE_UPDATING_STATE then Label_updating
      else if state = MODULE_STOP_STARTED_STATE \<or> state = MODULE_STOPPING_STATE then Label_stopping
      else if state = MODULE_RESTART_STARTED_STATE \<or> state = MODULE_RESTARTING_STATE
      then Label_starting
      else if state = MODULE_UNINSTALL_STARTED_STATE \<or> state = MODULE_UNINSTALLING_STATE
      then Label_uninstalling
      else if state = MODULE_STOPPED_STATE then Label_stopped
      else if state = MODULE_NOT_INSTALLED_STATE then Label_not_installed
      else if state = MODULE_INVALID_STATE then Label_invalid
      else if state = MODULE_RUN_STATE then Label_running
      else Label_invalid)"

text \<open>The eight states the three colour tables group as \<open>case\<close> labels of one branch.\<close>

abbreviation changing_case :: "string \<Rightarrow> bool" where
  "changing_case state \<equiv>
     state = MODULE_UPDATE_STARTED_STATE \<or> state = MODULE_UPDATING_STATE \<or>
     state = MODULE_RESTART_STARTED_STATE \<or> state = MODULE_RESTARTING_STATE \<or>
     state = MODULE_UNINSTALL_STARTED_STATE \<or> state = MODULE_UNINSTALLING_STATE \<or>
     state = MODULE_STOP_STARTED_STATE \<or> state = MODULE_STOPPING_STATE"

definition calculate_module_state_color :: "string \<Rightarrow> palette \<Rightarrow> colour" where
  "calculate_module_state_color state theme =
     (if state = MODULE_INSTALLATION_STARTED_STATE \<or> state = MODULE_INSTALLING_STATE
      then if theme = Dark then MODULE_INSTALLING_BACKGROUND_DARK else MODULE_INSTALLING_BACKGROUND_LIGHT
      else if changing_case state
      then if theme = Dark then MODULE_CHANGING_BACKGROUND_DARK else MODULE_CHANGING_BACKGROUND_LIGHT
      else if state = MODULE_STOPPED_STATE
      then if theme = Dark then MODULE_STOPPED_BACKGROUND_DARK else MODULE_STOPPED_BACKGROUND_LIGHT
      else if state = MODULE_NOT_INSTALLED_STATE
      then if theme = Dark then MODULE_NOT_INSTALLED_BACKGROUND_DARK
           else MODULE_NOT_INSTALLED_BACKGROUND_LIGHT
      else if state = MODULE_INVALID_STATE
      then if theme = Dark then MODULE_INVALID_BACKGROUND_DARK else MODULE_INVALID_BACKGROUND_LIGHT
      else if state = MODULE_RUN_STATE
      then if theme = Dark then MODULE_RUNNING_BACKGROUND_DARK else MODULE_RUNNING_BACKGROUND_LIGHT
      else if theme = Dark then MODULE_INVALID_BACKGROUND_DARK else MODULE_INVALID_BACKGROUND_LIGHT)"

definition calculate_module_state_chip_styles :: "string \<Rightarrow> string" where
  "calculate_module_state_chip_styles state =
     (if state = MODULE_INSTALLATION_STARTED_STATE \<or> state = MODULE_INSTALLING_STATE
      then ''installingChip''
      else if changing_case state then ''changingChip''
      else if state = MODULE_STOPPED_STATE then ''stoppedChip''
      else if state = MODULE_NOT_INSTALLED_STATE then ''notInstalledChip''
      else if state = MODULE_INVALID_STATE then ''invalidChip''
      else if state = MODULE_RUN_STATE then ''runningChip''
      else ''invalidChip'')"

definition calculate_module_state_chip_color :: "string \<Rightarrow> colour" where
  "calculate_module_state_chip_color state =
     (if state = MODULE_INSTALLATION_STARTED_STATE \<or> state = MODULE_INSTALLING_STATE then Purple 800
      else if changing_case state then Orange 700
      else if state = MODULE_STOPPED_STATE then Light_blue 700
      else if state = MODULE_NOT_INSTALLED_STATE then Grey 700
      else if state = MODULE_INVALID_STATE then Red 700
      else if state = MODULE_RUN_STATE then Green 700
      else Green 700)"

definition module_is_changing :: "'a module_information_scheme \<Rightarrow> bool" where
  "module_is_changing m =
     (if mod_state m \<in> {MODULE_NOT_INSTALLED_STATE, MODULE_INVALID_STATE, MODULE_STOPPED_STATE,
                        MODULE_RUN_STATE}
      then False
      else if mod_state m \<in>
        {MODULE_INSTALLATION_STARTED_STATE, MODULE_UPDATE_STARTED_STATE, MODULE_RESTARTING_STATE,
         MODULE_UPDATING_STATE, MODULE_INSTALLING_STATE, MODULE_UNINSTALL_STARTED_STATE,
         MODULE_RESTART_STARTED_STATE, MODULE_STOP_STARTED_STATE, MODULE_STOPPING_STATE,
         MODULE_UNINSTALLING_STATE}
      then True
      else False)"

text \<open>\<open>createModuleName\<close> of a configuration's name and artifact (the two types it accepts share them).\<close>

definition create_module_name :: "string option \<Rightarrow> assembled_artifact \<Rightarrow> string" where
  "create_module_name name artifact =
     (if truthy_string name then the name
      else artifact_name artifact @ ''-'' @ artifact_version artifact)"

definition assembly_is_running :: "'a assembly_information_scheme option \<Rightarrow> bool" where
  "assembly_is_running assembly =
     (case assembly of
        None \<Rightarrow> False
      | Some a \<Rightarrow>
          assembly_state a = ASSEMBLY_BUILDING_STATE \<or> assembly_state a = ASSEMBLY_RESTARTED_STATE \<or>
          assembly_state a = ASSEMBLY_STARTED_ON_RESOURCE_STATE)"

section \<open>Technologies\<close>

datatype technology_description =
    Load_testing | Jvm_and_cpp_builds | Js_builds | Container_runtime | Java_builds | Backend_language
  | Jvm_executable_archive | Java_virtual_machine | Backend_and_test_language | Web_language
  | Balancer_and_proxy | Web_server

record technology =
  technology_name :: string
  technology_description_reference :: string
  technology_description_label :: string
  technology_description_text :: technology_description
  technology_icon :: string
  technology_width :: int
  technology_height :: int

abbreviation technology_entry ::
  "string \<Rightarrow> string \<Rightarrow> string \<Rightarrow> technology_description \<Rightarrow> string \<Rightarrow> int \<Rightarrow> int \<Rightarrow> technology" where
  "technology_entry name reference label description icon width height \<equiv>
     \<lparr>technology_name = name, technology_description_reference = reference,
      technology_description_label = label, technology_description_text = description,
      technology_icon = icon, technology_width = width, technology_height = height\<rparr>"

definition TECHNOLOGIES :: "technology list" where
  "TECHNOLOGIES =
     [technology_entry GATLING ''https://gatling.io/'' ''Gatling'' Load_testing ''gatling.png'' 50 50,
      technology_entry GRADLE ''https://gradle.org/'' ''Gradle'' Jvm_and_cpp_builds ''gradle.png'' 50 50,
      technology_entry NPM ''https://www.npmjs.com/'' ''NPM'' Js_builds ''npm.jpg'' 50 50,
      technology_entry YARN ''https://yarnpkg.com/'' ''YARN'' Js_builds ''yarn.jpg'' 50 50,
      technology_entry DOCKER ''https://www.docker.com/'' ''Docker'' Container_runtime ''docker.png'' 50 50,
      technology_entry MAVEN ''https://maven.apache.org/'' ''Maven'' Java_builds ''maven.png'' 50 50,
      technology_entry JAVA ''https://www.java.com/'' ''Java'' Backend_language ''java.webp'' 50 50,
      technology_entry JAR ''https://www.java.com/'' ''JAR'' Jvm_executable_archive ''java.webp'' 50 50,
      technology_entry JVM ''https://www.java.com/'' ''JVM'' Java_virtual_machine ''java.webp'' 50 50,
      technology_entry KOTLIN ''https://kotlinlang.org/'' ''Kotlin'' Backend_language ''kotlin.png'' 50 50,
      technology_entry GROOVY ''http://groovy-lang.org/'' ''Groovy'' Backend_and_test_language ''groovy.png'' 50 50,
      technology_entry JS ''https://developer.mozilla.org/ru/docs/Web/JavaScript'' ''JavaScript'' Web_language ''js.png'' 50 50,
      technology_entry TS ''https://www.typescriptlang.org/'' ''TypeScript'' Web_language ''typescript.svg'' 50 50,
      technology_entry ENVOY ''https://www.envoyproxy.io/'' ''Envoy'' Balancer_and_proxy ''envoy.png'' 50 50,
      technology_entry NGINX ''https://nginx.org'' ''Nginx'' Web_server ''nginx.png'' 50 50,
      technology_entry CADDY ''https://caddyserver.com/'' ''Caddy'' Web_server ''caddy.jpg'' 50 50]"

definition technologies_of :: "string list \<Rightarrow> technology list" where
  "technologies_of names =
     concat (map (\<lambda>name. filter (\<lambda>technology. technology_name technology = name) TECHNOLOGIES) names)"

definition technology_of :: "string \<Rightarrow> technology option" where
  "technology_of name = find (\<lambda>technology. technology_name technology = name) TECHNOLOGIES"

definition artifact_formats_of :: "resource_identifier \<Rightarrow> string list" where
  "artifact_formats_of resource =
     (if rid_type resource = ARTIFACTS_RESOURCE then ARTIFACT_FORMATS
      else if rid_type resource = OPEN_SHIFT_RESOURCE then OPEN_SHIFT_ARTIFACT_FORMATS
      else [])"

section \<open>Resource attributes\<close>

datatype attribute_label =
    Api_url | Applications_domain | Private_registry_url | User_name | Password | Url

definition open_shift_attributes ::
  "open_shift_resource \<Rightarrow> (attribute_label \<times> string \<times> bool option) list" where
  "open_shift_attributes resource =
     [(Api_url, open_shift_resource_api_url resource, None),
      (Applications_domain, open_shift_resource_applications_domain resource, None),
      (Private_registry_url, open_shift_resource_private_registry_url resource, None),
      (User_name, open_shift_resource_user_name resource, None),
      (Password, open_shift_resource_password resource, Some True)]"

definition git_attributes :: "git_resource \<Rightarrow> (attribute_label \<times> string \<times> bool option) list" where
  "git_attributes resource =
     [(Url, git_resource_url resource, None),
      (User_name, git_resource_user_name resource, None),
      (Password, git_resource_password resource, Some True)]"

definition artifacts_attributes ::
  "artifacts_resource \<Rightarrow> (attribute_label \<times> string \<times> bool option) list" where
  "artifacts_attributes resource =
     [(Url, artifacts_resource_url resource, None),
      (User_name, artifacts_resource_user_name resource, None),
      (Password, artifacts_resource_password resource, Some True)]"

section \<open>Actions of the user\<close>

datatype action_label =
    Label_projects | Label_assemblies | Label_resources | Label_modules | Label_configurations
  | Label_accesses | Label_load_tests | Label_administration | Label_applications

record user_action =
  action_action :: string
  action_label :: action_label

definition PROJECTS_MANAGEMENT :: user_action where
  "PROJECTS_MANAGEMENT = \<lparr>action_action = ''PROJECTS_MANAGEMENT'', action_label = Label_projects\<rparr>"
definition ASSEMBLIES_MANAGEMENT :: user_action where
  "ASSEMBLIES_MANAGEMENT = \<lparr>action_action = ''ASSEMBLIES_MANAGEMENT'', action_label = Label_assemblies\<rparr>"
definition RESOURCES_MANAGEMENT :: user_action where
  "RESOURCES_MANAGEMENT = \<lparr>action_action = ''RESOURCES_MANAGEMENT'', action_label = Label_resources\<rparr>"
definition MODULES_MANAGEMENT :: user_action where
  "MODULES_MANAGEMENT = \<lparr>action_action = ''MODULES_MANAGEMENT'', action_label = Label_modules\<rparr>"
definition CONFIGURATIONS_MANAGEMENT :: user_action where
  "CONFIGURATIONS_MANAGEMENT = \<lparr>action_action = ''CONFIGURATIONS_MANAGEMENT'', action_label = Label_configurations\<rparr>"
definition NETWORK_ACCESSES_CHECKING :: user_action where
  "NETWORK_ACCESSES_CHECKING = \<lparr>action_action = ''NETWORK_ACCESSES_CHECKING'', action_label = Label_accesses\<rparr>"
definition LOAD_TESTS_MANAGEMENT :: user_action where
  "LOAD_TESTS_MANAGEMENT = \<lparr>action_action = ''LOAD_TESTS_MANAGEMENT'', action_label = Label_load_tests\<rparr>"
definition ADMINISTRATION :: user_action where
  "ADMINISTRATION = \<lparr>action_action = ''ADMINISTRATION'', action_label = Label_administration\<rparr>"
definition APPLICATIONS_MANAGEMENT :: user_action where
  "APPLICATIONS_MANAGEMENT = \<lparr>action_action = ''APPLICATIONS_MANAGEMENT'', action_label = Label_applications\<rparr>"

lemmas user_action_defs =
  PROJECTS_MANAGEMENT_def ASSEMBLIES_MANAGEMENT_def RESOURCES_MANAGEMENT_def
  MODULES_MANAGEMENT_def CONFIGURATIONS_MANAGEMENT_def NETWORK_ACCESSES_CHECKING_def
  LOAD_TESTS_MANAGEMENT_def ADMINISTRATION_def APPLICATIONS_MANAGEMENT_def

text \<open>An item of the side bar; the icon is the name of the Material UI icon it wraps.\<close>

datatype side_bar_text =
    Item_projects | Item_resources | Item_assemblies | Item_modules | Item_configurations
  | Item_accesses | Item_applications | Item_administration

record side_bar_action =
  side_bar_action_id :: string
  side_bar_icon :: string
  side_bar_text :: side_bar_text
  side_bar_path :: string

definition SIDE_BAR_ACTIONS :: "side_bar_action list" where
  "SIDE_BAR_ACTIONS =
     [\<lparr>side_bar_action_id = action_action PROJECTS_MANAGEMENT,
       side_bar_icon = ''FeaturedPlayList'', side_bar_text = Item_projects,
       side_bar_path = PROJECTS_PATH\<rparr>,
      \<lparr>side_bar_action_id = action_action RESOURCES_MANAGEMENT,
       side_bar_icon = ''Computer'', side_bar_text = Item_resources,
       side_bar_path = RESOURCES_PATH\<rparr>,
      \<lparr>side_bar_action_id = action_action ASSEMBLIES_MANAGEMENT,
       side_bar_icon = ''LoopOutlined'', side_bar_text = Item_assemblies,
       side_bar_path = ASSEMBLIES_PATH\<rparr>,
      \<lparr>side_bar_action_id = action_action MODULES_MANAGEMENT,
       side_bar_icon = ''ViewModule'', side_bar_text = Item_modules,
       side_bar_path = MODULES_PATH\<rparr>,
      \<lparr>side_bar_action_id = action_action CONFIGURATIONS_MANAGEMENT,
       side_bar_icon = ''TuneOutlined'', side_bar_text = Item_configurations,
       side_bar_path = CONFIGURATIONS_PATH\<rparr>,
      \<lparr>side_bar_action_id = action_action NETWORK_ACCESSES_CHECKING,
       side_bar_icon = ''Router'', side_bar_text = Item_accesses,
       side_bar_path = NETWORK_ACCESSES_PATH\<rparr>,
      \<lparr>side_bar_action_id = action_action APPLICATIONS_MANAGEMENT,
       side_bar_icon = ''Category'', side_bar_text = Item_applications,
       side_bar_path = APPLICATIONS_PATH\<rparr>,
      \<lparr>side_bar_action_id = action_action ADMINISTRATION,
       side_bar_icon = ''AccountBox'', side_bar_text = Item_administration,
       side_bar_path = ADMINISTRATION_PATH\<rparr>]"

definition action_of_path :: "string \<Rightarrow> side_bar_action option" where
  "action_of_path path = find (\<lambda>action. side_bar_path action = path) SIDE_BAR_ACTIONS"

section \<open>Properties\<close>

definition module_states :: "string list" where
  "module_states =
     [MODULE_INSTALLING_STATE, MODULE_INSTALLATION_STARTED_STATE, MODULE_UPDATE_STARTED_STATE,
      MODULE_STOP_STARTED_STATE, MODULE_RESTART_STARTED_STATE, MODULE_UNINSTALL_STARTED_STATE,
      MODULE_UPDATING_STATE, MODULE_STOPPING_STATE, MODULE_RESTARTING_STATE, MODULE_UNINSTALLING_STATE,
      MODULE_NOT_INSTALLED_STATE, MODULE_INVALID_STATE, MODULE_RUN_STATE, MODULE_STOPPED_STATE]"

lemma distinct_module_states: "distinct module_states"
  by (simp add: module_states_def states_defs)

text \<open>A state outside the list falls through every \<open>case\<close>.\<close>

lemma unknown_state:
  assumes "state \<notin> set module_states"
  shows "calculate_module_state_color state theme = Red 700"
    and "calculate_module_state_chip_color state = Green 700"
    and "calculate_module_state_chip_styles state = ''invalidChip''"
    and "translate_module_state_to_human state = Label_invalid"
  using assms
  by (simp_all add: module_states_def calculate_module_state_color_def background_defs
      calculate_module_state_chip_color_def calculate_module_state_chip_styles_def
      translate_module_state_to_human_def)

lemma module_is_changing_eq:
  "module_is_changing m \<longleftrightarrow>
     mod_state m \<in> {MODULE_INSTALLATION_STARTED_STATE, MODULE_UPDATE_STARTED_STATE,
      MODULE_RESTARTING_STATE, MODULE_UPDATING_STATE, MODULE_INSTALLING_STATE,
      MODULE_UNINSTALL_STARTED_STATE, MODULE_RESTART_STARTED_STATE, MODULE_STOP_STARTED_STATE,
      MODULE_STOPPING_STATE, MODULE_UNINSTALLING_STATE}"
proof -
  have "{MODULE_NOT_INSTALLED_STATE, MODULE_INVALID_STATE, MODULE_STOPPED_STATE, MODULE_RUN_STATE} \<inter>
    {MODULE_INSTALLATION_STARTED_STATE, MODULE_UPDATE_STARTED_STATE,
      MODULE_RESTARTING_STATE, MODULE_UPDATING_STATE, MODULE_INSTALLING_STATE,
      MODULE_UNINSTALL_STARTED_STATE, MODULE_RESTART_STARTED_STATE, MODULE_STOP_STARTED_STATE,
      MODULE_STOPPING_STATE, MODULE_UNINSTALLING_STATE} = {}"
    by (simp add: states_defs)
  then show ?thesis unfolding module_is_changing_def by (simp only: split: if_split) blast
qed

lemma changing_states:
  "list_all (\<lambda>state. state \<in> {MODULE_INSTALLATION_STARTED_STATE, MODULE_UPDATE_STARTED_STATE,
      MODULE_RESTARTING_STATE, MODULE_UPDATING_STATE, MODULE_INSTALLING_STATE,
      MODULE_UNINSTALL_STARTED_STATE, MODULE_RESTART_STARTED_STATE, MODULE_STOP_STARTED_STATE,
      MODULE_STOPPING_STATE, MODULE_UNINSTALLING_STATE} \<longleftrightarrow>
    calculate_module_state_chip_styles state \<in> {''installingChip'', ''changingChip''}) module_states"
  by (simp add: module_states_def calculate_module_state_chip_styles_def states_defs)

text \<open>
  The four tables over module states agree. A module counts as changing exactly when its chip has the
  installing or changing style; the background colour does not depend on the theme; it is the chip's
  colour for every one of the fourteen states, and differs for any other state, which the background,
  the style and the label present as invalid and the chip's colour as running.
\<close>

theorem module_state_tables_agree:
  "(module_is_changing m \<longleftrightarrow>
      calculate_module_state_chip_styles (mod_state m) \<in> {''installingChip'', ''changingChip''}) \<and>
   calculate_module_state_color state Dark = calculate_module_state_color state Light \<and>
   (calculate_module_state_color state theme = calculate_module_state_chip_color state \<longleftrightarrow>
      state \<in> set module_states) \<and>
   (translate_module_state_to_human state = Label_invalid \<longleftrightarrow>
      calculate_module_state_chip_styles state = ''invalidChip'')"
proof (intro conjI)
  show "module_is_changing m \<longleftrightarrow>
      calculate_module_state_chip_styles (mod_state m) \<in> {''installingChip'', ''changingChip''}"
  proof (cases "mod_state m \<in> set module_states")
    case True
    with changing_states show ?thesis by (simp add: list_all_iff module_is_changing_eq)
  next
    case False
    then have "\<not> module_is_changing m" by (auto simp: module_is_changing_def module_states_def)
    with False show ?thesis by (simp add: unknown_state)
  qed
  show "calculate_module_state_color state Dark = calculate_module_state_color state Light"
    by (simp add: calculate_module_state_color_def background_defs)
  show "calculate_module_state_color state theme = calculate_module_state_chip_color state \<longleftrightarrow>
      state \<in> set module_states"
  proof (cases "state \<in> set module_states")
    case True
    then show ?thesis
      by (auto simp: calculate_module_state_color_def calculate_module_state_chip_color_def
          background_defs module_states_def)
  next
    case False
    then show ?thesis by (simp add: unknown_state)
  qed
  show "translate_module_state_to_human state = Label_invalid \<longleftrightarrow>
      calculate_module_state_chip_styles state = ''invalidChip''"
  proof (cases "state \<in> set module_states")
    case True
    then show ?thesis
      by (auto simp: translate_module_state_to_human_def calculate_module_state_chip_styles_def
          module_states_def states_defs)
  next
    case False
    then show ?thesis by (simp add: unknown_state)
  qed
qed

text \<open>
  Technology names identify technologies: \<open>technologyOf\<close> finds an entry exactly for the sixteen names of
  the table, the entry carries the name asked for, and \<open>technologiesOf\<close> gives, in order, the entry of
  every name that has one, so the formats and containers offered by default all resolve.
\<close>

theorem technologies_resolve:
  "technologies_of names = map (\<lambda>name. the (technology_of name))
     (filter (\<lambda>name. technology_of name \<noteq> None) names) \<and>
   (technology_of name \<noteq> None \<longleftrightarrow> name \<in> technology_name ` set TECHNOLOGIES) \<and>
   map_option technology_name (technology_of name) \<in> {None, Some name} \<and>
   map technology_name (technologies_of (DOCKER_CONTAINERS @ ARTIFACT_FORMATS)) =
     DOCKER_CONTAINERS @ ARTIFACT_FORMATS"
proof (intro conjI)
  have filter_one: "filter (\<lambda>t. technology_name t = n) ts =
      (case find (\<lambda>t. technology_name t = n) ts of None \<Rightarrow> [] | Some t \<Rightarrow> [t])"
    if "distinct (map technology_name ts)" for n ts
    using that
  proof (induction ts)
    case Nil
    show ?case by simp
  next
    case (Cons t ts)
    show ?case
    proof (cases "technology_name t = n")
      case True
      with Cons.prems have "filter (\<lambda>t. technology_name t = n) ts = []"
        by (simp add: filter_empty_conv) (metis image_eqI)
      with True show ?thesis by simp
    next
      case False
      with Cons show ?thesis by simp
    qed
  qed
  have "distinct (map technology_name TECHNOLOGIES)"
    by (simp add: TECHNOLOGIES_def technology_constants_defs)
  note one = filter_one [OF this]
  show "technologies_of names = map (\<lambda>name. the (technology_of name))
     (filter (\<lambda>name. technology_of name \<noteq> None) names)"
    by (induction names) (simp_all add: technologies_of_def technology_of_def one split: option.split)
  show "technology_of name \<noteq> None \<longleftrightarrow> name \<in> technology_name ` set TECHNOLOGIES"
    by (auto simp: technology_of_def find_None_iff)
  show "map_option technology_name (technology_of name) \<in> {None, Some name}"
    by (cases "technology_of name") (auto simp: technology_of_def find_Some_iff)
  show "map technology_name (technologies_of (DOCKER_CONTAINERS @ ARTIFACT_FORMATS)) =
     DOCKER_CONTAINERS @ ARTIFACT_FORMATS"
    by (simp add: technologies_of_def TECHNOLOGIES_def technology_constants_defs)
qed

end
