(* ===== verification/Streams.thy ===== *)
theory Streams
  imports Model Constants
begin

text \<open>
  \<open>framework/pattern/Stream.ts\<close>: the event stream with its four groups of subscribers. A subscriber
  list is a JavaScript array whose cells hold a handler, or nothing after the subscriber left (the code
  overwrites the cell with \<open>doNothing\<close>, so that the indices of the others stay valid). The four groups
  share one contract, the locale \<open>subscription_channel\<close>.
\<close>

lemmas event_type_defs = event_types_defs

record 'd stream_event =
  event_type :: string
  event_data :: 'd

type_synonym 'c cells = "'c option list"

text \<open>\<open>array[index] = doNothing\<close>: a cell beyond the end leaves holes before it.\<close>

definition clear_cell :: "nat \<Rightarrow> 'c cells \<Rightarrow> 'c cells" where
  "clear_cell index cells =
     (if index < length cells then cells[index := None]
      else cells @ replicate (Suc index - length cells) None)"

text \<open>\<open>forEach(notify => notify(data))\<close>.\<close>

definition notify_cells :: "'c cells \<Rightarrow> 'd \<Rightarrow> ('c \<times> 'd) list" where
  "notify_cells cells data = map (\<lambda>c. (c, data)) (concat (map (case_option [] (\<lambda>c. [c])) cells))"

record 'c stream =
  add_subscribers :: "'c cells"
  update_single_subscribers :: "(int, 'c cells) js_map"
  update_many_subscribers :: "'c cells"
  delete_subscribers :: "'c cells"
  stop_action :: "'c option"

definition new_stream :: "'c stream" where
  "new_stream =
     \<lparr>add_subscribers = [], update_single_subscribers = [], update_many_subscribers = [],
      delete_subscribers = [], stop_action = None\<rparr>"

definition stream_start :: "'c \<Rightarrow> 'c stream \<Rightarrow> 'c stream" where
  "stream_start action s = s\<lparr>stop_action := Some action\<rparr>"

definition stream_stop :: "'c stream \<Rightarrow> 'c list" where
  "stream_stop s = case_option [] (\<lambda>a. [a]) (stop_action s)"

definition stream_of :: "'c \<Rightarrow> 'c stream" where
  "stream_of action = stream_start action new_stream"

definition subscribe_on_add :: "'c \<Rightarrow> 'c stream \<Rightarrow> nat \<times> 'c stream" where
  "subscribe_on_add handler s =
     (let cells = add_subscribers s @ [Some handler]
      in (length cells - 1, s\<lparr>add_subscribers := cells\<rparr>))"

definition subscribe_on_delete :: "'c \<Rightarrow> 'c stream \<Rightarrow> nat \<times> 'c stream" where
  "subscribe_on_delete handler s =
     (let cells = delete_subscribers s @ [Some handler]
      in (length cells - 1, s\<lparr>delete_subscribers := cells\<rparr>))"

definition subscribe_on_update_single :: "int \<Rightarrow> 'c \<Rightarrow> 'c stream \<Rightarrow> nat \<times> 'c stream" where
  "subscribe_on_update_single entity handler s =
     (case map_get (update_single_subscribers s) entity of
        Some cells \<Rightarrow>
          (length (cells @ [Some handler]) - 1,
           s\<lparr>update_single_subscribers :=
               map_put entity (cells @ [Some handler]) (update_single_subscribers s)\<rparr>)
      | None \<Rightarrow>
          (0, s\<lparr>update_single_subscribers := map_put entity [Some handler] (update_single_subscribers s)\<rparr>))"

definition subscribe_on_update_many :: "'c \<Rightarrow> 'c stream \<Rightarrow> nat \<times> 'c stream" where
  "subscribe_on_update_many handler s =
     (let cells = update_many_subscribers s @ [Some handler]
      in (length cells - 1, s\<lparr>update_many_subscribers := cells\<rparr>))"

definition unsubscribe_from_add :: "nat \<Rightarrow> 'c stream \<Rightarrow> 'c stream" where
  "unsubscribe_from_add index s = s\<lparr>add_subscribers := clear_cell index (add_subscribers s)\<rparr>"

definition unsubscribe_from_delete :: "nat \<Rightarrow> 'c stream \<Rightarrow> 'c stream" where
  "unsubscribe_from_delete index s =
     s\<lparr>delete_subscribers := clear_cell index (delete_subscribers s)\<rparr>"

definition unsubscribe_from_update_many :: "nat \<Rightarrow> 'c stream \<Rightarrow> 'c stream" where
  "unsubscribe_from_update_many index s =
     s\<lparr>update_many_subscribers := clear_cell index (update_many_subscribers s)\<rparr>"

definition unsubscribe_from_update_single :: "int \<Rightarrow> nat \<Rightarrow> 'c stream \<Rightarrow> 'c stream" where
  "unsubscribe_from_update_single entity index s =
     (case map_get (update_single_subscribers s) entity of
        None \<Rightarrow> s
      | Some cells \<Rightarrow>
          s\<lparr>update_single_subscribers :=
              map_put entity (clear_cell index cells) (update_single_subscribers s)\<rparr>)"

definition produce_event :: "('d \<Rightarrow> int) \<Rightarrow> 'd stream_event \<Rightarrow> 'c stream \<Rightarrow> ('c \<times> 'd) list" where
  "produce_event id_of event s =
     (if event_type event = ADD_EVENT then notify_cells (add_subscribers s) (event_data event)
      else if event_type event = UPDATE_EVENT then
        notify_cells (update_many_subscribers s) (event_data event) @
        (case map_get (update_single_subscribers s) (id_of (event_data event)) of
           None \<Rightarrow> []
         | Some cells \<Rightarrow> notify_cells cells (event_data event))
      else if event_type event = DELETE_EVENT then notify_cells (delete_subscribers s) (event_data event)
      else [])"

section \<open>The contract of a group of subscribers\<close>

lemma notify_cells_simps [simp]:
  "notify_cells [] d = []"
  "notify_cells (None # cells) d = notify_cells cells d"
  "notify_cells (Some c # cells) d = (c, d) # notify_cells cells d"
  "notify_cells (xs @ ys) d = notify_cells xs d @ notify_cells ys d"
  "notify_cells (replicate n None) d = []"
proof -
  show "notify_cells [] d = []" "notify_cells (None # cells) d = notify_cells cells d"
    "notify_cells (Some c # cells) d = (c, d) # notify_cells cells d"
    "notify_cells (xs @ ys) d = notify_cells xs d @ notify_cells ys d"
    by (simp_all add: notify_cells_def)
  show "notify_cells (replicate n None) d = []"
    by (induction n) (simp_all add: notify_cells_def)
qed

lemma length_clear_cell_ge: "length cells \<le> length (clear_cell i cells)"
  by (simp add: clear_cell_def)

lemma clear_cell_nth:
  "j < length cells \<Longrightarrow> clear_cell i cells ! j = (if j = i then None else cells ! j)"
  by (auto simp: clear_cell_def nth_append nth_list_update)

lemma notify_clear_cell:
  "notify_cells (clear_cell i cells) d =
     notify_cells (take i cells) d @ notify_cells (drop (Suc i) cells) d"
proof (cases "i < length cells")
  case True
  then have "clear_cell i cells = take i cells @ None # drop (Suc i) cells"
    by (simp add: clear_cell_def upd_conv_take_nth_drop)
  then show ?thesis by simp
next
  case False
  then show ?thesis by (simp add: clear_cell_def)
qed

text \<open>Another handler subscribes (\<open>Inl\<close>), or the holder of a cell leaves (\<open>Inr\<close>).\<close>

definition channel_step ::
  "('c \<Rightarrow> 's \<Rightarrow> nat \<times> 's) \<Rightarrow> (nat \<Rightarrow> 's \<Rightarrow> 's) \<Rightarrow> ('s \<Rightarrow> 'c cells) \<Rightarrow>
   'c + nat \<Rightarrow> 's \<Rightarrow> 's" where
  "channel_step subscribe unsubscribe cells op s =
     (case op of Inl c \<Rightarrow> snd (subscribe c s)
      | Inr i \<Rightarrow> if i < length (cells s) then unsubscribe i s else s)"

locale subscription_channel =
  fixes subscribe :: "'c \<Rightarrow> 's \<Rightarrow> nat \<times> 's"
    and unsubscribe :: "nat \<Rightarrow> 's \<Rightarrow> 's"
    and cells :: "'s \<Rightarrow> 'c cells"
  assumes subscribe_index: "fst (subscribe c s) = length (cells s)"
    and subscribe_cells: "cells (snd (subscribe c s)) = cells s @ [Some c]"
    and unsubscribe_cells: "i < length (cells s) \<Longrightarrow>
      cells (unsubscribe i s) = (cells s)[i := None]"
begin

text \<open>The index a subscription returned stays its own, whatever the others do.\<close>

lemma length_step: "length (cells s) \<le> length (cells ((channel_step subscribe unsubscribe cells) op s))"
  by (simp add: channel_step_def subscribe_cells unsubscribe_cells split: sum.split)

lemma cell_kept:
  assumes "i < length (cells s)" and "Inr i \<notin> set ops"
  shows "i < length (cells (fold (channel_step subscribe unsubscribe cells) ops s)) \<and> cells (fold (channel_step subscribe unsubscribe cells) ops s) ! i = cells s ! i"
  using assms
proof (induction ops arbitrary: s)
  case Nil
  then show ?case by simp
next
  case (Cons op ops)
  have i: "i < length (cells ((channel_step subscribe unsubscribe cells) op s))"
    using Cons.prems(1) length_step [of s op] by simp
  have "cells ((channel_step subscribe unsubscribe cells) op s) ! i = cells s ! i"
    using Cons.prems
    by (auto simp: channel_step_def subscribe_cells unsubscribe_cells nth_append nth_list_update split: sum.split)
  with Cons.IH [OF i] Cons.prems(2) show ?case by simp
qed

lemma subscriber_kept:
  assumes "Inr (fst (subscribe c s)) \<notin> set ops"
  shows "fst (subscribe c s) < length (cells (fold (channel_step subscribe unsubscribe cells) ops (snd (subscribe c s)))) \<and>
    cells (fold (channel_step subscribe unsubscribe cells) ops (snd (subscribe c s))) ! fst (subscribe c s) = Some c"
proof -
  have "fst (subscribe c s) < length (cells (snd (subscribe c s)))"
    by (simp add: subscribe_index subscribe_cells)
  from cell_kept [OF this assms] show ?thesis
    by (simp add: subscribe_index subscribe_cells)
qed

lemma subscriber_removed:
  assumes "Inr (fst (subscribe c s)) \<notin> set ops"
  shows "notify_cells
      (cells (unsubscribe (fst (subscribe c s)) (fold (channel_step subscribe unsubscribe cells) ops (snd (subscribe c s))))) d =
    (let i = fst (subscribe c s); all = cells (fold (channel_step subscribe unsubscribe cells) ops (snd (subscribe c s)))
     in notify_cells (take i all) d @ notify_cells (drop (Suc i) all) d)"
  using subscriber_kept [OF assms]
  by (simp add: unsubscribe_cells Let_def upd_conv_take_nth_drop)

end

interpretation add_channel: subscription_channel subscribe_on_add unsubscribe_from_add add_subscribers
  by unfold_locales
    (simp_all add: subscribe_on_add_def unsubscribe_from_add_def clear_cell_def Let_def)

interpretation delete_channel:
  subscription_channel subscribe_on_delete unsubscribe_from_delete delete_subscribers
  by unfold_locales
    (simp_all add: subscribe_on_delete_def unsubscribe_from_delete_def clear_cell_def Let_def)

interpretation update_many_channel:
  subscription_channel subscribe_on_update_many unsubscribe_from_update_many update_many_subscribers
  by unfold_locales
    (simp_all add: subscribe_on_update_many_def unsubscribe_from_update_many_def clear_cell_def Let_def)

definition update_single_cells :: "int \<Rightarrow> 'c stream \<Rightarrow> 'c cells" where
  "update_single_cells entity s = case_option [] (\<lambda>cells. cells) (map_get (update_single_subscribers s) entity)"

interpretation update_single_channel:
  subscription_channel "subscribe_on_update_single entity" "unsubscribe_from_update_single entity"
    "update_single_cells entity" for entity
  by unfold_locales
    (auto simp: subscribe_on_update_single_def unsubscribe_from_update_single_def clear_cell_def
      update_single_cells_def split: option.splits)

lemma update_single_cells_other:
  assumes "other \<noteq> entity"
  shows "update_single_cells other (snd (subscribe_on_update_single entity c s)) = update_single_cells other s"
    and "update_single_cells other (unsubscribe_from_update_single entity i s) = update_single_cells other s"
  using assms
  by (auto simp: update_single_cells_def subscribe_on_update_single_def
      unsubscribe_from_update_single_def split: option.splits)

lemma produce_event_cells:
  "event_type e = ADD_EVENT \<Longrightarrow> produce_event id_of e s = notify_cells (add_subscribers s) (event_data e)"
  "event_type e = DELETE_EVENT \<Longrightarrow>
     produce_event id_of e s = notify_cells (delete_subscribers s) (event_data e)"
  "event_type e = UPDATE_EVENT \<Longrightarrow> produce_event id_of e s =
     notify_cells (update_many_subscribers s) (event_data e) @
     notify_cells (update_single_cells (id_of (event_data e)) s) (event_data e)"
  by (simp_all add: produce_event_def event_type_defs update_single_cells_def split: option.split)

section \<open>Properties\<close>

text \<open>
  A handler subscribed for additions is called exactly as long as it has not left, whatever other
  handlers subscribe or leave in between (\<open>ops\<close>): its cell still holds it, and when it leaves by the
  index it was given, an event reaches exactly the others, in order.
\<close>

theorem stream_subscription_stable:
  assumes "Inr (fst (subscribe_on_add c s)) \<notin> set ops" and "event_type e = ADD_EVENT"
  shows "let i = fst (subscribe_on_add c s);
      t = fold (channel_step subscribe_on_add unsubscribe_from_add add_subscribers) ops (snd (subscribe_on_add c s)) in
    (c, event_data e) \<in> set (produce_event id_of e t) \<and>
    produce_event id_of e (unsubscribe_from_add i t) =
      notify_cells (take i (add_subscribers t)) (event_data e) @
      notify_cells (drop (Suc i) (add_subscribers t)) (event_data e) \<and>
    produce_event id_of e t =
      notify_cells (take i (add_subscribers t)) (event_data e) @ (c, event_data e) #
      notify_cells (drop (Suc i) (add_subscribers t)) (event_data e)"
proof -
  let ?i = "fst (subscribe_on_add c s)"
  let ?t = "fold (channel_step subscribe_on_add unsubscribe_from_add add_subscribers) ops (snd (subscribe_on_add c s))"
  from add_channel.subscriber_kept [OF assms(1)]
  have "add_subscribers ?t = take ?i (add_subscribers ?t) @ Some c # drop (Suc ?i) (add_subscribers ?t)"
    using id_take_nth_drop by metis
  then have n: "notify_cells (add_subscribers ?t) (event_data e) =
      notify_cells (take ?i (add_subscribers ?t)) (event_data e) @ (c, event_data e) #
      notify_cells (drop (Suc ?i) (add_subscribers ?t)) (event_data e)"
    by (metis notify_cells_simps(3,4))
  with add_channel.subscriber_removed [OF assms(1), of "event_data e"] assms(2)
  show ?thesis by (simp add: produce_event_cells Let_def)
qed

theorem stream_subscription_stable_witness:
  "produce_event (\<lambda>d. d) \<lparr>event_type = ADD_EVENT, event_data = 7\<rparr>
     (fold (channel_step subscribe_on_add unsubscribe_from_add add_subscribers) [Inl ''b'', Inr 1] (snd (subscribe_on_add ''a'' new_stream))) =
   [(''a'', 7)]"
proof -
  let ?e = "\<lparr>event_type = ADD_EVENT, event_data = 7\<rparr>"
  have "(''a'', 7) \<in> set (produce_event (\<lambda>d. d) ?e
      (fold (channel_step subscribe_on_add unsubscribe_from_add add_subscribers) [Inl ''b'', Inr 1] (snd (subscribe_on_add ''a'' new_stream))))"
    using stream_subscription_stable [of "''a''" new_stream "[Inl ''b'', Inr 1]" ?e "\<lambda>d. d"]
    by (simp add: Let_def subscribe_on_add_def new_stream_def)
  then show ?thesis
    by (simp add: produce_event_def channel_step_def subscribe_on_add_def new_stream_def
        unsubscribe_from_add_def clear_cell_def)
qed

text \<open>
  \<open>produceEvent\<close> dispatches by type: an update reaches first every general update subscriber and then
  the subscribers of the updated entity's own identifier, never those of another identifier; additions
  and deletions reach their own group only; an unknown type reaches nobody.
\<close>

theorem produce_event_routing:
  "produce_event id_of \<lparr>event_type = UPDATE_EVENT, event_data = d\<rparr> s =
     notify_cells (update_many_subscribers s) d @ notify_cells (update_single_cells (id_of d) s) d \<and>
   produce_event id_of \<lparr>event_type = ADD_EVENT, event_data = d\<rparr> s = notify_cells (add_subscribers s) d \<and>
   produce_event id_of \<lparr>event_type = DELETE_EVENT, event_data = d\<rparr> s =
     notify_cells (delete_subscribers s) d \<and>
   (t \<notin> {ADD_EVENT, UPDATE_EVENT, DELETE_EVENT} \<longrightarrow>
     produce_event id_of \<lparr>event_type = t, event_data = d\<rparr> s = []) \<and>
   (id_of d \<noteq> entity \<longrightarrow>
     produce_event id_of \<lparr>event_type = UPDATE_EVENT, event_data = d\<rparr>
       (snd (subscribe_on_update_single entity c s)) =
     produce_event id_of \<lparr>event_type = UPDATE_EVENT, event_data = d\<rparr> s)"
proof -
  have "update_many_subscribers (snd (subscribe_on_update_single entity c s)) = update_many_subscribers s"
    by (simp add: subscribe_on_update_single_def split: option.split)
  then show ?thesis
    by (simp add: produce_event_cells update_single_cells_other) (simp add: produce_event_def)
qed

theorem produce_event_routing_witness:
  "produce_event (\<lambda>d. d) \<lparr>event_type = UPDATE_EVENT, event_data = 7\<rparr>
     (snd (subscribe_on_update_single 8 ''a'' new_stream)) = []"
proof -
  have "produce_event (\<lambda>d. d) \<lparr>event_type = UPDATE_EVENT, event_data = 7\<rparr>
      (snd (subscribe_on_update_single 8 ''a'' new_stream)) =
    produce_event (\<lambda>d. d) \<lparr>event_type = UPDATE_EVENT, event_data = 7\<rparr> (new_stream :: string stream)"
    using produce_event_routing [of "\<lambda>d. d" 7 new_stream "''x''" 8 "''a''"] by simp
  then show ?thesis by (simp add: produce_event_def new_stream_def event_type_defs)
qed

end
