(* ===== verification/Client.thy ===== *)
theory Client
  imports Model Constants Extensions
begin

text \<open>
  \<open>client/PlatformClient.ts\<close>: requests over RSocket. The transport, the codec and the timer are outside
  the repository: what the code asks of them is an emitted effect, what they report back is an operation.
  \<^item> the connection of a client, its reconnection timer and its set of live subscriptions;
  \<^item> the life of one stream request, between its subscription and its completion, failure or cancellation;
  \<^item> the demand-driven sending of the chunks of an upload;
  \<^item> the dispatch of an answer to the success or the error callback.
  Console output is not modelled.
\<close>

section \<open>Requests and answers\<close>

record 'd service_request =
  request_command :: service_method_command
  request_data :: "'d option"

definition create_service_method_request :: "string \<Rightarrow> string \<Rightarrow> 'd option \<Rightarrow> 'd service_request" where
  "create_service_method_request service method data =
     \<lparr>request_command = \<lparr>command_service_id = service, command_method_id = method\<rparr>,
      request_data = data\<rparr>"

definition create_function_request :: "string \<Rightarrow> 'd option \<Rightarrow> 'd service_request" where
  "create_function_request method data =
     \<lparr>request_command = \<lparr>command_service_id = RSOCKET_FUNCTION, command_method_id = method\<rparr>,
      request_data = data\<rparr>"

text \<open>The payload of a request: \<open>data\<close> and \<open>metadata\<close>, encoded by \<open>msgpack-lite\<close>.\<close>

record 'b payload =
  payload_data :: 'b
  payload_metadata :: 'b

definition request_token :: "string option \<Rightarrow> string option \<Rightarrow> string option" where
  "request_token default_token cookie = (if truthy_string default_token then default_token else cookie)"

definition request_payload ::
  "('d service_request \<Rightarrow> 'b) \<Rightarrow> (string service_request \<Rightarrow> 'b) \<Rightarrow> string option \<Rightarrow> string option \<Rightarrow>
   'd service_request \<Rightarrow> 'b payload" where
  "request_payload encode encode_metadata default_token cookie request =
     \<lparr>payload_data = encode request,
      payload_metadata = encode_metadata
        (create_function_request (command_method_id (request_command request))
           (request_token default_token cookie))\<rparr>"

definition write_payload :: "('b \<Rightarrow> 'r) \<Rightarrow> 'b option \<Rightarrow> 'r option" where
  "write_payload decode data = map_option decode data"

text \<open>What an answer makes the client call; a transport failure carries the transport's error.\<close>

datatype ('d, 'x) delivery =
    Deliver_success 'd
  | Deliver_exception service_execution_exception
  | Deliver_failure 'x

definition on_response :: "'d service_response \<Rightarrow> ('d, 'x) delivery list" where
  "on_response response =
     (case response_exception response of
        None \<Rightarrow> [Deliver_success (response_data response)]
      | Some e \<Rightarrow>
          [Deliver_exception
             \<lparr>error_code = error_code e, error_message = error_message e, stack_trace = stack_trace e\<rparr>])"

text \<open>The two terminal signals of \<open>requestResponse\<close>.\<close>

datatype ('d, 'x) answer = Answered "'d service_response" | Failed 'x

fun request_response_answer :: "('d, 'x) answer \<Rightarrow> ('d, 'x) delivery list" where
  "request_response_answer (Answered response) = on_response response"
| "request_response_answer (Failed x) = [Deliver_failure x]"

section \<open>Live subscriptions\<close>

text \<open>
  The closure of one \<open>requestStream\<close> or \<open>chunkedRequest\<close> holds its \<open>subscription\<close> variable; the client
  holds the set of all of them.
\<close>

record streams =
  live_subscriptions :: "nat list"
  stream_variables :: "(nat, nat) js_map"

definition no_streams :: streams where
  "no_streams = \<lparr>live_subscriptions = [], stream_variables = []\<rparr>"

datatype ('d, 'x) stream_effect =
    Request_n nat int
  | Cancel nat
  | Call_next nat "('d, 'x) delivery"
  | Call_complete nat
  | Call_error nat 'x

text \<open>\<open>onSubscribe\<close> asks for \<open>demand\<close> elements: \<open>RSOCKET_REQUEST_COUNT\<close>, or the chunks left to send.\<close>

definition register_subscription :: "nat \<Rightarrow> nat \<Rightarrow> streams \<Rightarrow> streams" where
  "register_subscription stream subscription s =
     s\<lparr>stream_variables := map_put stream subscription (stream_variables s),
       live_subscriptions := set_add subscription (live_subscriptions s)\<rparr>"

definition stream_subscribed ::
  "nat \<Rightarrow> nat \<Rightarrow> int \<Rightarrow> streams \<Rightarrow> streams \<times> ('d, 'x) stream_effect list" where
  "stream_subscribed stream subscription demand s =
     (register_subscription stream subscription s, [Request_n subscription demand])"

definition request_stream_subscribed ::
  "nat \<Rightarrow> nat \<Rightarrow> streams \<Rightarrow> streams \<times> ('d, 'x) stream_effect list" where
  "request_stream_subscribed stream subscription = stream_subscribed stream subscription RSOCKET_REQUEST_COUNT"

definition chunked_request_subscribed ::
  "'v list \<Rightarrow> nat \<Rightarrow> nat \<Rightarrow> streams \<Rightarrow> streams \<times> ('d, 'x) stream_effect list" where
  "chunked_request_subscribed values stream subscription =
     stream_subscribed stream subscription (int (length values))"

definition release_subscription :: "nat \<Rightarrow> streams \<Rightarrow> streams" where
  "release_subscription stream s =
     (case map_get (stream_variables s) stream of
        None \<Rightarrow> s
      | Some subscription \<Rightarrow>
          s\<lparr>live_subscriptions := set_remove subscription (live_subscriptions s),
            stream_variables := map_remove stream (stream_variables s)\<rparr>)"

definition stream_completed :: "nat \<Rightarrow> streams \<Rightarrow> streams \<times> ('d, 'x) stream_effect list" where
  "stream_completed stream s = (release_subscription stream s, [Call_complete stream])"

definition stream_failed :: "nat \<Rightarrow> 'x \<Rightarrow> streams \<Rightarrow> streams \<times> ('d, 'x) stream_effect list" where
  "stream_failed stream x s = (release_subscription stream s, [Call_error stream x])"

definition stream_next ::
  "nat \<Rightarrow> 'd service_response \<Rightarrow> streams \<Rightarrow> streams \<times> ('d, 'x) stream_effect list" where
  "stream_next stream response s = (s, map (Call_next stream) (on_response response))"

definition stream_cancelled :: "nat \<Rightarrow> streams \<Rightarrow> streams \<times> ('d, 'x) stream_effect list" where
  "stream_cancelled stream s =
     (case map_get (stream_variables s) stream of
        None \<Rightarrow> (s, [])
      | Some subscription \<Rightarrow> (release_subscription stream s, [Cancel subscription]))"

text \<open>The subscriptions part of \<open>disposeRsocket\<close>: a \<open>cancel\<close> that throws does not stop the others.\<close>

definition dispose_subscriptions :: "streams \<Rightarrow> streams \<times> ('d, 'x) stream_effect list" where
  "dispose_subscriptions s =
     (s\<lparr>live_subscriptions := []\<rparr>, map Cancel (live_subscriptions s))"

datatype ('d, 'x) stream_signal =
    Subscribed nat nat int
  | Next nat "'d service_response"
  | Completed nat
  | Stream_error nat 'x
  | Cancelled nat
  | Disposed

fun stream_step ::
  "('d, 'x) stream_signal \<Rightarrow> streams \<Rightarrow> streams \<times> ('d, 'x) stream_effect list" where
  "stream_step (Subscribed stream subscription demand) = stream_subscribed stream subscription demand"
| "stream_step (Next stream response) = stream_next stream response"
| "stream_step (Completed stream) = stream_completed stream"
| "stream_step (Stream_error stream x) = stream_failed stream x"
| "stream_step (Cancelled stream) = stream_cancelled stream"
| "stream_step Disposed = dispose_subscriptions"

section \<open>Chunked requests\<close>

text \<open>
  The \<open>request\<close> of the flowable: \<open>while (count--)\<close> sends the next chunk, and signals completion when it
  is asked for more than is left. Returns the chunks sent, whether it completed, and the chunks left.
\<close>

fun flowable_request :: "nat \<Rightarrow> 'c list \<Rightarrow> 'c list \<times> bool \<times> 'c list" where
  "flowable_request 0 left = ([], False, left)"
| "flowable_request (Suc n) [] = ([], True, [])"
| "flowable_request (Suc n) (next # left) =
     (case flowable_request n left of
        (sent, completed, rest) \<Rightarrow> (next # sent, completed, rest))"

text \<open>A sequence of demands from the peer.\<close>

fun flowable_run :: "nat list \<Rightarrow> 'c list \<Rightarrow> 'c list \<times> bool \<times> 'c list" where
  "flowable_run [] left = ([], False, left)"
| "flowable_run (n # ns) left =
     (case flowable_request n left of
        (sent, completed, rest) \<Rightarrow>
          (case flowable_run ns rest of
             (sent', completed', rest') \<Rightarrow> (sent @ sent', completed \<or> completed', rest')))"

section \<open>Connections\<close>

text \<open>The callback a finished connection attempt runs: the caller's, or the reconnection's own.\<close>

datatype 'c on_connected = Caller 'c | Reload

record 'c client =
  client_url :: string
  client_token :: "string option"
  client_name :: "string option"
  client_connected :: "'c option"
  client_failed :: "'c option"
  client_rsocket :: "nat option"
  client_reconnection :: bool
  client_status :: string
  client_streams :: streams

record 'c clients =
  all_clients :: "'c client list"
  client_instance :: "nat option"

datatype ('c, 'x) connection_effect =
    Open_connection nat "string option" string "'c on_connected" "'c option"
  | Start_timer nat int
  | Clear_timer nat
  | Call_connected 'c
  | Call_failed "'c option" 'x
  | Reload_page
  | Cancel_subscription nat
  | Close_rsocket nat

definition new_client :: "string \<Rightarrow> 'c client" where
  "new_client url =
     \<lparr>client_url = url, client_token = None, client_name = None, client_connected = None,
      client_failed = None, client_rsocket = None, client_reconnection = False,
      client_status = ''NOT_CONNECTED'', client_streams = no_streams\<rparr>"

definition no_clients :: "'c clients" where
  "no_clients = \<lparr>all_clients = [], client_instance = None\<rparr>"

definition new_platform_client :: "string \<Rightarrow> 'c clients \<Rightarrow> nat \<times> 'c clients" where
  "new_platform_client url w =
     (length (all_clients w), w\<lparr>all_clients := all_clients w @ [new_client url]\<rparr>)"

definition platform_client :: "string \<Rightarrow> 'c clients \<Rightarrow> nat \<times> 'c clients" where
  "platform_client default_url w =
     (case client_instance w of
        Some c \<Rightarrow> (c, w)
      | None \<Rightarrow>
          (let (c, w') = new_platform_client default_url w in (c, w'\<lparr>client_instance := Some c\<rparr>)))"

definition client_of :: "'c clients \<Rightarrow> nat \<Rightarrow> 'c client" where
  "client_of w c = all_clients w ! c"

definition update_client :: "nat \<Rightarrow> ('c client \<Rightarrow> 'c client) \<Rightarrow> 'c clients \<Rightarrow> 'c clients" where
  "update_client c f w = w\<lparr>all_clients := (all_clients w)[c := f (client_of w c)]\<rparr>"

definition set_token :: "string \<Rightarrow> 'c client \<Rightarrow> 'c client" where
  "set_token token client = client\<lparr>client_token := Some token\<rparr>"

definition process_connection ::
  "nat \<Rightarrow> 'c client \<Rightarrow> string option \<Rightarrow> 'c on_connected \<Rightarrow> 'c option \<Rightarrow> ('c, 'x) connection_effect list" where
  "process_connection c client name connected failed =
     [Open_connection c name (client_url client) connected failed]"

definition connect ::
  "nat \<Rightarrow> string \<Rightarrow> 'c \<Rightarrow> 'c \<Rightarrow> 'c clients \<Rightarrow> 'c clients \<times> ('c, 'x) connection_effect list" where
  "connect c name connected failed w =
     (if client_status (client_of w c) \<noteq> ''NOT_CONNECTED'' then (w, [])
      else
        (update_client c
           (\<lambda>client. client\<lparr>client_name := Some name, client_connected := Some connected,
              client_failed := Some failed\<rparr>) w,
         process_connection c (client_of w c) (Some name) (Caller connected) (Some failed)))"

definition start_connection_listening ::
  "nat \<Rightarrow> 'c clients \<Rightarrow> 'c clients \<times> ('c, 'x) connection_effect list" where
  "start_connection_listening c w =
     (if client_reconnection (client_of w c) then (w, [])
      else
        (update_client c (\<lambda>client. client\<lparr>client_reconnection := True\<rparr>) w,
         [Start_timer c (RETRY_TIMEOUT_SECONDS * 1000)]))"

text \<open>
  The callback of a reconnection clears the timer (without forgetting it) and reloads the page.
\<close>

definition run_connected ::
  "nat \<Rightarrow> 'c client \<Rightarrow> 'c on_connected \<Rightarrow> ('c, 'x) connection_effect list" where
  "run_connected c client connected =
     (case connected of
        Caller k \<Rightarrow> [Call_connected k]
      | Reload \<Rightarrow> (if client_reconnection client then [Clear_timer c] else []) @ [Reload_page])"

definition connection_opened ::
  "nat \<Rightarrow> nat \<Rightarrow> 'c on_connected \<Rightarrow> 'c clients \<Rightarrow> 'c clients \<times> ('c, 'x) connection_effect list" where
  "connection_opened c socket connected w =
     (let w1 = update_client c (\<lambda>client. client\<lparr>client_rsocket := Some socket\<rparr>) w;
          (w2, effects) = start_connection_listening c w1
      in (w2, effects @ run_connected c (client_of w2 c) connected))"

definition connection_refused ::
  "nat \<Rightarrow> 'x \<Rightarrow> 'c option \<Rightarrow> 'c clients \<Rightarrow> 'c clients \<times> ('c, 'x) connection_effect list" where
  "connection_refused c x failed w =
     (let w1 = update_client c (\<lambda>client. client\<lparr>client_status := ''ERROR''\<rparr>) w;
          (w2, effects) = start_connection_listening c w1
      in (w2, effects @ [Call_failed failed x]))"

text \<open>The status subscription: a status, its failure, or its end.\<close>

datatype status_signal = Status string | Status_error | Status_completed

fun status_kind :: "status_signal \<Rightarrow> string" where
  "status_kind (Status kind) = kind"
| "status_kind Status_error = ''ERROR''"
| "status_kind Status_completed = ''CLOSED''"

definition connection_status :: "nat \<Rightarrow> status_signal \<Rightarrow> 'c clients \<Rightarrow> 'c clients" where
  "connection_status c signal w =
     update_client c (\<lambda>client. client\<lparr>client_status := status_kind signal\<rparr>) w"

text \<open>A tick of a client's timer asks for the status of the \<^emph>\<open>singleton\<close>, creating it if need be.\<close>

definition reconnection_tick ::
  "string \<Rightarrow> nat \<Rightarrow> 'c clients \<Rightarrow> 'c clients \<times> ('c, 'x) connection_effect list" where
  "reconnection_tick default_url c w =
     (let (p, w') = platform_client default_url w
      in (w',
          if client_status (client_of w' p) \<in> {''NOT_CONNECTED'', ''CLOSED'', ''ERROR''}
          then process_connection c (client_of w' c) (client_name (client_of w' c)) Reload
                 (client_failed (client_of w' c))
          else []))"

fun cancel_effect :: "('d, 'x) stream_effect \<Rightarrow> ('c, 'x) connection_effect list" where
  "cancel_effect (Cancel subscription) = [Cancel_subscription subscription]"
| "cancel_effect _ = []"

definition close_rsocket :: "'c client \<Rightarrow> ('c, 'x) connection_effect list" where
  "close_rsocket client =
     (case client_rsocket client of None \<Rightarrow> [] | Some socket \<Rightarrow> [Close_rsocket socket])"

definition dispose_rsocket ::
  "nat \<Rightarrow> 'c clients \<Rightarrow> 'c clients \<times> ('c, 'x) connection_effect list" where
  "dispose_rsocket c w =
     (let client = client_of w c;
          (streams, cancels) = dispose_subscriptions (client_streams client) ::
            streams \<times> (unit, 'x) stream_effect list
      in (update_client c (\<lambda>client. client\<lparr>client_streams := streams\<rparr>) w,
          concat (map cancel_effect cancels) @ close_rsocket client))"

text \<open>
  The closure that the module's own \<open>requestStream\<close> and \<open>infinityRequestStream\<close> return: \<open>stream?.()\<close>,
  present once the connection is open, then \<open>disposeRsocket\<close>.
\<close>

definition close_stream ::
  "nat \<Rightarrow> nat option \<Rightarrow> 'c clients \<Rightarrow> 'c clients \<times> ('c, 'x) connection_effect list" where
  "close_stream c stream w =
     (let (streams, cancels) =
            (case stream of
               None \<Rightarrow> (client_streams (client_of w c), [])
             | Some v \<Rightarrow> stream_cancelled v (client_streams (client_of w c))) ::
            streams \<times> (unit, 'x) stream_effect list;
          w1 = update_client c (\<lambda>client. client\<lparr>client_streams := streams\<rparr>) w;
          (w2, effects) = dispose_rsocket c w1
      in (w2, concat (map cancel_effect cancels) @ effects))"

text \<open>
  The module's own stream requests: a client of its own, connected under a fixed name; the connection's
  callback starts the stream. Their closure is \<open>close_stream\<close>.
\<close>

definition request_stream ::
  "string \<Rightarrow> 'c \<Rightarrow> 'c \<Rightarrow> 'c clients \<Rightarrow> nat \<times> 'c clients \<times> ('c, 'x) connection_effect list" where
  "request_stream url start on_error w =
     (let (c, w') = new_platform_client url w
      in (c, connect c STREAM_RSOCKET_CLIENT_NAME start on_error w'))"

definition infinity_request_stream ::
  "string \<Rightarrow> 'c \<Rightarrow> 'c \<Rightarrow> 'c clients \<Rightarrow> nat \<times> 'c clients \<times> ('c, 'x) connection_effect list" where
  "infinity_request_stream url start on_error w =
     (let (c, w') = new_platform_client url w
      in (c, connect c INFINITY_STREAM_RSOCKET_CLIENT_NAME start on_error w'))"

fun dispose_all :: "nat list \<Rightarrow> 'c clients \<Rightarrow> 'c clients \<times> ('c, 'x) connection_effect list" where
  "dispose_all [] w = (w, [])"
| "dispose_all (c # cs) w =
     (let (w', effects) = dispose_rsocket c w; (w'', rest) = dispose_all cs w'
      in (w'', effects @ rest))"

definition dispose_rsockets :: "'c clients \<Rightarrow> 'c clients \<times> ('c, 'x) connection_effect list" where
  "dispose_rsockets w = dispose_all [0..<length (all_clients w)] w"

datatype ('c, 'x) connection_signal =
    New_client string
  | Connect nat string 'c 'c
  | Opened nat nat "'c on_connected"
  | Refused nat 'x "'c option"
  | Status_changed nat status_signal
  | Tick nat
  | Dispose nat

fun connection_step ::
  "string \<Rightarrow> ('c, 'x) connection_signal \<Rightarrow> 'c clients \<Rightarrow>
   'c clients \<times> ('c, 'x) connection_effect list" where
  "connection_step default_url (New_client url) w = (snd (new_platform_client url w), [])"
| "connection_step default_url (Connect c name connected failed) w = connect c name connected failed w"
| "connection_step default_url (Opened c socket connected) w = connection_opened c socket connected w"
| "connection_step default_url (Refused c x failed) w = connection_refused c x failed w"
| "connection_step default_url (Status_changed c signal) w = (connection_status c signal w, [])"
| "connection_step default_url (Tick c) w = reconnection_tick default_url c w"
| "connection_step default_url (Dispose c) w = dispose_rsocket c w"

section \<open>Lemmas\<close>

lemma flowable_request_eq:
  "flowable_request n left = (take n left, length left < n, drop n left)"
  by (induction n left rule: flowable_request.induct) simp_all

lemma flowable_run_eq:
  "flowable_run ns left = (take (sum_list ns) left, length left < sum_list ns, drop (sum_list ns) left)"
  by (induction ns arbitrary: left) (auto simp: flowable_request_eq take_add add.commute)

text \<open>The subscriptions a sequence of signals opens, and the streams it opens them for.\<close>

fun opened_subscriptions :: "('d, 'x) stream_signal list \<Rightarrow> (nat \<times> nat) list" where
  "opened_subscriptions [] = []"
| "opened_subscriptions (Subscribed stream subscription demand # signals) =
     (stream, subscription) # opened_subscriptions signals"
| "opened_subscriptions (_ # signals) = opened_subscriptions signals"

lemma opened_subscriptions_append [simp]:
  "opened_subscriptions (xs @ ys) = opened_subscriptions xs @ opened_subscriptions ys"
  by (induction xs rule: opened_subscriptions.induct) simp_all

text \<open>
  The live set lists the values of the streams' variables, and everything live was opened. The second
  part speaks of the effects so far: nothing is cancelled twice or while it is still live.
\<close>

definition streams_ok :: "(nat \<times> nat) list \<Rightarrow> streams \<Rightarrow> bool" where
  "streams_ok opened s \<longleftrightarrow>
     live_subscriptions s = map_values (stream_variables s) \<and> distinct (stream_variables s) \<and>
     set (stream_variables s) \<subseteq> set opened"

definition cancels_ok :: "(nat \<times> nat) list \<Rightarrow> streams \<Rightarrow> ('d, 'x) stream_effect list \<Rightarrow> bool" where
  "cancels_ok opened s effects \<longleftrightarrow>
     (\<forall>k. count_list effects (Cancel k) \<le> 1 \<and>
        (Cancel k \<in> set effects \<longrightarrow> k \<in> snd ` set opened \<and> k \<notin> set (live_subscriptions s)))"

lemma map_remove_value:
  assumes "distinct (map fst m)" and "distinct (map snd m)" and "map_get m a = Some b"
  shows "map snd (map_remove a m) = set_remove b (map snd m)"
  using assms
proof (induction m)
  case Nil
  then show ?case by simp
next
  case (Cons e m)
  show ?case
  proof (cases "fst e = a")
    case True
    with Cons.prems have "snd e = b" "a \<notin> set (map fst m)" "b \<notin> set (map snd m)"
      by (auto simp: map_get_def)
    then have "filter (\<lambda>e. fst e \<noteq> a) m = m" "filter (\<lambda>y. y \<noteq> b) (map snd m) = map snd m"
      by (auto simp: filter_id_conv image_iff)
    with True \<open>snd e = b\<close> show ?thesis by (simp add: map_remove_def set_remove_def)
  next
    case False
    with Cons have "map snd (map_remove a m) = set_remove b (map snd m)"
      by (cases e) (auto simp: map_get_def)
    moreover from False Cons.prems have "b \<in> set (map snd m)"
      by (cases e) (auto simp: map_get_def dest!: map_of_SomeD intro: rev_image_eqI)
    ultimately show ?thesis using False Cons.prems by (auto simp: map_remove_def set_remove_def)
  qed
qed

lemma streams_ok_distinct:
  assumes "streams_ok opened s" and "distinct (map fst opened)" and "distinct (map snd opened)"
  shows "distinct (map fst (stream_variables s))" and "distinct (map snd (stream_variables s))"
proof -
  from assms(1) have d: "distinct (stream_variables s)" "set (stream_variables s) \<subseteq> set opened"
    by (simp_all add: streams_ok_def)
  with assms(2,3) show "distinct (map fst (stream_variables s))" "distinct (map snd (stream_variables s))"
    by (auto simp: distinct_map intro: inj_on_subset)
qed

lemma release_ok:
  assumes "streams_ok opened s" and "distinct (map fst opened)" and "distinct (map snd opened)"
  shows "streams_ok opened (release_subscription a s)"
    and "set (live_subscriptions (release_subscription a s)) =
      set (live_subscriptions s) - set_option (map_get (stream_variables s) a)"
proof -
  note d = streams_ok_distinct [OF assms]
  show "streams_ok opened (release_subscription a s)"
    using assms(1) map_remove_value [OF d]
    by (auto simp: streams_ok_def release_subscription_def map_values_def split: option.split)
      (auto simp: map_remove_def)
  show "set (live_subscriptions (release_subscription a s)) =
      set (live_subscriptions s) - set_option (map_get (stream_variables s) a)"
    by (simp add: release_subscription_def split: option.split)
qed

lemma subscribed_ok:
  assumes "streams_ok opened s" and "a \<notin> fst ` set opened" and "b \<notin> snd ` set opened"
  shows "streams_ok (opened @ [(a, b)]) (register_subscription a b s)"
    and "live_subscriptions (register_subscription a b s) = live_subscriptions s @ [b]"
proof -
  from assms have sub: "set (stream_variables s) \<subseteq> set opened"
    and live: "live_subscriptions s = map snd (stream_variables s)"
    by (simp_all add: streams_ok_def map_values_def)
  from sub assms(2) have "a \<notin> fst ` set (stream_variables s)" by blast
  then have put: "map_put a b (stream_variables s) = stream_variables s @ [(a, b)]"
    by (intro map_put_fresh) (simp add: map_keys_def)
  from sub assms(3) live have "b \<notin> set (live_subscriptions s)" by auto
  with put have r: "register_subscription a b s =
      s\<lparr>stream_variables := stream_variables s @ [(a, b)],
        live_subscriptions := live_subscriptions s @ [b]\<rparr>"
    by (simp add: register_subscription_def set_add_def)
  then show "live_subscriptions (register_subscription a b s) = live_subscriptions s @ [b]" by simp
  from sub assms(2) have "(a, b) \<notin> set (stream_variables s)" by force
  with r sub live assms(1) show "streams_ok (opened @ [(a, b)]) (register_subscription a b s)"
    by (auto simp: streams_ok_def map_values_def)
qed

lemma on_response_no_cancel [simp]:
  "Cancel k \<notin> set (snd (stream_next a r s))" "count_list (snd (stream_next a r s)) (Cancel k) = 0"
  by (auto simp: stream_next_def count_list_0_iff)

lemma cancels_ok_append:
  assumes "cancels_ok opened s effects" and "\<And>k. Cancel k \<notin> set news"
    and "set opened \<subseteq> set opened'"
    and "\<And>k. k \<in> set (live_subscriptions s') \<Longrightarrow> k \<in> snd ` set opened \<Longrightarrow>
      k \<in> set (live_subscriptions s)"
  shows "cancels_ok opened' s' (effects @ news)"
proof -
  from assms(2) have "count_list news (Cancel k) = 0" for k
    by (simp add: count_list_0_iff)
  then have c: "count_list (effects @ news) (Cancel k) = count_list effects (Cancel k)" for k
    by simp
  have m: "Cancel k \<in> set (effects @ news) \<longleftrightarrow> Cancel k \<in> set effects" for k
    using assms(2) by simp
  show ?thesis unfolding cancels_ok_def c m
    using assms(1,3,4) unfolding cancels_ok_def by blast
qed

lemma stream_run_ok:
  fixes signals :: "('d, 'x) stream_signal list"
  assumes "distinct (map fst (opened_subscriptions signals))"
    and "distinct (map snd (opened_subscriptions signals))" and "Disposed \<notin> set signals"
  shows "streams_ok (opened_subscriptions signals) (fst (emit_run stream_step signals no_streams)) \<and>
    cancels_ok (opened_subscriptions signals) (fst (emit_run stream_step signals no_streams))
      (snd (emit_run stream_step signals no_streams))"
  using assms
proof (induction signals rule: rev_induct)
  case Nil
  show ?case by (simp add: streams_ok_def cancels_ok_def no_streams_def map_values_def)
next
  case (snoc signal signals)
  define o' where "o' = opened_subscriptions signals"
  define s where "s = fst (emit_run stream_step signals no_streams)"
  define e where "e = snd (emit_run stream_step signals no_streams)"
  from snoc have ih: "streams_ok o' s" "cancels_ok o' s e"
    and d: "distinct (map fst o')" "distinct (map snd o')"
    by (simp_all add: o'_def s_def e_def)
  note release = release_ok [OF ih(1) d]
  have le: "set (live_subscriptions (release_subscription a s)) \<subseteq> set (live_subscriptions s)" for a
    using release(2) by blast
  show ?case
  proof (cases signal)
    case (Subscribed a b n)
    from snoc.prems Subscribed have "a \<notin> fst ` set o'" "b \<notin> snd ` set o'"
      by (auto simp: o'_def)
    note sub = subscribed_ok [OF ih(1) this]
    have "cancels_ok (o' @ [(a, b)]) (register_subscription a b s) (e @ [Request_n b n])"
      by (rule cancels_ok_append [OF ih(2)]) (use sub(2) \<open>b \<notin> snd ` set o'\<close> in \<open>auto simp: image_iff\<close>)
    with sub(1) Subscribed show ?thesis
      by (simp add: o'_def [symmetric] s_def [symmetric] e_def [symmetric])
        (simp add: stream_subscribed_def)
  next
    case (Next a r)
    then show ?thesis
      using ih cancels_ok_append [OF ih(2), of "snd (stream_next a r s)" o' s]
      by (simp add: o'_def [symmetric] s_def [symmetric] e_def [symmetric])
        (simp add: stream_next_def)
  next
    case (Completed a)
    then show ?thesis
      using release(1) cancels_ok_append [OF ih(2), of "[Call_complete a]" o' "release_subscription a s"] le
      by (auto simp: o'_def [symmetric] s_def [symmetric] e_def [symmetric] stream_completed_def)
  next
    case (Stream_error a x)
    then show ?thesis
      using release(1) cancels_ok_append [OF ih(2), of "[Call_error a x]" o' "release_subscription a s"] le
      by (auto simp: o'_def [symmetric] s_def [symmetric] e_def [symmetric] stream_failed_def)
  next
    case (Cancelled a)
    show ?thesis
    proof (cases "map_get (stream_variables s) a")
      case None
      with Cancelled ih show ?thesis
        by (simp add: o'_def [symmetric] s_def [symmetric] e_def [symmetric] stream_cancelled_def)
    next
      case (Some b)
      then have "(a, b) \<in> set (stream_variables s)" by (simp add: map_get_def map_of_SomeD)
      with ih(1) have live: "b \<in> set (live_subscriptions s)" "b \<in> snd ` set o'"
        by (auto simp: streams_ok_def map_values_def intro: rev_image_eqI)
      then have "Cancel b \<notin> set e" using ih(2) by (auto simp: cancels_ok_def)
      then have "count_list e (Cancel b) = 0" by (simp add: count_list_0_iff)
      with ih(2) live release(2) [of a] Some
      have "cancels_ok o' (release_subscription a s) (e @ [Cancel b])"
        by (auto simp: cancels_ok_def)
      with release(1) Cancelled Some show ?thesis
        by (simp add: o'_def [symmetric] s_def [symmetric] e_def [symmetric] stream_cancelled_def)
    qed
  next
    case Disposed
    with snoc.prems show ?thesis by simp
  qed
qed

lemma client_update [simp]:
  "length (all_clients (update_client c f w)) = length (all_clients w)"
  "client_instance (update_client c f w) = client_instance w"
  "c < length (all_clients w) \<Longrightarrow> client_of (update_client c f w) c = f (client_of w c)"
  "c \<noteq> d \<Longrightarrow> client_of (update_client c f w) d = client_of w d"
  by (simp_all add: update_client_def client_of_def)

text \<open>The timers a sequence of effects starts for a client.\<close>

definition timers_started :: "nat \<Rightarrow> ('c, 'x) connection_effect list \<Rightarrow> nat" where
  "timers_started c effects =
     length (filter (\<lambda>e. case e of Start_timer d millis \<Rightarrow> d = c | _ \<Rightarrow> False) effects)"

lemma timers_started_simps [simp]:
  "timers_started c [] = 0"
  "timers_started c (xs @ ys) = timers_started c xs + timers_started c ys"
  "timers_started c (map Cancel_subscription ks) = 0"
  "timers_started c (close_rsocket client) = 0"
  "timers_started c (run_connected d client k) = 0"
  "timers_started c (process_connection d client name k f) = 0"
  "timers_started c [Call_failed f x] = 0"
  by (auto simp: timers_started_def close_rsocket_def run_connected_def process_connection_def
      filter_empty_conv split: option.splits on_connected.splits)

lemma timers_started_disposed [simp]:
  "timers_started c (concat (map cancel_effect (snd (dispose_subscriptions s)))) = 0"
  by (simp add: dispose_subscriptions_def comp_def timers_started_def filter_empty_conv)

lemma client_of_new [simp]:
  "c < length (all_clients w) \<Longrightarrow> client_of (snd (new_platform_client url w)) c = client_of w c"
  "length (all_clients w) \<le> length (all_clients (snd (new_platform_client url w)))"
  by (simp_all add: new_platform_client_def client_of_def nth_append)

lemma client_of_singleton [simp]:
  "c < length (all_clients w) \<Longrightarrow> client_of (snd (platform_client url w)) c = client_of w c"
  "length (all_clients w) \<le> length (all_clients (snd (platform_client url w)))"
  by (simp_all add: platform_client_def new_platform_client_def client_of_def nth_append split: option.split)

lemma listening_timers:
  fixes w :: "'c clients"
  assumes "c < length (all_clients w)"
  shows "of_bool (client_reconnection (client_of w c)) +
      timers_started c (snd (start_connection_listening d w) :: ('c, 'x) connection_effect list) =
    (of_bool (client_reconnection (client_of (fst (start_connection_listening d w ::
        'c clients \<times> ('c, 'x) connection_effect list)) c)) :: nat)"
    and "length (all_clients (fst (start_connection_listening d w ::
      'c clients \<times> ('c, 'x) connection_effect list))) = length (all_clients w)"
  using assms by (cases "c = d"; simp add: start_connection_listening_def timers_started_def)+

lemma client_reconnection_update [simp]:
  assumes "c < length (all_clients w)"
    and "\<And>client. client_reconnection (f client) = client_reconnection client"
  shows "client_reconnection (client_of (update_client d f w) c) = client_reconnection (client_of w c)"
  using assms by (cases "c = d") simp_all

lemma step_timers:
  fixes signal :: "('c, 'x) connection_signal"
  assumes "c < length (all_clients w)"
  shows "of_bool (client_reconnection (client_of w c)) +
      timers_started c (snd (connection_step url signal w)) =
    (of_bool (client_reconnection (client_of (fst (connection_step url signal w)) c)) :: nat) \<and>
    length (all_clients w) \<le> length (all_clients (fst (connection_step url signal w)))"
proof (cases signal)
  case (Opened d socket k)
  show ?thesis
    using assms listening_timers [where 'x = 'x and c = c and d = d and
        w = "update_client d (\<lambda>client. client\<lparr>client_rsocket := Some socket\<rparr>) w"]
    by (simp add: Opened connection_opened_def split_beta Let_def)
next
  case (Refused d x f)
  show ?thesis
    using assms listening_timers [where 'x = 'x and c = c and d = d and
        w = "update_client d (\<lambda>client. client\<lparr>client_status := ''ERROR''\<rparr>) w"]
    by (simp add: Refused connection_refused_def split_beta Let_def)
qed (use assms in \<open>simp_all add: connect_def connection_status_def reconnection_tick_def dispose_rsocket_def
    Let_def split_beta\<close>)

lemma run_timers:
  assumes "c < length (all_clients w)"
  shows "of_bool (client_reconnection (client_of w c)) +
      timers_started c (snd (emit_run (connection_step url) signals w)) =
    (of_bool (client_reconnection (client_of (fst (emit_run (connection_step url) signals w)) c)) :: nat)"
  using assms
proof (induction signals arbitrary: w)
  case Nil
  show ?case by simp
next
  case (Cons signal signals)
  note step = step_timers [OF Cons.prems, of url signal]
  from step Cons.prems have "c < length (all_clients (fst (connection_step url signal w)))" by simp
  from Cons.IH [OF this] step show ?case by simp
qed

section \<open>Properties\<close>

text \<open>
  Whatever sequence of demands the peer makes of a chunked request, the chunks go out in order, each
  once: after demands adding up to \<open>n\<close> exactly the first \<open>n\<close> chunks were sent. Completion is signalled
  only when more was demanded than there are chunks; a peer that demands exactly their number gets all of
  them and no completion.
\<close>

theorem chunked_request_flow:
  "flowable_run ns values =
     (take (sum_list ns) values, length values < sum_list ns, drop (sum_list ns) values)"
  by (rule flowable_run_eq)

text \<open>
  The streams that are open after a sequence of signals: those subscribed that neither completed nor failed nor were
  cancelled since; and the subscriptions that a sequence of signals is to cancel, those of the streams that are
  cancelled while they are open.
\<close>

fun still_open :: "('d, 'x) stream_signal \<Rightarrow> (nat \<times> nat) list \<Rightarrow> (nat \<times> nat) list" where
  "still_open (Subscribed stream subscription demand) opened = opened @ [(stream, subscription)]"
| "still_open (Completed stream) opened = filter (\<lambda>e. fst e \<noteq> stream) opened"
| "still_open (Stream_error stream x) opened = filter (\<lambda>e. fst e \<noteq> stream) opened"
| "still_open (Cancelled stream) opened = filter (\<lambda>e. fst e \<noteq> stream) opened"
| "still_open _ opened = opened"

definition open_streams :: "('d, 'x) stream_signal list \<Rightarrow> (nat \<times> nat) list" where
  "open_streams signals = fold still_open signals []"

fun due_cancels :: "('d, 'x) stream_signal list \<Rightarrow> (nat \<times> nat) list \<Rightarrow> nat list" where
  "due_cancels [] opened = []"
| "due_cancels (Cancelled stream # signals) opened =
     map snd (filter (\<lambda>e. fst e = stream) opened) @ due_cancels signals (still_open (Cancelled stream :: ('d, 'x) stream_signal) opened)"
| "due_cancels (signal # signals) opened = due_cancels signals (still_open signal opened)"

definition cancelled :: "('d, 'x) stream_effect list \<Rightarrow> nat list" where
  "cancelled effects = List.map_filter (\<lambda>e. case e of Cancel k \<Rightarrow> Some k | _ \<Rightarrow> None) effects"

lemma cancelled_simps [simp]:
  "cancelled [] = []" "cancelled (xs @ ys) = cancelled xs @ cancelled ys" "cancelled [Cancel k] = [k]"
  "cancelled [Request_n k n] = []" "cancelled [Call_complete v] = []" "cancelled [Call_error v x] = []"
  "cancelled (map (Call_next v) ds) = []"
  by (simp_all add: cancelled_def map_filter_def comp_def)

lemma due_cancels_append:
  "due_cancels (xs @ ys) opened = due_cancels xs opened @ due_cancels ys (fold still_open xs opened)"
  by (induction xs opened rule: due_cancels.induct) simp_all

lemma filter_key: "distinct (map fst m) \<Longrightarrow> map snd (filter (\<lambda>e. fst e = v) m) = (case map_get m v of None \<Rightarrow> [] | Some k \<Rightarrow> [k])"
proof (induction m)
  case (Cons e m)
  then have "filter (\<lambda>e. fst e = v) m = []" if "fst e = v" using that by (auto simp: filter_empty_conv image_iff)
  with Cons show ?case by (cases e) (auto simp: map_get_def split: option.splits)
qed (simp add: map_get_def)

lemma map_remove_missing: "map_get m v = None \<Longrightarrow> filter (\<lambda>e. fst e \<noteq> v) m = m"
  by (force simp: map_get_def map_of_eq_None_iff filter_id_conv)

lemma open_streams_variables:
  fixes signals :: "('d, 'x) stream_signal list"
  assumes "distinct (map fst (opened_subscriptions signals))"
    and "distinct (map snd (opened_subscriptions signals))" and "Disposed \<notin> set signals"
  shows "stream_variables (fst (emit_run stream_step signals no_streams)) = open_streams signals \<and>
    cancelled (snd (emit_run stream_step signals no_streams)) = due_cancels signals []"
  using assms
proof (induction signals rule: rev_induct)
  case Nil
  show ?case by (simp add: no_streams_def open_streams_def)
next
  case (snoc signal signals)
  define s where "s = fst (emit_run stream_step signals no_streams)"
  from snoc have ih: "stream_variables s = open_streams signals"
    "cancelled (snd (emit_run stream_step signals no_streams)) = due_cancels signals []"
    and d: "distinct (map fst (opened_subscriptions signals))" "distinct (map snd (opened_subscriptions signals))"
    and ok: "streams_ok (opened_subscriptions signals) s"
    using stream_run_ok [of signals] by (simp_all add: s_def)
  note filtered = filter_key [OF streams_ok_distinct(1) [OF ok d]]
  have released: "stream_variables (release_subscription v s) = filter (\<lambda>e. fst e \<noteq> v) (open_streams signals)" for v
    using map_remove_missing [of "open_streams signals" v]
    by (simp add: release_subscription_def map_remove_def ih(1) split: option.split)
  have step: "stream_variables (fst (stream_step signal s)) = still_open signal (open_streams signals) \<and>
      cancelled (snd (stream_step signal s)) = due_cancels [signal] (open_streams signals)"
  proof (cases signal)
    case (Subscribed v k n)
    with snoc.prems ok have "v \<notin> set (map_keys (stream_variables s))"
      by (auto simp: streams_ok_def map_keys_def image_iff)
    with Subscribed ih(1) show ?thesis
      by (simp add: stream_subscribed_def register_subscription_def map_put_fresh)
  next
    case (Cancelled v)
    with released [of v] filtered [of v] ih(1) show ?thesis
      by (auto simp: stream_cancelled_def map_remove_missing split: option.split)
  qed (use ih(1) released snoc.prems in \<open>simp_all add: stream_next_def stream_completed_def stream_failed_def\<close>)
  then show ?case using ih
    by (simp add: s_def [symmetric] due_cancels_append) (simp add: open_streams_def)
qed

text \<open>
  C19. The client's set of subscriptions is exact, as long as the sockets are not disposed. When every stream subscribes
  once, with a subscription of its own, then after any sequence of answers, failures, completions and cancellations the
  set lists exactly the subscriptions of the streams still open, those that were subscribed and since then neither
  completed nor failed nor were cancelled, and so do the variables of the streams. Exactly the subscriptions of the
  streams that are cancelled while open are cancelled, in that order and none of them twice.
\<close>

theorem stream_subscriptions_exact:
  assumes "distinct (map fst (opened_subscriptions signals))"
    and "distinct (map snd (opened_subscriptions signals))" and "Disposed \<notin> set signals"
  shows "let (s, effects) = emit_run stream_step signals no_streams in
    live_subscriptions s = map snd (open_streams signals) \<and> stream_variables s = open_streams signals \<and>
    distinct (live_subscriptions s) \<and>
    cancelled effects = due_cancels signals [] \<and> count_list effects (Cancel k) \<le> 1"
proof -
  from stream_run_ok [OF assms]
  have ok: "streams_ok (opened_subscriptions signals) (fst (emit_run stream_step signals no_streams))"
    "cancels_ok (opened_subscriptions signals) (fst (emit_run stream_step signals no_streams))
      (snd (emit_run stream_step signals no_streams))"
    by simp_all
  with streams_ok_distinct(2) [OF ok(1) assms(1,2)] open_streams_variables [OF assms]
  show ?thesis unfolding Let_def split_beta
    by (simp add: streams_ok_def cancels_ok_def map_values_def)
qed

theorem stream_subscriptions_exact_witness:
  "let (s, effects) = emit_run stream_step
       [Subscribed 0 7 5, Subscribed 1 8 5, Subscribed 2 9 5, Cancelled 0, Completed 1, Cancelled 1, Cancelled 0 ::
         (string, string) stream_signal] no_streams
   in live_subscriptions s = [9] \<and> cancelled effects = [7]"
  using stream_subscriptions_exact [of "[Subscribed 0 7 5, Subscribed 1 8 5, Subscribed 2 9 5, Cancelled 0, Completed 1,
      Cancelled 1, Cancelled 0 :: (string, string) stream_signal]"]
  unfolding Let_def split_beta by (simp add: open_streams_def)

text \<open>
  Closing a stream request. Once its stream is subscribed, closing cancels that subscription and then every other live
  one, each exactly once, closes the socket and leaves no live subscription. Closed before its connection opened, it
  emits nothing, and the connection attempt is not withdrawn: when it succeeds the callback still runs and starts the
  stream, which only another call of the closure or of \<open>disposeRsockets\<close> closes.
\<close>

theorem close_stream_correct:
  assumes "c < length (all_clients w)"
  shows "(map_get (stream_variables (client_streams (client_of w c))) v = Some k \<longrightarrow>
      snd (close_stream c (Some v) w) =
        Cancel_subscription k #
        map Cancel_subscription (set_remove k (live_subscriptions (client_streams (client_of w c)))) @
        close_rsocket (client_of w c)) \<and>
    live_subscriptions (client_streams (client_of (fst (close_stream c stream w)) c)) = [] \<and>
    (client_rsocket (client_of w c) = None \<and>
      live_subscriptions (client_streams (client_of w c)) = [] \<longrightarrow>
      snd (close_stream c None w) = [] \<and>
      Call_connected callback \<in>
        set (snd (connection_opened c socket (Caller callback) (fst (close_stream c None w)))))"
  using assms
  by (auto simp: close_stream_def dispose_rsocket_def dispose_subscriptions_def stream_cancelled_def
      release_subscription_def close_rsocket_def connection_opened_def run_connected_def Let_def
      split_beta comp_def split: option.split)

definition closing_clients :: "string clients" where
  "closing_clients =
     \<lparr>all_clients = [(new_client ''url'')
         \<lparr>client_rsocket := Some 1,
          client_streams := \<lparr>live_subscriptions = [5, 6], stream_variables = [(3, 5), (4, 6)]\<rparr>\<rparr>],
      client_instance = None\<rparr>"

theorem close_stream_correct_witness:
  "snd (close_stream 0 (Some 3) closing_clients) =
    [Cancel_subscription 5, Cancel_subscription 6, Close_rsocket 1 :: (string, string) connection_effect]"
proof -
  have "0 < length (all_clients closing_clients)"
    and "map_get (stream_variables (client_streams (client_of closing_clients 0))) 3 = Some 5"
    by (simp_all add: closing_clients_def client_of_def map_get_def)
  with close_stream_correct [where c = 0 and w = closing_clients and v = 3 and k = 5 and 'b = string]
  have "snd (close_stream 0 (Some 3) closing_clients) =
      Cancel_subscription 5 #
      map Cancel_subscription (set_remove 5 (live_subscriptions (client_streams (client_of closing_clients 0)))) @
      (close_rsocket (client_of closing_clients 0) :: (string, string) connection_effect list)"
    by blast
  then show ?thesis
    by (simp add: closing_clients_def client_of_def set_remove_def close_rsocket_def)
qed

text \<open>
  Reconnection looks at the shared client only. A tick of any client's timer does nothing while the
  singleton's status is not one of the three lost ones, even when the client's own connection is closed;
  when the singleton's connection is lost, the client reopens its own URL, whatever its own status, and the
  success of the attempt reloads the page.
\<close>

theorem reconnection_follows_singleton:
  assumes "client_instance w = Some p"
  shows "reconnection_tick url c w =
      (w, if client_status (client_of w p) \<in> {''NOT_CONNECTED'', ''CLOSED'', ''ERROR''}
          then [Open_connection c (client_name (client_of w c)) (client_url (client_of w c)) Reload
                  (client_failed (client_of w c))]
          else []) \<and>
    Reload_page \<in> set (snd (connection_opened c socket Reload w))"
  using assms
  by (simp add: reconnection_tick_def platform_client_def process_connection_def connection_opened_def
      run_connected_def Let_def split_beta)

definition split_clients :: "string clients" where
  "split_clients =
     \<lparr>all_clients = [(new_client ''a'')\<lparr>client_status := ''CONNECTED''\<rparr>,
        (new_client ''b'')\<lparr>client_status := ''CLOSED''\<rparr>], client_instance = Some 0\<rparr>"

theorem reconnection_follows_singleton_witness:
  "reconnection_tick ''url'' 1 split_clients =
     (split_clients, [] :: (string, string) connection_effect list)"
proof -
  have "client_instance split_clients = Some 0" by (simp add: split_clients_def)
  from reconnection_follows_singleton [OF this, THEN conjunct1, of "''url''" 1]
  show ?thesis by (simp add: client_of_def split_clients_def)
qed

text \<open>
  A client never runs two reconnection timers. Over any sequence of connections, failures, status
  changes, ticks and disposals of all clients, the timers started for one client are at most one, none if
  it was already listening, and exactly one when it started to listen.
\<close>

theorem one_reconnection_timer:
  assumes "c < length (all_clients w)"
  shows "timers_started c (snd (emit_run (connection_step url) signals w)) \<le> 1 \<and>
    (client_reconnection (client_of w c) \<longrightarrow>
      timers_started c (snd (emit_run (connection_step url) signals w)) = 0) \<and>
    (\<not> client_reconnection (client_of w c) \<and>
      client_reconnection (client_of (fst (emit_run (connection_step url) signals w)) c) \<longrightarrow>
      timers_started c (snd (emit_run (connection_step url) signals w)) = 1)"
  using run_timers [OF assms, of url signals] by (auto simp: of_bool_def split: if_splits)

theorem one_reconnection_timer_witness:
  "timers_started 0 (snd (emit_run (connection_step ''url'')
     [Opened 0 1 (Caller ''k''), Opened 0 2 (Reload :: string on_connected), Refused 0 ''x'' None]
     split_clients)) = 1"
proof -
  let ?signals = "[Opened 0 1 (Caller ''k''), Opened 0 2 (Reload :: string on_connected),
    Refused 0 ''x'' None]"
  have "\<not> client_reconnection (client_of split_clients 0)" "0 < length (all_clients split_clients)"
    "client_reconnection (client_of (fst (emit_run (connection_step ''url'') ?signals split_clients)) 0)"
    by (simp_all add: split_clients_def client_of_def new_client_def connection_opened_def
        connection_refused_def start_connection_listening_def update_client_def Let_def split_beta)
  then show ?thesis
    using one_reconnection_timer [of 0 split_clients "''url''" ?signals] by blast
qed

end
