(* ===== verification/Api.thy ===== *)
theory Api
  imports Client
begin

text \<open>
  The API of the panel, \<open>api/\<close>: one definition per method, giving the request it sends, the client and the
  interaction it uses, and what is done with the answer. \<open>deliver\<close> runs an answer through these two policies;
  \<open>error_handler\<close> is \<open>useApiActions().errorHandler\<close> (\<open>ApiActions.ts\<close>). Callbacks are tokens.
\<close>

section \<open>Calls\<close>

text \<open>The data of a request, one constructor per type sent.\<close>

datatype request_value =
    V_artifacts_resource artifacts_resource
  | V_artifacts_resource_request artifacts_resource_request
  | V_assembled_project_artifacts_request assembled_project_artifacts_request
  | V_assembly_configuration assembly_configuration
  | V_assembly_filter_criteria assembly_filter_criteria
  | V_build_request build_request
  | V_external_artifacts_request external_artifacts_request
  | V_filebeat_application filebeat_application
  | V_filebeat_application_request filebeat_application_request
  | V_git_resource git_resource
  | V_git_resource_request git_resource_request
  | V_load_test_request load_test_request
  | V_load_test_scenario load_test_scenario
  | V_load_test_scenario_request load_test_scenario_request
  | V_log log
  | V_log_record_request log_record_request
  | V_module_filter_criteria module_filter_criteria
  | V_module_full module_full
  | V_module_installation_request module_installation_request
  | V_module_update_request module_update_request
  | V_network_access_request network_access_request
  | V_number int
  | V_open_shift_resource open_shift_resource
  | V_open_shift_resource_request open_shift_resource_request
  | V_platform_file_clone_request platform_file_clone_request
  | V_prepared_configuration prepared_configuration
  | V_prepared_configuration_filter_criteria prepared_configuration_filter_criteria
  | V_prepared_configuration_request prepared_configuration_request
  | V_project_request project_request
  | V_project_update_request project_update_request
  | V_proxy_resource proxy_resource
  | V_proxy_resource_request proxy_resource_request
  | V_string string
  | V_update_modules_version_request update_modules_version_request
  | V_user user
  | V_user_authorization_request user_authorization_request
  | V_user_registration_request user_registration_request

datatype client_choice = Shared_client | Given_client nat

definition default_client :: "nat option \<Rightarrow> client_choice" where
  "default_client client = (case client of None \<Rightarrow> Shared_client | Some c \<Rightarrow> Given_client c)"

datatype interaction = Request_response | Infinity_stream | Fire_and_forget

text \<open>
  What a call does with a result: hands it to the callback, drops it (\<open>doNothing\<close>), filters a list by the
  projects of the user, projects it to names, or lets a single event pass if its project is visible.
\<close>

datatype 'c success =
    Pass 'c | Nothing_on_success | Pass_own 'c | Pass_visible 'c | Pass_names 'c | Event_visible 'c

text \<open>
  What a call does with an error: nothing (\<open>doNothing\<close>), the handler, the handler and then the caller's
  own callback; or it passes the handler's factory unapplied, which builds a handler and drops it.
\<close>

datatype 'c error_policy = No_handler | Handled | Handled_by 'c | Handler_not_applied

record 'c api_call =
  call_client :: client_choice
  call_interaction :: interaction
  call_request :: "request_value service_request"
  call_success :: "'c success"
  call_error :: "'c error_policy"

abbreviation api_call ::
  "client_choice \<Rightarrow> interaction \<Rightarrow> request_value service_request \<Rightarrow> 'c success \<Rightarrow> 'c error_policy \<Rightarrow>
   'c api_call" where
  "api_call client interaction request success error \<equiv>
     \<lparr>call_client = client, call_interaction = interaction, call_request = request,
      call_success = success, call_error = error\<rparr>"

section \<open>Answers\<close>

text \<open>
  A result is a list of entities with the projects they belong to, one such entity, or something else.
  An error object that is not a \<open>ServiceExecutionException\<close> is known by its text.
\<close>

record 'e entity =
  entity_project :: int
  entity_name :: string
  entity_value :: 'e

datatype ('c, 'e) api_effect =
    Call_with_list 'c "'e entity list"
  | Call_with_one 'c "'e entity"
  | Call_with_names 'c "string list"
  | Call_with_error 'c service_execution_exception
  | Single_line_snack string
  | Two_lines_snack string string
  | Log_out

definition project_visible :: "user option \<Rightarrow> int \<Rightarrow> bool" where
  "project_visible user project =
     (case user of
        None \<Rightarrow> False
      | Some u \<Rightarrow> truthy_bool (user_admin u) \<or> project \<in> set (user_available_projects u))"

definition project_available :: "user option \<Rightarrow> int \<Rightarrow> bool" where
  "project_available user project =
     (case user of None \<Rightarrow> False | Some u \<Rightarrow> project \<in> set (user_available_projects u))"

fun deliver_list :: "user option \<Rightarrow> 'c success \<Rightarrow> 'e entity list \<Rightarrow> ('c, 'e) api_effect list" where
  "deliver_list user (Pass k) xs = [Call_with_list k xs]"
| "deliver_list user (Pass_own k) xs =
     [Call_with_list k (filter (\<lambda>x. project_available user (entity_project x)) xs)]"
| "deliver_list user (Pass_visible k) xs =
     [Call_with_list k (filter (\<lambda>x. project_visible user (entity_project x)) xs)]"
| "deliver_list user (Pass_names k) xs = [Call_with_names k (map entity_name xs)]"
| "deliver_list user _ xs = []"

fun deliver_one :: "user option \<Rightarrow> 'c success \<Rightarrow> 'e entity \<Rightarrow> ('c, 'e) api_effect list" where
  "deliver_one user (Pass k) x = [Call_with_one k x]"
| "deliver_one user (Event_visible k) x =
     (if project_visible user (entity_project x) then [Call_with_one k x] else [])"
| "deliver_one user _ x = []"

definition known_error :: "string \<Rightarrow> bool" where
  "known_error c = list_ex (\<lambda>code. prefix code c) KNOWN_ERROR_CODES"

definition call_on_error ::
  "'c option \<Rightarrow> service_execution_exception \<Rightarrow> ('c, 'e) api_effect list" where
  "call_on_error on_error e = (case on_error of None \<Rightarrow> [] | Some k \<Rightarrow> [Call_with_error k e])"

definition error_handler :: "'c option \<Rightarrow> ('d, string) delivery \<Rightarrow> ('c, 'e) api_effect list" where
  "error_handler on_error error =
     (case error of
        Deliver_failure x \<Rightarrow>
          Single_line_snack x #
          call_on_error on_error \<lparr>error_code = API_ERROR, error_message = x, stack_trace = []\<rparr>
      | Deliver_exception e \<Rightarrow>
          (if error_code e = UNAUTHORIZED then [Log_out]
           else
             (if \<not> known_error (error_code e)
              then if error_message e = [] then [Single_line_snack (error_code e)]
                   else [Two_lines_snack (error_code e) (error_message e)]
              else []) @
             call_on_error on_error e)
      | Deliver_success d \<Rightarrow> [])"

fun deliver_error :: "'c error_policy \<Rightarrow> ('d, string) delivery \<Rightarrow> ('c, 'e) api_effect list" where
  "deliver_error No_handler error = []"
| "deliver_error Handled error = error_handler None error"
| "deliver_error (Handled_by k) error = error_handler (Some k) error"
| "deliver_error Handler_not_applied error = []"

section \<open>\<open>api/ApplicationsApi.ts\<close>\<close>

definition api_add_filebeat_application :: "filebeat_application_request \<Rightarrow> 'c \<Rightarrow> 'c api_call" where
  "api_add_filebeat_application request on_complete =
     api_call Shared_client Request_response
       (create_function_request ADD_FILEBEAT_APPLICATION (Some (V_filebeat_application_request request))) (Pass on_complete) Handled"

definition api_get_filebeat_applications :: "'c \<Rightarrow> 'c api_call" where
  "api_get_filebeat_applications on_complete =
     api_call Shared_client Request_response
       (create_function_request GET_FILEBEAT_APPLICATIONS None) (Pass on_complete) Handled"

definition api_get_filebeat_application :: "int \<Rightarrow> 'c \<Rightarrow> 'c api_call" where
  "api_get_filebeat_application entity on_complete =
     api_call Shared_client Request_response
       (create_function_request GET_FILEBEAT_APPLICATION (Some (V_number entity))) (Pass on_complete) Handled"

definition api_get_application_ids :: "'c \<Rightarrow> 'c api_call" where
  "api_get_application_ids on_complete =
     api_call Shared_client Request_response
       (create_function_request GET_APPLICATIONS_IDS None) (Pass on_complete) Handled"

definition api_update_filebeat_application :: "filebeat_application \<Rightarrow> 'c \<Rightarrow> 'c api_call" where
  "api_update_filebeat_application application on_complete =
     api_call Shared_client Request_response
       (create_function_request UPDATE_FILEBEAT_APPLICATION (Some (V_filebeat_application application))) (Pass on_complete) Handled"

definition api_delete_filebeat_application :: "int \<Rightarrow> 'c \<Rightarrow> 'c api_call" where
  "api_delete_filebeat_application entity on_complete =
     api_call Shared_client Request_response
       (create_function_request DELETE_FILEBEAT_APPLICATION (Some (V_number entity))) (Pass on_complete) No_handler"

section \<open>\<open>api/AssemblyApi.ts\<close>\<close>

definition api_build_project :: "build_request \<Rightarrow> 'c \<Rightarrow> 'c api_call" where
  "api_build_project request on_complete =
     api_call Shared_client Request_response
       (create_function_request BUILD_PROJECT (Some (V_build_request request))) (Pass on_complete) Handled"

definition api_save_assembly_configuration :: "assembly_configuration \<Rightarrow> 'c \<Rightarrow> 'c \<Rightarrow> 'c api_call" where
  "api_save_assembly_configuration request on_complete on_error =
     api_call Shared_client Request_response
       (create_function_request SAVE_ASSEMBLY_CONFIGURATION (Some (V_assembly_configuration request))) (Pass on_complete) (Handled_by on_error)"

definition api_get_assembly_configuration :: "int \<Rightarrow> 'c \<Rightarrow> 'c api_call" where
  "api_get_assembly_configuration request on_complete =
     api_call Shared_client Request_response
       (create_function_request GET_ASSEMBLY_CONFIGURATION (Some (V_number request))) (Pass on_complete) Handled"

definition api_get_assembly :: "int \<Rightarrow> 'c \<Rightarrow> 'c api_call" where
  "api_get_assembly request on_complete =
     api_call Shared_client Request_response
       (create_function_request GET_ASSEMBLY (Some (V_number request))) (Pass on_complete) Handled"

definition api_delete_assembly :: "int \<Rightarrow> 'c api_call" where
  "api_delete_assembly request =
     api_call Shared_client Request_response
       (create_function_request DELETE_ASSEMBLY (Some (V_number request))) Nothing_on_success No_handler"

definition api_rebuild_project :: "int \<Rightarrow> 'c api_call" where
  "api_rebuild_project request =
     api_call Shared_client Request_response
       (create_function_request REBUILD_PROJECT (Some (V_number request))) Nothing_on_success No_handler"

definition api_get_assemblies :: "'c \<Rightarrow> 'c api_call" where
  "api_get_assemblies on_complete =
     api_call Shared_client Request_response
       (create_function_request GET_ASSEMBLIES None) (Pass_own on_complete) Handled"

definition api_get_filtered_assemblies :: "assembly_filter_criteria \<Rightarrow> 'c \<Rightarrow> 'c api_call" where
  "api_get_filtered_assemblies request on_complete =
     api_call Shared_client Request_response
       (create_function_request GET_FILTERED_ASSEMBLIES (Some (V_assembly_filter_criteria request))) (Pass_visible on_complete) Handled"

definition api_subscribe_on_assembly :: "'c \<Rightarrow> 'c api_call" where
  "api_subscribe_on_assembly on_update =
     api_call Shared_client Infinity_stream
       (create_function_request SUBSCRIBE_ON_ASSEMBLY None) (Event_visible on_update) Handler_not_applied"

definition api_cancel_assembly :: "int \<Rightarrow> 'c api_call" where
  "api_cancel_assembly request =
     api_call Shared_client Request_response
       (create_function_request CANCEL_ASSEMBLY (Some (V_number request))) Nothing_on_success Handled"

section \<open>\<open>api/FileApi.ts\<close>\<close>

definition api_clone_file :: "platform_file_clone_request \<Rightarrow> 'c \<Rightarrow> 'c api_call" where
  "api_clone_file request on_complete =
     api_call Shared_client Request_response
       (create_function_request CLONE_FILE (Some (V_platform_file_clone_request request))) (Pass on_complete) Handled"

definition api_allocate_file :: "string \<Rightarrow> 'c \<Rightarrow> 'c api_call" where
  "api_allocate_file request on_complete =
     api_call Shared_client Request_response
       (create_function_request ALLOCATE_FILE (Some (V_string request))) (Pass on_complete) Handled"

definition api_get_file :: "int \<Rightarrow> 'c \<Rightarrow> 'c api_call" where
  "api_get_file request on_complete =
     api_call Shared_client Request_response
       (create_function_request GET_FILE (Some (V_number request))) (Pass on_complete) Handled"

section \<open>\<open>api/LoadTestingApi.ts\<close>\<close>

definition api_start_load_test :: "load_test_request \<Rightarrow> 'c api_call" where
  "api_start_load_test request =
     api_call Shared_client Request_response
       (create_function_request START_LOAD_TEST (Some (V_load_test_request request))) Nothing_on_success Handled"

definition api_save_load_test_scenario :: "load_test_scenario_request \<Rightarrow> 'c \<Rightarrow> 'c \<Rightarrow> 'c api_call" where
  "api_save_load_test_scenario request on_complete on_error =
     api_call Shared_client Request_response
       (create_function_request SAVE_LOAD_TEST_SCENARIO (Some (V_load_test_scenario_request request))) (Pass on_complete) (Handled_by on_error)"

definition api_update_load_test_scenario :: "load_test_scenario \<Rightarrow> 'c \<Rightarrow> 'c \<Rightarrow> 'c api_call" where
  "api_update_load_test_scenario request on_complete on_error =
     api_call Shared_client Request_response
       (create_function_request UPDATE_LOAD_TEST_SCENARIO (Some (V_load_test_scenario request))) (Pass on_complete) (Handled_by on_error)"

definition api_get_load_test_scenario :: "int \<Rightarrow> 'c \<Rightarrow> 'c api_call" where
  "api_get_load_test_scenario request on_complete =
     api_call Shared_client Request_response
       (create_function_request GET_LOAD_TEST_SCENARIO (Some (V_number request))) (Pass on_complete) Handled"

definition api_get_projects_load_test_scenarios :: "int \<Rightarrow> 'c \<Rightarrow> 'c api_call" where
  "api_get_projects_load_test_scenarios request on_complete =
     api_call Shared_client Request_response
       (create_function_request GET_PROJECTS_LOAD_TEST_SCENARIOS (Some (V_number request))) (Pass on_complete) Handled"

definition api_get_projects_load_tests :: "int \<Rightarrow> 'c \<Rightarrow> 'c api_call" where
  "api_get_projects_load_tests request on_complete =
     api_call Shared_client Request_response
       (create_function_request GET_PROJECTS_LOAD_TESTS (Some (V_number request))) (Pass on_complete) Handled"

definition api_get_load_test :: "int \<Rightarrow> 'c \<Rightarrow> 'c api_call" where
  "api_get_load_test request on_complete =
     api_call Shared_client Request_response
       (create_function_request GET_LOAD_TEST (Some (V_number request))) (Pass on_complete) Handled"

definition api_delete_load_test :: "int \<Rightarrow> 'c api_call" where
  "api_delete_load_test request =
     api_call Shared_client Request_response
       (create_function_request DELETE_LOAD_TEST (Some (V_number request))) Nothing_on_success No_handler"

definition api_delete_load_test_scenario :: "int \<Rightarrow> 'c \<Rightarrow> 'c api_call" where
  "api_delete_load_test_scenario request on_complete =
     api_call Shared_client Request_response
       (create_function_request DELETE_LOAD_TEST_SCENARIO (Some (V_number request))) (Pass on_complete) No_handler"

definition api_subscribe_on_load_test :: "'c \<Rightarrow> 'c api_call" where
  "api_subscribe_on_load_test on_update =
     api_call Shared_client Infinity_stream
       (create_function_request SUBSCRIBE_ON_LOAD_TEST None) (Pass on_update) Handler_not_applied"

definition api_cancel_load_test :: "int \<Rightarrow> 'c api_call" where
  "api_cancel_load_test request =
     api_call Shared_client Request_response
       (create_function_request CANCEL_LOAD_TEST (Some (V_number request))) Nothing_on_success Handled"

section \<open>\<open>api/LogApi.ts\<close>\<close>

definition api_add_log_record :: "log_record_request \<Rightarrow> 'c \<Rightarrow> 'c \<Rightarrow> 'c api_call" where
  "api_add_log_record request on_complete on_error =
     api_call Shared_client Request_response
       (create_function_request ADD_LOG_RECORD (Some (V_log_record_request request))) (Pass on_complete) (Handled_by on_error)"

definition api_update_log :: "log \<Rightarrow> 'c \<Rightarrow> 'c \<Rightarrow> 'c api_call" where
  "api_update_log request on_complete on_error =
     api_call Shared_client Request_response
       (create_function_request UPDATE_LOG (Some (V_log request))) (Pass on_complete) (Handled_by on_error)"

definition api_delete_log :: "int \<Rightarrow> 'c \<Rightarrow> 'c \<Rightarrow> 'c api_call" where
  "api_delete_log entity on_complete on_error =
     api_call Shared_client Request_response
       (create_function_request DELETE_LOG (Some (V_number entity))) (Pass on_complete) (Handled_by on_error)"

definition api_get_log :: "int \<Rightarrow> 'c \<Rightarrow> 'c api_call" where
  "api_get_log entity on_complete =
     api_call Shared_client Request_response
       (create_function_request GET_LOG (Some (V_number entity))) (Pass on_complete) Handled"

definition api_get_logs :: "'c \<Rightarrow> 'c \<Rightarrow> 'c api_call" where
  "api_get_logs on_complete on_error =
     api_call Shared_client Request_response
       (create_function_request GET_LOGS None) (Pass on_complete) (Handled_by on_error)"

definition api_subscribe_on_log :: "'c \<Rightarrow> 'c api_call" where
  "api_subscribe_on_log on_update =
     api_call Shared_client Infinity_stream
       (create_function_request SUBSCRIBE_ON_LOG None) (Pass on_update) Handled"

section \<open>\<open>api/ManagementApi.ts\<close>\<close>

definition api_get_version :: "'c \<Rightarrow> 'c api_call" where
  "api_get_version on_complete =
     api_call Shared_client Request_response
       (create_function_request GET_VERSION None) (Pass on_complete) Handled"

section \<open>\<open>api/ModuleApi.ts\<close>\<close>

definition api_start_module_installation :: "module_installation_request \<Rightarrow> 'c \<Rightarrow> 'c api_call" where
  "api_start_module_installation request on_complete =
     api_call Shared_client Request_response
       (create_function_request START_MODULE_INSTALLATION (Some (V_module_installation_request request))) (Pass on_complete) Handled"

definition api_process_module_installation :: "module_full \<Rightarrow> 'c api_call" where
  "api_process_module_installation request =
     api_call Shared_client Fire_and_forget
       (create_function_request PROCESS_MODULE_INSTALLATION (Some (V_module_full request))) Nothing_on_success No_handler"

definition api_reinstall_module :: "int \<Rightarrow> 'c api_call" where
  "api_reinstall_module entity =
     api_call Shared_client Fire_and_forget
       (create_function_request REINSTALL_MODULE (Some (V_number entity))) Nothing_on_success No_handler"

definition api_get_module :: "int \<Rightarrow> 'c \<Rightarrow> 'c api_call" where
  "api_get_module request on_complete =
     api_call Shared_client Request_response
       (create_function_request GET_MODULE (Some (V_number request))) (Pass on_complete) Handled"

definition api_get_modules :: "'c \<Rightarrow> 'c api_call" where
  "api_get_modules on_complete =
     api_call Shared_client Request_response
       (create_function_request GET_MODULES None) (Pass_own on_complete) Handled"

definition api_get_filtered_modules :: "module_filter_criteria \<Rightarrow> 'c \<Rightarrow> 'c api_call" where
  "api_get_filtered_modules request on_complete =
     api_call Shared_client Request_response
       (create_function_request GET_FILTERED_MODULES (Some (V_module_filter_criteria request))) (Pass_visible on_complete) Handled"

definition api_start_module_updating :: "module_update_request \<Rightarrow> 'c \<Rightarrow> 'c api_call" where
  "api_start_module_updating request on_complete =
     api_call Shared_client Request_response
       (create_function_request START_MODULE_UPDATING (Some (V_module_update_request request))) (Pass on_complete) Handled"

definition api_process_module_updating :: "module_full \<Rightarrow> 'c api_call" where
  "api_process_module_updating request =
     api_call Shared_client Fire_and_forget
       (create_function_request PROCESS_MODULE_UPDATING (Some (V_module_full request))) Nothing_on_success No_handler"

definition api_refresh_module_artifact :: "int \<Rightarrow> 'c api_call" where
  "api_refresh_module_artifact request =
     api_call Shared_client Fire_and_forget
       (create_function_request REFRESH_MODULE_ARTIFACT (Some (V_number request))) Nothing_on_success No_handler"

definition api_update_modules_version :: "update_modules_version_request \<Rightarrow> 'c api_call" where
  "api_update_modules_version request =
     api_call Shared_client Fire_and_forget
       (create_function_request UPDATE_MODULES_VERSION (Some (V_update_modules_version_request request))) Nothing_on_success No_handler"

definition api_stop_module :: "int \<Rightarrow> 'c api_call" where
  "api_stop_module entity =
     api_call Shared_client Fire_and_forget
       (create_function_request STOP_MODULE (Some (V_number entity))) Nothing_on_success No_handler"

definition api_restart_module :: "int \<Rightarrow> 'c api_call" where
  "api_restart_module entity =
     api_call Shared_client Fire_and_forget
       (create_function_request RESTART_MODULE (Some (V_number entity))) Nothing_on_success No_handler"

definition api_delete_module_from_resource :: "int \<Rightarrow> 'c api_call" where
  "api_delete_module_from_resource entity =
     api_call Shared_client Fire_and_forget
       (create_function_request DELETE_MODULE_FROM_RESOURCE (Some (V_number entity))) Nothing_on_success No_handler"

definition api_delete_module :: "int \<Rightarrow> 'c api_call" where
  "api_delete_module entity =
     api_call Shared_client Request_response
       (create_function_request DELETE_MODULE (Some (V_number entity))) Nothing_on_success No_handler"

definition api_subscribe_on_module :: "'c \<Rightarrow> 'c api_call" where
  "api_subscribe_on_module on_update =
     api_call Shared_client Infinity_stream
       (create_function_request SUBSCRIBE_ON_MODULE None) (Event_visible on_update) Handler_not_applied"

section \<open>\<open>api/NetworkApi.ts\<close>\<close>

definition api_check_network_access :: "network_access_request \<Rightarrow> 'c \<Rightarrow> 'c \<Rightarrow> 'c api_call" where
  "api_check_network_access request on_complete on_error =
     api_call Shared_client Request_response
       (create_function_request CHECK_NETWORK_ACCESS (Some (V_network_access_request request))) (Pass on_complete) (Handled_by on_error)"

section \<open>\<open>api/PreparedConfigurationApi.ts\<close>\<close>

definition api_add_prepared_configuration :: "prepared_configuration_request \<Rightarrow> 'c \<Rightarrow> 'c api_call" where
  "api_add_prepared_configuration request on_complete =
     api_call Shared_client Request_response
       (create_function_request ADD_PREPARED_CONFIGURATION (Some (V_prepared_configuration_request request))) (Pass on_complete) Handled"

definition api_get_prepared_configurations :: "'c \<Rightarrow> 'c api_call" where
  "api_get_prepared_configurations on_complete =
     api_call Shared_client Request_response
       (create_function_request GET_PREPARED_CONFIGURATIONS None) (Pass on_complete) Handled"

definition api_get_filtered_prepared_configurations :: "prepared_configuration_filter_criteria \<Rightarrow> 'c \<Rightarrow> 'c api_call" where
  "api_get_filtered_prepared_configurations request on_complete =
     api_call Shared_client Request_response
       (create_function_request GET_FILTERED_PREPARED_CONFIGURATIONS (Some (V_prepared_configuration_filter_criteria request))) (Pass on_complete) Handled"

definition api_get_prepared_configuration :: "int \<Rightarrow> 'c \<Rightarrow> 'c api_call" where
  "api_get_prepared_configuration entity on_complete =
     api_call Shared_client Request_response
       (create_function_request GET_PREPARED_CONFIGURATION (Some (V_number entity))) (Pass on_complete) Handled"

definition api_get_prepared_configuration_ids :: "'c \<Rightarrow> 'c api_call" where
  "api_get_prepared_configuration_ids on_complete =
     api_call Shared_client Request_response
       (create_function_request GET_PREPARED_CONFIGURATION_IDS None) (Pass on_complete) Handled"

definition api_update_prepared_configuration :: "prepared_configuration \<Rightarrow> 'c \<Rightarrow> 'c api_call" where
  "api_update_prepared_configuration configuration on_complete =
     api_call Shared_client Request_response
       (create_function_request UPDATE_PREPARED_CONFIGURATION (Some (V_prepared_configuration configuration))) (Pass on_complete) Handled"

definition api_delete_prepared_configuration :: "int \<Rightarrow> 'c \<Rightarrow> 'c api_call" where
  "api_delete_prepared_configuration entity on_complete =
     api_call Shared_client Request_response
       (create_function_request DELETE_PREPARED_CONFIGURATION (Some (V_number entity))) (Pass on_complete) No_handler"

section \<open>\<open>api/ProjectApi.ts\<close>\<close>

definition api_add_project :: "project_request \<Rightarrow> 'c api_call" where
  "api_add_project request =
     api_call Shared_client Request_response
       (create_function_request ADD_PROJECT (Some (V_project_request request))) Nothing_on_success Handled"

definition api_update_project :: "project_update_request \<Rightarrow> 'c api_call" where
  "api_update_project request =
     api_call Shared_client Request_response
       (create_function_request UPDATE_PROJECT (Some (V_project_update_request request))) Nothing_on_success Handled"

definition api_get_projects :: "'c \<Rightarrow> nat option \<Rightarrow> 'c api_call" where
  "api_get_projects on_complete client =
     api_call (default_client client) Request_response
       (create_function_request GET_PROJECTS None) (Pass_visible on_complete) Handled"

definition api_get_project_names :: "'c \<Rightarrow> nat option \<Rightarrow> 'c api_call" where
  "api_get_project_names on_complete client =
     api_call (default_client client) Request_response
       (create_function_request GET_PROJECTS None) (Pass_names on_complete) Handled"

definition api_get_assembled_project_artifacts :: "assembled_project_artifacts_request \<Rightarrow> 'c \<Rightarrow> 'c api_call" where
  "api_get_assembled_project_artifacts request on_complete =
     api_call Shared_client Request_response
       (create_function_request GET_ASSEMBLED_PROJECT_ARTIFACTS (Some (V_assembled_project_artifacts_request request))) (Pass on_complete) Handled"

definition api_get_project :: "int \<Rightarrow> 'c \<Rightarrow> 'c api_call" where
  "api_get_project entity on_complete =
     api_call Shared_client Request_response
       (create_function_request GET_PROJECT (Some (V_number entity))) (Pass on_complete) Handled"

definition api_reload_project :: "int \<Rightarrow> 'c api_call" where
  "api_reload_project entity =
     api_call Shared_client Request_response
       (create_function_request RELOAD_PROJECT (Some (V_number entity))) Nothing_on_success Handled"

definition api_delete_project :: "int \<Rightarrow> 'c api_call" where
  "api_delete_project entity =
     api_call Shared_client Request_response
       (create_function_request DELETE_PROJECT (Some (V_number entity))) Nothing_on_success No_handler"

definition api_add_external_artifact :: "external_artifacts_request \<Rightarrow> nat \<Rightarrow> 'c api_call" where
  "api_add_external_artifact request client =
     api_call (Given_client client) Request_response
       (create_function_request ADD_EXTERNAL_ARTIFACTS (Some (V_external_artifacts_request request))) Nothing_on_success No_handler"

definition api_subscribe_on_project :: "'c \<Rightarrow> 'c api_call" where
  "api_subscribe_on_project on_update =
     api_call Shared_client Infinity_stream
       (create_function_request SUBSCRIBE_ON_PROJECT None) (Pass on_update) Handled"

section \<open>\<open>api/ResourceApi.ts\<close>\<close>

definition api_add_open_shift_resource :: "open_shift_resource_request \<Rightarrow> 'c \<Rightarrow> 'c api_call" where
  "api_add_open_shift_resource request on_complete =
     api_call Shared_client Request_response
       (create_function_request ADD_OPEN_SHIFT_RESOURCE (Some (V_open_shift_resource_request request))) (Pass on_complete) Handled"

definition api_add_artifacts_resource :: "artifacts_resource_request \<Rightarrow> 'c \<Rightarrow> 'c api_call" where
  "api_add_artifacts_resource request on_complete =
     api_call Shared_client Request_response
       (create_function_request ADD_ARTIFACTS_RESOURCE (Some (V_artifacts_resource_request request))) (Pass on_complete) Handled"

definition api_add_git_resource :: "git_resource_request \<Rightarrow> 'c \<Rightarrow> 'c api_call" where
  "api_add_git_resource request on_complete =
     api_call Shared_client Request_response
       (create_function_request ADD_GIT_RESOURCE (Some (V_git_resource_request request))) (Pass on_complete) Handled"

definition api_add_proxy_resource :: "proxy_resource_request \<Rightarrow> 'c \<Rightarrow> 'c api_call" where
  "api_add_proxy_resource request on_complete =
     api_call Shared_client Request_response
       (create_function_request ADD_PROXY_RESOURCE (Some (V_proxy_resource_request request))) (Pass on_complete) Handled"

definition api_get_open_shift_resources :: "'c \<Rightarrow> 'c api_call" where
  "api_get_open_shift_resources on_complete =
     api_call Shared_client Request_response
       (create_function_request GET_OPEN_SHIFT_RESOURCES None) (Pass on_complete) Handled"

definition api_get_proxy_resources :: "'c \<Rightarrow> 'c api_call" where
  "api_get_proxy_resources on_complete =
     api_call Shared_client Request_response
       (create_function_request GET_PROXY_RESOURCES None) (Pass on_complete) Handled"

definition api_get_platform_resources :: "'c \<Rightarrow> 'c api_call" where
  "api_get_platform_resources on_complete =
     api_call Shared_client Request_response
       (create_function_request GET_PLATFORM_RESOURCES None) (Pass on_complete) Handled"

definition api_get_artifacts_resources :: "'c \<Rightarrow> 'c api_call" where
  "api_get_artifacts_resources on_complete =
     api_call Shared_client Request_response
       (create_function_request GET_ARTIFACTS_RESOURCES None) (Pass on_complete) Handled"

definition api_get_git_resources :: "'c \<Rightarrow> 'c api_call" where
  "api_get_git_resources on_complete =
     api_call Shared_client Request_response
       (create_function_request GET_GIT_RESOURCES None) (Pass on_complete) Handled"

definition api_get_open_shift_resource :: "int \<Rightarrow> 'c \<Rightarrow> 'c api_call" where
  "api_get_open_shift_resource entity on_complete =
     api_call Shared_client Request_response
       (create_function_request GET_OPEN_SHIFT_RESOURCE (Some (V_number entity))) (Pass on_complete) Handled"

definition api_get_proxy_resource :: "int \<Rightarrow> 'c \<Rightarrow> 'c api_call" where
  "api_get_proxy_resource entity on_complete =
     api_call Shared_client Request_response
       (create_function_request GET_PROXY_RESOURCE (Some (V_number entity))) (Pass on_complete) Handled"

definition api_get_artifacts_resource :: "int \<Rightarrow> 'c \<Rightarrow> 'c api_call" where
  "api_get_artifacts_resource entity on_complete =
     api_call Shared_client Request_response
       (create_function_request GET_ARTIFACTS_RESOURCE (Some (V_number entity))) (Pass on_complete) Handled"

definition api_get_git_resource :: "int \<Rightarrow> 'c \<Rightarrow> 'c api_call" where
  "api_get_git_resource entity on_complete =
     api_call Shared_client Request_response
       (create_function_request GET_GIT_RESOURCE (Some (V_number entity))) (Pass on_complete) Handled"

definition api_get_resource_ids :: "'c \<Rightarrow> 'c api_call" where
  "api_get_resource_ids on_complete =
     api_call Shared_client Request_response
       (create_function_request GET_RESOURCES_IDS None) (Pass on_complete) Handled"

definition api_update_open_shift_resource :: "open_shift_resource \<Rightarrow> 'c \<Rightarrow> 'c api_call" where
  "api_update_open_shift_resource resource on_complete =
     api_call Shared_client Request_response
       (create_function_request UPDATE_OPEN_SHIFT_RESOURCE (Some (V_open_shift_resource resource))) (Pass on_complete) Handled"

definition api_update_artifacts_resource :: "artifacts_resource \<Rightarrow> 'c \<Rightarrow> 'c api_call" where
  "api_update_artifacts_resource resource on_complete =
     api_call Shared_client Request_response
       (create_function_request UPDATE_ARTIFACTS_RESOURCE (Some (V_artifacts_resource resource))) (Pass on_complete) Handled"

definition api_update_git_resource :: "git_resource \<Rightarrow> 'c \<Rightarrow> 'c api_call" where
  "api_update_git_resource resource on_complete =
     api_call Shared_client Request_response
       (create_function_request UPDATE_GIT_RESOURCE (Some (V_git_resource resource))) (Pass on_complete) Handled"

definition api_update_proxy_resource :: "proxy_resource \<Rightarrow> 'c \<Rightarrow> 'c api_call" where
  "api_update_proxy_resource resource on_complete =
     api_call Shared_client Request_response
       (create_function_request UPDATE_PROXY_RESOURCE (Some (V_proxy_resource resource))) (Pass on_complete) Handled"

definition api_delete_open_shift_resource :: "int \<Rightarrow> 'c \<Rightarrow> 'c api_call" where
  "api_delete_open_shift_resource entity on_complete =
     api_call Shared_client Request_response
       (create_function_request DELETE_OPEN_SHIFT_RESOURCE (Some (V_number entity))) (Pass on_complete) No_handler"

definition api_delete_artifacts_resource :: "int \<Rightarrow> 'c \<Rightarrow> 'c api_call" where
  "api_delete_artifacts_resource entity on_complete =
     api_call Shared_client Request_response
       (create_function_request DELETE_ARTIFACTS_RESOURCE (Some (V_number entity))) (Pass on_complete) No_handler"

definition api_delete_git_resource :: "int \<Rightarrow> 'c \<Rightarrow> 'c api_call" where
  "api_delete_git_resource entity on_complete =
     api_call Shared_client Request_response
       (create_function_request DELETE_GIT_RESOURCE (Some (V_number entity))) (Pass on_complete) No_handler"

definition api_delete_proxy_resource :: "int \<Rightarrow> 'c \<Rightarrow> 'c api_call" where
  "api_delete_proxy_resource entity on_complete =
     api_call Shared_client Request_response
       (create_function_request DELETE_PROXY_RESOURCE (Some (V_number entity))) (Pass on_complete) No_handler"

section \<open>\<open>api/UserApi.ts\<close>\<close>

definition api_authorize :: "user_authorization_request \<Rightarrow> 'c \<Rightarrow> 'c \<Rightarrow> 'c api_call" where
  "api_authorize requestData on_complete on_error =
     api_call Shared_client Request_response
       (create_function_request AUTHORIZE (Some (V_user_authorization_request requestData))) (Pass on_complete) (Handled_by on_error)"

definition api_register_user :: "user_registration_request \<Rightarrow> 'c \<Rightarrow> 'c \<Rightarrow> 'c api_call" where
  "api_register_user requestData on_complete on_error =
     api_call Shared_client Request_response
       (create_function_request REGISTER_USER (Some (V_user_registration_request requestData))) (Pass on_complete) (Handled_by on_error)"

definition api_get_user_names :: "'c \<Rightarrow> 'c api_call" where
  "api_get_user_names on_complete =
     api_call Shared_client Request_response
       (create_function_request GET_USER_NAMES None) (Pass on_complete) Handled"

definition api_get_user :: "int \<Rightarrow> 'c \<Rightarrow> 'c api_call" where
  "api_get_user entity on_complete =
     api_call Shared_client Request_response
       (create_function_request GET_USER (Some (V_number entity))) (Pass on_complete) Handled"

definition api_get_users :: "'c \<Rightarrow> 'c api_call" where
  "api_get_users on_complete =
     api_call Shared_client Request_response
       (create_function_request GET_USERS None) (Pass on_complete) Handled"

definition api_get_user_emails :: "'c \<Rightarrow> 'c api_call" where
  "api_get_user_emails on_complete =
     api_call Shared_client Request_response
       (create_function_request GET_USER_EMAILS None) (Pass on_complete) Handled"

definition api_update_user :: "user \<Rightarrow> 'c \<Rightarrow> 'c api_call" where
  "api_update_user user on_complete =
     api_call Shared_client Request_response
       (create_function_request UPDATE_USER (Some (V_user user))) (Pass on_complete) Handled"

definition api_delete_user :: "int \<Rightarrow> 'c \<Rightarrow> 'c api_call" where
  "api_delete_user entity on_complete =
     api_call Shared_client Request_response
       (create_function_request DELETE_USER (Some (V_number entity))) (Pass on_complete) Handled"

definition api_subscribe_on_user :: "'c \<Rightarrow> 'c api_call" where
  "api_subscribe_on_user on_update =
     api_call Shared_client Infinity_stream
       (create_function_request SUBSCRIBE_ON_USER None) (Pass on_update) Handled"

section \<open>\<open>authenticate\<close> of \<open>api/UserApi.ts\<close>\<close>

text \<open>
  Not under \<open>useUserApi\<close>: no error handler, every failure and every empty answer is the same \<open>onError\<close>.
\<close>

definition authenticate_request :: "string \<Rightarrow> request_value service_request" where
  "authenticate_request token = create_function_request AUTHENTICATE (Some (V_string token))"

definition authenticate :: "'c \<Rightarrow> 'c \<Rightarrow> ('u option, string) delivery \<Rightarrow> 'c \<times> 'u option" where
  "authenticate on_success on_error answer =
     (case answer of
        Deliver_success (Some user) \<Rightarrow> (on_success, Some user)
      | _ \<Rightarrow> (on_error, None))"

section \<open>\<open>uploadFile\<close> of \<open>api/FileApi.ts\<close>\<close>

text \<open>The requests of the chunked upload of a file; its errors are dropped (\<open>doNothing\<close>).\<close>

definition upload_file :: "platform_file_payload \<Rightarrow> platform_file_chunk service_request list option" where
  "upload_file p =
     map_option
       (map (\<lambda>piece. create_function_request UPLOAD_FILE
          (Some \<lparr>platform_file_chunk_id = platform_file_payload_id p,
              platform_file_chunk_size = int (length (platform_file_payload_bytes p)),
              platform_file_chunk_bytes = piece\<rparr>)))
       (chunks (platform_file_payload_bytes p) FILE_CHUNK_SIZE)"

section \<open>Properties\<close>

text \<open>
  What the error handler does with an error. A transport failure shows one notification and reaches the
  caller once, as an \<open>API_ERROR\<close>. An exception whose code is \<open>UNAUTHORIZED\<close> only logs the user out. Any
  other exception reaches the caller exactly once and unchanged, after one notification of its code and its message,
  if it has one, when its code does not begin with a known code, and without any otherwise; it never logs out.
  \<open>UNAUTHORIZED\<close> followed by anything else counts as known, hence silent, but does not log out.
\<close>

theorem error_handler_correct:
  "(error_handler (Some k) (Deliver_failure x) =
      [Single_line_snack x,
       Call_with_error k \<lparr>error_code = API_ERROR, error_message = x, stack_trace = []\<rparr>]) \<and>
   (error_code e = UNAUTHORIZED \<longrightarrow> error_handler (Some k) (Deliver_exception e) = [Log_out]) \<and>
   (error_code e \<noteq> UNAUTHORIZED \<longrightarrow>
      error_handler (Some k) (Deliver_exception e) =
        (if \<exists>code\<in>{UNAUTHORIZED, USER_DOES_NOT_EXISTS, INVALID_PASSWORD}. prefix code (error_code e) then []
         else if error_message e = [] then [Single_line_snack (error_code e)]
         else [Two_lines_snack (error_code e) (error_message e)]) @ [Call_with_error k e]) \<and>
   known_error (UNAUTHORIZED @ rest)"
proof -
  have "known_error (UNAUTHORIZED @ rest)"
    by (simp add: known_error_def KNOWN_ERROR_CODES_def)
  then show ?thesis
    by (auto simp: error_handler_def call_on_error_def known_error_def list_ex_iff KNOWN_ERROR_CODES_def)
qed

theorem error_handler_correct_witness:
  "error_handler (Some ''k'') (Deliver_exception
      \<lparr>error_code = ''UNAUTHORIZED'', error_message = ''m'', stack_trace = []\<rparr>) = [Log_out]"
proof -
  have "error_code \<lparr>error_code = ''UNAUTHORIZED'', error_message = ''m'', stack_trace = []\<rparr> =
      UNAUTHORIZED"
    by (simp add: UNAUTHORIZED_def)
  then show ?thesis by (rule error_handler_correct [THEN conjunct2, THEN conjunct1, rule_format])
qed

text \<open>
  Errors of the module, assembly and load test subscriptions are lost: these three pass the factory of
  the handler where a handler is expected, so that no error has any effect, not even a log out. The project,
  user and log subscriptions handle them.
\<close>

theorem subscription_errors_lost:
  "deliver_error (call_error (api_subscribe_on_module k)) error = [] \<and>
   deliver_error (call_error (api_subscribe_on_assembly k)) error = [] \<and>
   deliver_error (call_error (api_subscribe_on_load_test k)) error = [] \<and>
   deliver_error (call_error (api_subscribe_on_project k)) error = error_handler None error \<and>
   deliver_error (call_error (api_subscribe_on_user k)) error = error_handler None error \<and>
   deliver_error (call_error (api_subscribe_on_log k)) error = error_handler None error"
  by (simp add: api_subscribe_on_module_def api_subscribe_on_assembly_def
      api_subscribe_on_load_test_def api_subscribe_on_project_def api_subscribe_on_user_def
      api_subscribe_on_log_def)

text \<open>
  Project visibility. Filtered modules and assemblies, projects, and the events of modules and
  assemblies reach the callback only for projects the user may see, in the order of the answer, and an
  administrator sees all of them. The unfiltered \<open>getModules\<close> and \<open>getAssemblies\<close> have no exception for
  administrators: they keep only the user's own projects.
\<close>

theorem api_visibility:
  "call_success (api_get_filtered_modules criteria k) = Pass_visible k \<and>
   call_success (api_get_filtered_assemblies assembly_criteria k) = Pass_visible k \<and>
   call_success (api_get_projects k client) = Pass_visible k \<and>
   deliver_list (Some u) (Pass_visible k) xs =
     [Call_with_list k (if user_admin u = Some True then xs
        else filter (\<lambda>x. entity_project x \<in> set (user_available_projects u)) xs)] \<and>
   deliver_list (Some u) (call_success (api_get_modules k)) xs =
     [Call_with_list k (filter (\<lambda>x. entity_project x \<in> set (user_available_projects u)) xs)] \<and>
   deliver_list (Some u) (call_success (api_get_assemblies k)) xs =
     [Call_with_list k (filter (\<lambda>x. entity_project x \<in> set (user_available_projects u)) xs)] \<and>
   deliver_one (Some u) (call_success (api_subscribe_on_module k)) x =
     (if user_admin u = Some True \<or> entity_project x \<in> set (user_available_projects u)
      then [Call_with_one k x] else []) \<and>
   deliver_one (Some u) (call_success (api_subscribe_on_assembly k)) x =
     (if user_admin u = Some True \<or> entity_project x \<in> set (user_available_projects u)
      then [Call_with_one k x] else []) \<and>
   deliver_one None (call_success (api_subscribe_on_assembly k)) x = []"
  by (simp add: api_get_filtered_modules_def api_get_filtered_assemblies_def api_get_projects_def
      api_get_modules_def api_get_assemblies_def api_subscribe_on_module_def
      api_subscribe_on_assembly_def project_visible_def project_available_def truthy_bool_def)

text \<open>
  C24. The upload of a file loses and reorders nothing: once the demands of the peer reach the number of the chunks of
  the file, all of them were sent and carry in order exactly the bytes of the file; each chunk is non-empty and at most
  1024 bytes long and carries the file's identifier and total size; and completion was signalled exactly if more was
  demanded than there are chunks. An empty file has no chunks: the first positive demand completes it at once.
\<close>

theorem upload_file_correct:
  assumes "upload_file p = Some requests" and "length requests \<le> sum_list demands"
  shows "let (out, completed, left) = flowable_run demands requests;
      sent = map (\<lambda>r. the (request_data r)) out in
    concat (map platform_file_chunk_bytes sent) = platform_file_payload_bytes p \<and>
    (\<forall>c\<in>set sent. platform_file_chunk_bytes c \<noteq> [] \<and> length (platform_file_chunk_bytes c) \<le> 1024 \<and>
       platform_file_chunk_id c = platform_file_payload_id p \<and>
       platform_file_chunk_size c = int (length (platform_file_payload_bytes p))) \<and>
    left = [] \<and> (completed \<longleftrightarrow> length sent < sum_list demands) \<and>
    (platform_file_payload_bytes p = [] \<longrightarrow>
       requests = [] \<and> (\<forall>n>0. flowable_request n requests = ([], True, [])))"
proof -
  let ?pieces = "pieces (nat FILE_CHUNK_SIZE) (platform_file_payload_bytes p)"
  from assms(1) have requests: "requests = map (\<lambda>piece. create_function_request UPLOAD_FILE
      (Some \<lparr>platform_file_chunk_id = platform_file_payload_id p,
        platform_file_chunk_size = int (length (platform_file_payload_bytes p)),
        platform_file_chunk_bytes = piece\<rparr>)) ?pieces"
    by (simp add: upload_file_def chunks_pieces FILE_CHUNK_SIZE_def)
  have "concat ?pieces = platform_file_payload_bytes p"
    by (simp add: concat_pieces FILE_CHUNK_SIZE_def)
  moreover have "piece \<noteq> [] \<and> length piece \<le> 1024" if "piece \<in> set ?pieces" for piece
    using length_in_pieces [OF that] by (simp add: FILE_CHUNK_SIZE_def)
  moreover have "platform_file_payload_bytes p = [] \<Longrightarrow> ?pieces = []" by simp
  ultimately show ?thesis
    using assms(2)
    by (auto simp: flowable_run_eq flowable_request_eq requests create_function_request_def comp_def Let_def)
qed

theorem upload_file_correct_witness:
  "concat (map (\<lambda>r. platform_file_chunk_bytes (the (request_data r))) (fst (flowable_run [1, 1]
     (the (upload_file \<lparr>platform_file_payload_id =
        \<lparr>fid_id = 1, fid_name = ''f''\<rparr>,
      platform_file_payload_bytes = [1, 2, 3]\<rparr>))))) = [1, 2, 3]"
proof -
  let ?p = "\<lparr>platform_file_payload_id =
        \<lparr>fid_id = 1, fid_name = ''f''\<rparr>,
      platform_file_payload_bytes = [1, 2, 3]\<rparr>"
  have u: "upload_file ?p = Some (the (upload_file ?p))"
    by (simp add: upload_file_def chunks_pieces FILE_CHUNK_SIZE_def)
  have "length (the (upload_file ?p)) \<le> sum_list [1, 1]"
    by (simp add: upload_file_def chunks_pieces FILE_CHUNK_SIZE_def pieces.simps [of "Suc n" for n]
        pieces.simps [of 1024])
  from upload_file_correct [OF u this] show ?thesis
    by (simp add: Let_def comp_def split_beta del: flowable_run.simps)
qed

end
