(* ===== verification/Samples.thy ===== *)
theory Samples
  imports Catalog
begin

text \<open>Concrete resources, projects, drafts, modules, files and assemblies for the witnesses.\<close>

definition sample_resource :: resource_identifier where
  "sample_resource = \<lparr>rid_id = 1, rid_name = ''cluster'', rid_type = OPEN_SHIFT_RESOURCE\<rparr>"

definition sample_artifact :: assembled_artifact where
  "sample_artifact =
     \<lparr>artifact_name = ''app'', artifact_version = ''1.0'',
      artifact_external_id = \<lparr>eid_id = ''x'', eid_resource_id = sample_resource\<rparr>\<rparr>"

definition sample_draft :: "module_file list \<Rightarrow> module_configuration_draft" where
  "sample_draft files =
     \<lparr>draft_resource_id = sample_resource, draft_artifact = sample_artifact, draft_name = None,
      draft_url = None, draft_parameters = None, draft_count = 1, draft_ports = None,
      draft_prepared_configurations = None, draft_manual_configurations = None,
      draft_additional_files = Some files, draft_applications = None, draft_has_parameters = None,
      draft_has_url = None, draft_has_ports = None, draft_has_string_configurations = None,
      draft_has_probe = None, draft_probes_configuration = None\<rparr>"

definition sample_module :: "platform_file_identifier list \<Rightarrow> module_full" where
  "sample_module files =
     \<lparr>mod_id = 3, mod_name = ''app-1.0'', mod_project_id = 5, mod_resource_id = Some sample_resource,
      mod_internal_ip = ''10.0.0.1'', mod_external_id = Some \<lparr>eid_id = ''y'', eid_resource_id = sample_resource\<rparr>,
      mod_artifact = sample_artifact, mod_parameters = None, mod_url = None, mod_count = 1,
      mod_ports = None, mod_port_mappings = None, mod_prepared_configurations = None,
      mod_manual_configurations = None, mod_additional_files = Some files,
      mod_state = MODULE_RUN_STATE, mod_update_time_stamp = None, mod_applications = None,
      mod_probes_configuration = None\<rparr>"

definition sample_files :: "module_file list" where
  "sample_files =
     [\<lparr>module_file_name = ''a'', module_file_bytes = [1]\<rparr>,
      \<lparr>module_file_name = ''b'', module_file_bytes = [2]\<rparr>]"

definition sample_ids :: "platform_file_identifier list" where
  "sample_ids = [\<lparr>fid_id = 8, fid_name = ''b''\<rparr>, \<lparr>fid_id = 7, fid_name = ''a''\<rparr>]"

definition sample_project :: project where
  "sample_project =
     (let resource = \<lparr>rid_id = 1, rid_name = ''git'', rid_type = GIT_RESOURCE\<rparr> in
      \<lparr>project_id = 1, project_name = ''p'',
       project_external_id = \<lparr>eid_id = ''e'', eid_resource_id = resource\<rparr>,
       project_git_resource_id = resource, project_technologies = [],
       project_state = PROJECT_INITIALIZED_STATE, project_creation_time_stamp = 0, project_versions = [],
       project_artifacts = [], project_open_shift_configuration = None,
       project_notifications_configuration = None\<rparr>)"

definition sample_assembly_configuration :: assembly_configuration where
  "sample_assembly_configuration =
     \<lparr>assembly_configuration_id = 1,
      assembly_configuration_artifact_configurations =
        Some [\<lparr>artifact_configuration_name = ''app'',
          artifact_configuration_artifact =
            Some \<lparr>project_artifact_name = ''app'', project_artifact_technologies = [GRADLE],
                  project_artifact_versions = []\<rparr>,
          artifact_configuration_archives =
            [\<lparr>archive_resource_id = sample_resource, archive_archive_technology = Some DOCKER,
              archive_docker_configuration =
                Some \<lparr>docker_image = ''nginx:1'', docker_container_technology = NGINX,
                      docker_source_paths = None\<rparr>\<rparr>],
          artifact_configuration_gradle_configuration =
            Some \<lparr>gradle_artifact_arguments = Some ''build''\<rparr>\<rparr>],
      assembly_configuration_technology = Some GRADLE,
      assembly_configuration_gradle_configuration =
        Some \<lparr>gradle_arguments = None, gradle_version = None, gradle_jdk_version = None,
              gradle_init_script_groovy_content = None, gradle_init_script_kotlin_content = None,
              gradle_init_script_format = None, gradle_properties = None,
              gradle_cache_configuration = None\<rparr>,
      assembly_configuration_default_resource_id = Some sample_resource\<rparr>"

definition sample_user :: "string list \<Rightarrow> user" where
  "sample_user actions =
     \<lparr>user_id = 1, user_name = ''u'', user_full_name = ''User'', user_password = [], user_email = ''u@e'',
      user_token = ''t'', user_update_time_stamp = 0, user_admin = None, user_available_projects = [],
      user_available_actions = actions\<rparr>"

end
