(* ===== verification/Services.thy ===== *)
theory Services
  imports Samples Extensions
begin

text \<open>
  The module services, \<open>service/ModuleInstallationService.ts\<close>, \<open>ModuleUpdatingService.ts\<close> and
  \<open>ModuleCloningService.ts\<close>. Each allocates identifiers for the additional files, starts the operation once
  all are there, uploads the contents when the operation was accepted, and lets the platform process the
  module after the last upload. Answers come in any order; an operation of the model is one answer, and
  returns the requests the code makes in it. A run of a service is a run of these operations.
\<close>

section \<open>Requests\<close>

text \<open>
  \<open>Start_installation project name draft files\<close>: the configuration is \<open>draft\<close> with its additional files
  replaced by the identifiers \<open>files\<close>; only the installation service sends a name.
\<close>

datatype service_effect =
    Allocate_file string
  | Start_installation int "string option" module_configuration_draft "platform_file_identifier list"
  | Start_updating int module_configuration_draft "platform_file_identifier list"
  | Upload_file "platform_file_identifier option" bytes
  | Clone_file "platform_file_identifier option" platform_file_identifier
  | Process_installation module_full
  | Process_updating module_full
  | Throw_type_error

datatype service_signal =
    File_allocated platform_file_identifier
  | Operation_started module_full
  | File_uploaded

definition draft_files :: "module_configuration_draft \<Rightarrow> module_file list" where
  "draft_files draft = (case draft_additional_files draft of None \<Rightarrow> [] | Some fs \<Rightarrow> fs)"

definition module_files :: "module_full \<Rightarrow> platform_file_identifier list" where
  "module_files m = (case mod_additional_files m of None \<Rightarrow> [] | Some fs \<Rightarrow> fs)"

section \<open>Installation\<close>

record installation =
  installation_project :: int
  installation_draft :: module_configuration_draft
  installation_files :: "platform_file_identifier list"
  installation_module :: "module_full option"
  installation_uploaded :: nat

definition installation_request :: "installation \<Rightarrow> service_effect" where
  "installation_request s =
     Start_installation (installation_project s)
       (Some (create_module_name (draft_name (installation_draft s))
          (draft_artifact (installation_draft s))))
       (installation_draft s) (installation_files s)"

definition install_one ::
  "int \<Rightarrow> module_configuration_draft \<Rightarrow> installation \<times> service_effect list" where
  "install_one project draft =
     (let s = \<lparr>installation_project = project, installation_draft = draft, installation_files = [],
               installation_module = None, installation_uploaded = 0\<rparr>
      in (s,
          if is_empty_array (draft_additional_files draft) then [installation_request s]
          else map (\<lambda>file. Allocate_file (module_file_name file)) (draft_files draft)))"

definition installation_file_allocated ::
  "platform_file_identifier \<Rightarrow> installation \<Rightarrow> installation \<times> service_effect list" where
  "installation_file_allocated file s =
     (let s' = s\<lparr>installation_files := installation_files s @ [file]\<rparr>
      in (s',
          if length (installation_files s') = length (draft_files (installation_draft s'))
          then [installation_request s'] else []))"

definition installation_started ::
  "module_full \<Rightarrow> installation \<Rightarrow> installation \<times> service_effect list" where
  "installation_started m s =
     (s\<lparr>installation_module := Some m, installation_uploaded := 0\<rparr>,
      if is_empty_array (draft_additional_files (installation_draft s)) then [Process_installation m]
      else map (\<lambda>(index, file). Upload_file (js_at (installation_files s) index) (module_file_bytes file))
             (enumerate 0 (draft_files (installation_draft s))))"

definition process_if_done ::
  "(module_full \<Rightarrow> service_effect) \<Rightarrow> module_full option \<Rightarrow> nat \<Rightarrow> nat \<Rightarrow> service_effect list" where
  "process_if_done process m uploaded expected =
     (if uploaded = expected then case_option [] (\<lambda>m. [process m]) m else [])"

definition installation_file_uploaded :: "installation \<Rightarrow> installation \<times> service_effect list" where
  "installation_file_uploaded s =
     (let s' = s\<lparr>installation_uploaded := Suc (installation_uploaded s)\<rparr>
      in (s',
          process_if_done Process_installation (installation_module s') (installation_uploaded s')
            (length (draft_files (installation_draft s')))))"

fun installation_step ::
  "service_signal \<Rightarrow> installation \<Rightarrow> installation \<times> service_effect list" where
  "installation_step (File_allocated file) s = installation_file_allocated file s"
| "installation_step (Operation_started m) s = installation_started m s"
| "installation_step File_uploaded s = installation_file_uploaded s"

text \<open>\<open>install\<close> starts one independent installation per configuration.\<close>

definition install ::
  "int \<Rightarrow> module_configuration_draft list \<Rightarrow> (installation \<times> service_effect list) list" where
  "install project drafts = map (install_one project) drafts"

section \<open>Updating\<close>

record allocated_module_file =
  allocated_id :: platform_file_identifier
  allocated_bytes :: "bytes option"

record updating =
  updating_base :: module_full
  updating_draft :: module_configuration_draft
  updating_files :: "platform_file_identifier list"
  updating_allocated :: nat
  updating_new_count :: nat
  updating_module :: "module_full option"
  updating_uploaded :: nat

text \<open>The bytes of an identifier are those of the first configured file of the same name.\<close>

definition with_bytes ::
  "module_configuration_draft \<Rightarrow> platform_file_identifier list \<Rightarrow> allocated_module_file list" where
  "with_bytes draft files =
     map (\<lambda>file. \<lparr>allocated_id = file,
       allocated_bytes = map_option module_file_bytes
         (find (\<lambda>new_file. module_file_name new_file = fid_name file) (draft_files draft))\<rparr>) files"

definition kept_files ::
  "module_full \<Rightarrow> module_configuration_draft \<Rightarrow> platform_file_identifier list" where
  "kept_files base draft =
     filter (\<lambda>file. list_ex (\<lambda>new_file. module_file_name new_file = fid_name file) (draft_files draft))
       (module_files base)"

definition new_files :: "module_full \<Rightarrow> module_configuration_draft \<Rightarrow> module_file list" where
  "new_files base draft =
     filter (\<lambda>file. module_file_bytes file \<noteq> [] \<and>
         \<not> list_ex (\<lambda>current. fid_name current = module_file_name file) (module_files base))
       (draft_files draft)"

definition updating_request :: "updating \<Rightarrow> service_effect" where
  "updating_request s =
     Start_updating (mod_id (updating_base s)) (updating_draft s)
       (map allocated_id (with_bytes (updating_draft s) (updating_files s)))"

definition update_module ::
  "module_full \<Rightarrow> module_configuration_draft \<Rightarrow> updating \<times> service_effect list" where
  "update_module base draft =
     (let new = new_files base draft;
          s = \<lparr>updating_base = base, updating_draft = draft, updating_files = kept_files base draft,
               updating_allocated = 0, updating_new_count = length new, updating_module = None,
               updating_uploaded = 0\<rparr>
      in (s, if is_empty_array (Some new) then [updating_request s]
             else map (\<lambda>file. Allocate_file (module_file_name file)) new))"

definition updating_file_allocated ::
  "platform_file_identifier \<Rightarrow> updating \<Rightarrow> updating \<times> service_effect list" where
  "updating_file_allocated file s =
     (let s' = s\<lparr>updating_files := updating_files s @ [file],
                updating_allocated := Suc (updating_allocated s)\<rparr>
      in (s', if updating_allocated s' = updating_new_count s' then [updating_request s'] else []))"

definition non_empty_files ::
  "module_configuration_draft \<Rightarrow> platform_file_identifier list \<Rightarrow> allocated_module_file list" where
  "non_empty_files draft files =
     filter (\<lambda>file. case allocated_bytes file of None \<Rightarrow> False | Some b \<Rightarrow> b \<noteq> [])
       (with_bytes draft files)"

definition updating_uploads :: "updating \<Rightarrow> allocated_module_file list" where
  "updating_uploads s = non_empty_files (updating_draft s) (updating_files s)"

definition updating_started :: "module_full \<Rightarrow> updating \<Rightarrow> updating \<times> service_effect list" where
  "updating_started m s =
     (s\<lparr>updating_module := Some m, updating_uploaded := 0\<rparr>,
      if is_empty_array (Some (updating_uploads s)) then [Process_updating m]
      else map (\<lambda>file. Upload_file (Some (allocated_id file)) (the (allocated_bytes file)))
             (updating_uploads s))"

definition updating_file_uploaded :: "updating \<Rightarrow> updating \<times> service_effect list" where
  "updating_file_uploaded s =
     (let s' = s\<lparr>updating_uploaded := Suc (updating_uploaded s)\<rparr>
      in (s', process_if_done Process_updating (updating_module s') (updating_uploaded s')
                (length (updating_uploads s'))))"

fun updating_step :: "service_signal \<Rightarrow> updating \<Rightarrow> updating \<times> service_effect list" where
  "updating_step (File_allocated file) s = updating_file_allocated file s"
| "updating_step (Operation_started m) s = updating_started m s"
| "updating_step File_uploaded s = updating_file_uploaded s"

section \<open>Cloning\<close>

record cloning =
  cloning_base :: module_full
  cloning_draft :: module_configuration_draft
  cloning_files :: "platform_file_identifier list"
  cloning_allocated :: nat
  cloning_module :: "module_full option"
  cloning_uploaded :: nat

definition cloning_request :: "cloning \<Rightarrow> service_effect" where
  "cloning_request s =
     Start_installation (mod_project_id (cloning_base s)) None (cloning_draft s)
       (map allocated_id (with_bytes (cloning_draft s) (cloning_files s)))"

text \<open>The project the caller passes is not used.\<close>

definition clone_module ::
  "int \<Rightarrow> module_full \<Rightarrow> module_configuration_draft \<Rightarrow> cloning \<times> service_effect list" where
  "clone_module project base draft =
     (let s = \<lparr>cloning_base = base, cloning_draft = draft, cloning_files = [], cloning_allocated = 0,
               cloning_module = None, cloning_uploaded = 0\<rparr>
      in (s, if is_empty_array (Some (draft_files draft)) then [cloning_request s]
             else map (\<lambda>file. Allocate_file (module_file_name file)) (draft_files draft)))"

definition cloning_file_allocated ::
  "platform_file_identifier \<Rightarrow> cloning \<Rightarrow> cloning \<times> service_effect list" where
  "cloning_file_allocated file s =
     (let s' = s\<lparr>cloning_files := cloning_files s @ [file],
                cloning_allocated := Suc (cloning_allocated s)\<rparr>
      in (s', if cloning_allocated s' = length (draft_files (cloning_draft s'))
              then [cloning_request s'] else []))"

definition present_files ::
  "module_configuration_draft \<Rightarrow> platform_file_identifier list \<Rightarrow> allocated_module_file list" where
  "present_files draft files = filter (\<lambda>file. allocated_bytes file \<noteq> None) (with_bytes draft files)"

definition cloning_uploads :: "cloning \<Rightarrow> allocated_module_file list" where
  "cloning_uploads s = present_files (cloning_draft s) (cloning_files s)"

text \<open>
  An empty file is cloned from the base module's file of that name, any other is uploaded. Without files
  in the base module, \<open>baseModule.additionalFiles!.find\<close> throws and ends the loop.
\<close>

fun clone_or_upload ::
  "platform_file_identifier list option \<Rightarrow> allocated_module_file list \<Rightarrow> service_effect list" where
  "clone_or_upload base [] = []"
| "clone_or_upload base (file # files) =
     (if the (allocated_bytes file) = [] then
        (case base of
           None \<Rightarrow> [Throw_type_error]
         | Some currents \<Rightarrow>
             Clone_file (find (\<lambda>current. fid_name current = fid_name (allocated_id file)) currents)
               (allocated_id file) # clone_or_upload base files)
      else
        Upload_file (Some (allocated_id file)) (the (allocated_bytes file)) #
        clone_or_upload base files)"

definition cloning_started :: "module_full \<Rightarrow> cloning \<Rightarrow> cloning \<times> service_effect list" where
  "cloning_started m s =
     (s\<lparr>cloning_module := Some m, cloning_uploaded := 0\<rparr>,
      if is_empty_array (Some (cloning_uploads s)) then [Process_installation m]
      else clone_or_upload (mod_additional_files (cloning_base s)) (cloning_uploads s))"

definition cloning_file_uploaded :: "cloning \<Rightarrow> cloning \<times> service_effect list" where
  "cloning_file_uploaded s =
     (let s' = s\<lparr>cloning_uploaded := Suc (cloning_uploaded s)\<rparr>
      in (s', process_if_done Process_installation (cloning_module s') (cloning_uploaded s')
                (length (cloning_uploads s'))))"

fun cloning_step :: "service_signal \<Rightarrow> cloning \<Rightarrow> cloning \<times> service_effect list" where
  "cloning_step (File_allocated file) s = cloning_file_allocated file s"
| "cloning_step (Operation_started m) s = cloning_started m s"
| "cloning_step File_uploaded s = cloning_file_uploaded s"

section \<open>The barriers\<close>

text \<open>
  Allocation and upload of each service are completion barriers: nothing is sent before the last answer,
  and the last one sends the next request, whatever the order of the answers.
\<close>

lemmas barrier_defs =
  installation_file_allocated_def installation_file_uploaded_def
  updating_file_allocated_def updating_file_uploaded_def
  cloning_file_allocated_def cloning_file_uploaded_def process_if_done_def Let_def

definition process_of :: "(module_full \<Rightarrow> service_effect) \<Rightarrow> module_full option \<Rightarrow> service_effect list" where
  "process_of process m = case_option [] (\<lambda>m. [process m]) m"

interpretation installation_allocation: completion_barrier
  installation_file_allocated "\<lambda>s. length (installation_files s)"
  "\<lambda>s. length (draft_files (installation_draft s))" "\<lambda>s. [installation_request s]" "\<lambda>s. True"
  by unfold_locales (simp_all add: barrier_defs)

interpretation installation_upload: completion_barrier
  "\<lambda>_. installation_file_uploaded" installation_uploaded
  "\<lambda>s. length (draft_files (installation_draft s))"
  "\<lambda>s. process_of Process_installation (installation_module s)" "\<lambda>s. True"
  by unfold_locales (simp_all add: barrier_defs process_of_def)

interpretation updating_allocation: completion_barrier
  updating_file_allocated updating_allocated updating_new_count "\<lambda>s. [updating_request s]" "\<lambda>s. True"
  by unfold_locales (simp_all add: barrier_defs)

interpretation updating_upload: completion_barrier
  "\<lambda>_. updating_file_uploaded" updating_uploaded "\<lambda>s. length (updating_uploads s)"
  "\<lambda>s. process_of Process_updating (updating_module s)" "\<lambda>s. True"
  by unfold_locales (simp_all add: barrier_defs process_of_def updating_uploads_def)

interpretation cloning_allocation: completion_barrier
  cloning_file_allocated cloning_allocated "\<lambda>s. length (draft_files (cloning_draft s))"
  "\<lambda>s. [cloning_request s]" "\<lambda>s. True"
  by unfold_locales (simp_all add: barrier_defs)

interpretation cloning_upload: completion_barrier
  "\<lambda>_. cloning_file_uploaded" cloning_uploaded "\<lambda>s. length (cloning_uploads s)"
  "\<lambda>s. process_of Process_installation (cloning_module s)" "\<lambda>s. True"
  by unfold_locales (simp_all add: barrier_defs process_of_def cloning_uploads_def)

text \<open>The state after the allocations and after the uploads.\<close>

lemma installation_allocated_state:
  "fst (emit_run installation_file_allocated ids s) =
     s\<lparr>installation_files := installation_files s @ ids\<rparr>"
  by (induction ids arbitrary: s) (simp_all add: installation_file_allocated_def Let_def)

lemma updating_allocated_state:
  "fst (emit_run updating_file_allocated ids s) =
     s\<lparr>updating_files := updating_files s @ ids,
       updating_allocated := updating_allocated s + length ids\<rparr>"
  by (induction ids arbitrary: s) (simp_all add: updating_file_allocated_def Let_def)

lemma cloning_allocated_state:
  "fst (emit_run cloning_file_allocated ids s) =
     s\<lparr>cloning_files := cloning_files s @ ids, cloning_allocated := cloning_allocated s + length ids\<rparr>"
  by (induction ids arbitrary: s) (simp_all add: cloning_file_allocated_def Let_def)

lemma installation_uploaded_module:
  "installation_module (fst (emit_run (\<lambda>_. installation_file_uploaded) ps s)) = installation_module s"
  by (induction ps arbitrary: s) (simp_all add: installation_file_uploaded_def Let_def)

lemma updating_uploaded_module:
  "updating_module (fst (emit_run (\<lambda>_. updating_file_uploaded) ps s)) = updating_module s"
  by (induction ps arbitrary: s) (simp_all add: updating_file_uploaded_def Let_def)

lemma cloning_uploaded_module:
  "cloning_module (fst (emit_run (\<lambda>_. cloning_file_uploaded) ps s)) = cloning_module s"
  by (induction ps arbitrary: s) (simp_all add: cloning_file_uploaded_def Let_def)

lemma is_empty_array_Some [simp]: "is_empty_array (Some xs) \<longleftrightarrow> xs = []"
  by (simp add: is_empty_array_def)

lemma is_empty_array_files: "is_empty_array (draft_additional_files draft) \<longleftrightarrow> draft_files draft = []"
  by (simp add: is_empty_array_def draft_files_def split: option.split)

lemma with_bytes_ids [simp]: "map allocated_id (with_bytes draft files) = files"
  by (simp add: with_bytes_def comp_def)

lemma find_key_distinct:
  "distinct (map f xs) \<Longrightarrow> x \<in> set xs \<Longrightarrow> find (\<lambda>y. f y = f x) xs = Some x"
  by (induction xs) (auto simp: rev_image_eqI)

lemma with_bytes_named:
  assumes "distinct (map module_file_name (draft_files draft))" and "file \<in> set (draft_files draft)"
    and "i \<in> set files" and "fid_name i = module_file_name file"
  shows "\<lparr>allocated_id = i, allocated_bytes = Some (module_file_bytes file)\<rparr> \<in> set (with_bytes draft files)"
proof -
  have "find (\<lambda>new_file. module_file_name new_file = module_file_name file) (draft_files draft) = Some file"
    by (rule find_key_distinct [OF assms(1,2)])
  with assms(3,4) show ?thesis by (auto simp: with_bytes_def image_iff intro!: bexI [of _ i])
qed

text \<open>After the operation started, the last of the uploads, and no other, processes the module.\<close>

lemma updating_uploads_trace:
  assumes "updating_module s = Some m" and "updating_uploaded s = 0" and "updating_uploads s \<noteq> []"
  shows "emit_trace (\<lambda>_. updating_file_uploaded) (replicate (length (updating_uploads s)) ()) s =
    replicate (length (updating_uploads s) - 1) [] @ [[Process_updating m]]"
  using assms updating_upload.trace_at_goal [of s "replicate (length (updating_uploads s)) ()"]
  by (simp add: updating_uploaded_module process_of_def)

lemma cloning_uploads_trace:
  assumes "cloning_module s = Some m" and "cloning_uploaded s = 0" and "cloning_uploads s \<noteq> []"
  shows "emit_trace (\<lambda>_. cloning_file_uploaded) (replicate (length (cloning_uploads s)) ()) s =
    replicate (length (cloning_uploads s) - 1) [] @ [[Process_installation m]]"
  using assms cloning_upload.trace_at_goal [of s "replicate (length (cloning_uploads s)) ()"]
  by (simp add: cloning_uploaded_module process_of_def)

text \<open>Every new file is uploaded under an identifier allocated for its name.\<close>

lemma updating_named_file:
  assumes "distinct (map module_file_name (draft_files draft))"
    and "set (map fid_name ids) = set (map module_file_name (new_files base draft))"
  shows "\<forall>nf\<in>set (new_files base draft). \<exists>i\<in>set ids. fid_name i = module_file_name nf \<and>
    \<lparr>allocated_id = i, allocated_bytes = Some (module_file_bytes nf)\<rparr>
      \<in> set (non_empty_files draft (kept_files base draft @ ids))"
proof
  fix nf assume new: "nf \<in> set (new_files base draft)"
  with assms(2) obtain i where i: "i \<in> set ids" "fid_name i = module_file_name nf" by force
  from new have "nf \<in> set (draft_files draft)" "module_file_bytes nf \<noteq> []"
    by (simp_all add: new_files_def)
  with with_bytes_named [OF assms(1), of nf i "kept_files base draft @ ids"] i
  show "\<exists>i\<in>set ids. fid_name i = module_file_name nf \<and>
    \<lparr>allocated_id = i, allocated_bytes = Some (module_file_bytes nf)\<rparr>
      \<in> set (non_empty_files draft (kept_files base draft @ ids))"
    by (auto simp: non_empty_files_def intro!: bexI [of _ i])
qed

lemma cloning_named_file:
  assumes "distinct (map module_file_name (draft_files draft))"
    and "set (map fid_name ids) = set (map module_file_name (draft_files draft))"
  shows "\<forall>nf\<in>set (draft_files draft). \<exists>i\<in>set ids. fid_name i = module_file_name nf \<and>
    \<lparr>allocated_id = i, allocated_bytes = Some (module_file_bytes nf)\<rparr> \<in> set (present_files draft ids)"
proof
  fix nf assume new: "nf \<in> set (draft_files draft)"
  with assms(2) obtain i where i: "i \<in> set ids" "fid_name i = module_file_name nf" by force
  with with_bytes_named [OF assms(1) new, of i ids]
  show "\<exists>i\<in>set ids. fid_name i = module_file_name nf \<and>
    \<lparr>allocated_id = i, allocated_bytes = Some (module_file_bytes nf)\<rparr> \<in> set (present_files draft ids)"
    by (auto simp: present_files_def intro!: bexI [of _ i])
qed

section \<open>Properties\<close>

lemma emit_run_signals:
  "emit_run installation_step (map File_allocated ids) s = emit_run installation_file_allocated ids s"
  "emit_run installation_step (replicate n File_uploaded) s =
     emit_run (\<lambda>_. installation_file_uploaded) (replicate n ()) s"
  "emit_run updating_step (map File_allocated ids) u = emit_run updating_file_allocated ids u"
  "emit_run updating_step (replicate n File_uploaded) u =
     emit_run (\<lambda>_. updating_file_uploaded) (replicate n ()) u"
  "emit_run cloning_step (map File_allocated ids) c = emit_run cloning_file_allocated ids c"
  "emit_run cloning_step (replicate n File_uploaded) c =
     emit_run (\<lambda>_. cloning_file_uploaded) (replicate n ()) c"
proof -
  show "emit_run installation_step (map File_allocated ids) s = emit_run installation_file_allocated ids s"
    "emit_run updating_step (map File_allocated ids) u = emit_run updating_file_allocated ids u"
    "emit_run cloning_step (map File_allocated ids) c = emit_run cloning_file_allocated ids c"
    unfolding emit_run_map
    by (rule arg_cong [of _ _ "\<lambda>f. emit_run f ids _"]; simp add: fun_eq_iff)+
  show "emit_run installation_step (replicate n File_uploaded) s =
     emit_run (\<lambda>_. installation_file_uploaded) (replicate n ()) s"
    "emit_run updating_step (replicate n File_uploaded) u =
     emit_run (\<lambda>_. updating_file_uploaded) (replicate n ()) u"
    "emit_run cloning_step (replicate n File_uploaded) c =
     emit_run (\<lambda>_. cloning_file_uploaded) (replicate n ()) c"
    unfolding emit_run_replicate [of _ n File_uploaded]
    by (rule arg_cong [of _ _ "\<lambda>f. emit_run f _ _"]; simp add: fun_eq_iff)+
qed

lemma emit_trace_signals:
  "emit_trace installation_step (map File_allocated ids) s = emit_trace installation_file_allocated ids s"
  "emit_trace installation_step (replicate n File_uploaded) s =
     emit_trace (\<lambda>_. installation_file_uploaded) (replicate n ()) s"
  "emit_trace updating_step (map File_allocated ids) u = emit_trace updating_file_allocated ids u"
  "emit_trace updating_step (replicate n File_uploaded) u =
     emit_trace (\<lambda>_. updating_file_uploaded) (replicate n ()) u"
  "emit_trace cloning_step (map File_allocated ids) c = emit_trace cloning_file_allocated ids c"
  "emit_trace cloning_step (replicate n File_uploaded) c =
     emit_trace (\<lambda>_. cloning_file_uploaded) (replicate n ()) c"
proof -
  show "emit_trace installation_step (map File_allocated ids) s = emit_trace installation_file_allocated ids s"
    "emit_trace updating_step (map File_allocated ids) u = emit_trace updating_file_allocated ids u"
    "emit_trace cloning_step (map File_allocated ids) c = emit_trace cloning_file_allocated ids c"
    unfolding emit_trace_map
    by (rule arg_cong [of _ _ "\<lambda>f. emit_trace f ids _"]; simp add: fun_eq_iff)+
  show "emit_trace installation_step (replicate n File_uploaded) s =
     emit_trace (\<lambda>_. installation_file_uploaded) (replicate n ()) s"
    "emit_trace updating_step (replicate n File_uploaded) u =
     emit_trace (\<lambda>_. updating_file_uploaded) (replicate n ()) u"
    "emit_trace cloning_step (replicate n File_uploaded) c =
     emit_trace (\<lambda>_. cloning_file_uploaded) (replicate n ()) c"
    unfolding emit_trace_replicate [of _ n File_uploaded]
    by (rule arg_cong [of _ _ "\<lambda>f. emit_trace f _ _"]; simp add: fun_eq_iff)+
qed

lemmas run_simps = emit_run_signals emit_trace_signals Let_def

text \<open>
  C3. An installation runs to its end exactly once, step by step. With \<open>n > 0\<close> additional files the service
  first asks for their allocation; the first \<open>n - 1\<close> answers send nothing, the last one sends the one
  installation request, with the identifiers in the order they arrived; its acceptance uploads every file
  once, the \<open>k\<close>-th file under the identifier that arrived \<open>k\<close>-th; the first \<open>n - 1\<close> uploads send nothing and
  the last one, and only it, asks for the processing of the module.
\<close>

theorem installation_runs_once:
  assumes "draft_files draft \<noteq> []" and "length ids = length (draft_files draft)"
  shows "let (s, requests) = install_one project draft;
      name = create_module_name (draft_name draft) (draft_artifact draft) in
    requests = map (\<lambda>file. Allocate_file (module_file_name file)) (draft_files draft) \<and>
    emit_trace installation_step
        (map File_allocated ids @ [Operation_started m] @ replicate (length ids) File_uploaded) s =
      replicate (length ids - 1) [] @ [[Start_installation project (Some name) draft ids]] @
      [map (\<lambda>(index, file). Upload_file (js_at ids index) (module_file_bytes file))
        (enumerate 0 (draft_files draft))] @
      replicate (length ids - 1) [] @ [[Process_installation m]]"
proof -
  define s where "s = fst (install_one project draft)"
  have s: "installation_draft s = draft" "installation_files s = []" "installation_project s = project"
    by (simp_all add: s_def install_one_def Let_def)
  define s1 where "s1 = fst (emit_run installation_file_allocated ids s)"
  define s2 where "s2 = fst (installation_started m s1)"
  have s1: "s1 = s\<lparr>installation_files := ids\<rparr>"
    by (simp add: s1_def installation_allocated_state s)
  have s2: "installation_draft s2 = draft" "installation_module s2 = Some m" "installation_uploaded s2 = 0"
    by (simp_all add: s2_def installation_started_def s1 s)
  have "ids \<noteq> []" using assms by auto
  then have "emit_trace installation_file_allocated ids s = replicate (length ids - 1) [] @ [[installation_request s1]]"
    using installation_allocation.trace_at_goal [of s ids] assms s by (simp add: s1_def)
  moreover have "emit_trace (\<lambda>_. installation_file_uploaded) (replicate (length ids) ()) s2 =
      replicate (length ids - 1) [] @ [[Process_installation m]]"
    using installation_upload.trace_at_goal [of s2 "replicate (length ids) ()"] \<open>ids \<noteq> []\<close> assms s2
    by (simp add: installation_uploaded_module process_of_def)
  ultimately show ?thesis using assms(1) s2
    by (simp add: split_beta run_simps s_def [symmetric] s1_def [symmetric] s2_def [symmetric])
      (simp add: install_one_def installation_started_def installation_request_def s1 s
        is_empty_array_files Let_def)
qed

theorem installation_runs_once_witness:
  "emit_trace installation_step
      (map File_allocated sample_ids @ [Operation_started (sample_module [])] @
       replicate (length sample_ids) File_uploaded)
      (fst (install_one 5 (sample_draft sample_files))) ! 4 = [Process_installation (sample_module [])]"
proof -
  have "draft_files (sample_draft sample_files) \<noteq> []"
    "length sample_ids = length (draft_files (sample_draft sample_files))"
    by (simp_all add: draft_files_def sample_draft_def sample_files_def sample_ids_def)
  from installation_runs_once [OF this, of 5 "sample_module []", unfolded Let_def split_beta,
      THEN conjunct2]
  show ?thesis by (simp only:) (simp add: sample_ids_def)
qed

text \<open>
  The installation service confuses files when allocations are answered out of order. With two files,
  answers in the order of the requests upload each content under the identifier allocated for its name;
  swapped answers upload the first file's content under the second file's identifier and vice versa.
\<close>

theorem installation_swapped_answers:
  "let a = \<lparr>module_file_name = ''a'', module_file_bytes = [1]\<rparr>;
       b = \<lparr>module_file_name = ''b'', module_file_bytes = [2]\<rparr>;
       ia = \<lparr>fid_id = 7, fid_name = ''a''\<rparr>; ib = \<lparr>fid_id = 8, fid_name = ''b''\<rparr>;
       s = fst (install_one project (draft\<lparr>draft_additional_files := Some [a, b]\<rparr>))
   in filter (\<lambda>e. case e of Upload_file i bs \<Rightarrow> True | _ \<Rightarrow> False)
        (snd (emit_run installation_step [File_allocated ia, File_allocated ib, Operation_started m] s)) =
        [Upload_file (Some ia) [1], Upload_file (Some ib) [2]] \<and>
      filter (\<lambda>e. case e of Upload_file i bs \<Rightarrow> True | _ \<Rightarrow> False)
        (snd (emit_run installation_step [File_allocated ib, File_allocated ia, Operation_started m] s)) =
        [Upload_file (Some ib) [1], Upload_file (Some ia) [2]]"
  by (simp add: Let_def install_one_def installation_file_allocated_def installation_started_def
      draft_files_def js_at_def installation_request_def)

text \<open>
  C1. An update runs to its end exactly once, step by step, and confuses no files. It assumes that the
  names of the configured additional files are distinct and that the answers carry the names asked for, in
  any order. The update keeps the identifiers of the base module's files that are still configured and asks for
  the new non-empty ones; all answers but the last send nothing, the last one sends the one update request;
  its acceptance uploads the content of every new file under the identifier allocated for its name; all
  uploads but the last send nothing, and the last one, and only it, asks for the processing of the module.
\<close>

theorem updating_runs_once:
  assumes "new_files base draft \<noteq> []" and "distinct (map module_file_name (draft_files draft))"
    and "mset (map fid_name ids) = mset (map module_file_name (new_files base draft))"
  shows "let (s, requests) = update_module base draft; files = kept_files base draft @ ids;
      uploads = non_empty_files draft files in
    requests = map (\<lambda>file. Allocate_file (module_file_name file)) (new_files base draft) \<and>
    emit_trace updating_step
        (map File_allocated ids @ [Operation_started m] @ replicate (length uploads) File_uploaded) s =
      replicate (length ids - 1) [] @
      [[Start_updating (mod_id base) draft files]] @
      [map (\<lambda>f. Upload_file (Some (allocated_id f)) (the (allocated_bytes f))) uploads] @
      replicate (length uploads - 1) [] @ [[Process_updating m]] \<and>
    (\<forall>file\<in>set (new_files base draft). \<exists>i\<in>set ids. fid_name i = module_file_name file \<and>
      \<lparr>allocated_id = i, allocated_bytes = Some (module_file_bytes file)\<rparr> \<in> set uploads)"
proof -
  define s where "s = fst (update_module base draft)"
  define uploads where "uploads = non_empty_files draft (kept_files base draft @ ids)"
  from mset_eq_length [OF assms(3)] have len: "length ids = length (new_files base draft)" by simp
  have s: "updating_draft s = draft" "updating_files s = kept_files base draft"
      "updating_base s = base" "updating_allocated s = 0" "updating_new_count s = length ids"
    by (simp_all add: s_def update_module_def Let_def len)
  define s1 where "s1 = fst (emit_run updating_file_allocated ids s)"
  define s2 where "s2 = fst (updating_started m s1)"
  have s1: "s1 = s\<lparr>updating_files := kept_files base draft @ ids, updating_allocated := length ids\<rparr>"
    by (simp add: s1_def updating_allocated_state s)
  have u: "updating_uploads s1 = uploads" "updating_uploads s2 = uploads"
    by (simp_all add: s2_def updating_started_def s1 s updating_uploads_def uploads_def)
  have s2: "updating_module s2 = Some m" "updating_uploaded s2 = 0"
    by (simp_all add: s2_def updating_started_def)
  have "ids \<noteq> []" using assms len by auto
  note named = updating_named_file [OF assms(2) mset_eq_setD [OF assms(3)], folded uploads_def]
  with assms(1) have "uploads \<noteq> []" by (cases "new_files base draft") auto
  from \<open>ids \<noteq> []\<close> have "emit_trace updating_file_allocated ids s = replicate (length ids - 1) [] @ [[updating_request s1]]"
    using updating_allocation.trace_at_goal [of s ids] s by (simp add: s1_def)
  moreover have "emit_trace (\<lambda>_. updating_file_uploaded) (replicate (length uploads) ()) s2 =
      replicate (length uploads - 1) [] @ [[Process_updating m]]"
    using updating_uploads_trace [OF s2] \<open>uploads \<noteq> []\<close> by (simp add: u)
  moreover note named
  ultimately show ?thesis using assms(1)
    by (simp add: split_beta run_simps s_def [symmetric] s1_def [symmetric] s2_def [symmetric]
        uploads_def [symmetric] del: with_bytes_ids)
      (simp add: update_module_def updating_started_def updating_request_def s1 s u [unfolded s1]
        \<open>uploads \<noteq> []\<close> Let_def)
qed

theorem updating_runs_once_witness:
  "emit_trace updating_step
      (map File_allocated sample_ids @ [Operation_started (sample_module [])] @
       replicate 2 File_uploaded)
      (fst (update_module (sample_module []) (sample_draft sample_files))) ! 4 = [Process_updating (sample_module [])]"
proof -
  have "new_files (sample_module []) (sample_draft sample_files) \<noteq> []"
    "distinct (map module_file_name (draft_files (sample_draft sample_files)))"
    "mset (map fid_name sample_ids) =
       mset (map module_file_name (new_files (sample_module []) (sample_draft sample_files)))"
    by (simp_all add: new_files_def module_files_def sample_module_def draft_files_def sample_draft_def
        sample_files_def sample_ids_def)
  note t = updating_runs_once [OF this, of "sample_module []", unfolded Let_def split_beta,
      THEN conjunct2, THEN conjunct1]
  have "length (non_empty_files (sample_draft sample_files)
        (kept_files (sample_module []) (sample_draft sample_files) @ sample_ids)) = 2"
    by (simp add: non_empty_files_def with_bytes_def kept_files_def module_files_def sample_module_def draft_files_def
        sample_draft_def sample_files_def sample_ids_def)
  note t [unfolded this]
  then show ?thesis by (simp only:) (simp add: sample_ids_def)
qed

lemma clone_or_upload_all:
  "clone_or_upload (Some currents) files =
     map (\<lambda>f. if the (allocated_bytes f) = []
          then Clone_file (find (\<lambda>current. fid_name current = fid_name (allocated_id f)) currents)
                 (allocated_id f)
          else Upload_file (Some (allocated_id f)) (the (allocated_bytes f))) files"
  by (induction files) simp_all

text \<open>
  C2. A clone runs to its end exactly once, step by step, and confuses no files. It assumes that the names
  of the configured additional files are distinct, that the answers carry the names asked for, in any order,
  and that the additional files of the base module are defined. All answers but the last send nothing, the
  last one sends the one installation request, in the base module's project, whichever project the caller
  passes; its acceptance treats every configured file once, under an identifier of its own name: an empty
  file is cloned from the base module's file of that name, any other is uploaded with its content; all of
  their answers but the last send nothing, and the last one, and only it, asks for the processing.
\<close>

theorem cloning_runs_once:
  assumes "draft_files draft \<noteq> []" and "distinct (map module_file_name (draft_files draft))"
    and "mset (map fid_name ids) = mset (map module_file_name (draft_files draft))"
    and "mod_additional_files base = Some currents"
  shows "let (s, requests) = clone_module project base draft; copies = present_files draft ids in
    requests = map (\<lambda>file. Allocate_file (module_file_name file)) (draft_files draft) \<and>
    emit_trace cloning_step
        (map File_allocated ids @ [Operation_started m] @ replicate (length copies) File_uploaded) s =
      replicate (length ids - 1) [] @
      [[Start_installation (mod_project_id base) None draft ids]] @
      [map (\<lambda>f. if the (allocated_bytes f) = []
           then Clone_file (find (\<lambda>current. fid_name current = fid_name (allocated_id f)) currents)
                  (allocated_id f)
           else Upload_file (Some (allocated_id f)) (the (allocated_bytes f))) copies] @
      replicate (length copies - 1) [] @ [[Process_installation m]] \<and>
    (\<forall>file\<in>set (draft_files draft). \<exists>i\<in>set ids. fid_name i = module_file_name file \<and>
      \<lparr>allocated_id = i, allocated_bytes = Some (module_file_bytes file)\<rparr> \<in> set copies)"
proof -
  define s where "s = fst (clone_module project base draft)"
  define copies where "copies = present_files draft ids"
  from mset_eq_length [OF assms(3)] have len: "length ids = length (draft_files draft)" by simp
  have s: "cloning_draft s = draft" "cloning_files s = []" "cloning_base s = base"
      "cloning_allocated s = 0"
    by (simp_all add: s_def clone_module_def Let_def)
  define s1 where "s1 = fst (emit_run cloning_file_allocated ids s)"
  define s2 where "s2 = fst (cloning_started m s1)"
  have s1: "s1 = s\<lparr>cloning_files := ids, cloning_allocated := length ids\<rparr>"
    by (simp add: s1_def cloning_allocated_state s)
  have u: "cloning_uploads s1 = copies" "cloning_uploads s2 = copies"
    by (simp_all add: s2_def cloning_started_def s1 s cloning_uploads_def copies_def)
  have s2: "cloning_module s2 = Some m" "cloning_uploaded s2 = 0"
    by (simp_all add: s2_def cloning_started_def)
  have "ids \<noteq> []" using assms len by auto
  note named = cloning_named_file [OF assms(2) mset_eq_setD [OF assms(3)], folded copies_def]
  with assms(1) have "copies \<noteq> []" by (cases "draft_files draft") auto
  from \<open>ids \<noteq> []\<close> have "emit_trace cloning_file_allocated ids s = replicate (length ids - 1) [] @ [[cloning_request s1]]"
    using cloning_allocation.trace_at_goal [of s ids] s len by (simp add: s1_def)
  moreover have "emit_trace (\<lambda>_. cloning_file_uploaded) (replicate (length copies) ()) s2 =
      replicate (length copies - 1) [] @ [[Process_installation m]]"
    using cloning_uploads_trace [OF s2] \<open>copies \<noteq> []\<close> by (simp add: u)
  moreover note named
  ultimately show ?thesis using assms(1)
    by (simp add: split_beta run_simps s_def [symmetric] s1_def [symmetric] s2_def [symmetric]
        copies_def [symmetric] del: with_bytes_ids)
      (simp add: clone_module_def cloning_started_def cloning_request_def s1 s u [unfolded s1]
        assms(4) clone_or_upload_all \<open>copies \<noteq> []\<close> Let_def)
qed

theorem cloning_runs_once_witness:
  "emit_trace cloning_step
      (map File_allocated sample_ids @ [Operation_started (sample_module [])] @
       replicate 2 File_uploaded)
      (fst (clone_module 9 (sample_module []) (sample_draft sample_files))) ! 4 = [Process_installation (sample_module [])]"
proof -
  have "draft_files (sample_draft sample_files) \<noteq> []"
    "distinct (map module_file_name (draft_files (sample_draft sample_files)))"
    "mset (map fid_name sample_ids) =
       mset (map module_file_name (draft_files (sample_draft sample_files)))"
    "mod_additional_files (sample_module []) = Some []"
    by (simp_all add: sample_module_def draft_files_def sample_draft_def sample_files_def sample_ids_def)
  note t = cloning_runs_once [OF this, of 9 "sample_module []", unfolded Let_def split_beta,
      THEN conjunct2, THEN conjunct1]
  have "length (present_files (sample_draft sample_files) sample_ids) = 2"
    by (simp add: present_files_def with_bytes_def draft_files_def sample_draft_def sample_files_def
        sample_ids_def)
  note t [unfolded this]
  then show ?thesis by (simp only:) (simp add: sample_ids_def)
qed

end
