(* ===== verification/Loaders.thy ===== *)
theory Loaders
  imports Api
begin

text \<open>
  The loaders of \<open>loader/\<close>, which keep the entities the pages show. \<open>load\<close> forgets what was loaded and sends
  requests; every answer is an operation. The four loaders of one list share the locale \<open>list_loading\<close>; the
  loader of resources waits for its five answers with a counter of its own per load, a
  \<open>completion_barrier\<close>. A \<open>ResourcesStore\<close> keeps a snapshot of the identifiers and a \<^emph>\<open>reference\<close> to the
  loader's resources, so it is read together with the loader's current state.
\<close>

section \<open>Loaders of one list\<close>

record 'a list_loader =
  items_loaded :: bool
  loaded_items :: "'a list"

definition new_list_loader :: "'a list_loader" where
  "new_list_loader = \<lparr>items_loaded = False, loaded_items = []\<rparr>"

text \<open>A request to the API, or the call of \<open>completed\<close> with what was loaded.\<close>

datatype 'a loader_effect = Request "nat api_call" | Completed "'a list"

definition assemblies_load :: "assembly_information list_loader \<Rightarrow>
    assembly_information list_loader \<times> assembly_information loader_effect list" where
  "assemblies_load l =
     (l\<lparr>items_loaded := False, loaded_items := []\<rparr>,
      [Request (api_get_filtered_assemblies
         \<lparr>assembly_filter_criteria_project_ids = None, assembly_filter_criteria_states = None,
          assembly_filter_criteria_versions = None, assembly_filter_criteria_sorted = Some True,
          assembly_filter_criteria_count = MAX_ASSEMBLIES\<rparr> 0)])"

definition assemblies_answer :: "assembly_information list \<Rightarrow> assembly_information list_loader \<Rightarrow>
    assembly_information list_loader \<times> assembly_information loader_effect list" where
  "assemblies_answer answer l =
     (l\<lparr>items_loaded := True, loaded_items := answer\<rparr>, [Completed answer])"

definition modules_load :: "module_information list_loader \<Rightarrow>
    module_information list_loader \<times> module_information loader_effect list" where
  "modules_load l =
     (l\<lparr>items_loaded := False, loaded_items := []\<rparr>,
      [Request (api_get_filtered_modules
         \<lparr>module_filter_criteria_project_ids = None, module_filter_criteria_states = None,
          module_filter_criteria_ids = None, module_filter_criteria_versions = None,
          module_filter_criteria_sorted = True\<rparr> 0)])"

definition modules_answer :: "module_information list \<Rightarrow> module_information list_loader \<Rightarrow>
    module_information list_loader \<times> module_information loader_effect list" where
  "modules_answer answer l =
     (l\<lparr>items_loaded := True, loaded_items := answer\<rparr>, [Completed answer])"

definition configurations_load :: "prepared_configuration_identifier list_loader \<Rightarrow>
    prepared_configuration_identifier list_loader \<times> prepared_configuration_identifier loader_effect list" where
  "configurations_load l =
     (l\<lparr>items_loaded := False, loaded_items := []\<rparr>, [Request (api_get_prepared_configuration_ids 0)])"

definition configurations_answer ::
  "prepared_configuration_identifier list \<Rightarrow> prepared_configuration_identifier list_loader \<Rightarrow>
    prepared_configuration_identifier list_loader \<times> prepared_configuration_identifier loader_effect list" where
  "configurations_answer answer l =
     (l\<lparr>items_loaded := True, loaded_items := answer\<rparr>, [Completed answer])"

definition projects_load ::
  "project list_loader \<Rightarrow> project list_loader \<times> project loader_effect list" where
  "projects_load l =
     (l\<lparr>items_loaded := False, loaded_items := []\<rparr>, [Request (api_get_projects 0 None)])"

definition projects_answer ::
  "project list \<Rightarrow> project list_loader \<Rightarrow> project list_loader \<times> project loader_effect list" where
  "projects_answer answer l =
     (l\<lparr>items_loaded := True, loaded_items := answer\<rparr>, [Completed answer])"

definition get_initialized :: "project list_loader \<Rightarrow> project list" where
  "get_initialized l = filter (\<lambda>p. project_state p = PROJECT_INITIALIZED_STATE) (loaded_items l)"

section \<open>Resources\<close>

record resources_loader =
  loader_loaded :: bool
  loader_resources :: resources
  loader_counts :: "nat list"

definition no_resources :: resources where
  "no_resources =
     \<lparr>resources_open_shift = [], resources_artifacts = [], resources_git = [],
      resources_platform = [], resources_proxy = []\<rparr>"

definition new_resources_loader :: resources_loader where
  "new_resources_loader = \<lparr>loader_loaded = False, loader_resources = no_resources, loader_counts = []\<rparr>"

definition resource_ids_of_type :: "resources \<Rightarrow> string \<Rightarrow> resource_identifier list" where
  "resource_ids_of_type r type =
     (if type = OPEN_SHIFT_RESOURCE then
        map (\<lambda>x. \<lparr>rid_id = open_shift_resource_id x, rid_name = open_shift_resource_name x,
                 rid_type = OPEN_SHIFT_RESOURCE\<rparr>) (resources_open_shift r)
      else if type = GIT_RESOURCE then
        map (\<lambda>x. \<lparr>rid_id = git_resource_id x, rid_name = git_resource_name x,
                 rid_type = GIT_RESOURCE\<rparr>) (resources_git r)
      else if type = ARTIFACTS_RESOURCE then
        map (\<lambda>x. \<lparr>rid_id = artifacts_resource_id x, rid_name = artifacts_resource_name x,
                 rid_type = ARTIFACTS_RESOURCE\<rparr>) (resources_artifacts r)
      else if type = PLATFORM_RESOURCE then
        map (\<lambda>x. \<lparr>rid_id = platform_resource_id x, rid_name = platform_resource_name x,
                 rid_type = PLATFORM_RESOURCE\<rparr>) (resources_platform r)
      else if type = PROXY_RESOURCE then
        map (\<lambda>x. \<lparr>rid_id = proxy_resource_id x, rid_name = proxy_resource_name x,
                 rid_type = PROXY_RESOURCE\<rparr>) (resources_proxy r)
      else [])"

definition resource_ids :: "string list \<Rightarrow> resources \<Rightarrow> resource_identifier list" where
  "resource_ids types r = fold (\<lambda>type ids. ids @ resource_ids_of_type r type) types []"

text \<open>The store: the identifiers at the time; its resources are the loader's own object.\<close>

record resources_store =
  store_ids :: "resource_identifier list"

datatype resources_error = Resource_not_loaded

definition resources_store_of :: "resources_loader \<Rightarrow> resources_error + resources_store" where
  "resources_store_of l =
     (if \<not> loader_loaded l then Inl Resource_not_loaded
      else Inr \<lparr>store_ids = resource_ids ALL_RESOURCES (loader_resources l)\<rparr>)"

definition ids_of :: "string list \<Rightarrow> resources_store \<Rightarrow> resource_identifier list" where
  "ids_of types store = filter (\<lambda>i. list_ex (\<lambda>type. type = rid_type i) types) (store_ids store)"

datatype resource_list =
    Open_shift_resources "open_shift_resource list" | Git_resources "git_resource list"
  | Artifacts_resources "artifacts_resource list" | Platform_resources "platform_resource list"
  | Proxy_resources "proxy_resource list"

definition resources_of :: "string \<Rightarrow> resources_loader \<Rightarrow> resource_list option" where
  "resources_of type l =
     (let r = loader_resources l in
      if type = OPEN_SHIFT_RESOURCE then Some (Open_shift_resources (resources_open_shift r))
      else if type = GIT_RESOURCE then Some (Git_resources (resources_git r))
      else if type = ARTIFACTS_RESOURCE then Some (Artifacts_resources (resources_artifacts r))
      else if type = PLATFORM_RESOURCE then Some (Platform_resources (resources_platform r))
      else if type = PROXY_RESOURCE then Some (Proxy_resources (resources_proxy r))
      else None)"

datatype resources_effect =
    Resources_request nat "nat api_call"
  | Resources_completed nat "resources_error + resources_store"

definition resource_request :: "nat \<Rightarrow> string \<Rightarrow> resources_effect list" where
  "resource_request load type =
     (if type = OPEN_SHIFT_RESOURCE then [Resources_request load (api_get_open_shift_resources load)]
      else if type = GIT_RESOURCE then [Resources_request load (api_get_git_resources load)]
      else if type = ARTIFACTS_RESOURCE then [Resources_request load (api_get_artifacts_resources load)]
      else if type = PLATFORM_RESOURCE then [Resources_request load (api_get_platform_resources load)]
      else if type = PROXY_RESOURCE then [Resources_request load (api_get_proxy_resources load)]
      else [])"

text \<open>Each load has a counter of its own, known to its five answers; \<open>load\<close> is the load's number.\<close>

definition resources_load :: "resources_loader \<Rightarrow> resources_loader \<times> resources_effect list" where
  "resources_load l =
     (l\<lparr>loader_loaded := False, loader_resources := no_resources,
        loader_counts := loader_counts l @ [0]\<rparr>,
      concat (map (resource_request (length (loader_counts l))) ALL_RESOURCES))"

definition set_resources :: "resource_list \<Rightarrow> resources \<Rightarrow> resources" where
  "set_resources answer r =
     (case answer of
        Open_shift_resources xs \<Rightarrow> r\<lparr>resources_open_shift := xs\<rparr>
      | Git_resources xs \<Rightarrow> r\<lparr>resources_git := xs\<rparr>
      | Artifacts_resources xs \<Rightarrow> r\<lparr>resources_artifacts := xs\<rparr>
      | Platform_resources xs \<Rightarrow> r\<lparr>resources_platform := xs\<rparr>
      | Proxy_resources xs \<Rightarrow> r\<lparr>resources_proxy := xs\<rparr>)"

definition increment_count ::
  "nat \<Rightarrow> resources_loader \<Rightarrow> resources_loader \<times> resources_effect list" where
  "increment_count load l =
     (let l' = l\<lparr>loader_counts := (loader_counts l)[load := Suc (loader_counts l ! load)]\<rparr>
      in if loader_counts l' ! load = length ALL_RESOURCES then
           (let l'' = l'\<lparr>loader_loaded := True\<rparr>
            in (l'', [Resources_completed load (resources_store_of l'')]))
         else (l', []))"

definition resources_answer ::
  "nat \<Rightarrow> resource_list \<Rightarrow> resources_loader \<Rightarrow> resources_loader \<times> resources_effect list" where
  "resources_answer load answer l =
     increment_count load (l\<lparr>loader_resources := set_resources answer (loader_resources l)\<rparr>)"

section \<open>Applications\<close>

record applications_loader =
  applications_loaded :: bool
  loader_applications :: applications
  applications_counts :: "nat list"

definition new_applications_loader :: applications_loader where
  "new_applications_loader =
     \<lparr>applications_loaded = False, loader_applications = \<lparr>applications_filebeat = []\<rparr>,
      applications_counts = []\<rparr>"

definition application_ids_of_type :: "applications \<Rightarrow> string \<Rightarrow> application_identifier list" where
  "application_ids_of_type a type =
     (if type = FILEBEAT_APPLICATION then
        map (\<lambda>x. \<lparr>aid_id = filebeat_application_id x, aid_name = filebeat_application_name x,
                 aid_type = FILEBEAT_APPLICATION\<rparr>) (applications_filebeat a)
      else [])"

definition application_ids :: "string list \<Rightarrow> applications \<Rightarrow> application_identifier list" where
  "application_ids types a = fold (\<lambda>type ids. ids @ application_ids_of_type a type) types []"

record applications_store =
  application_store_ids :: "application_identifier list"

datatype applications_error = Applications_not_loaded

definition applications_store_of :: "applications_loader \<Rightarrow> applications_error + applications_store" where
  "applications_store_of l =
     (if \<not> applications_loaded l then Inl Applications_not_loaded
      else Inr \<lparr>application_store_ids = application_ids ALL_APPLICATIONS (loader_applications l)\<rparr>)"

definition application_ids_of ::
  "string list \<Rightarrow> applications_store \<Rightarrow> application_identifier list" where
  "application_ids_of types store =
     filter (\<lambda>i. list_ex (\<lambda>type. type = aid_type i) types) (application_store_ids store)"

definition applications_of :: "string \<Rightarrow> applications_loader \<Rightarrow> filebeat_application list" where
  "applications_of type l =
     (if type = FILEBEAT_APPLICATION then applications_filebeat (loader_applications l) else [])"

definition filebeat_of ::
  "application_identifier \<Rightarrow> applications_loader \<Rightarrow> filebeat_application option" where
  "filebeat_of i l =
     find (\<lambda>filebeat. filebeat_application_id filebeat = aid_id i)
       (applications_of FILEBEAT_APPLICATION l)"

datatype applications_effect =
    Applications_request nat "nat api_call"
  | Applications_completed nat "applications_error + applications_store"

definition applications_load ::
  "applications_loader \<Rightarrow> applications_loader \<times> applications_effect list" where
  "applications_load l =
     (let load = length (applications_counts l)
      in (l\<lparr>applications_loaded := False, loader_applications := \<lparr>applications_filebeat = []\<rparr>,
            applications_counts := applications_counts l @ [0]\<rparr>,
          concat (map (\<lambda>type. if type = FILEBEAT_APPLICATION
            then [Applications_request load (api_get_filebeat_applications load)] else []) ALL_APPLICATIONS)))"

definition applications_answer :: "nat \<Rightarrow> filebeat_application list \<Rightarrow> applications_loader \<Rightarrow>
    applications_loader \<times> applications_effect list" where
  "applications_answer load answer l =
     (let l' = l\<lparr>loader_applications := \<lparr>applications_filebeat = answer\<rparr>,
                 applications_counts :=
                   (applications_counts l)[load := Suc (applications_counts l ! load)]\<rparr>
      in if applications_counts l' ! load = length ALL_APPLICATIONS then
           (let l'' = l'\<lparr>applications_loaded := True\<rparr>
            in (l'', [Applications_completed load (applications_store_of l'')]))
         else (l', []))"

section \<open>The contract of the loaders of one list\<close>

locale list_loading =
  fixes load :: "'l \<Rightarrow> 'l \<times> 'e list"
    and answer :: "'a list \<Rightarrow> 'l \<Rightarrow> 'l \<times> 'e list"
    and loaded :: "'l \<Rightarrow> bool"
    and items :: "'l \<Rightarrow> 'a list"
    and finish :: "'a list \<Rightarrow> 'e"
  assumes load_clears: "\<not> loaded (fst (load l)) \<and> items (fst (load l)) = []"
    and load_asks: "length (snd (load l)) = 1"
    and answer_loads: "loaded (fst (answer xs l)) \<and> items (fst (answer xs l)) = xs"
    and answer_completes: "snd (answer xs l) = [finish xs]"
begin

lemma answers_emit: "snd (emit_run answer xss l) = map finish xss"
  by (induction xss arbitrary: l) (simp_all add: answer_completes)

lemma answers_load:
  "xss \<noteq> [] \<Longrightarrow> loaded (fst (emit_run answer xss l)) \<and> items (fst (emit_run answer xss l)) = last xss"
  by (induction xss rule: rev_induct) (simp_all add: answer_loads)

lemma loading:
  assumes "xss \<noteq> []"
  shows "\<not> loaded (fst (load l)) \<and> items (fst (load l)) = [] \<and> length (snd (load l)) = 1 \<and>
    snd (emit_run answer xss (fst (load l))) = map finish xss \<and>
    loaded (fst (emit_run answer xss (fst (load l)))) \<and>
    items (fst (emit_run answer xss (fst (load l)))) = last xss"
  using load_clears load_asks answers_emit answers_load [OF assms] by blast

end

interpretation assemblies: list_loading assemblies_load assemblies_answer items_loaded loaded_items Completed
  by unfold_locales (simp_all add: assemblies_load_def assemblies_answer_def)

interpretation modules: list_loading modules_load modules_answer items_loaded loaded_items Completed
  by unfold_locales (simp_all add: modules_load_def modules_answer_def)

interpretation configurations:
  list_loading configurations_load configurations_answer items_loaded loaded_items Completed
  by unfold_locales (simp_all add: configurations_load_def configurations_answer_def)

interpretation projects: list_loading projects_load projects_answer items_loaded loaded_items Completed
  by unfold_locales (simp_all add: projects_load_def projects_answer_def)

section \<open>The barriers of the resources and the applications\<close>

interpretation resources_barrier: completion_barrier "resources_answer load"
  "\<lambda>l. loader_counts l ! load" "\<lambda>l. length ALL_RESOURCES"
  "\<lambda>l. [Resources_completed load (resources_store_of l)]" "\<lambda>l. load < length (loader_counts l)" for load
  by unfold_locales (simp_all add: resources_answer_def increment_count_def Let_def)

interpretation applications_barrier: completion_barrier "applications_answer load"
  "\<lambda>l. applications_counts l ! load" "\<lambda>l. length ALL_APPLICATIONS"
  "\<lambda>l. [Applications_completed load (applications_store_of l)]"
  "\<lambda>l. load < length (applications_counts l)" for load
  by unfold_locales (simp_all add: applications_answer_def Let_def)

lemma resources_answer_resources [simp]:
  "loader_resources (fst (resources_answer load answer l)) = set_resources answer (loader_resources l)"
  by (simp add: resources_answer_def increment_count_def Let_def)

lemma resources_answers_resources:
  "loader_resources (fst (emit_run (resources_answer load) answers l)) =
     fold set_resources answers (loader_resources l)"
  by (induction answers arbitrary: l) simp_all

text \<open>The kind of a list of resources: answers of different kinds commute.\<close>

fun resource_kind :: "resource_list \<Rightarrow> string" where
  "resource_kind (Open_shift_resources xs) = OPEN_SHIFT_RESOURCE"
| "resource_kind (Git_resources xs) = GIT_RESOURCE"
| "resource_kind (Artifacts_resources xs) = ARTIFACTS_RESOURCE"
| "resource_kind (Platform_resources xs) = PLATFORM_RESOURCE"
| "resource_kind (Proxy_resources xs) = PROXY_RESOURCE"

lemma set_resources_commute:
  assumes "x = y \<or> resource_kind x \<noteq> resource_kind y"
  shows "set_resources x \<circ> set_resources y = set_resources y \<circ> set_resources x"
  using assms by (cases x; cases y; simp add: set_resources_def fun_eq_iff)

lemma set_resources_permuted:
  assumes "mset answers = {#Open_shift_resources os, Git_resources gs, Artifacts_resources ars,
    Platform_resources ps, Proxy_resources xs#}"
  shows "fold set_resources answers r =
    r\<lparr>resources_open_shift := os, resources_artifacts := ars, resources_git := gs,
      resources_platform := ps, resources_proxy := xs\<rparr>"
proof -
  let ?ordered = "[Open_shift_resources os, Git_resources gs, Artifacts_resources ars,
    Platform_resources ps, Proxy_resources xs]"
  have eq: "mset ?ordered = mset answers" using assms by simp
  have "fold set_resources ?ordered = fold set_resources answers"
    by (rule fold_multiset_equiv [OF _ eq]) (rule set_resources_commute, auto simp: resource_constants_defs)
  then have "fold set_resources answers r = fold set_resources ?ordered r" by simp
  then show ?thesis by (simp add: set_resources_def)
qed

lemma resources_not_loaded_before:
  assumes "load < length (loader_counts l)" and "loader_counts l ! load + length answers < length ALL_RESOURCES"
    and "\<not> loader_loaded l"
  shows "\<not> loader_loaded (fst (emit_run (resources_answer load) answers l))"
  using assms
  by (induction answers arbitrary: l) (simp_all add: resources_answer_def increment_count_def Let_def)

lemma resources_at_goal_loaded:
  assumes "load < length (loader_counts l)" and "loader_counts l ! load + length answers = length ALL_RESOURCES"
    and "answers \<noteq> []"
  shows "loader_loaded (fst (emit_run (resources_answer load) answers l))"
proof -
  from assms(3) obtain ars a where answers: "answers = ars @ [a]" using rev_exhaust by blast
  define l' where "l' = fst (emit_run (resources_answer load) ars l)"
  have "load < length (loader_counts l') \<and> Suc (loader_counts l' ! load) = length ALL_RESOURCES"
    using resources_barrier.run_facts [OF assms(1), of ars] assms(2) by (simp add: answers l'_def)
  then show ?thesis
    by (simp add: answers l'_def [symmetric]) (simp add: resources_answer_def increment_count_def Let_def)
qed

section \<open>Properties\<close>

lemma resources_load_state [simp]:
  "loader_resources (fst (resources_load l)) = no_resources"
  "loader_counts (fst (resources_load l)) = loader_counts l @ [0]"
  "loader_loaded (fst (resources_load l)) = False"
  by (simp_all add: resources_load_def)

text \<open>
  C13. A load of the resources. It sends five requests, one for each of the types, in the order of
  \<open>ALL_RESOURCES\<close>. If the five answers arrive, in any order, the first four complete nothing, and until the last one
  asking for the store is an error; the last completes the load once, with a store that lists the identifiers of all
  resources in the order of \<open>ALL_RESOURCES\<close>, and leaves the loader loaded with exactly the five answers.
\<close>

theorem resources_load_completes:
  assumes "mset answers = {#Open_shift_resources os, Git_resources gs, Artifacts_resources ars,
    Platform_resources ps, Proxy_resources xs#}"
  shows "let load = length (loader_counts l); (l0, requests) = resources_load l;
      all = \<lparr>resources_open_shift = os, resources_artifacts = ars, resources_git = gs,
             resources_platform = ps, resources_proxy = xs\<rparr>;
      l1 = fst (emit_run (resources_answer load) answers l0) in
    requests = map (Resources_request load)
      [api_get_artifacts_resources load, api_get_open_shift_resources load, api_get_git_resources load,
       api_get_platform_resources load, api_get_proxy_resources load] \<and>
    emit_trace (resources_answer load) answers l0 =
      [[], [], [], [], [Resources_completed load (Inr \<lparr>store_ids = resource_ids ALL_RESOURCES all\<rparr>)]] \<and>
    (\<forall>k<5. resources_store_of (fst (emit_run (resources_answer load) (take k answers) l0)) =
       Inl Resource_not_loaded) \<and>
    loader_loaded l1 \<and> loader_resources l1 = all"
proof -
  define load where "load = length (loader_counts l)"
  define l0 where "l0 = fst (resources_load l)"
  define l1 where "l1 = fst (emit_run (resources_answer load) answers l0)"
  have len: "length answers = 5"
    using arg_cong [OF assms, of size] by simp
  have all: "length ALL_RESOURCES = 5" by (simp add: ALL_RESOURCES_def)
  have l0: "load < length (loader_counts l0)" "loader_counts l0 ! load = 0" "\<not> loader_loaded l0"
    by (simp_all add: l0_def load_def)
  have "answers \<noteq> []" using len by auto
  have loaded: "loader_loaded l1"
    unfolding l1_def by (rule resources_at_goal_loaded) (use l0 len all \<open>answers \<noteq> []\<close> in simp_all)
  have r: "loader_resources l1 = \<lparr>resources_open_shift = os, resources_artifacts = ars,
      resources_git = gs, resources_platform = ps, resources_proxy = xs\<rparr>"
    by (simp add: l1_def l0_def resources_answers_resources set_resources_permuted [OF assms]
        no_resources_def)
  have "emit_trace (resources_answer load) answers l0 =
      replicate (length answers - 1) [] @ [[Resources_completed load (resources_store_of l1)]]"
    unfolding l1_def by (rule resources_barrier.trace_at_goal) (use l0 len all \<open>answers \<noteq> []\<close> in simp_all)
  moreover have "\<not> loader_loaded (fst (emit_run (resources_answer load) (take k answers) l0))" if "k < 5" for k
    by (rule resources_not_loaded_before) (use l0 len all that in simp_all)
  moreover have "snd (resources_load l) = map (Resources_request load)
      [api_get_artifacts_resources load, api_get_open_shift_resources load, api_get_git_resources load,
       api_get_platform_resources load, api_get_proxy_resources load]"
    by (simp add: resources_load_def resource_request_def load_def resource_constants_defs)
  ultimately show ?thesis using loaded r len
    by (simp add: Let_def split_beta load_def [symmetric] l0_def [symmetric] l1_def [symmetric]
        resources_store_of_def eval_nat_numeral)
qed

theorem resources_load_completes_witness:
  "emit_trace (resources_answer 0)
      [Git_resources [], Proxy_resources [], Platform_resources [], Artifacts_resources [],
       Open_shift_resources []] (fst (resources_load new_resources_loader)) =
    [[], [], [], [], [Resources_completed 0 (Inr \<lparr>store_ids = []\<rparr>)]]"
proof -
  let ?answers = "[Git_resources [], Proxy_resources [], Platform_resources [], Artifacts_resources [],
       Open_shift_resources []]"
  have "mset ?answers = {#Open_shift_resources [], Git_resources [], Artifacts_resources [],
      Platform_resources [], Proxy_resources []#}"
    by simp
  from resources_load_completes [OF this, of new_resources_loader, unfolded Let_def split_beta,
      THEN conjunct2, THEN conjunct1]
  show ?thesis
    by (simp add: new_resources_loader_def resource_ids_def resource_ids_of_type_def ALL_RESOURCES_def)
qed

text \<open>
  Overlapping loads of the resources. When a second load starts after four of the first one's answers,
  the first one's last answer completes it with a store in which only that answer is left, although the
  second load is still waiting: the loader then claims to be loaded. A store obtained before the second load
  still lists its identifiers, but its resources, read from the shared object, are gone.
\<close>

theorem overlapping_resource_loads:
  "let l1 = fst (emit_run (resources_answer 0)
         [Artifacts_resources ars, Open_shift_resources os, Git_resources gs, Platform_resources ps]
         (fst (resources_load new_resources_loader)));
       l2 = fst (resources_load l1);
       (l3, effects) = resources_answer 0 (Proxy_resources xs) l2 in
     loader_loaded l3 \<and>
     effects = [Resources_completed 0 (Inr \<lparr>store_ids = resource_ids_of_type (loader_resources l3) PROXY_RESOURCE\<rparr>)] \<and>
     resources_of GIT_RESOURCE l3 = Some (Git_resources []) \<and>
     resources_of PROXY_RESOURCE l3 = Some (Proxy_resources xs) \<and>
     (\<forall>type\<in>set ALL_RESOURCES. resource_ids_of_type (loader_resources (fst (resources_load l))) type = [])"
proof -
  have goal: "length ALL_RESOURCES = 5" by (simp add: ALL_RESOURCES_def)
  have ids: "resource_ids ALL_RESOURCES \<lparr>resources_open_shift = [], resources_artifacts = [],
      resources_git = [], resources_platform = [], resources_proxy = xs\<rparr> =
    resource_ids_of_type \<lparr>resources_open_shift = [], resources_artifacts = [],
      resources_git = [], resources_platform = [], resources_proxy = xs\<rparr> PROXY_RESOURCE"
    by (simp add: resource_ids_def ALL_RESOURCES_def resource_ids_of_type_def)
  have "resource_ids_of_type no_resources type = []" for type
    by (simp add: resource_ids_of_type_def no_resources_def)
  with ids show ?thesis
    by (simp add: Let_def split_beta resources_answer_def increment_count_def resources_load_def
        new_resources_loader_def set_resources_def no_resources_def goal resources_store_of_def
        resources_of_def) (simp add: OPEN_SHIFT_RESOURCE_def GIT_RESOURCE_def ARTIFACTS_RESOURCE_def
        PLATFORM_RESOURCE_def PROXY_RESOURCE_def)
qed

theorem overlapping_resource_loads_witness:
  "resource_ids_of_type (loader_resources (fst (resources_load new_resources_loader))) GIT_RESOURCE = []"
  using overlapping_resource_loads [where l = new_resources_loader, unfolded Let_def split_beta,
      THEN conjunct2, THEN conjunct2, THEN conjunct2, THEN conjunct2]
  by (simp add: ALL_RESOURCES_def)

text \<open>
  The loaders of modules, assemblies, prepared configurations and projects. A load forgets the old items
  and sends one request; every answer, also one of an earlier load, is reported once and in order, and the
  loader is then loaded with the last answer that arrived.
\<close>

theorem list_loaders_correct:
  assumes "answers \<noteq> []" and "project_answers \<noteq> []"
  shows "(let l = fst (modules_load l0) in
      \<not> items_loaded l \<and> loaded_items l = [] \<and> length (snd (modules_load l0)) = 1 \<and>
      snd (emit_run modules_answer answers l) = map Completed answers \<and>
      items_loaded (fst (emit_run modules_answer answers l)) \<and>
      loaded_items (fst (emit_run modules_answer answers l)) = last answers) \<and>
    (let l = fst (projects_load p0) in
      \<not> items_loaded l \<and> loaded_items l = [] \<and>
      snd (emit_run projects_answer project_answers l) = map Completed project_answers \<and>
      set (get_initialized (fst (emit_run projects_answer project_answers l))) =
        {p \<in> set (last project_answers). project_state p = PROJECT_INITIALIZED_STATE})"
  using modules.loading [OF assms(1), of l0] projects.loading [OF assms(2), of p0]
  by (simp add: Let_def get_initialized_def)

theorem list_loaders_correct_witness:
  "loaded_items (fst (emit_run modules_answer [[], []] (fst (modules_load new_list_loader)))) = []"
proof -
  have "[[], []] \<noteq> ([] :: module_information list list)" "[[]] \<noteq> ([] :: project list list)" by simp_all
  from list_loaders_correct [OF this, of new_list_loader new_list_loader] show ?thesis
    by (simp add: Let_def)
qed

end
