(* ===== verification/EntityStreams.thy ===== *)
theory EntityStreams
  imports Streams Api Samples
begin

text \<open>
  The streams of entities, \<open>streams/\<close>: which notification an event of a module, an assembly, a load test, a
  project or a user shows; and \<open>component/stream/StreamsActivator.tsx\<close>, which feeds the streams from the
  subscriptions of the API after looking up the project (or the user) of an event. A lookup is answered
  later and in any order: pending lookups are part of the state. A notification is its severity and its
  message, a constructor applied to the texts it quotes.
\<close>

datatype severity = Success | Info | Warning | Error

type_synonym 'm notice = "severity \<times> 'm"

section \<open>Entities with the name of their project\<close>

record 'd named_event =
  named_data :: 'd
  named_project :: "string option"

section \<open>Notifications\<close>

datatype module_message =
    Module_installing string "string option" | Module_deleted string
  | Module_reinstalling string "string option" | Module_stopping string "string option"
  | Module_starting string "string option" | Module_updating string "string option"
  | Module_uninstalling string "string option" | Module_stopped string "string option"
  | Module_active string "string option" | Module_not_installed string "string option"
  | Module_action_failed string "string option"

definition module_added_notice :: "module_full named_event \<Rightarrow> module_message notice" where
  "module_added_notice e = (Success, Module_installing (mod_name (named_data e)) (named_project e))"

definition module_deleted_notice :: "module_full named_event \<Rightarrow> module_message notice" where
  "module_deleted_notice e = (Info, Module_deleted (mod_name (named_data e)))"

definition module_updated_notice :: "module_full named_event \<Rightarrow> module_message notice option" where
  "module_updated_notice e =
     (let state = mod_state (named_data e); name = mod_name (named_data e); project = named_project e in
      if state = MODULE_INSTALLATION_STARTED_STATE then Some (Info, Module_reinstalling name project)
      else if state = MODULE_STOP_STARTED_STATE then Some (Info, Module_stopping name project)
      else if state = MODULE_RESTART_STARTED_STATE then Some (Info, Module_starting name project)
      else if state = MODULE_UPDATE_STARTED_STATE then Some (Info, Module_updating name project)
      else if state = MODULE_UNINSTALL_STARTED_STATE then Some (Info, Module_uninstalling name project)
      else if state = MODULE_STOPPED_STATE then Some (Warning, Module_stopped name project)
      else if state = MODULE_RUN_STATE then Some (Success, Module_active name project)
      else if state = MODULE_NOT_INSTALLED_STATE then Some (Warning, Module_not_installed name project)
      else if state = MODULE_INVALID_STATE then Some (Error, Module_action_failed name project)
      else None)"

datatype assembly_message =
    Assembly_started string "string option" | Assembly_deleted string
  | Assembly_failed string "string option" | Assembly_restarted string "string option"
  | Assembly_started_on string "string option" string | Assembly_cancelled string "string option"
  | Assembly_finished string "string option"

definition assembly_added_notice :: "assembly named_event \<Rightarrow> assembly_message notice" where
  "assembly_added_notice e =
     (Success, Assembly_started (version_version (assembly_version (named_data e))) (named_project e))"

definition assembly_deleted_notice :: "assembly named_event \<Rightarrow> assembly_message notice" where
  "assembly_deleted_notice e =
     (Info, Assembly_deleted (version_version (assembly_version (named_data e))))"

definition assembly_updated_notice :: "assembly named_event \<Rightarrow> assembly_message notice option" where
  "assembly_updated_notice e =
     (let state = assembly_state (named_data e);
          version = version_version (assembly_version (named_data e)); project = named_project e in
      if state = ASSEMBLY_FAILED_STATE then Some (Error, Assembly_failed version project)
      else if state = ASSEMBLY_RESTARTED_STATE then Some (Success, Assembly_restarted version project)
      else if state = ASSEMBLY_STARTED_ON_RESOURCE_STATE then
        Some (Info, Assembly_started_on version project (rid_name (assembly_resource_id (named_data e))))
      else if state = ASSEMBLY_CANCELED_STATE then Some (Success, Assembly_cancelled version project)
      else if state = ASSEMBLY_DONE_STATE then Some (Success, Assembly_finished version project)
      else None)"

datatype load_test_message =
    Load_test_started string "string option" | Load_test_deleted string
  | Load_test_failed string "string option" | Load_test_started_on string "string option" string
  | Load_test_cancelled string "string option" | Load_test_finished string "string option"

definition load_test_added_notice :: "load_test named_event \<Rightarrow> load_test_message notice" where
  "load_test_added_notice e =
     (Success, Load_test_started (version_version (load_test_version (named_data e))) (named_project e))"

definition load_test_deleted_notice :: "load_test named_event \<Rightarrow> load_test_message notice" where
  "load_test_deleted_notice e =
     (Info, Load_test_deleted (version_version (load_test_version (named_data e))))"

definition load_test_updated_notice :: "load_test named_event \<Rightarrow> load_test_message notice option" where
  "load_test_updated_notice e =
     (let state = load_test_state (named_data e);
          version = version_version (load_test_version (named_data e)); project = named_project e in
      if state = LOAD_TEST_FAILED_STATE then Some (Error, Load_test_failed version project)
      else if state = LOAD_TEST_STARTED_ON_RESOURCE_STATE then
        Some (Info, Load_test_started_on version project (rid_name (load_test_resource_id (named_data e))))
      else if state = LOAD_TEST_CANCELED_STATE then Some (Success, Load_test_cancelled version project)
      else if state = LOAD_TEST_DONE_STATE then Some (Success, Load_test_finished version project)
      else None)"

datatype project_message =
    Project_added string | Project_deleted string | Project_initialized string
  | Project_initialization_failed string | Project_reloading string

definition project_added_notice :: "project \<Rightarrow> project_message notice" where
  "project_added_notice p = (Success, Project_added (project_name p))"

definition project_deleted_notice :: "project \<Rightarrow> project_message notice" where
  "project_deleted_notice p = (Info, Project_deleted (project_name p))"

definition project_updated_notice :: "project \<Rightarrow> project_message notice option" where
  "project_updated_notice p =
     (if project_state p = PROJECT_INITIALIZED_STATE then Some (Success, Project_initialized (project_name p))
      else if project_state p = PROJECT_INITIALIZATION_FAILED_STATE then
        Some (Error, Project_initialization_failed (project_name p))
      else if project_state p = PROJECT_RELOAD_STARTED_STATE then
        Some (Info, Project_reloading (project_name p))
      else None)"

datatype user_message = User_added string | User_deleted string

definition user_added_notice :: "user \<Rightarrow> user_message notice" where
  "user_added_notice u = (Success, User_added (user_name u))"

definition user_deleted_notice :: "user \<Rightarrow> user_message notice" where
  "user_deleted_notice u = (Info, User_deleted (user_name u))"

section \<open>Subscriptions\<close>

text \<open>A handler of a stream: one of the three notices, or a handler of a page.\<close>

datatype 'c handler = Notice_added | Notice_deleted | Notice_updated | Page 'c

text \<open>\<open>onModuleAdded\<close> and the like: the index, and the closure that leaves the stream.\<close>

datatype subscription = Added_at nat | Deleted_at nat | Updated_any_at nat | Updated_at int nat

definition on_added :: "'c \<Rightarrow> 'c handler stream \<Rightarrow> subscription \<times> 'c handler stream" where
  "on_added handler s = (let (index, s') = subscribe_on_add (Page handler) s in (Added_at index, s'))"

definition on_deleted :: "'c \<Rightarrow> 'c handler stream \<Rightarrow> subscription \<times> 'c handler stream" where
  "on_deleted handler s =
     (let (index, s') = subscribe_on_delete (Page handler) s in (Deleted_at index, s'))"

definition on_any_updated :: "'c \<Rightarrow> 'c handler stream \<Rightarrow> subscription \<times> 'c handler stream" where
  "on_any_updated handler s =
     (let (index, s') = subscribe_on_update_many (Page handler) s in (Updated_any_at index, s'))"

definition on_updated :: "int \<Rightarrow> 'c \<Rightarrow> 'c handler stream \<Rightarrow> subscription \<times> 'c handler stream" where
  "on_updated entity handler s =
     (let (index, s') = subscribe_on_update_single entity (Page handler) s in (Updated_at entity index, s'))"

fun leave :: "subscription \<Rightarrow> 'c handler stream \<Rightarrow> 'c handler stream" where
  "leave (Added_at index) s = unsubscribe_from_add index s"
| "leave (Deleted_at index) s = unsubscribe_from_delete index s"
| "leave (Updated_any_at index) s = unsubscribe_from_update_many index s"
| "leave (Updated_at entity index) s = unsubscribe_from_update_single entity index s"

text \<open>The streams of the entities, each with the operations its file offers.\<close>

definition activate_assembly_stream :: "'c \<Rightarrow> 'c handler stream" where
  "activate_assembly_stream stop = stream_of (Page stop)"

definition deactivate_assembly_stream :: "'c handler stream option \<Rightarrow> 'c handler list" where
  "deactivate_assembly_stream s = (case s of None \<Rightarrow> [] | Some s \<Rightarrow> stream_stop s)"

definition on_assembly_added :: "'c \<Rightarrow> 'c handler stream \<Rightarrow> subscription \<times> 'c handler stream" where
  "on_assembly_added = on_added"

definition on_assembly_deleted :: "'c \<Rightarrow> 'c handler stream \<Rightarrow> subscription \<times> 'c handler stream" where
  "on_assembly_deleted = on_deleted"

definition on_any_assembly_updated :: "'c \<Rightarrow> 'c handler stream \<Rightarrow> subscription \<times> 'c handler stream" where
  "on_any_assembly_updated = on_any_updated"

definition on_assembly_updated :: "int \<Rightarrow> 'c \<Rightarrow> 'c handler stream \<Rightarrow> subscription \<times> 'c handler stream" where
  "on_assembly_updated = on_updated"

definition activate_load_test_stream :: "'c \<Rightarrow> 'c handler stream" where
  "activate_load_test_stream stop = stream_of (Page stop)"

definition deactivate_load_test_stream :: "'c handler stream option \<Rightarrow> 'c handler list" where
  "deactivate_load_test_stream s = (case s of None \<Rightarrow> [] | Some s \<Rightarrow> stream_stop s)"

definition on_load_test_added :: "'c \<Rightarrow> 'c handler stream \<Rightarrow> subscription \<times> 'c handler stream" where
  "on_load_test_added = on_added"

definition on_load_test_deleted :: "'c \<Rightarrow> 'c handler stream \<Rightarrow> subscription \<times> 'c handler stream" where
  "on_load_test_deleted = on_deleted"

definition on_load_test_updated :: "int \<Rightarrow> 'c \<Rightarrow> 'c handler stream \<Rightarrow> subscription \<times> 'c handler stream" where
  "on_load_test_updated = on_updated"

definition activate_log_stream :: "'c \<Rightarrow> 'c handler stream" where
  "activate_log_stream stop = stream_of (Page stop)"

definition deactivate_log_stream :: "'c handler stream option \<Rightarrow> 'c handler list" where
  "deactivate_log_stream s = (case s of None \<Rightarrow> [] | Some s \<Rightarrow> stream_stop s)"

definition on_log_updated :: "int \<Rightarrow> 'c \<Rightarrow> 'c handler stream \<Rightarrow> subscription \<times> 'c handler stream" where
  "on_log_updated = on_updated"

definition activate_module_stream :: "'c \<Rightarrow> 'c handler stream" where
  "activate_module_stream stop = stream_of (Page stop)"

definition deactivate_module_stream :: "'c handler stream option \<Rightarrow> 'c handler list" where
  "deactivate_module_stream s = (case s of None \<Rightarrow> [] | Some s \<Rightarrow> stream_stop s)"

definition on_module_added :: "'c \<Rightarrow> 'c handler stream \<Rightarrow> subscription \<times> 'c handler stream" where
  "on_module_added = on_added"

definition on_module_deleted :: "'c \<Rightarrow> 'c handler stream \<Rightarrow> subscription \<times> 'c handler stream" where
  "on_module_deleted = on_deleted"

definition on_any_module_updated :: "'c \<Rightarrow> 'c handler stream \<Rightarrow> subscription \<times> 'c handler stream" where
  "on_any_module_updated = on_any_updated"

definition on_module_updated :: "int \<Rightarrow> 'c \<Rightarrow> 'c handler stream \<Rightarrow> subscription \<times> 'c handler stream" where
  "on_module_updated = on_updated"

definition activate_project_stream :: "'c \<Rightarrow> 'c handler stream" where
  "activate_project_stream stop = stream_of (Page stop)"

definition deactivate_project_stream :: "'c handler stream option \<Rightarrow> 'c handler list" where
  "deactivate_project_stream s = (case s of None \<Rightarrow> [] | Some s \<Rightarrow> stream_stop s)"

definition on_project_added :: "'c \<Rightarrow> 'c handler stream \<Rightarrow> subscription \<times> 'c handler stream" where
  "on_project_added = on_added"

definition on_project_deleted :: "'c \<Rightarrow> 'c handler stream \<Rightarrow> subscription \<times> 'c handler stream" where
  "on_project_deleted = on_deleted"

definition on_project_updated :: "int \<Rightarrow> 'c \<Rightarrow> 'c handler stream \<Rightarrow> subscription \<times> 'c handler stream" where
  "on_project_updated = on_updated"

definition activate_user_stream :: "'c \<Rightarrow> 'c handler stream" where
  "activate_user_stream stop = stream_of (Page stop)"

definition deactivate_user_stream :: "'c handler stream option \<Rightarrow> 'c handler list" where
  "deactivate_user_stream s = (case s of None \<Rightarrow> [] | Some s \<Rightarrow> stream_stop s)"

definition on_user_added :: "'c \<Rightarrow> 'c handler stream \<Rightarrow> subscription \<times> 'c handler stream" where
  "on_user_added = on_added"

definition on_user_deleted :: "'c \<Rightarrow> 'c handler stream \<Rightarrow> subscription \<times> 'c handler stream" where
  "on_user_deleted = on_deleted"

definition on_user_updated :: "int \<Rightarrow> 'c \<Rightarrow> 'c handler stream \<Rightarrow> subscription \<times> 'c handler stream" where
  "on_user_updated = on_updated"

text \<open>\<open>subscribeOnModule\<close>, \<open>subscribeOnAssembly\<close>, \<open>subscribeOnLoadTest\<close> and \<open>subscribeOnProjects\<close>.\<close>

definition subscribe_notices :: "'c handler stream \<Rightarrow> 'c handler stream" where
  "subscribe_notices s =
     snd (subscribe_on_update_many Notice_updated
       (snd (subscribe_on_delete Notice_deleted (snd (subscribe_on_add Notice_added s)))))"

text \<open>\<open>subscribeOnUsers\<close> has no notice for updates.\<close>

definition subscribe_on_users :: "'c handler stream \<Rightarrow> 'c handler stream" where
  "subscribe_on_users s = snd (subscribe_on_delete Notice_deleted (snd (subscribe_on_add Notice_added s)))"

section \<open>The activator\<close>

text \<open>
  An event waits in \<open>pending\<close> under the number of its lookup. The stream is fed with the events produced;
  a \<open>DELETE\<close> event skips the lookup.
\<close>

record 'd activator =
  next_lookup :: nat
  pending_events :: "(nat, 'd stream_event) js_map"
  activator_mounted :: bool

datatype 'd activator_effect =
    Get_project nat int
  | Get_user nat int
  | Produce "'d named_event stream_event"

definition with_project :: "string option \<Rightarrow> 'd stream_event \<Rightarrow> 'd named_event stream_event" where
  "with_project project event =
     \<lparr>event_type = event_type event,
      event_data = \<lparr>named_data = event_data event, named_project = project\<rparr>\<rparr>"

text \<open>\<open>#produceModuleEvent\<close>, and word for word \<open>#produceAssemblyEvent\<close> and \<open>#produceLoadTestEvent\<close>.\<close>

definition produce_entity_event ::
  "('d \<Rightarrow> int) \<Rightarrow> 'd stream_event \<Rightarrow> 'd activator \<Rightarrow> 'd activator \<times> 'd activator_effect list" where
  "produce_entity_event project_of event a =
     (if \<not> activator_mounted a then (a, [])
      else if event_type event = DELETE_EVENT then (a, [Produce (with_project None event)])
      else
        (a\<lparr>next_lookup := Suc (next_lookup a),
           pending_events := map_put (next_lookup a) event (pending_events a)\<rparr>,
         [Get_project (next_lookup a) (project_of (event_data event))]))"

definition produce_module_event ::
  "module_full stream_event \<Rightarrow> module_full activator \<Rightarrow>
   module_full activator \<times> module_full activator_effect list" where
  "produce_module_event = produce_entity_event mod_project_id"

definition produce_assembly_event ::
  "assembly stream_event \<Rightarrow> assembly activator \<Rightarrow> assembly activator \<times> assembly activator_effect list" where
  "produce_assembly_event = produce_entity_event assembly_project_id"

definition produce_load_test_event ::
  "load_test stream_event \<Rightarrow> load_test activator \<Rightarrow>
   load_test activator \<times> load_test activator_effect list" where
  "produce_load_test_event = produce_entity_event load_test_project_id"

definition project_answered ::
  "nat \<Rightarrow> project \<Rightarrow> 'd activator \<Rightarrow> 'd activator \<times> 'd activator_effect list" where
  "project_answered lookup p a =
     (case map_get (pending_events a) lookup of
        None \<Rightarrow> (a, [])
      | Some event \<Rightarrow>
          (a\<lparr>pending_events := map_remove lookup (pending_events a)\<rparr>,
           [Produce (with_project (Some (project_name p)) event)]))"



datatype 'd activator_signal = Event_arrived "'d stream_event" | Project_answered nat project

fun activator_step ::
  "('d \<Rightarrow> int) \<Rightarrow> 'd activator_signal \<Rightarrow> 'd activator \<Rightarrow> 'd activator \<times> 'd activator_effect list" where
  "activator_step project_of (Event_arrived event) = produce_entity_event project_of event"
| "activator_step project_of (Project_answered lookup p) = project_answered lookup p"



section \<open>Conservation of events\<close>


definition erase_project :: "'d named_event stream_event \<Rightarrow> 'd stream_event" where
  "erase_project e = \<lparr>event_type = event_type e, event_data = named_data (event_data e)\<rparr>"

fun produced :: "'d activator_effect list \<Rightarrow> 'd named_event stream_event list" where
  "produced [] = []"
| "produced (Produce e # effects) = e # produced effects"
| "produced (_ # effects) = produced effects"

lemma produced_append [simp]: "produced (xs @ ys) = produced xs @ produced ys"
  by (induction xs rule: produced.induct) simp_all

lemma erase_with_project [simp]: "erase_project (with_project project event) = event"
  by (simp add: erase_project_def with_project_def)





section \<open>Properties\<close>

definition new_activator :: "'d activator" where
  "new_activator = \<lparr>next_lookup = 0, pending_events = [], activator_mounted = True\<rparr>"






text \<open>
  The activator does not keep the order of events. A deletion overtakes the earlier update of the same
  entity whose project is still being looked up, so that the page hears of the update of an entity that is
  already deleted; and two updates are fed in the order their lookups are answered.
\<close>

theorem activator_reorders:
  assumes "event_type d = DELETE_EVENT" and "event_type u \<noteq> DELETE_EVENT" and "event_type v \<noteq> DELETE_EVENT"
  shows "produced (snd (emit_run (activator_step project_of)
       [Event_arrived u, Event_arrived d, Project_answered 0 p] new_activator)) =
     [with_project None d, with_project (Some (project_name p)) u] \<and>
   produced (snd (emit_run (activator_step project_of)
       [Event_arrived u, Event_arrived v, Project_answered 1 q, Project_answered 0 p] new_activator)) =
     [with_project (Some (project_name q)) v, with_project (Some (project_name p)) u]"
  using assms
  by (simp add: produce_entity_event_def project_answered_def new_activator_def map_put_def map_remove_def
      map_get_def)

theorem activator_reorders_witness:
  "produced (snd (emit_run (activator_step id)
     [Event_arrived \<lparr>event_type = UPDATE_EVENT, event_data = 5\<rparr>,
      Event_arrived \<lparr>event_type = DELETE_EVENT, event_data = 5\<rparr>,
      Project_answered 0 sample_project] new_activator)) =
   [\<lparr>event_type = DELETE_EVENT, event_data = \<lparr>named_data = 5, named_project = None\<rparr>\<rparr>,
    \<lparr>event_type = UPDATE_EVENT, event_data = \<lparr>named_data = 5, named_project = Some ''p''\<rparr>\<rparr>]"
proof -
  have "event_type \<lparr>event_type = DELETE_EVENT, event_data = 5::int\<rparr> = DELETE_EVENT"
    "event_type \<lparr>event_type = UPDATE_EVENT, event_data = 5::int\<rparr> \<noteq> DELETE_EVENT"
    by (simp_all add: event_type_defs)
  from activator_reorders [OF this(1,2,2), THEN conjunct1, of id sample_project]
  show ?thesis by (simp only:) (simp add: with_project_def sample_project_def Let_def)
qed

text \<open>
  The notifications of a module's updates agree with its states: an information announces exactly that
  the module starts changing, a success, warning or error exactly that it stopped changing, and the five
  intermediate states, like any state outside the fourteen known ones, are silent.
\<close>

theorem module_notices_agree:
  "(case module_updated_notice e of
       None \<Rightarrow> mod_state (named_data e) \<in> {MODULE_INSTALLING_STATE, MODULE_UPDATING_STATE,
           MODULE_STOPPING_STATE, MODULE_RESTARTING_STATE, MODULE_UNINSTALLING_STATE} \<or>
         mod_state (named_data e) \<notin> set module_states
     | Some (severity, message) \<Rightarrow> module_is_changing (named_data e) = (severity = Info))"
proof (cases "mod_state (named_data e) \<in> set module_states")
  case True
  then show ?thesis
    unfolding module_states_def list.set insert_iff empty_iff
    by (elim disjE FalseE)
      (simp_all add: module_updated_notice_def Let_def module_is_changing_eq module_states_def,
       simp_all add: states_defs)
next
  case False
  then show ?thesis by (simp add: module_states_def module_updated_notice_def Let_def)
qed

theorem module_notices_agree_witness:
  "module_is_changing (sample_module []) = False \<and>
   module_updated_notice \<lparr>named_data = sample_module [], named_project = Some ''p''\<rparr> \<noteq> None"
proof -
  let ?e = "\<lparr>named_data = sample_module [], named_project = Some ''p''\<rparr>"
  have run: "mod_state (named_data ?e) = MODULE_RUN_STATE" by (simp add: sample_module_def)
  then have "\<exists>message. module_updated_notice ?e = Some (Success, message)"
    by (simp add: module_updated_notice_def Let_def) (simp add: states_defs)
  with module_notices_agree [of ?e] show ?thesis by auto
qed

end
