(* ===== verification/Regexps.thy ===== *)
theory Regexps
  imports Constants
begin

text \<open>
  The regular expressions of \<open>constants/Regexps.ts\<close>. A JavaScript string is a sequence of code units; an
  expression is a term of \<open>rx\<close> over classes of code units, tested with Brzozowski derivatives. An expression
  with both anchors has to match the whole text; where an anchor is missing \<open>anything\<close> takes its place, as
  \<open>match\<close> then searches the text. \<open>lang\<close> is the meaning of an expression, and \<open>rx_match_lang\<close> shows that
  the test decides it.
\<close>

section \<open>Expressions\<close>

type_synonym code_class = "(nat \<times> nat) list"

datatype rx =
    Void | Eps | Class bool code_class | Seq rx rx | Alt rx rx | Star rx

text \<open>\<open>[...]\<close> and \<open>[^...]\<close>.\<close>

definition chars :: "code_class \<Rightarrow> rx" where "chars c = Class True c"
definition but :: "code_class \<Rightarrow> rx" where "but c = Class False c"

definition syms :: "string \<Rightarrow> code_class" where
  "syms s = map (\<lambda>c. (of_char c, of_char c)) s"

definition digits :: code_class where "digits = [(48, 57)]"
definition lower :: code_class where "lower = [(97, 122)]"
definition upper :: code_class where "upper = [(65, 90)]"

text \<open>\<open>\\w\<close>, \<open>\\s\<close>, and the line ends that \<open>.\<close> does not match.\<close>

definition word_class :: code_class where "word_class = digits @ upper @ syms ''_'' @ lower"

definition space_class :: code_class where
  "space_class =
     [(9, 13), (32, 32), (160, 160), (5760, 5760), (8192, 8202), (8232, 8233), (8239, 8239),
      (8287, 8287), (12288, 12288), (65279, 65279)]"

definition line_ends :: code_class where "line_ends = [(10, 10), (13, 13), (8232, 8233)]"

fun seqs :: "rx list \<Rightarrow> rx" where
  "seqs [] = Eps"
| "seqs [r] = r"
| "seqs (r # rs) = Seq r (seqs rs)"

fun alts :: "rx list \<Rightarrow> rx" where
  "alts [] = Void"
| "alts [r] = r"
| "alts (r # rs) = Alt r (alts rs)"

definition lit :: "string \<Rightarrow> rx" where
  "lit s = seqs (map (\<lambda>c. chars (syms [c])) s)"

definition opt_of :: "rx \<Rightarrow> rx" where "opt_of r = Alt Eps r"
definition plus_of :: "rx \<Rightarrow> rx" where "plus_of r = Seq r (Star r)"
definition anything :: rx where "anything = Star (but [])"

text \<open>\<open>{n}\<close>, \<open>{n,}\<close> and \<open>{m,n}\<close>.\<close>

fun times_of :: "nat \<Rightarrow> rx \<Rightarrow> rx" where
  "times_of 0 r = Eps"
| "times_of (Suc n) r = Seq r (times_of n r)"

definition at_least :: "nat \<Rightarrow> rx \<Rightarrow> rx" where
  "at_least n r = Seq (times_of n r) (Star r)"

fun up_to :: "nat \<Rightarrow> rx \<Rightarrow> rx" where
  "up_to 0 r = Eps"
| "up_to (Suc n) r = Alt Eps (Seq r (up_to n r))"

definition between :: "nat \<Rightarrow> nat \<Rightarrow> rx \<Rightarrow> rx" where
  "between m n r = Seq (times_of m r) (up_to (n - m) r)"

section \<open>The test\<close>

definition in_class :: "code_class \<Rightarrow> nat \<Rightarrow> bool" where
  "in_class c x = list_ex (\<lambda>(a, b). a \<le> x \<and> x \<le> b) c"

fun nullable :: "rx \<Rightarrow> bool" where
  "nullable Void = False"
| "nullable Eps = True"
| "nullable (Class b c) = False"
| "nullable (Seq r s) = (nullable r \<and> nullable s)"
| "nullable (Alt r s) = (nullable r \<or> nullable s)"
| "nullable (Star r) = True"

text \<open>Constructors that drop what cannot match.\<close>

definition mk_seq :: "rx \<Rightarrow> rx \<Rightarrow> rx" where
  "mk_seq r s = (if r = Void then Void else if r = Eps then s else Seq r s)"

definition mk_alt :: "rx \<Rightarrow> rx \<Rightarrow> rx" where
  "mk_alt r s = (if r = Void then s else if s = Void then r else Alt r s)"

fun deriv :: "nat \<Rightarrow> rx \<Rightarrow> rx" where
  "deriv x Void = Void"
| "deriv x Eps = Void"
| "deriv x (Class b c) = (if in_class c x = b then Eps else Void)"
| "deriv x (Seq r s) =
     (if nullable r then mk_alt (mk_seq (deriv x r) s) (deriv x s) else mk_seq (deriv x r) s)"
| "deriv x (Alt r s) = mk_alt (deriv x r) (deriv x s)"
| "deriv x (Star r) = mk_seq (deriv x r) (Star r)"

definition rx_match :: "rx \<Rightarrow> nat list \<Rightarrow> bool" where
  "rx_match r w = nullable (fold deriv w r)"

definition codes :: "string \<Rightarrow> nat list" where
  "codes s = map of_char s"

definition matches :: "rx \<Rightarrow> string \<Rightarrow> bool" where
  "matches r s = rx_match r (codes s)"

section \<open>The expressions\<close>

definition VARIABLE_NAME_REGEX :: rx where
  "VARIABLE_NAME_REGEX =
     plus_of (chars (lower @ upper @ digits @ syms ''-'' @ [(8204, 8204), (8203, 8203)] @
     syms ''_''))"

definition LABEL_REGEX :: rx where
  "LABEL_REGEX =
     plus_of (chars (lower @ upper @ [(1072, 1103), (1040, 1071)] @ digits @ syms ''-'' @
     [(8204, 8204), (8203, 8203)] @ syms ''.$#_=''))"

definition VARIABLE_VALUE_REGEX :: rx where
  "VARIABLE_VALUE_REGEX =
     plus_of (chars (lower @ upper @ digits @ syms ''-'' @ [(8204, 8204), (8203, 8203)] @
     syms ''.?,'' @ [(39, 39)] @ syms ''/'' @ [(92, 92)] @ syms '';%$#_''))"

definition ENTITY_NAME_REGEX :: rx where
  "ENTITY_NAME_REGEX =
     at_least 3 (chars (digits @ lower @ syms ''-.''))"

definition USER_NAME_REGEX :: rx where
  "USER_NAME_REGEX =
     at_least 3 (chars (digits @ lower @ upper @ syms ''-._@''))"

definition FULL_NAME_REGEX :: rx where
  "FULL_NAME_REGEX =
     at_least 3 (but line_ends)"

definition PASSWORD_REGEX :: rx where
  "PASSWORD_REGEX =
     at_least 3 (but ([(32, 32)]))"

definition IP_REGEX :: rx where
  "IP_REGEX =
     seqs [times_of 3 (seqs [alts [chars digits, seqs [chars ([(49, 57)]), chars digits],
     seqs [lit ''1'', times_of 2 (chars digits)], seqs [lit ''2'', chars ([(48, 52)]), chars
     digits], seqs [lit ''25'', chars ([(48, 53)])]], but line_ends]), alts [chars digits,
     seqs [chars ([(49, 57)]), chars digits], seqs [lit ''1'', times_of 2 (chars digits)],
     seqs [lit ''2'', chars ([(48, 52)]), chars digits], seqs [lit ''25'', chars ([(48,
     53)])]]]"

definition HOST_NAME_REGEX :: rx where
  "HOST_NAME_REGEX =
     seqs [Star (seqs [alts [chars (lower @ upper @ digits), seqs [chars (lower @ upper @
     digits), Star (chars (lower @ upper @ digits @ syms ''-'')), chars (lower @ upper @
     digits)]], lit ''.'']), alts [chars (upper @ lower @ digits), seqs [chars (upper @
     lower @ digits), Star (chars (upper @ lower @ digits @ syms ''-'')), chars (upper @
     lower @ digits)]]]"

definition URL_REGEX :: rx where
  "URL_REGEX =
     seqs [anything, seqs [alts [lit ''ftp'', lit ''http'', lit ''https''], lit ''://'',
     opt_of (seqs [plus_of (chars word_class), opt_of (lit '':''), Star (chars word_class),
     lit ''@'']), plus_of (but space_class), opt_of (seqs [lit '':'', plus_of (chars
     digits)]), opt_of (alts [lit ''/'', seqs [lit ''/'', chars (word_class @ syms
     ''#!:.?+=&%@-/'')]])]]"

definition GIT_URL_REGEX :: rx where
  "GIT_URL_REGEX =
     seqs [anything, seqs [alts [alts [lit ''git'', lit ''ssh'', seqs [lit ''http'', opt_of
     (lit ''s'')]], seqs [lit ''git@'', plus_of (chars (word_class @ syms ''.''))]], seqs
     [lit '':'', opt_of (lit ''//'')], plus_of (chars (word_class @ syms ''.@:/-~'')), lit
     ''.git'', opt_of (lit ''/'')], anything]"

definition URL_WITHOUT_SCHEME_REGEX :: rx where
  "URL_WITHOUT_SCHEME_REGEX =
     seqs [opt_of (alts [lit ''http://www.'', lit ''https://www.'', lit ''http://'', lit
     ''https://'']), plus_of (chars (lower @ digits)), Star (seqs [chars (syms ''-.''),
     plus_of (chars (lower @ digits))]), lit ''.'', between 2 5 (chars lower), opt_of (seqs
     [lit '':'', between 1 5 (chars digits)]), opt_of (seqs [lit ''/'', Star (but
     line_ends)])]"

definition EMAIL_REGEX :: rx where
  "EMAIL_REGEX =
     seqs [alts [seqs [plus_of (but (syms ''<>()[]'' @ [(92, 92)] @ syms ''.,;:'' @
     space_class @ syms ''@'' @ [(34, 34)])), Star (seqs [lit ''.'', plus_of (but (syms
     ''<>()[]'' @ [(92, 92)] @ syms ''.,;:'' @ space_class @ syms ''@'' @ [(34, 34)]))])],
     seqs [chars ([(34, 34)]), plus_of (but line_ends), chars ([(34, 34)])]], lit ''@'',
     alts [seqs [lit ''['', between 1 3 (chars digits), lit ''.'', between 1 3 (chars
     digits), lit ''.'', between 1 3 (chars digits), lit ''.'', between 1 3 (chars digits),
     lit '']''], seqs [plus_of (seqs [plus_of (chars (lower @ upper @ syms ''-'' @ digits)),
     lit ''.'']), at_least 2 (chars (lower @ upper))]]]"

definition PORT_REGEX :: rx where
  "PORT_REGEX =
     alts [chars ([(49, 57)]), seqs [opt_of (chars ([(49, 53)])), between 2 4 (chars
     digits)], seqs [lit ''6'', chars ([(49, 52)]), times_of 3 (chars digits)], seqs [lit
     ''65'', chars ([(49, 52)]), times_of 2 (chars digits)], seqs [lit ''655'', chars ([(49,
     50)]), chars digits], seqs [lit ''6553'', chars ([(49, 53)])]]"

definition TIMEOUT_REGEX :: rx where
  "TIMEOUT_REGEX =
     seqs [chars ([(49, 57)]), Star (chars digits)]"

definition OPEN_SHIFT_LABEL_REGEX :: rx where
  "OPEN_SHIFT_LABEL_REGEX =
     plus_of (chars (lower @ digits @ syms ''-'' @ [(8204, 8204), (8203, 8203)] @ syms
     ''.$#_=''))"

definition DOCKER_IMAGE_REGEX :: rx where
  "DOCKER_IMAGE_REGEX =
     plus_of (chars (lower @ upper @ digits @ syms ''/:._-''))"

definition HOST_NAME_AND_IP_REGEX :: rx where
  "HOST_NAME_AND_IP_REGEX =
     alts [seqs [times_of 3 (seqs [alts [seqs [lit ''25'', chars ([(48, 53)])], seqs [lit
     ''2'', chars ([(48, 52)]), chars digits], seqs [opt_of (chars (syms ''01'')), chars
     digits, opt_of (chars digits)]], lit ''.'']), alts [seqs [lit ''25'', chars ([(48,
     53)])], seqs [lit ''2'', chars ([(48, 52)]), chars digits], seqs [opt_of (chars (syms
     ''01'')), chars digits, opt_of (chars digits)]]], seqs [plus_of (seqs [alts [chars
     (lower @ upper @ digits), seqs [chars (lower @ upper @ digits), Star (chars (lower @
     upper @ digits @ syms ''-'')), chars (lower @ upper @ digits)]], lit ''.'']), alts
     [chars (upper @ lower), seqs [chars (upper @ lower), Star (chars (upper @ lower @
     digits @ syms ''-'')), chars (upper @ lower @ digits)]]]]"

definition POSITIVE_NUMBER_REGEX :: rx where
  "POSITIVE_NUMBER_REGEX =
     seqs [plus_of (chars ([(49, 57)])), Star (chars digits)]"

definition PATH_REGEX :: rx where
  "PATH_REGEX =
     seqs [anything, seqs [lit ''/'', Star (but line_ends)], anything]"

text \<open>Built from the formats, which are alphanumeric; \<open>reduce\<close> throws on an empty list.\<close>

definition CONFIG_FILE_NAME_REGEX :: "string list \<Rightarrow> rx option" where
  "CONFIG_FILE_NAME_REGEX formats =
     (if formats = [] then None
      else Some (seqs [plus_of (chars (word_class @ syms ''-'')), lit ''.'', alts (map lit formats)]))"

section \<open>The meaning of an expression\<close>

inductive_set star_of :: "nat list set \<Rightarrow> nat list set" for A where
  star_empty: "[] \<in> star_of A"
| star_step: "u \<in> A \<Longrightarrow> v \<in> star_of A \<Longrightarrow> u @ v \<in> star_of A"

fun lang :: "rx \<Rightarrow> nat list set" where
  "lang Void = {}"
| "lang Eps = {[]}"
| "lang (Class b c) = {[x] |x. in_class c x = b}"
| "lang (Seq r s) = {u @ v |u v. u \<in> lang r \<and> v \<in> lang s}"
| "lang (Alt r s) = lang r \<union> lang s"
| "lang (Star r) = star_of (lang r)"

lemma nullable_lang: "nullable r \<longleftrightarrow> [] \<in> lang r"
  by (induction r) (auto intro: star_empty)

lemma lang_mk [simp]:
  "lang (mk_seq r s) = lang (Seq r s)" "lang (mk_alt r s) = lang (Alt r s)"
  by (auto simp: mk_seq_def mk_alt_def)

lemma star_of_cons:
  "x # w \<in> star_of A \<longleftrightarrow> (\<exists>u v. w = u @ v \<and> x # u \<in> A \<and> v \<in> star_of A)"
proof
  assume "x # w \<in> star_of A"
  then show "\<exists>u v. w = u @ v \<and> x # u \<in> A \<and> v \<in> star_of A"
  proof (induction "x # w" arbitrary: w rule: star_of.induct)
    case (star_step u v)
    then show ?case by (cases u) auto
  qed
next
  assume "\<exists>u v. w = u @ v \<and> x # u \<in> A \<and> v \<in> star_of A"
  then show "x # w \<in> star_of A" using star_of.star_step [of "x # _" A] by fastforce
qed

lemma lang_deriv: "w \<in> lang (deriv x r) \<longleftrightarrow> x # w \<in> lang r"
proof (induction r arbitrary: w)
  case (Seq r s)
  show ?case
    by (auto simp: Seq nullable_lang append_eq_Cons_conv Cons_eq_append_conv) 
next
  case (Star r)
  then show ?case by (auto simp: star_of_cons)
qed (auto split: if_splits)

lemma rx_match_lang: "rx_match r w \<longleftrightarrow> w \<in> lang r"
  by (induction w arbitrary: r) (simp_all add: rx_match_def nullable_lang lang_deriv)

text \<open>Membership computed from the front of the text.\<close>

lemma lang_front:
  "[] \<in> lang Eps"
  "[] \<in> lang (Seq r s) \<longleftrightarrow> [] \<in> lang r \<and> [] \<in> lang s"
  "[] \<in> lang (Class b c) \<longleftrightarrow> False"
  "x # w \<in> lang Eps \<longleftrightarrow> False"
  "x # w \<in> lang (Class b c) \<longleftrightarrow> in_class c x = b \<and> w = []"
  "w \<in> lang (Alt r s) \<longleftrightarrow> w \<in> lang r \<or> w \<in> lang s"
  "x # w \<in> lang (Seq (Class b c) s) \<longleftrightarrow> in_class c x = b \<and> w \<in> lang s"
  "w \<in> lang (Seq Eps s) \<longleftrightarrow> w \<in> lang s"
  "w \<in> lang (Seq (Alt r1 r2) s) \<longleftrightarrow> w \<in> lang (Seq r1 s) \<or> w \<in> lang (Seq r2 s)"
  "w \<in> lang (Seq (Seq r1 r2) s) \<longleftrightarrow> w \<in> lang (Seq r1 (Seq r2 s))"
proof -
  show "w \<in> lang (Seq (Seq r1 r2) s) \<longleftrightarrow> w \<in> lang (Seq r1 (Seq r2 s))"
    by (simp, metis append.assoc)
  show "x # w \<in> lang (Seq (Class b c) s) \<longleftrightarrow> in_class c x = b \<and> w \<in> lang s"
  proof
    assume "in_class c x = b \<and> w \<in> lang s"
    then have "x # w = [x] @ w \<and> [x] \<in> lang (Class b c) \<and> w \<in> lang s" by simp
    then show "x # w \<in> lang (Seq (Class b c) s)" unfolding lang.simps(4) by blast
  qed auto
qed auto

lemma star_of_class: "w \<in> star_of {[x] |x. P x} \<longleftrightarrow> list_all P w"
proof
  assume "w \<in> star_of {[x] |x. P x}"
  then show "list_all P w" by induction auto
next
  assume "list_all P w"
  then show "w \<in> star_of {[x] |x. P x}"
  proof (induction w)
    case Nil
    show ?case by (rule star_empty)
  next
    case (Cons x w)
    then show ?case using star_step [of "[x]" "{[x] |x. P x}" w] by simp
  qed
qed

lemma lang_times_of_class:
  "w \<in> lang (times_of n (Class b c)) \<longleftrightarrow> length w = n \<and> list_all (\<lambda>x. in_class c x = b) w"
proof (induction n arbitrary: w)
  case (Suc n)
  then show ?case by (cases w) (auto simp: lang_front simp del: lang.simps)
qed auto

lemma lang_plus_of_class:
  "w \<in> lang (plus_of (Class b c)) \<longleftrightarrow> w \<noteq> [] \<and> list_all (\<lambda>x. in_class c x = b) w"
  by (cases w) (simp_all add: plus_of_def lang_front star_of_class del: lang.simps(4))

lemma lang_at_least_class:
  "w \<in> lang (at_least n (Class b c)) \<longleftrightarrow> n \<le> length w \<and> list_all (\<lambda>x. in_class c x = b) w"
proof -
  have "w \<in> lang (at_least n (Class b c)) \<longleftrightarrow>
    (\<exists>u v. w = u @ v \<and> length u = n \<and> list_all (\<lambda>x. in_class c x = b) u \<and>
       list_all (\<lambda>x. in_class c x = b) v)"
    by (auto simp: at_least_def lang_times_of_class star_of_class)
  also have "\<dots> \<longleftrightarrow> n \<le> length w \<and> list_all (\<lambda>x. in_class c x = b) w"
  proof
    assume "n \<le> length w \<and> list_all (\<lambda>x. in_class c x = b) w"
    then have "w = take n w @ drop n w \<and> length (take n w) = n \<and>
        list_all (\<lambda>x. in_class c x = b) (take n w) \<and> list_all (\<lambda>x. in_class c x = b) (drop n w)"
      by (auto simp: list_all_iff dest: in_set_takeD in_set_dropD)
    then show "\<exists>u v. w = u @ v \<and> length u = n \<and> list_all (\<lambda>x. in_class c x = b) u \<and>
       list_all (\<lambda>x. in_class c x = b) v" by blast
  qed auto
  finally show ?thesis .
qed

lemma in_class_simps [simp]:
  "in_class [] x \<longleftrightarrow> False"
  "in_class ((a, b) # c) x \<longleftrightarrow> a \<le> x \<and> x \<le> b \<or> in_class c x"
  "in_class (c @ d) x \<longleftrightarrow> in_class c x \<or> in_class d x"
  by (auto simp: in_class_def)

lemma in_class_syms: "in_class (syms s) x \<longleftrightarrow> x \<in> of_char ` set s"
  by (induction s) (auto simp: syms_def)

lemmas class_defs = chars_def but_def digits_def lower_def upper_def word_class_def line_ends_def

section \<open>Properties\<close>

text \<open>The value of a text of digits, given by its code units.\<close>

definition decimal :: "nat list \<Rightarrow> nat" where
  "decimal w = foldl (\<lambda>n x. 10 * n + (x - 48)) 0 w"

definition is_digit :: "nat \<Rightarrow> bool" where
  "is_digit x \<longleftrightarrow> 48 \<le> x \<and> x \<le> 57"

text \<open>The valid ports the expression misses.\<close>

definition missed_port :: "nat \<Rightarrow> bool" where
  "missed_port n \<longleftrightarrow> 60000 \<le> n \<and> n \<le> 60999 \<or> 65000 \<le> n \<and> n \<le> 65099 \<or>
     65500 \<le> n \<and> n \<le> 65509 \<or> n = 65530"

lemma missed_port_digits:
  fixes a b c d e n :: nat
  assumes "a \<le> 9" "b \<le> 9" "c \<le> 9" "d \<le> 9" "e \<le> 9"
    and "n = 10000 * a + 1000 * b + 100 * c + 10 * d + e"
  shows "(1 \<le> a \<and> a \<le> 5 \<or> a = 6 \<and> 1 \<le> b \<and> b \<le> 4 \<or> a = 6 \<and> b = 5 \<and> 1 \<le> c \<and> c \<le> 4 \<or>
    a = 6 \<and> b = 5 \<and> c = 5 \<and> 1 \<le> d \<and> d \<le> 2 \<or>
    a = 6 \<and> b = 5 \<and> c = 5 \<and> d = 3 \<and> 1 \<le> e \<and> e \<le> 5) \<longleftrightarrow>
   10000 \<le> n \<and> n \<le> 65535 \<and> \<not> missed_port n"
proof -
  consider "a = 0" | "1 \<le> a \<and> a \<le> 5" | "a = 6" "b = 0" | "a = 6" "1 \<le> b \<and> b \<le> 4"
    | "a = 6" "b = 5" "c = 0" | "a = 6" "b = 5" "1 \<le> c \<and> c \<le> 4" | "a = 6" "b = 5" "c = 5" "d = 0"
    | "a = 6" "b = 5" "c = 5" "1 \<le> d \<and> d \<le> 2" | "a = 6" "b = 5" "c = 5" "d = 3"
    | "a = 6" "b = 5" "c = 5" "4 \<le> d" | "a = 6" "b = 5" "6 \<le> c" | "a = 6" "6 \<le> b" | "7 \<le> a"
    by atomize_elim arith
  then show ?thesis
    by cases (use assms in \<open>auto simp: missed_port_def\<close>)
qed
lemma port_counts:
  "between 2 4 r = Seq (Seq r (Seq r Eps)) (Alt Eps (Seq r (Alt Eps (Seq r Eps))))"
  "times_of 2 r = Seq r (Seq r Eps)" "times_of 3 r = Seq r (Seq r (Seq r Eps))"
  by (simp_all add: between_def numeral_eq_Suc)

lemmas port_simps = PORT_REGEX_def opt_of_def lit_def class_defs lang_front in_class_syms is_digit_def
  port_counts

lemma port_five:
  assumes "is_digit a" "is_digit b" "is_digit c" "is_digit d" "is_digit e"
  shows "[a, b, c, d, e] \<in> lang PORT_REGEX \<longleftrightarrow>
    10000 \<le> decimal [a, b, c, d, e] \<and> decimal [a, b, c, d, e] \<le> 65535 \<and>
    \<not> missed_port (decimal [a, b, c, d, e])"
proof -
  from assms obtain a' b' c' d' e' where codes: "a = 48 + a'" "b = 48 + b'" "c = 48 + c'"
      "d = 48 + d'" "e = 48 + e'"
    by (auto simp: is_digit_def dest!: le_Suc_ex)
  with assms have le: "a' \<le> 9" "b' \<le> 9" "c' \<le> 9" "d' \<le> 9" "e' \<le> 9" by (auto simp: is_digit_def)
  have "[a, b, c, d, e] \<in> lang PORT_REGEX \<longleftrightarrow>
    1 \<le> a' \<and> a' \<le> 5 \<or> a' = 6 \<and> 1 \<le> b' \<and> b' \<le> 4 \<or> a' = 6 \<and> b' = 5 \<and> 1 \<le> c' \<and> c' \<le> 4 \<or>
    a' = 6 \<and> b' = 5 \<and> c' = 5 \<and> 1 \<le> d' \<and> d' \<le> 2 \<or>
    a' = 6 \<and> b' = 5 \<and> c' = 5 \<and> d' = 3 \<and> 1 \<le> e' \<and> e' \<le> 5"
    using le by (simp add: codes port_simps del: lang.simps)
  also have "\<dots> \<longleftrightarrow> 10000 \<le> decimal [a, b, c, d, e] \<and> decimal [a, b, c, d, e] \<le> 65535 \<and>
    \<not> missed_port (decimal [a, b, c, d, e])"
    by (rule missed_port_digits [OF le]) (simp add: decimal_def codes)
  finally show ?thesis .
qed

lemma port_one: "is_digit a \<Longrightarrow> [a] \<in> lang PORT_REGEX \<longleftrightarrow> 1 \<le> decimal [a]"
  by (simp add: port_simps decimal_def del: lang.simps) auto

lemma port_two_to_four:
  assumes "list_all is_digit w" and "2 \<le> length w" and "length w \<le> 4"
  shows "w \<in> lang PORT_REGEX"
proof -
  from assms(2,3) have "length w = 2 \<or> length w = 3 \<or> length w = 4" by arith
  then have "(\<exists>a b. w = [a, b]) \<or> (\<exists>a b c. w = [a, b, c]) \<or> (\<exists>a b c d. w = [a, b, c, d])"
    by (simp add: numeral_eq_Suc length_Suc_conv) blast
  moreover have "is_digit a \<Longrightarrow> is_digit b \<Longrightarrow> [a, b] \<in> lang PORT_REGEX" for a b
    by (simp add: port_simps del: lang.simps)
  moreover have "is_digit a \<Longrightarrow> is_digit b \<Longrightarrow> is_digit c \<Longrightarrow> [a, b, c] \<in> lang PORT_REGEX" for a b c
    by (simp add: port_simps del: lang.simps)
  moreover have "is_digit a \<Longrightarrow> is_digit b \<Longrightarrow> is_digit c \<Longrightarrow> is_digit d \<Longrightarrow>
      [a, b, c, d] \<in> lang PORT_REGEX" for a b c d
    by (simp add: port_simps del: lang.simps)
  ultimately show ?thesis using assms(1) by auto
qed

lemma port_long: "a # b # c # d # e # f # w \<notin> lang PORT_REGEX"
  by (simp add: port_simps del: lang.simps)

text \<open>
  The port expression on texts of digits. It accepts 1 to 9, every text of two to four digits, leading
  zeros and zero itself included (\<open>00\<close>), and no text longer than five digits; of the five-digit numbers it
  accepts those up to 65535 \<^emph>\<open>except\<close> 60000 to 60999, 65000 to 65099, 65500 to 65509 and 65530, which are
  valid ports that no port field can hold.
\<close>

theorem port_regex_correct:
  assumes "list_all is_digit w"
  shows "rx_match PORT_REGEX w \<longleftrightarrow>
    (if length w \<le> 1 then 1 \<le> decimal w
     else if length w \<le> 4 then True
     else length w = 5 \<and> 10000 \<le> decimal w \<and> decimal w \<le> 65535 \<and> \<not> missed_port (decimal w))"
proof -
  have "6 \<le> length w \<Longrightarrow> \<exists>a b c d e f v. w = a # b # c # d # e # f # v"
    by (simp add: numeral_eq_Suc Suc_le_length_iff) blast
  moreover have "length w = 5 \<Longrightarrow> \<exists>a b c d e. w = [a, b, c, d, e]"
    by (simp add: numeral_eq_Suc length_Suc_conv) blast
  moreover have "length w = 1 \<Longrightarrow> \<exists>a. w = [a]" by (simp add: length_Suc_conv)
  moreover have "length w = 0 \<or> length w = 1 \<or> 2 \<le> length w \<and> length w \<le> 4 \<or> length w = 5 \<or>
      6 \<le> length w"
    by arith
  ultimately consider "w = []" | a where "w = [a]" | "2 \<le> length w" "length w \<le> 4"
    | a b c d e where "w = [a, b, c, d, e]" | a b c d e f v where "w = a # b # c # d # e # f # v"
    by (metis length_0_conv)
  then show ?thesis
  proof cases
    case 1
    then show ?thesis by (simp add: rx_match_lang port_simps decimal_def del: lang.simps)
  next
    case 2
    with assms show ?thesis by (simp add: rx_match_lang port_one)
  next
    case 3
    with assms port_two_to_four show ?thesis by (simp add: rx_match_lang)
  next
    case 4
    with assms show ?thesis by (simp add: rx_match_lang port_five)
  next
    case 5
    then show ?thesis by (simp add: rx_match_lang port_long)
  qed
qed

theorem port_regex_correct_witness:
  "\<not> matches PORT_REGEX ''65530'' \<and> matches PORT_REGEX ''65531'' \<and> matches PORT_REGEX ''00''"
proof -
  have "list_all is_digit (codes ''65530'')" "list_all is_digit (codes ''65531'')"
    "list_all is_digit (codes ''00'')"
    by (simp_all add: codes_def is_digit_def)
  from this [THEN port_regex_correct] show ?thesis
    by (simp add: matches_def codes_def decimal_def missed_port_def)
qed

text \<open>
  The name and number expressions mean what their fields say: an entity name is at least three of
  \<open>0-9\<close>, \<open>a-z\<close>, \<open>-\<close> and \<open>.\<close>; a password at least three characters without a space; a docker image a
  non-empty text of letters, digits and \<open>/:._-\<close>; and the two expressions for positive numbers, written
  differently, accept the same texts, the digits without a leading zero. The dots of the IP expression lost
  their backslash, so that any character but a line end separates its numbers.
\<close>

theorem name_regexes_correct:
  "(rx_match ENTITY_NAME_REGEX w \<longleftrightarrow>
      3 \<le> length w \<and> list_all (\<lambda>x. is_digit x \<or> 97 \<le> x \<and> x \<le> 122 \<or> x \<in> {45, 46}) w) \<and>
   (rx_match PASSWORD_REGEX w \<longleftrightarrow> 3 \<le> length w \<and> 32 \<notin> set w) \<and>
   (rx_match TIMEOUT_REGEX w = rx_match POSITIVE_NUMBER_REGEX w) \<and>
   (rx_match TIMEOUT_REGEX w \<longleftrightarrow>
      w \<noteq> [] \<and> 49 \<le> hd w \<and> hd w \<le> 57 \<and> list_all is_digit w) \<and>
   matches IP_REGEX ''1x2x3x4''"
proof (intro conjI)
  show "rx_match ENTITY_NAME_REGEX w \<longleftrightarrow>
      3 \<le> length w \<and> list_all (\<lambda>x. is_digit x \<or> 97 \<le> x \<and> x \<le> 122 \<or> x \<in> {45, 46}) w"
    by (simp add: rx_match_lang ENTITY_NAME_REGEX_def class_defs lang_at_least_class in_class_syms
        is_digit_def disj_assoc)
  show "rx_match PASSWORD_REGEX w \<longleftrightarrow> 3 \<le> length w \<and> 32 \<notin> set w"
    by (auto simp: rx_match_lang PASSWORD_REGEX_def class_defs lang_at_least_class list_all_iff
        order_antisym_conv)
  have t: "rx_match TIMEOUT_REGEX w \<longleftrightarrow> w \<noteq> [] \<and> 49 \<le> hd w \<and> hd w \<le> 57 \<and> list_all is_digit w" for w
    by (cases w) (auto simp: rx_match_lang TIMEOUT_REGEX_def class_defs lang_front star_of_class
        is_digit_def [abs_def] simp del: lang.simps(4))
  then show "rx_match TIMEOUT_REGEX w \<longleftrightarrow> w \<noteq> [] \<and> 49 \<le> hd w \<and> hd w \<le> 57 \<and> list_all is_digit w" .
  have "rx_match POSITIVE_NUMBER_REGEX w \<longleftrightarrow>
      (\<exists>u v. w = u @ v \<and> u \<noteq> [] \<and> list_all (\<lambda>x. 49 \<le> x \<and> x \<le> 57) u \<and> list_all is_digit v)"
    by (simp add: rx_match_lang POSITIVE_NUMBER_REGEX_def class_defs lang_plus_of_class star_of_class
        is_digit_def [abs_def])
  also have "\<dots> \<longleftrightarrow> w \<noteq> [] \<and> 49 \<le> hd w \<and> hd w \<le> 57 \<and> list_all is_digit w"
  proof
    assume r: "w \<noteq> [] \<and> 49 \<le> hd w \<and> hd w \<le> 57 \<and> list_all is_digit w"
    then have "w = [hd w] @ tl w \<and> [hd w] \<noteq> [] \<and> list_all (\<lambda>x. 49 \<le> x \<and> x \<le> 57) [hd w] \<and>
        list_all is_digit (tl w)"
      by (cases w) auto
    then show "\<exists>u v. w = u @ v \<and> u \<noteq> [] \<and> list_all (\<lambda>x. 49 \<le> x \<and> x \<le> 57) u \<and> list_all is_digit v"
      by blast
  next
    assume "\<exists>u v. w = u @ v \<and> u \<noteq> [] \<and> list_all (\<lambda>x. 49 \<le> x \<and> x \<le> 57) u \<and> list_all is_digit v"
    then obtain u v where "w = u @ v" "u \<noteq> []" "list_all (\<lambda>x. 49 \<le> x \<and> x \<le> 57) u" "list_all is_digit v"
      by blast
    then show "w \<noteq> [] \<and> 49 \<le> hd w \<and> hd w \<le> 57 \<and> list_all is_digit w"
      by (cases u) (auto simp: list_all_iff is_digit_def)
  qed
  finally show "rx_match TIMEOUT_REGEX w = rx_match POSITIVE_NUMBER_REGEX w" using t [of w] by simp
  show "matches IP_REGEX ''1x2x3x4''" by code_simp
qed

end
