(* ===== verification/Validators.thy ===== *)
theory Validators
  imports Regexps Samples Extensions
begin

text \<open>
  The validators of the forms, \<open>validator/AssemblyConfigurationValidator.ts\<close> and
  \<open>validator/ModuleConfigurationValidator.ts\<close>, with the early returns of the code, and what they promise: the
  conditions a configuration that passes satisfies, and that nothing else is asked.
\<close>

section \<open>Assembly configurations\<close>

definition docker_archive_ok :: "artifact_archive_configuration \<Rightarrow> bool" where
  "docker_archive_ok archive =
     (case archive_docker_configuration archive of
        None \<Rightarrow> False
      | Some docker \<Rightarrow>
          (if docker_image docker = [] \<or> \<not> matches DOCKER_IMAGE_REGEX (docker_image docker) \<or>
              docker_container_technology docker = [] then False
           else if list_ex (\<lambda>path. path = []) (case_option [] (\<lambda>ps. ps) (docker_source_paths docker))
           then False
           else True))"

fun validate_archives :: "artifact_archive_configuration list \<Rightarrow> bool" where
  "validate_archives [] = True"
| "validate_archives (archive # archives) =
     (if \<not> truthy_string (archive_archive_technology archive) then False
      else if archive_archive_technology archive = Some DOCKER then
        if \<not> docker_archive_ok archive then False else validate_archives archives
      else False)"

definition gradle_artifact_ok :: "artifact_configuration \<Rightarrow> bool" where
  "gradle_artifact_ok a =
     (case artifact_configuration_gradle_configuration a of
        None \<Rightarrow> False
      | Some g \<Rightarrow> truthy_string (gradle_artifact_arguments g))"

fun validate_artifacts :: "string option \<Rightarrow> artifact_configuration list \<Rightarrow> bool" where
  "validate_artifacts technology [] = True"
| "validate_artifacts technology (a # rest) =
     (if artifact_configuration_name a = [] \<or> artifact_configuration_artifact a = None \<or>
         is_empty_array (Some (artifact_configuration_archives a)) then False
      else if \<not> validate_archives (artifact_configuration_archives a) then False
      else if technology = Some GRADLE then
        if \<not> gradle_artifact_ok a then False else validate_artifacts technology rest
      else False)"

definition gradle_properties_ok :: "gradle_assembly_configuration \<Rightarrow> bool" where
  "gradle_properties_ok g =
     (case gradle_properties g of
        None \<Rightarrow> True
      | Some properties \<Rightarrow>
          (if is_not_empty_array (Some properties) then
             \<not> (list_ex (\<lambda>property. prop_name property = []) properties \<or>
                has_duplicates prop_name properties)
           else True))"

definition validate_assembly_configuration :: "assembly_configuration \<Rightarrow> bool" where
  "validate_assembly_configuration c =
     (if assembly_configuration_default_resource_id c = None \<or>
         \<not> truthy_string (assembly_configuration_technology c) \<or>
         is_empty_array (assembly_configuration_artifact_configurations c) then False
      else if assembly_configuration_technology c = Some GRADLE then
        (case assembly_configuration_gradle_configuration c of
           None \<Rightarrow> False
         | Some g \<Rightarrow>
             if \<not> gradle_properties_ok g then False
             else validate_artifacts (assembly_configuration_technology c)
                    (case_option [] (\<lambda>xs. xs) (assembly_configuration_artifact_configurations c)))
      else False)"

section \<open>Module configurations\<close>

definition configuration_file_ok :: "rx option \<Rightarrow> string_file \<Rightarrow> bool" where
  "configuration_file_ok regexp f \<longleftrightarrow>
     string_file_name f \<noteq> [] \<and> (case regexp of None \<Rightarrow> False | Some r \<Rightarrow> matches r (string_file_name f)) \<and>
     string_file_content f \<noteq> []"

definition module_name_ok :: "string \<Rightarrow> int \<Rightarrow> module_information list \<Rightarrow> bool" where
  "module_name_ok name project modules \<longleftrightarrow>
     name \<noteq> [] \<and> matches ENTITY_NAME_REGEX name \<and> int (length name) < MAX_MODULE_NAME_SIZE \<and>
     \<not> list_ex (\<lambda>m. mod_name m = name \<and> mod_project_id m = project) modules"

definition module_ports_ok :: "module_configuration_draft \<Rightarrow> bool" where
  "module_ports_ok c \<longleftrightarrow>
     \<not> truthy_bool (draft_has_ports c) \<or>
     is_not_empty_array (draft_ports c) \<and>
     list_all (\<lambda>port. port \<noteq> 0) (the (draft_ports c)) \<and> \<not> has_duplicates (\<lambda>port. port) (the (draft_ports c))"

definition module_url_ok :: "module_configuration_draft \<Rightarrow> bool" where
  "module_url_ok c \<longleftrightarrow>
     \<not> truthy_bool (draft_has_url c) \<or>
     (case draft_url c of
        None \<Rightarrow> False
      | Some u \<Rightarrow>
          truthy_number (url_port u) \<and>
          (case url_url u of None \<Rightarrow> False | Some s \<Rightarrow> matches URL_REGEX s))"

definition module_files_ok :: "module_configuration_draft \<Rightarrow> bool" where
  "module_files_ok c \<longleftrightarrow>
     \<not> truthy_bool (draft_has_string_configurations c) \<or>
     (is_not_empty_array (draft_manual_configurations c) \<and>
      list_all (configuration_file_ok (CONFIG_FILE_NAME_REGEX CONFIGURATION_FILE_FORMATS))
        (the (draft_manual_configurations c)) \<and>
      \<not> has_duplicates (\<lambda>name. name) (map string_file_name (the (draft_manual_configurations c)))) \<or>
     is_not_empty_array (draft_prepared_configurations c)"

definition validate_module_configuration ::
  "module_configuration_draft \<Rightarrow> int \<Rightarrow> module_information list \<Rightarrow> bool" where
  "validate_module_configuration c project modules \<longleftrightarrow>
     (let name_valid = module_name_ok (create_module_name (draft_name c) (draft_artifact c)) project modules;
          parameters_valid = (\<not> truthy_bool (draft_has_parameters c) \<or> truthy_string (draft_parameters c));
          ports_valid = module_ports_ok c;
          url_valid = module_url_ok c;
          configuration_files_valid = module_files_ok c
      in name_valid \<and> parameters_valid \<and> ports_valid \<and> url_valid \<and> configuration_files_valid)"

section \<open>Properties\<close>

lemma has_duplicates_distinct: "has_duplicates f xs \<longleftrightarrow> \<not> distinct (map f xs)"
  using length_set_of_array_eq [of "map f xs"] by (simp add: has_duplicates_def)

lemma validate_archives_all:
  "validate_archives archives \<longleftrightarrow>
     list_all (\<lambda>a. archive_archive_technology a = Some DOCKER \<and> docker_archive_ok a) archives"
  by (induction archives) (auto simp: truthy_string_def DOCKER_def)

lemma validate_artifacts_all:
  "validate_artifacts (Some GRADLE) artifacts \<longleftrightarrow>
     list_all (\<lambda>a. artifact_configuration_name a \<noteq> [] \<and> artifact_configuration_artifact a \<noteq> None \<and>
       artifact_configuration_archives a \<noteq> [] \<and> validate_archives (artifact_configuration_archives a) \<and>
       gradle_artifact_ok a) artifacts"
  by (induction artifacts) (auto simp: is_empty_array_def)

text \<open>
  C18. An assembly configuration is valid exactly when a default resource is selected, it is a Gradle
  configuration whose properties have distinct, non-empty names, and it has at least one artifact, and every artifact is named, selected,
  has Gradle arguments and at least one archive, each of them a Docker archive with a container, no empty
  source path and an image of letters, digits and \<open>/:._-\<close>.
\<close>

theorem validate_assembly_configuration_correct:
  "validate_assembly_configuration c \<longleftrightarrow>
     assembly_configuration_default_resource_id c \<noteq> None \<and>
     assembly_configuration_technology c = Some GRADLE \<and>
     (\<exists>g. assembly_configuration_gradle_configuration c = Some g \<and>
        (\<forall>ps. gradle_properties g = Some ps \<longrightarrow>
           [] \<notin> set (map prop_name ps) \<and> distinct (map prop_name ps))) \<and>
     (\<exists>artifacts. assembly_configuration_artifact_configurations c = Some artifacts \<and> artifacts \<noteq> [] \<and>
        (\<forall>a\<in>set artifacts.
           artifact_configuration_name a \<noteq> [] \<and> artifact_configuration_artifact a \<noteq> None \<and>
           gradle_artifact_ok a \<and> artifact_configuration_archives a \<noteq> [] \<and>
           (\<forall>archive\<in>set (artifact_configuration_archives a).
              archive_archive_technology archive = Some DOCKER \<and>
              (\<exists>d. archive_docker_configuration archive = Some d \<and> docker_image d \<noteq> [] \<and>
                 list_all (\<lambda>x. is_digit x \<or> 97 \<le> x \<and> x \<le> 122 \<or> 65 \<le> x \<and> x \<le> 90 \<or>
                   x \<in> {45, 46, 47, 58, 95}) (codes (docker_image d)) \<and>
                 docker_container_technology d \<noteq> [] \<and>
                 (\<forall>paths. docker_source_paths d = Some paths \<longrightarrow> [] \<notin> set paths)))))"
proof -
  have image: "matches DOCKER_IMAGE_REGEX s \<longleftrightarrow> codes s \<noteq> [] \<and>
      list_all (\<lambda>x. is_digit x \<or> 97 \<le> x \<and> x \<le> 122 \<or> 65 \<le> x \<and> x \<le> 90 \<or>
        x \<in> {45, 46, 47, 58, 95}) (codes s)" for s
    unfolding matches_def rx_match_lang DOCKER_IMAGE_REGEX_def chars_def lang_plus_of_class
    by (auto simp: list_all_iff digits_def lower_def upper_def in_class_syms is_digit_def)
  have empty: "codes s = [] \<longleftrightarrow> s = []" for s by (simp add: codes_def)
  have docker: "docker_archive_ok a \<longleftrightarrow> (\<exists>d. archive_docker_configuration a = Some d \<and> docker_image d \<noteq> [] \<and>
      list_all (\<lambda>x. is_digit x \<or> 97 \<le> x \<and> x \<le> 122 \<or> 65 \<le> x \<and> x \<le> 90 \<or>
        x \<in> {45, 46, 47, 58, 95}) (codes (docker_image d)) \<and>
      docker_container_technology d \<noteq> [] \<and>
      (\<forall>paths. docker_source_paths d = Some paths \<longrightarrow> [] \<notin> set paths))" for a
    by (auto simp: docker_archive_ok_def image empty list_ex_iff split: option.splits)
  have properties: "gradle_properties_ok g \<longleftrightarrow> (\<forall>ps. gradle_properties g = Some ps \<longrightarrow>
      [] \<notin> set (map prop_name ps) \<and> distinct (map prop_name ps))" for g
    by (auto simp: gradle_properties_ok_def has_duplicates_distinct list_ex_iff is_not_empty_array_def image_iff
        split: option.splits)
  have "GRADLE \<noteq> []" by (simp add: GRADLE_def)
  then show ?thesis
    by (auto simp: validate_assembly_configuration_def validate_artifacts_all validate_archives_all
        list_all_iff docker properties is_empty_array_def truthy_string_def
        split: option.splits)
qed

theorem validate_assembly_configuration_correct_witness:
  "validate_assembly_configuration sample_assembly_configuration"
  by (subst validate_assembly_configuration_correct)
    (simp add: sample_assembly_configuration_def gradle_artifact_ok_def truthy_string_def codes_def
      is_digit_def NGINX_def)

text \<open>
  C17. A module configuration is valid for a project exactly when its name (given or made from the artifact)
  has 3 to 62 characters among \<open>0-9\<close>, \<open>a-z\<close>, \<open>-\<close> and \<open>.\<close> and no module of the project has it, and every
  part switched on is filled in: parameters not empty, ports distinct and not zero, a URL with a port, and
  configuration files with distinct names of a known format and a content, unless prepared configurations
  take their place.
\<close>

theorem validate_module_configuration_correct:
  "validate_module_configuration c project modules \<longleftrightarrow>
     (let name = create_module_name (draft_name c) (draft_artifact c) in
      3 \<le> length name \<and> length name \<le> 62 \<and>
      list_all (\<lambda>x. is_digit x \<or> 97 \<le> x \<and> x \<le> 122 \<or> x \<in> {45, 46}) (codes name) \<and>
      (project, name) \<notin> (\<lambda>m. (mod_project_id m, mod_name m)) ` set modules) \<and>
     (draft_has_parameters c = Some True \<longrightarrow> (\<exists>p. draft_parameters c = Some p \<and> p \<noteq> [])) \<and>
     (draft_has_ports c = Some True \<longrightarrow>
        (\<exists>ps. draft_ports c = Some ps \<and> ps \<noteq> [] \<and> 0 \<notin> set ps \<and> distinct ps)) \<and>
     (draft_has_url c = Some True \<longrightarrow>
        (\<exists>u port s. draft_url c = Some u \<and> url_port u = Some port \<and> port \<noteq> 0 \<and> url_url u = Some s \<and>
           matches URL_REGEX s)) \<and>
     (draft_has_string_configurations c = Some True \<longrightarrow>
        (\<exists>fs. draft_manual_configurations c = Some fs \<and> fs \<noteq> [] \<and> distinct (map string_file_name fs) \<and>
           list_all (configuration_file_ok (CONFIG_FILE_NAME_REGEX CONFIGURATION_FILE_FORMATS)) fs) \<or>
        (\<exists>ps. draft_prepared_configurations c = Some ps \<and> ps \<noteq> []))"
proof -
  have name: "matches ENTITY_NAME_REGEX s \<longleftrightarrow> 3 \<le> length s \<and>
      list_all (\<lambda>x. is_digit x \<or> 97 \<le> x \<and> x \<le> 122 \<or> x \<in> {45, 46}) (codes s)" for s
    unfolding matches_def rx_match_lang ENTITY_NAME_REGEX_def chars_def lang_at_least_class
    by (auto simp: list_all_iff digits_def lower_def in_class_syms is_digit_def codes_def)
  have name_ok: "module_name_ok s project modules \<longleftrightarrow> 3 \<le> length s \<and> length s \<le> 62 \<and>
      list_all (\<lambda>x. is_digit x \<or> 97 \<le> x \<and> x \<le> 122 \<or> x \<in> {45, 46}) (codes s) \<and>
      (project, s) \<notin> (\<lambda>m. (mod_project_id m, mod_name m)) ` set modules" for s
    by (auto simp: module_name_ok_def name MAX_MODULE_NAME_SIZE_def list_ex_iff)
  have ports: "module_ports_ok c \<longleftrightarrow> (draft_has_ports c = Some True \<longrightarrow>
      (\<exists>ps. draft_ports c = Some ps \<and> ps \<noteq> [] \<and> 0 \<notin> set ps \<and> distinct ps))"
    by (auto simp: module_ports_ok_def truthy_bool_def is_not_empty_array_def has_duplicates_distinct
        list_all_iff split: option.splits)
  have url: "module_url_ok c \<longleftrightarrow> (draft_has_url c = Some True \<longrightarrow>
      (\<exists>u port s. draft_url c = Some u \<and> url_port u = Some port \<and> port \<noteq> 0 \<and> url_url u = Some s \<and>
         matches URL_REGEX s))"
    by (auto simp: module_url_ok_def truthy_bool_def truthy_number_def split: option.splits)
  have files: "module_files_ok c \<longleftrightarrow> (draft_has_string_configurations c = Some True \<longrightarrow>
      (\<exists>fs. draft_manual_configurations c = Some fs \<and> fs \<noteq> [] \<and> distinct (map string_file_name fs) \<and>
         list_all (configuration_file_ok (CONFIG_FILE_NAME_REGEX CONFIGURATION_FILE_FORMATS)) fs) \<or>
      (\<exists>ps. draft_prepared_configurations c = Some ps \<and> ps \<noteq> []))"
    by (auto simp: module_files_ok_def truthy_bool_def is_not_empty_array_def has_duplicates_distinct
        split: option.splits)
  have parameters: "(\<not> truthy_bool (draft_has_parameters c) \<or> truthy_string (draft_parameters c)) \<longleftrightarrow>
      (draft_has_parameters c = Some True \<longrightarrow> (\<exists>p. draft_parameters c = Some p \<and> p \<noteq> []))"
    by (cases "draft_parameters c") (auto simp: truthy_bool_def truthy_string_def)
  show ?thesis
    by (simp only: validate_module_configuration_def Let_def name_ok ports url files parameters)
qed

theorem validate_module_configuration_correct_witness:
  "\<not> validate_module_configuration (sample_draft []) 5 [module_information.truncate (sample_module [])] \<and>
   validate_module_configuration (sample_draft []) 6 [module_information.truncate (sample_module [])]"
  unfolding validate_module_configuration_correct
  by (simp add: sample_draft_def sample_module_def sample_artifact_def create_module_name_def
      truthy_string_def codes_def is_digit_def module_information.defs)

end
