(* ===== verification/Widgets.thy ===== *)
theory Widgets
  imports Prelude
begin

text \<open>
  The life cycle of a widget: \<open>framework/widgets/Widget.tsx\<close>, \<open>framework/pattern/Configurable.ts\<close>,
  \<open>framework/pattern/Trigger.ts\<close>, \<open>framework/hooks/Hooks.ts\<close> (\<open>useTriggerState\<close>) and
  \<open>framework/renderer/WidgetRenderer.tsx\<close>. React is outside the repository: it numbers the places a widget
  is rendered at (its component instances), calls the body of \<open>WidgetRender\<close> at an instance, and runs and
  cleans up its effects; each of these calls is an operation here. What the code asks of React or of
  registered actions is an emitted effect, in order; \<open>Enter\<close> marks the moment the widget's state changes.
  A trigger is named by the instance whose \<open>setState\<close> it calls: an instance never holds two live ones.
\<close>

datatype widget_state = CREATED | MOUNTED | RENDERED | DRAW | UNMOUNTED

record ('a, 's) widget =
  widget_state :: widget_state
  on_create :: "'a list"
  on_load :: "'a list"
  on_render :: "'a list"
  on_mount :: "'a list"
  on_draw :: "'a list"
  on_unmount :: "'a list"
  subscriptions :: "'s list"
  bound_trigger :: "nat option"
  render_paused :: bool
  trigger_refs :: "nat list"
  fresh_draws :: "nat list"
  mounted_subscriptions :: "(nat, 's list) js_map"
  widget_managed :: bool
  render_without_changes :: bool
  widget_id :: nat
  used_key :: "string option"
  widget_addons :: "nat list"
  widget_style :: "string option"

datatype ('a, 's) widget_effect =
    Set_state nat | Life_cycle 'a | Enter widget_state | Evaluate_hooks nat | Draw_at nat | Render_addon nat
  | Kept_drawing nat | Subscribed nat 's | Disposed nat 's

text \<open>The constructor: no action can have been registered yet, so the loop over \<open>onCreate\<close> is empty.\<close>

definition new_widget :: "nat \<Rightarrow> bool \<Rightarrow> bool \<Rightarrow> ('a, 's) widget" where
  "new_widget n managed without_changes =
     \<lparr>widget_state = CREATED, on_create = [], on_load = [], on_render = [], on_mount = [], on_draw = [],
      on_unmount = [], subscriptions = [], bound_trigger = None, render_paused = False, trigger_refs = [],
      fresh_draws = [], mounted_subscriptions = [], widget_managed = managed,
      render_without_changes = without_changes, widget_id = n, used_key = None, widget_addons = [],
      widget_style = None\<rparr>"

text \<open>The React key is the one given by \<open>useKey\<close>, or the random identifier of the widget.\<close>

definition widget_key :: "('a, 's) widget \<Rightarrow> nat + string" where
  "widget_key w = (case used_key w of None \<Rightarrow> Inl (widget_id w) | Some k \<Rightarrow> Inr k)"

definition use_key :: "string \<Rightarrow> ('a, 's) widget \<Rightarrow> ('a, 's) widget" where
  "use_key k w = w\<lparr>used_key := Some k\<rparr>"

definition widget_styled :: "string option \<Rightarrow> ('a, 's) widget \<Rightarrow> ('a, 's) widget" where
  "widget_styled style w = w\<lparr>widget_style := style\<rparr>"

definition add_addon :: "nat \<Rightarrow> ('a, 's) widget \<Rightarrow> ('a, 's) widget" where
  "add_addon addon w = w\<lparr>widget_addons := widget_addons w @ [addon]\<rparr>"

section \<open>Trigger\<close>

record trigger =
  trigger_instance :: nat
  trigger_live :: bool

definition new_trigger :: "nat \<Rightarrow> trigger" where
  "new_trigger i = \<lparr>trigger_instance = i, trigger_live = True\<rparr>"

text \<open>\<open>notify\<close> calls the listener with a random number, so that React sees a new state every time.\<close>

definition trigger_notify :: "trigger \<Rightarrow> ('a, 's) widget_effect list" where
  "trigger_notify t = (if trigger_live t then [Set_state (trigger_instance t)] else [])"

text \<open>\<open>dispose\<close> silences both listeners and calls the second: the instance's reference is cleared.\<close>

definition trigger_dispose :: "trigger \<Rightarrow> nat list \<Rightarrow> trigger \<times> nat list" where
  "trigger_dispose t refs =
     (t\<lparr>trigger_live := False\<rparr>, if trigger_live t then set_remove (trigger_instance t) refs else refs)"

section \<open>Configurable\<close>

definition bind_trigger :: "nat \<Rightarrow> ('a, 's) widget \<Rightarrow> ('a, 's) widget" where
  "bind_trigger t w = (if bound_trigger w \<noteq> None then w else w\<lparr>bound_trigger := Some t\<rparr>)"

definition dispose_trigger :: "('a, 's) widget \<Rightarrow> ('a, 's) widget" where
  "dispose_trigger w =
     (case bound_trigger w of
        None \<Rightarrow> w
      | Some t \<Rightarrow>
          w\<lparr>trigger_refs := snd (trigger_dispose (new_trigger t) (trigger_refs w)), bound_trigger := None\<rparr>)"

text \<open>A delivered notification makes the memoized drawing of its instance outdated.\<close>

definition notify_trigger ::
  "('a, 's) widget \<Rightarrow> ('a, 's) widget \<times> ('a, 's) widget_effect list" where
  "notify_trigger w =
     (if widget_state w = UNMOUNTED \<or> render_paused w then (w, [])
      else case bound_trigger w of
        None \<Rightarrow> (w, [])
      | Some t \<Rightarrow> (w\<lparr>fresh_draws := set_remove t (fresh_draws w)\<rparr>, trigger_notify (new_trigger t)))"

definition pause_render :: "('a, 's) widget \<Rightarrow> ('a, 's) widget" where
  "pause_render w = w\<lparr>render_paused := True\<rparr>"

definition continue_render ::
  "('a, 's) widget \<Rightarrow> ('a, 's) widget \<times> ('a, 's) widget_effect list" where
  "continue_render w =
     (if \<not> render_paused w then (w, []) else notify_trigger (w\<lparr>render_paused := False\<rparr>))"

section \<open>Rendering\<close>

text \<open>\<open>useTriggerState\<close>: the reference of an instance is filled once; a second instance binds nothing.\<close>

definition use_trigger_state :: "nat \<Rightarrow> ('a, 's) widget \<Rightarrow> ('a, 's) widget" where
  "use_trigger_state i w =
     (if i \<in> set (trigger_refs w) then w
      else bind_trigger i (w\<lparr>trigger_refs := trigger_refs w @ [i]\<rparr>))"

definition enter :: "widget_state \<Rightarrow> 'a list \<Rightarrow> ('a, 's) widget \<Rightarrow>
    ('a, 's) widget \<times> ('a, 's) widget_effect list" where
  "enter state actions w = (w\<lparr>widget_state := state\<rparr>, map Life_cycle actions @ [Enter state])"

text \<open>
  The drawing runs again when the widget is not managed, when it renders without changes, at the first
  render of the instance and after a notification; otherwise the memoized result is shown.
\<close>

definition draw_widget :: "nat \<Rightarrow> ('a, 's) widget \<Rightarrow> ('a, 's) widget \<times> ('a, 's) widget_effect list" where
  "draw_widget i w =
     (if widget_managed w \<and> \<not> render_without_changes w \<and> i \<in> set (fresh_draws w)
      then (w, [Kept_drawing i])
      else
        let (w', calls) = enter DRAW (on_draw w) (w\<lparr>fresh_draws := set_add i (fresh_draws w)\<rparr>)
        in (w', calls @ Draw_at i # map Render_addon (widget_addons w)))"

definition render_widget :: "nat \<Rightarrow> ('a, 's) widget \<Rightarrow> ('a, 's) widget \<times> ('a, 's) widget_effect list" where
  "render_widget i w =
     (let loads = (if widget_state w = CREATED then map Life_cycle (on_load w) else []);
          (w1, renders) = enter RENDERED (on_render w) w;
          (w2, draws) = draw_widget i (use_trigger_state i w1)
      in (w2, Evaluate_hooks i # loads @ renders @ draws))"

text \<open>The effects of an instance: mount, then its subscriptions; the clean-up in the same order.\<close>

definition mount_widget :: "nat \<Rightarrow> ('a, 's) widget \<Rightarrow> ('a, 's) widget \<times> ('a, 's) widget_effect list" where
  "mount_widget i w =
     (let (w', calls) = enter MOUNTED (on_mount w) w
      in (w'\<lparr>mounted_subscriptions := map_put i (subscriptions w) (mounted_subscriptions w)\<rparr>,
          calls @ map (Subscribed i) (subscriptions w)))"

definition unmount_widget :: "nat \<Rightarrow> ('a, 's) widget \<Rightarrow> ('a, 's) widget \<times> ('a, 's) widget_effect list" where
  "unmount_widget i w =
     (let (w', calls) = enter UNMOUNTED (on_unmount w) w;
          disposed = case_option [] (\<lambda>xs. xs) (map_get (mounted_subscriptions w) i)
      in ((dispose_trigger w')\<lparr>mounted_subscriptions := map_remove i (mounted_subscriptions w),
            trigger_refs := set_remove i (trigger_refs (dispose_trigger w')),
            fresh_draws := set_remove i (fresh_draws w)\<rparr>,
          calls @ map (Disposed i) disposed))"

section \<open>Registration\<close>

definition add_on_create :: "'a \<Rightarrow> ('a, 's) widget \<Rightarrow> ('a, 's) widget" where
  "add_on_create action w = w\<lparr>on_create := on_create w @ [action]\<rparr>"

definition add_on_load :: "'a \<Rightarrow> ('a, 's) widget \<Rightarrow> ('a, 's) widget" where
  "add_on_load action w = w\<lparr>on_load := on_load w @ [action]\<rparr>"

definition add_on_render :: "'a \<Rightarrow> ('a, 's) widget \<Rightarrow> ('a, 's) widget" where
  "add_on_render action w = w\<lparr>on_render := on_render w @ [action]\<rparr>"

definition add_on_mount :: "'a \<Rightarrow> ('a, 's) widget \<Rightarrow> ('a, 's) widget" where
  "add_on_mount action w = w\<lparr>on_mount := on_mount w @ [action]\<rparr>"

definition add_on_draw :: "'a \<Rightarrow> ('a, 's) widget \<Rightarrow> ('a, 's) widget" where
  "add_on_draw action w = w\<lparr>on_draw := on_draw w @ [action]\<rparr>"

definition add_on_unmount :: "'a \<Rightarrow> ('a, 's) widget \<Rightarrow> ('a, 's) widget" where
  "add_on_unmount action w = w\<lparr>on_unmount := on_unmount w @ [action]\<rparr>"

definition add_subscription :: "'s \<Rightarrow> ('a, 's) widget \<Rightarrow> ('a, 's) widget" where
  "add_subscription subscription w = w\<lparr>subscriptions := subscriptions w @ [subscription]\<rparr>"

section \<open>Runs\<close>

datatype widget_op = Render nat | Mount nat | Unmount nat | Notify | Pause | Continue

fun widget_step :: "widget_op \<Rightarrow> ('a, 's) widget \<Rightarrow> ('a, 's) widget \<times> ('a, 's) widget_effect list" where
  "widget_step (Render i) w = render_widget i w"
| "widget_step (Mount i) w = mount_widget i w"
| "widget_step (Unmount i) w = unmount_widget i w"
| "widget_step Notify w = notify_trigger w"
| "widget_step Pause w = (pause_render w, [])"
| "widget_step Continue w = continue_render w"

text \<open>\<open>lock\<close> runs an action between \<open>pause\<close> and \<open>continue\<close>.\<close>

definition widget_lock :: "widget_op list \<Rightarrow> widget_op list" where
  "widget_lock ops = Pause # ops @ [Continue]"

text \<open>
  The regular life of a widget at one instance: it is rendered, mounted, rendered again any number of
  times and unmounted, while the code notifies, pauses and continues it at any time.
\<close>

datatype phase = Away | Appearing | Present

inductive widget_life :: "nat \<Rightarrow> phase \<Rightarrow> ('a, 's) widget \<Rightarrow> bool" for i where
  born: "widget_life i Away (new_widget n managed without_changes)"
| first: "widget_life i Away w \<Longrightarrow> widget_life i Appearing (fst (widget_step (Render i) w))"
| again: "widget_life i p w \<Longrightarrow> p \<noteq> Away \<Longrightarrow> widget_life i p (fst (widget_step (Render i) w))"
| appear: "widget_life i Appearing w \<Longrightarrow> widget_life i Present (fst (widget_step (Mount i) w))"
| leave: "widget_life i Present w \<Longrightarrow> widget_life i Away (fst (widget_step (Unmount i) w))"
| code: "widget_life i p w \<Longrightarrow> op \<in> {Notify, Pause, Continue} \<Longrightarrow>
    widget_life i p (fst (widget_step op w))"

inductive_cases widget_life_appearing: "widget_life i Appearing w"

definition bound_at :: "nat \<Rightarrow> phase \<Rightarrow> ('a, 's) widget \<Rightarrow> bool" where
  "bound_at i p w \<longleftrightarrow>
     (if p = Away then trigger_refs w = [] \<and> bound_trigger w = None
      else trigger_refs w = [i] \<and> bound_trigger w = Some i \<and> widget_state w \<noteq> UNMOUNTED)"

lemmas widget_defs =
  render_widget_def mount_widget_def unmount_widget_def notify_trigger_def pause_render_def
  continue_render_def draw_widget_def use_trigger_state_def bind_trigger_def dispose_trigger_def
  enter_def trigger_notify_def trigger_dispose_def new_trigger_def Let_def

text \<open>Notifications and drawings leave the binding alone.\<close>

lemma notify_trigger_frame [simp]:
  "bound_trigger (fst (notify_trigger w)) = bound_trigger w"
  "trigger_refs (fst (notify_trigger w)) = trigger_refs w"
  "widget_state (fst (notify_trigger w)) = widget_state w"
  "render_paused (fst (notify_trigger w)) = render_paused w"
  by (simp_all add: notify_trigger_def split: option.split)

lemma continue_render_frame [simp]:
  "bound_trigger (fst (continue_render w)) = bound_trigger w"
  "trigger_refs (fst (continue_render w)) = trigger_refs w"
  "widget_state (fst (continue_render w)) = widget_state w"
  "\<not> render_paused (fst (continue_render w))"
  by (simp_all add: continue_render_def)

lemma pause_render_frame [simp]:
  "bound_trigger (pause_render w) = bound_trigger w"
  "trigger_refs (pause_render w) = trigger_refs w"
  "widget_state (pause_render w) = widget_state w"
  "render_paused (pause_render w)"
  by (simp_all add: pause_render_def)

lemma draw_widget_frame [simp]:
  "bound_trigger (fst (draw_widget i w)) = bound_trigger w"
  "trigger_refs (fst (draw_widget i w)) = trigger_refs w"
  "render_paused (fst (draw_widget i w)) = render_paused w"
  "widget_state w \<noteq> UNMOUNTED \<Longrightarrow> widget_state (fst (draw_widget i w)) \<noteq> UNMOUNTED"
  by (simp_all add: draw_widget_def enter_def Let_def)

lemma render_widget_frame [simp]:
  "widget_state (fst (render_widget i w)) \<noteq> UNMOUNTED"
  "bound_trigger (fst (render_widget i w)) =
     (if i \<in> set (trigger_refs w) \<or> bound_trigger w \<noteq> None then bound_trigger w else Some i)"
  "trigger_refs (fst (render_widget i w)) =
     (if i \<in> set (trigger_refs w) then trigger_refs w else trigger_refs w @ [i])"
  "render_paused (fst (render_widget i w)) = render_paused w"
  by (simp_all add: render_widget_def Let_def split_beta enter_def use_trigger_state_def
      bind_trigger_def)

lemma mount_widget_frame [simp]:
  "bound_trigger (fst (mount_widget i w)) = bound_trigger w"
  "trigger_refs (fst (mount_widget i w)) = trigger_refs w"
  by (simp_all add: mount_widget_def enter_def Let_def)

text \<open>Only notifications ask for a render.\<close>

lemma draw_no_request [simp]: "Set_state k \<notin> set (snd (draw_widget i w))"
  by (auto simp: draw_widget_def enter_def Let_def)

lemma react_no_request [simp]:
  "Set_state k \<notin> set (snd (render_widget i w))"
  "Set_state k \<notin> set (snd (mount_widget i w))"
  "Set_state k \<notin> set (snd (unmount_widget i w))"
  by (auto simp: render_widget_def mount_widget_def unmount_widget_def enter_def Let_def split_beta)

lemma unbound_no_request [simp]:
  "bound_trigger w = None \<Longrightarrow> snd (notify_trigger w) = []"
  "bound_trigger w = None \<Longrightarrow> snd (continue_render w) = []"
  by (simp_all add: notify_trigger_def continue_render_def)

lemma bound_at_code [preserves]:
  "bound_at i p w \<Longrightarrow> op \<in> {Notify, Pause, Continue} \<Longrightarrow> bound_at i p (fst (widget_step op w))"
  by (auto simp: bound_at_def)

lemma bound_at_render [preserves]:
  "bound_at i p w \<Longrightarrow> bound_at i (if p = Away then Appearing else p) (fst (widget_step (Render i) w))"
  by (simp add: bound_at_def split: if_splits)

lemma bound_at_mount [preserves]:
  "bound_at i Appearing w \<Longrightarrow> bound_at i Present (fst (widget_step (Mount i) w))"
  by (simp add: bound_at_def widget_defs)

lemma bound_at_unmount [preserves]:
  "bound_at i Present w \<Longrightarrow> bound_at i Away (fst (widget_step (Unmount i) w))"
  by (simp add: bound_at_def widget_defs set_remove_def)

lemma widget_life_bound: "widget_life i p w \<Longrightarrow> bound_at i p w"
proof (induction rule: widget_life.induct)
  case (born n managed without_changes)
  show ?case by (simp add: bound_at_def new_widget_def)
next
  case (first w)
  from bound_at_render [OF first.IH] show ?case by simp
next
  case (again p w)
  from bound_at_render [OF again.IH] again.hyps show ?case by simp
qed (simp_all only: preserves)

text \<open>While rendering is paused, notifications and further pauses do nothing.\<close>

lemma paused_run:
  assumes "set ops \<subseteq> {Notify, Pause}" and "render_paused w"
  shows "emit_run widget_step ops w = (w, [])"
  using assms(1)
proof (induction ops)
  case Nil
  show ?case by simp
next
  case (Cons op ops)
  have "widget_step op w = (w, [])"
    using Cons.prems assms(2) by (cases w) (auto simp: notify_trigger_def pause_render_def)
  with Cons show ?case by (simp add: emit_run.simps(2))
qed

lemma notify_run:
  assumes "bound_trigger w = Some i" and "widget_state w \<noteq> UNMOUNTED" and "\<not> render_paused w"
  shows "snd (emit_run widget_step (replicate n Notify) w) = replicate n (Set_state i)"
    "render_paused (fst (emit_run widget_step (replicate n Notify) w)) = render_paused w"
proof -
  have "snd (notify_trigger v) = [Set_state i]"
    if "bound_trigger v = Some i" "widget_state v \<noteq> UNMOUNTED" "\<not> render_paused v"
    for v :: "('a, 'b) widget"
    using that by (simp add: notify_trigger_def trigger_notify_def new_trigger_def)
  then show "snd (emit_run widget_step (replicate n Notify) w) = replicate n (Set_state i)"
    "render_paused (fst (emit_run widget_step (replicate n Notify) w)) = render_paused w"
    using assms by (induction n arbitrary: w) (simp_all add: split_beta)
qed

lemma continue_paused:
  assumes "bound_trigger w = Some i" and "widget_state w \<noteq> UNMOUNTED" and "render_paused w"
  shows "snd (continue_render w) = [Set_state i]"
  using assms by (simp add: widget_defs)

text \<open>A rendered instance whose reference is taken but not bound listens to nothing.\<close>

definition deaf_at :: "nat \<Rightarrow> ('a, 's) widget \<Rightarrow> bool" where
  "deaf_at j w \<longleftrightarrow> bound_trigger w = None \<and> j \<in> set (trigger_refs w)"

lemma deaf_at_step:
  assumes "deaf_at j w" and "op \<in> {Render j, Mount j, Notify, Pause, Continue}"
  shows "deaf_at j (fst (widget_step op w)) \<and> Set_state k \<notin> set (snd (widget_step op w))"
  using assms by (auto simp: deaf_at_def)

lemma deaf_at_run:
  assumes "deaf_at j w" and "set ops \<subseteq> {Render j, Mount j, Notify, Pause, Continue}"
  shows "Set_state k \<notin> set (snd (emit_run widget_step ops w))"
  using assms
proof (induction ops arbitrary: w)
  case Nil
  show ?case by simp
next
  case (Cons op ops)
  with deaf_at_step [of j w op k] show ?case by (simp add: split_beta)
qed

section \<open>Properties\<close>

text \<open>
  C32. In a regular life a widget listens exactly while it is shown: from its first render to its unmounting,
  also when it comes back later, exactly one trigger is bound, and a notification asks React to render the
  instance again unless rendering is paused; outside that time notifications are lost silently.
\<close>

theorem widget_listens_while_shown:
  assumes "widget_life i p w"
  shows "bound_trigger w = (if p = Away then None else Some i) \<and>
    snd (notify_trigger w) = (if p = Away \<or> render_paused w then [] else [Set_state i])"
  using widget_life_bound [OF assms] by (auto simp: bound_at_def widget_defs)

theorem widget_listens_while_shown_witness:
  "snd (notify_trigger (fst (emit_run widget_step [Render 0, Mount 0, Unmount 0, Render 0]
     (new_widget 9 True False :: (nat, nat) widget)))) = [Set_state 0]"
proof -
  let ?w = "fst (emit_run widget_step [Render 0, Mount 0, Unmount 0, Render 0]
    (new_widget 9 True False :: (nat, nat) widget))"
  have "widget_life 0 Appearing ?w"
    by (simp add: split_beta del: widget_step.simps) (intro widget_life.intros)
  from widget_listens_while_shown [OF this, THEN conjunct2]
  show ?thesis by (simp add: new_widget_def widget_defs)
qed

text \<open>
  A lock asks React for exactly one render, however often its action notifies. Locks do not nest: the end
  of an inner lock resumes rendering at once, so that every later notification of the outer action asks for
  a render of its own, and the end of the outer lock for none.
\<close>

theorem lock_renders_once:
  assumes "bound_trigger w = Some i" and "widget_state w \<noteq> UNMOUNTED"
    and "set before \<subseteq> {Notify, Pause}" and "set inner \<subseteq> {Notify, Pause}"
  shows "snd (emit_run widget_step (widget_lock before) w) = [Set_state i] \<and>
    snd (emit_run widget_step (widget_lock (before @ widget_lock inner @ replicate n Notify)) w) =
      Set_state i # replicate n (Set_state i)"
proof -
  have p: "emit_run widget_step ops (pause_render w) = (pause_render w, [])"
    if "set ops \<subseteq> {Notify, Pause}" for ops
    using that by (intro paused_run) simp_all
  have p2: "pause_render (pause_render w) = pause_render w" by (simp add: pause_render_def)
  note c = continue_paused [of "pause_render w" i]
  note n = notify_run [of "fst (continue_render (pause_render w))" i n]
  show ?thesis using assms c n p [of before] p [of inner] p2
    by (simp add: widget_lock_def emit_run_append split_beta) (simp add: continue_render_def)
qed

theorem lock_renders_once_witness:
  "snd (emit_run widget_step (widget_lock [Notify, Notify])
     (fst (widget_step (Render 3) (new_widget 9 True False :: (nat, nat) widget)))) = [Set_state 3]"
proof -
  have "bound_trigger (fst (widget_step (Render 3) (new_widget 9 True False :: (nat, nat) widget))) = Some 3"
    "widget_state (fst (widget_step (Render 3) (new_widget 9 True False :: (nat, nat) widget))) \<noteq> UNMOUNTED"
    "set [Notify, Notify] \<subseteq> {Notify, Pause}"
    by (simp_all add: new_widget_def)
  from lock_renders_once [OF this this(3), THEN conjunct1] show ?thesis .
qed

text \<open>
  A widget that moves goes deaf. When a widget shown at one place is rendered at another one in the same
  update, the new instance fills its reference while the old trigger is still bound; the unmounting of the
  old instance then unbinds it, and nothing binds the new one: whatever the code notifies, pauses and
  continues and however often the new place is rendered, no render is ever requested again.
\<close>

theorem moved_widget_deaf:
  assumes "widget_life i Present w" and "i \<noteq> j" and "set ops \<subseteq> {Render j, Notify, Pause, Continue}"
  shows "Set_state k \<notin> set (snd (emit_run widget_step ([Render j, Unmount i, Mount j] @ ops) w))"
proof -
  define w1 where "w1 = fst (widget_step (Unmount i) (fst (widget_step (Render j) w)))"
  from widget_life_bound [OF assms(1)] assms(2) have "deaf_at j w1"
    by (simp add: w1_def bound_at_def deaf_at_def unmount_widget_def dispose_trigger_def enter_def
        trigger_dispose_def new_trigger_def Let_def)
  with assms(3) have "Set_state k \<notin> set (snd (emit_run widget_step (Mount j # ops) w1))"
    by (intro deaf_at_run) auto
  then show ?thesis by (simp add: w1_def)
qed

theorem moved_widget_deaf_witness:
  "Set_state 1 \<notin> set (snd (emit_run widget_step ([Render 1, Unmount 0, Mount 1] @ [Notify, Render 1, Notify])
     (fst (emit_run widget_step [Render 0, Mount 0] (new_widget 9 True False :: (nat, nat) widget)))))"
proof -
  have "widget_life 0 Present
      (fst (emit_run widget_step [Render 0, Mount 0] (new_widget 9 True False :: (nat, nat) widget)))"
    by (simp add: split_beta del: widget_step.simps) (intro widget_life.intros)
  from moved_widget_deaf [OF this, of 1 "[Notify, Render 1, Notify]" 1]
  show ?thesis by simp
qed

end
