(* ===== verification/Selection.thy ===== *)
theory Selection
  imports Prelude
begin

text \<open>
  Widgets chosen when they are drawn: \<open>Conditional\<close>, \<open>Hooked\<close>, \<open>Optional\<close> and \<open>When\<close> of
  \<open>framework/pattern\<close>. A factory is given by the widget its \<open>n\<close>-th run makes (from the current widget, the
  hook or the properties where the code passes them): the number of the run tells new widgets from old ones.
  Predicates and cache functions are the values they return at the moment of the draw; \<open>eq\<close> is
  \<open>fast-deep-equal\<close>. A drawing returns the widget whose \<open>render\<close> is called.
\<close>

text \<open>\<open>equal\<close> on values that may be undefined.\<close>

fun equal_option :: "('v \<Rightarrow> 'v \<Rightarrow> bool) \<Rightarrow> 'v option \<Rightarrow> 'v option \<Rightarrow> bool" where
  "equal_option eq None None = True"
| "equal_option eq (Some x) (Some y) = eq x y"
| "equal_option eq _ _ = False"

lemma equal_option_is_eq [simp]: "equal_option (=) x y \<longleftrightarrow> x = y"
  by (cases x; cases y) simp_all

section \<open>Conditional\<close>

record ('w, 'v) conditional =
  cond_stub :: 'w
  cond_stub_factory :: "'w option"
  cond_factory :: "nat \<Rightarrow> 'w option \<Rightarrow> 'w"
  cond_runs :: nat
  cond_widget :: "'w option"
  cond_persisted :: bool
  cond_cached :: bool
  cond_last_value :: "'v option"
  cond_cache_function :: bool

definition new_conditional :: "'w \<Rightarrow> ('w, 'v) conditional" where
  "new_conditional stub =
     \<lparr>cond_stub = stub, cond_stub_factory = None, cond_factory = (\<lambda>n current. stub), cond_runs = 0,
      cond_widget = None, cond_persisted = False, cond_cached = False, cond_last_value = None,
      cond_cache_function = False\<rparr>"

text \<open>\<open>else\<close> takes a widget or a factory; a factory once given wins over every widget given later.\<close>

definition conditional_else :: "'w + 'w \<Rightarrow> ('w, 'v) conditional \<Rightarrow> ('w, 'v) conditional" where
  "conditional_else stub c =
     (case stub of Inl widget \<Rightarrow> c\<lparr>cond_stub := widget\<rparr> | Inr made \<Rightarrow> c\<lparr>cond_stub_factory := Some made\<rparr>)"

definition conditional_widget :: "(nat \<Rightarrow> 'w) \<Rightarrow> ('w, 'v) conditional \<Rightarrow> ('w, 'v) conditional" where
  "conditional_widget factory c = c\<lparr>cond_factory := (\<lambda>n current. factory n)\<rparr>"

definition conditional_cache ::
  "(nat \<Rightarrow> 'w option \<Rightarrow> 'w) \<Rightarrow> ('w, 'v) conditional \<Rightarrow> ('w, 'v) conditional" where
  "conditional_cache factory c =
     c\<lparr>cond_factory := factory, cond_cached := True, cond_cache_function := True\<rparr>"

definition conditional_persist :: "(nat \<Rightarrow> 'w) \<Rightarrow> ('w, 'v) conditional \<Rightarrow> ('w, 'v) conditional" where
  "conditional_persist factory c =
     c\<lparr>cond_factory := (\<lambda>n current. factory n), cond_persisted := True\<rparr>"

definition conditional_apply :: "('w \<Rightarrow> 'w) \<Rightarrow> ('w, 'v) conditional \<Rightarrow> ('w, 'v) conditional" where
  "conditional_apply action c =
     (let factory = cond_factory c in
      c\<lparr>cond_factory := (\<lambda>n current. action (factory n current)),
        cond_widget := map_option action (cond_widget c)\<rparr>)"

text \<open>\<open>map\<close>, and \<open>get\<close>, \<open>true\<close>, \<open>false\<close> over it.\<close>

definition conditional_map :: "('w \<Rightarrow> 'r) \<Rightarrow> ('w, 'v) conditional \<Rightarrow> 'r option" where
  "conditional_map action c = map_option action (cond_widget c)"

definition conditional_get :: "('w, 'v) conditional \<Rightarrow> 'w option" where
  "conditional_get c = conditional_map (\<lambda>widget. widget) c"

definition conditional_true :: "('w, 'v) conditional \<Rightarrow> bool" where
  "conditional_true c \<longleftrightarrow> conditional_get c \<noteq> None"

definition conditional_false :: "('w, 'v) conditional \<Rightarrow> bool" where
  "conditional_false c \<longleftrightarrow> conditional_get c = None"

definition create_widget :: "('w, 'v) conditional \<Rightarrow> ('w, 'v) conditional \<times> 'w" where
  "create_widget c =
     (let w = cond_factory c (cond_runs c) (cond_widget c)
      in (c\<lparr>cond_widget := Some w, cond_runs := Suc (cond_runs c)\<rparr>, w))"

definition get_or_create_widget :: "('w, 'v) conditional \<Rightarrow> ('w, 'v) conditional \<times> 'w" where
  "get_or_create_widget c =
     (case cond_widget c of None \<Rightarrow> create_widget c | Some w \<Rightarrow> (c, w))"

definition create_stub :: "('w, 'v) conditional \<Rightarrow> 'w" where
  "create_stub c = (case cond_stub_factory c of None \<Rightarrow> cond_stub c | Some stub \<Rightarrow> stub)"

definition conditional_draw ::
  "('v \<Rightarrow> 'v \<Rightarrow> bool) \<Rightarrow> bool \<Rightarrow> 'v option \<Rightarrow> ('w, 'v) conditional \<Rightarrow> ('w, 'v) conditional \<times> 'w" where
  "conditional_draw eq predicate cache_value c =
     (if \<not> predicate then
        (if cond_cached c \<and> cond_cache_function c
         then (c\<lparr>cond_last_value := cache_value\<rparr>, create_stub c)
         else (c, create_stub c))
      else if cond_persisted c then get_or_create_widget c
      else if \<not> cond_cached c \<or> \<not> cond_cache_function c then create_widget c
      else if cond_last_value c = None then get_or_create_widget (c\<lparr>cond_last_value := cache_value\<rparr>)
      else if equal_option eq (cond_last_value c) cache_value
      then get_or_create_widget (c\<lparr>cond_last_value := cache_value\<rparr>)
      else create_widget (c\<lparr>cond_last_value := cache_value\<rparr>))"

section \<open>Hooked\<close>

datatype selection_error = Widget_factory_missing | Widget_not_rendered

record ('w, 'h, 'v) hooked =
  hooked_factory :: "(nat \<Rightarrow> 'h \<Rightarrow> 'w option \<Rightarrow> 'w) option"
  hooked_runs :: nat
  hooked_widget :: "'w option"
  hooked_persisted :: bool
  hooked_cached :: bool
  hooked_last_hook :: "'h option"
  hooked_last_value :: "'v option"
  hooked_cache_function :: bool

definition new_hooked :: "('w, 'h, 'v) hooked" where
  "new_hooked =
     \<lparr>hooked_factory = None, hooked_runs = 0, hooked_widget = None, hooked_persisted = False,
      hooked_cached = False, hooked_last_hook = None, hooked_last_value = None,
      hooked_cache_function = False\<rparr>"

definition hooked_use_widget :: "(nat \<Rightarrow> 'h \<Rightarrow> 'w) \<Rightarrow> ('w, 'h, 'v) hooked \<Rightarrow> ('w, 'h, 'v) hooked" where
  "hooked_use_widget factory h = h\<lparr>hooked_factory := Some (\<lambda>n hook current. factory n hook)\<rparr>"

definition hooked_cache ::
  "(nat \<Rightarrow> 'h \<Rightarrow> 'w option \<Rightarrow> 'w) \<Rightarrow> bool \<Rightarrow> ('w, 'h, 'v) hooked \<Rightarrow> ('w, 'h, 'v) hooked" where
  "hooked_cache factory with_function h =
     h\<lparr>hooked_factory := Some factory, hooked_cached := True, hooked_cache_function := with_function\<rparr>"

definition hooked_persist :: "(nat \<Rightarrow> 'h \<Rightarrow> 'w) \<Rightarrow> ('w, 'h, 'v) hooked \<Rightarrow> ('w, 'h, 'v) hooked" where
  "hooked_persist factory h =
     h\<lparr>hooked_factory := Some (\<lambda>n hook current. factory n hook), hooked_persisted := True\<rparr>"

definition hooked_apply ::
  "('w \<Rightarrow> 'w) \<Rightarrow> ('w, 'h, 'v) hooked \<Rightarrow> selection_error + ('w, 'h, 'v) hooked" where
  "hooked_apply action h =
     (case hooked_factory h of
        None \<Rightarrow> Inl Widget_factory_missing
      | Some factory \<Rightarrow>
          Inr (h\<lparr>hooked_factory := Some (\<lambda>n hook current. action (factory n hook current)),
                 hooked_widget := map_option action (hooked_widget h)\<rparr>))"

definition hooked_map :: "('w \<Rightarrow> 'r) \<Rightarrow> ('w, 'h, 'v) hooked \<Rightarrow> selection_error + 'r" where
  "hooked_map action h =
     (case hooked_widget h of None \<Rightarrow> Inl Widget_not_rendered | Some w \<Rightarrow> Inr (action w))"

definition hooked_get :: "('w, 'h, 'v) hooked \<Rightarrow> selection_error + 'w" where
  "hooked_get h = hooked_map (\<lambda>widget. widget) h"

definition hooked_evaluated :: "('w, 'h, 'v) hooked \<Rightarrow> bool" where
  "hooked_evaluated h \<longleftrightarrow> hooked_widget h \<noteq> None"

definition hooked_create ::
  "(nat \<Rightarrow> 'h \<Rightarrow> 'w option \<Rightarrow> 'w) \<Rightarrow> 'h \<Rightarrow> ('w, 'h, 'v) hooked \<Rightarrow> ('w, 'h, 'v) hooked \<times> 'w" where
  "hooked_create factory hook h =
     (let w = factory (hooked_runs h) hook (hooked_widget h)
      in (h\<lparr>hooked_widget := Some w, hooked_runs := Suc (hooked_runs h)\<rparr>, w))"

definition hooked_get_or_create ::
  "(nat \<Rightarrow> 'h \<Rightarrow> 'w option \<Rightarrow> 'w) \<Rightarrow> 'h \<Rightarrow> ('w, 'h, 'v) hooked \<Rightarrow> ('w, 'h, 'v) hooked \<times> 'w" where
  "hooked_get_or_create factory hook h =
     (case hooked_widget h of None \<Rightarrow> hooked_create factory hook h | Some w \<Rightarrow> (h, w))"

definition hooked_draw_cached ::
  "('h \<Rightarrow> 'h \<Rightarrow> bool) \<Rightarrow> ('v \<Rightarrow> 'v \<Rightarrow> bool) \<Rightarrow> (nat \<Rightarrow> 'h \<Rightarrow> 'w option \<Rightarrow> 'w) \<Rightarrow> 'h \<Rightarrow> 'v option \<Rightarrow>
    ('w, 'h, 'v) hooked \<Rightarrow> ('w, 'h, 'v) hooked \<times> 'w" where
  "hooked_draw_cached eqh eqv factory hook cache_value h =
     (let same = equal_option eqh (hooked_last_hook h) (Some hook);
          h1 = h\<lparr>hooked_last_hook := Some hook\<rparr>;
          h2 = h1\<lparr>hooked_last_value := cache_value\<rparr>
      in if \<not> hooked_cache_function h then
           (if same then hooked_get_or_create factory hook h1 else hooked_create factory hook h1)
         else if hooked_last_value h = None then hooked_get_or_create factory hook h2
         else if equal_option eqv (hooked_last_value h) cache_value
         then hooked_get_or_create factory hook h2
         else hooked_create factory hook h2)"

definition hooked_draw ::
  "('h \<Rightarrow> 'h \<Rightarrow> bool) \<Rightarrow> ('v \<Rightarrow> 'v \<Rightarrow> bool) \<Rightarrow> 'h \<Rightarrow> 'v option \<Rightarrow> ('w, 'h, 'v) hooked \<Rightarrow>
    selection_error + (('w, 'h, 'v) hooked \<times> 'w)" where
  "hooked_draw eqh eqv hook cache_value h =
     (case hooked_factory h of
        None \<Rightarrow> Inl Widget_factory_missing
      | Some factory \<Rightarrow>
          Inr (if hooked_persisted h then hooked_get_or_create factory hook h
               else if hooked_cached h then hooked_draw_cached eqh eqv factory hook cache_value h
               else hooked_create factory hook h))"

section \<open>Optional\<close>

text \<open>
  The conditional's factory reads the properties of the last spawn when it runs; \<open>attach\<close> subscribes
  \<open>destroy\<close> to a closable widget. The conditional's predicate and its cache function are both \<open>#spawned\<close>.
\<close>

record ('w, 'p) optional_widget =
  optional_spawned :: "bool option"
  optional_properties :: "'p option"
  optional_base :: "nat \<Rightarrow> 'p option \<Rightarrow> 'w"
  optional_factory :: "nat \<Rightarrow> 'p option \<Rightarrow> 'w"
  optional_conditional :: "('w, bool) conditional"

datatype optional_effect = Notify_render | Spawn_handler | Destroy_handler

definition new_optional ::
  "'w \<Rightarrow> ('w \<Rightarrow> 'w) \<Rightarrow> (nat \<Rightarrow> 'p option \<Rightarrow> 'w) \<Rightarrow> bool option \<Rightarrow> ('w, 'p) optional_widget" where
  "new_optional stub attach factory spawned =
     \<lparr>optional_spawned = spawned, optional_properties = None, optional_base = factory,
      optional_factory = (\<lambda>n p. attach (factory n p)),
      optional_conditional = conditional_cache (\<lambda>n current. attach (factory n None)) (new_conditional stub)\<rparr>"

definition optional_spawn ::
  "'p option \<Rightarrow> ('w, 'p) optional_widget \<Rightarrow> ('w, 'p) optional_widget \<times> optional_effect list" where
  "optional_spawn p o' =
     (o'\<lparr>optional_properties := p, optional_spawned := Some True\<rparr>, [Notify_render, Spawn_handler])"

definition optional_destroy ::
  "('w, 'p) optional_widget \<Rightarrow> ('w, 'p) optional_widget \<times> optional_effect list" where
  "optional_destroy o' = (o'\<lparr>optional_spawned := Some False\<rparr>, [Notify_render, Destroy_handler])"

definition optional_apply :: "('w \<Rightarrow> 'w) \<Rightarrow> ('w, 'p) optional_widget \<Rightarrow> ('w, 'p) optional_widget" where
  "optional_apply action o' =
     (let factory = optional_factory o' in
      o'\<lparr>optional_factory := (\<lambda>n p. action (factory n p)),
         optional_conditional := conditional_apply action (optional_conditional o')\<rparr>)"

text \<open>\<open>persist\<close> starts again from the plain factory: what was applied before is dropped.\<close>

definition optional_persist ::
  "('w \<Rightarrow> 'w) \<Rightarrow> 'p option \<Rightarrow> ('w, 'p) optional_widget \<Rightarrow> ('w, 'p) optional_widget" where
  "optional_persist attach p o' =
     (let factory = optional_base o' in
      o'\<lparr>optional_factory := (\<lambda>n q. attach (factory n p)),
         optional_conditional := conditional_apply attach
           (conditional_persist (\<lambda>n. factory n p) (optional_conditional o'))\<rparr>)"

definition optional_draw :: "('w, 'p) optional_widget \<Rightarrow> ('w, 'p) optional_widget \<times> 'w" where
  "optional_draw o' =
     (let c = (optional_conditional o')
            \<lparr>cond_factory := (\<lambda>n current. optional_factory o' n (optional_properties o'))\<rparr>;
          (c', w) = conditional_draw (=) (optional_spawned o' = Some True) (optional_spawned o') c
      in (o'\<lparr>optional_conditional := c'\<rparr>, w))"

section \<open>When\<close>

type_synonym ('w, 'v) when_widget = "('w, 'v) conditional list"

definition when_widget ::
  "'w \<Rightarrow> (nat \<Rightarrow> 'w) \<Rightarrow> ('w, 'v) when_widget \<Rightarrow> ('w, 'v) when_widget" where
  "when_widget stub factory conditions =
     conditions @ [conditional_widget factory (new_conditional stub)]"

definition when_cache ::
  "'w \<Rightarrow> (nat \<Rightarrow> 'w option \<Rightarrow> 'w) \<Rightarrow> ('w, 'v) when_widget \<Rightarrow> ('w, 'v) when_widget" where
  "when_cache stub factory conditions = conditions @ [conditional_cache factory (new_conditional stub)]"

definition when_persist ::
  "'w \<Rightarrow> (nat \<Rightarrow> 'w) \<Rightarrow> ('w, 'v) when_widget \<Rightarrow> ('w, 'v) when_widget" where
  "when_persist stub factory conditions =
     conditions @ [conditional_persist factory (new_conditional stub)]"

text \<open>The stub is given to the conditions added so far.\<close>

definition when_else :: "'w + 'w \<Rightarrow> ('w, 'v) when_widget \<Rightarrow> ('w, 'v) when_widget" where
  "when_else stub conditions = map (conditional_else stub) conditions"

definition when_apply :: "('w \<Rightarrow> 'w) \<Rightarrow> ('w, 'v) when_widget \<Rightarrow> ('w, 'v) when_widget" where
  "when_apply action conditions = map (conditional_apply action) conditions"

definition when_map :: "('w \<Rightarrow> 'r) \<Rightarrow> ('w, 'v) when_widget \<Rightarrow> 'r option" where
  "when_map action conditions =
     (case find (\<lambda>r. r \<noteq> None) (map (conditional_map action) conditions) of
        None \<Rightarrow> None | Some r \<Rightarrow> r)"

definition when_all :: "('w, 'v) when_widget \<Rightarrow> 'w list" where
  "when_all conditions = List.map_filter conditional_get conditions"

definition when_current :: "('w, 'v) when_widget \<Rightarrow> 'w option" where
  "when_current conditions =
     (case find conditional_true conditions of None \<Rightarrow> None | Some c \<Rightarrow> conditional_get c)"

text \<open>A draw renders every condition, each with its own predicate and cache value.\<close>

definition when_draw ::
  "('v \<Rightarrow> 'v \<Rightarrow> bool) \<Rightarrow> (bool \<times> 'v option) list \<Rightarrow> ('w, 'v) when_widget \<Rightarrow>
    ('w, 'v) when_widget \<times> 'w list" where
  "when_draw eq inputs conditions =
     (let drawn = map2 (\<lambda>(predicate, v) c. conditional_draw eq predicate v c) inputs conditions
      in (map fst drawn, map snd drawn))"

section \<open>Runs of drawings\<close>

definition conditional_draws ::
  "('v \<Rightarrow> 'v \<Rightarrow> bool) \<Rightarrow> (bool \<times> 'v option) list \<Rightarrow> ('w, 'v) conditional \<Rightarrow>
    ('w, 'v) conditional \<times> 'w list" where
  "conditional_draws eq =
     emit_run (\<lambda>(predicate, v) c. let (c', w) = conditional_draw eq predicate v c in (c', [w]))"

definition hooked_draws ::
  "(nat \<Rightarrow> 'h \<Rightarrow> 'w option \<Rightarrow> 'w) \<Rightarrow> 'h list \<Rightarrow> ('w, 'h, 'v) hooked \<Rightarrow> ('w, 'h, 'v) hooked \<times> 'w list" where
  "hooked_draws factory =
     emit_run (\<lambda>hook h. let (h', w) = hooked_draw_cached (=) (=) factory hook None h in (h', [w]))"

datatype 'p optional_op = Spawn "'p option" | Destroy | Draw_optional

fun optional_step ::
  "'p optional_op \<Rightarrow> ('w, 'p) optional_widget \<Rightarrow> ('w, 'p) optional_widget \<times> 'w list" where
  "optional_step (Spawn p) o' = (fst (optional_spawn p o'), [])"
| "optional_step Destroy o' = (fst (optional_destroy o'), [])"
| "optional_step Draw_optional o' = (let (o'', w) = optional_draw o' in (o'', [w]))"

text \<open>After drawings of the values \<open>vs\<close> the state holds the last value and the widget of its block.\<close>

definition memo_state :: "(nat \<Rightarrow> 'w) \<Rightarrow> 'v list \<Rightarrow> ('w, 'v) conditional \<Rightarrow> bool" where
  "memo_state mk vs c \<longleftrightarrow>
     cond_factory c = (\<lambda>n current. mk n) \<and> \<not> cond_persisted c \<and> cond_cached c \<and>
     cond_cache_function c \<and> cond_runs c = length (remdups_adj vs) \<and>
     (if vs = [] then cond_last_value c = None \<and> cond_widget c = None
      else cond_last_value c = Some (last vs) \<and> cond_widget c = Some (mk (length (remdups_adj vs) - 1)))"

lemma remdups_adj_snoc:
  "length (remdups_adj (vs @ [v])) =
     (if vs \<noteq> [] \<and> last vs = v then length (remdups_adj vs) else Suc (length (remdups_adj vs)))"
proof (cases vs rule: rev_cases)
  case (snoc ys y)
  then show ?thesis by (simp add: remdups_adj_append_two)
qed simp

lemma memo_state_draw:
  assumes "memo_state mk vs c"
  shows "memo_state mk (vs @ [v]) (fst (conditional_draw (=) True (Some v) c)) \<and>
    snd (conditional_draw (=) True (Some v) c) = mk (length (remdups_adj (vs @ [v])) - 1)"
  using assms
  by (cases "vs = []")
    (auto simp: memo_state_def conditional_draw_def get_or_create_widget_def create_widget_def Let_def
      remdups_adj_snoc)

lemma memo_state_draws:
  assumes "memo_state mk us c"
  shows "snd (conditional_draws (=) (map (\<lambda>v. (True, Some v)) vs) c) =
    map (\<lambda>k. mk (length (remdups_adj (us @ take (Suc k) vs)) - 1)) [0..<length vs]"
  using assms
proof (induction vs arbitrary: us c)
  case Nil
  show ?case by (simp add: conditional_draws_def)
next
  case (Cons v vs)
  note d = memo_state_draw [OF Cons.prems, of v]
  from Cons.IH [OF d [THEN conjunct1]] d show ?case
    by (simp add: conditional_draws_def split_beta map_upt_Suc del: upt_Suc)
qed

text \<open>A widget cached by its hook alone was made from the present hook.\<close>

definition hook_state :: "(nat \<Rightarrow> 'h \<Rightarrow> 'w) \<Rightarrow> ('w, 'h, 'v) hooked \<Rightarrow> bool" where
  "hook_state mk h \<longleftrightarrow>
     \<not> hooked_cache_function h \<and>
     (case hooked_last_hook h of
        None \<Rightarrow> hooked_widget h = None
      | Some hook \<Rightarrow> \<exists>n. hooked_widget h = Some (mk n hook))"

lemma hook_state_draw:
  assumes "hook_state mk h"
  shows "hook_state mk (fst (hooked_draw_cached (=) eqv (\<lambda>n hook current. mk n hook) hook v h)) \<and>
    (\<exists>n. snd (hooked_draw_cached (=) eqv (\<lambda>n hook current. mk n hook) hook v h) = mk n hook)"
  using assms
  by (auto simp: hook_state_def hooked_draw_cached_def hooked_get_or_create_def hooked_create_def Let_def
      split: option.splits)

lemma hook_state_draws:
  assumes "hook_state mk h" and "k < length hooks"
  shows "\<exists>n. snd (hooked_draws (\<lambda>n hook current. mk n hook) hooks h) ! k = mk n (hooks ! k)"
  using assms
proof (induction hooks arbitrary: h k)
  case Nil
  then show ?case by simp
next
  case (Cons hook hooks)
  note d = hook_state_draw [OF Cons.prems(1), of "(=)" hook None]
  show ?case
  proof (cases k)
    case 0
    with d show ?thesis by (simp add: hooked_draws_def split_beta)
  next
    case (Suc j)
    with Cons.IH [OF d [THEN conjunct1], of j] Cons.prems(2) show ?thesis
      by (simp add: hooked_draws_def split_beta)
  qed
qed

lemma length_hooked_draws: "length (snd (hooked_draws factory hooks h)) = length hooks"
  by (induction hooks arbitrary: h) (simp_all add: hooked_draws_def split_beta)

section \<open>What an optional promises\<close>

text \<open>
  Without cache functions and equality tests: a period of visibility begins with the first drawing after a
  spawn that follows a drawing while hidden; the widget of a period is made at its first drawing, from the
  properties of the last spawn, and shown until a drawing while hidden ends the period.
\<close>

record ('w, 'p) period =
  period_visible :: bool
  period_properties :: "'p option"
  period_widget :: "'w option"
  period_runs :: nat

definition period_draw ::
  "'w \<Rightarrow> (nat \<Rightarrow> 'p option \<Rightarrow> 'w) \<Rightarrow> ('w, 'p) period \<Rightarrow> ('w, 'p) period \<times> 'w" where
  "period_draw stub factory s =
     (if \<not> period_visible s then (s\<lparr>period_widget := None\<rparr>, stub)
      else case period_widget s of
        Some w \<Rightarrow> (s, w)
      | None \<Rightarrow>
          let w = factory (period_runs s) (period_properties s)
          in (s\<lparr>period_widget := Some w, period_runs := Suc (period_runs s)\<rparr>, w))"

fun period_step ::
  "'w \<Rightarrow> (nat \<Rightarrow> 'p option \<Rightarrow> 'w) \<Rightarrow> 'p optional_op \<Rightarrow> ('w, 'p) period \<Rightarrow> ('w, 'p) period \<times> 'w list" where
  "period_step stub factory (Spawn p) s = (s\<lparr>period_visible := True, period_properties := p\<rparr>, [])"
| "period_step stub factory Destroy s = (s\<lparr>period_visible := False\<rparr>, [])"
| "period_step stub factory Draw_optional s =
     (let (s', w) = period_draw stub factory s in (s', [w]))"

definition period_of :: "('w, 'p) optional_widget \<Rightarrow> ('w, 'p) period" where
  "period_of o' =
     \<lparr>period_visible = (optional_spawned o' = Some True), period_properties = optional_properties o',
      period_widget = (if cond_last_value (optional_conditional o') = Some True
                       then cond_widget (optional_conditional o') else None),
      period_runs = cond_runs (optional_conditional o')\<rparr>"

definition optional_ok ::
  "'w \<Rightarrow> (nat \<Rightarrow> 'p option \<Rightarrow> 'w) \<Rightarrow> ('w, 'p) optional_widget \<Rightarrow> bool" where
  "optional_ok stub factory o' \<longleftrightarrow>
     optional_factory o' = factory \<and>
     (let c = optional_conditional o' in
      create_stub c = stub \<and> cond_cached c \<and> cond_cache_function c \<and> \<not> cond_persisted c \<and>
      (cond_last_value c = None \<longrightarrow> cond_widget c = None) \<and>
      (cond_last_value c = Some True \<longrightarrow> cond_widget c \<noteq> None) \<and>
      (optional_spawned o' = None \<longrightarrow> cond_widget c = None))"

lemma create_stub_update [simp]:
  "create_stub (c\<lparr>cond_factory := f\<rparr>) = create_stub c"
  "create_stub (c\<lparr>cond_last_value := v\<rparr>) = create_stub c"
  "create_stub (c\<lparr>cond_widget := w, cond_runs := n\<rparr>) = create_stub c"
  by (simp_all add: create_stub_def split: option.split)

lemma optional_draw_refines:
  assumes "optional_ok stub factory o'"
  shows "optional_ok stub factory (fst (optional_draw o')) \<and>
    period_of (fst (optional_draw o')) = fst (period_draw stub factory (period_of o')) \<and>
    snd (optional_draw o') = snd (period_draw stub factory (period_of o'))"
proof (cases "optional_spawned o' = Some True")
  case False
  with assms show ?thesis
    by (auto simp: optional_ok_def optional_draw_def period_draw_def period_of_def conditional_draw_def Let_def)
next
  case True
  with assms show ?thesis
    by (cases "cond_last_value (optional_conditional o')")
      (auto simp: optional_ok_def optional_draw_def period_draw_def period_of_def conditional_draw_def
        get_or_create_widget_def create_widget_def Let_def)
qed

lemma optional_step_refines:
  assumes "optional_ok stub factory o'"
  shows "optional_ok stub factory (fst (optional_step op o')) \<and>
    period_of (fst (optional_step op o')) = fst (period_step stub factory op (period_of o')) \<and>
    snd (optional_step op o') = snd (period_step stub factory op (period_of o'))"
proof (cases op)
  case Draw_optional
  with optional_draw_refines [OF assms] show ?thesis by (simp add: split_beta)
qed (use assms in \<open>simp_all add: optional_spawn_def optional_destroy_def period_of_def optional_ok_def Let_def\<close>)

lemma optional_run_refines:
  assumes "optional_ok stub factory o'"
  shows "snd (emit_run optional_step ops o') = snd (emit_run (period_step stub factory) ops (period_of o'))"
  using assms
proof (induction ops arbitrary: o')
  case Nil
  show ?case by simp
next
  case (Cons op ops)
  note r = optional_step_refines [OF Cons.prems, of op]
  from Cons.IH [OF r [THEN conjunct1]] r show ?case by simp
qed

section \<open>Properties\<close>

text \<open>
  A cached conditional that stays visible shows one widget per block of equal values: at every drawing the
  widget is the one made when the present value last became current, and the factory has run exactly once
  for every change of the value.
\<close>

theorem conditional_memoizes:
  "snd (conditional_draws (=) (map (\<lambda>v. (True, Some v)) vs)
      (conditional_cache (\<lambda>n current. mk n) (new_conditional stub))) =
    map (\<lambda>k. mk (length (remdups_adj (take (Suc k) vs)) - 1)) [0..<length vs]"
proof -
  have "memo_state mk [] (conditional_cache (\<lambda>n current. mk n) (new_conditional stub))"
    by (simp add: memo_state_def conditional_cache_def new_conditional_def)
  from memo_state_draws [OF this, of vs] show ?thesis by simp
qed

text \<open>
  A change of the cached value that a drawing of the hidden conditional sees is lost: the hidden drawing
  stores the new value, so that the next visible one finds it unchanged and shows the widget made for the
  old value. A visible drawing that sees the change first makes a new widget.
\<close>

theorem conditional_hidden_change_lost:
  assumes "cond_cached c" and "cond_cache_function c" and "\<not> cond_persisted c"
    and "cond_widget c = Some w" and "cond_last_value c = Some old" and "new \<noteq> old"
  shows "snd (conditional_draws (=) [(False, Some new), (True, Some new)] c) = [create_stub c, w] \<and>
    snd (conditional_draws (=) [(True, Some new)] c) = [cond_factory c (cond_runs c) (Some w)]"
  using assms
  by (simp add: conditional_draws_def conditional_draw_def get_or_create_widget_def create_widget_def
      Let_def)

theorem conditional_hidden_change_lost_witness:
  "snd (conditional_draws (=) [(False, Some (2::int)), (True, Some 2)]
     (fst (conditional_draw (=) True (Some 1) (conditional_cache (\<lambda>n current. n) (new_conditional 9))))) =
   [9, 0]"
proof -
  let ?c = "fst (conditional_draw (=) True (Some (1::int))
    (conditional_cache (\<lambda>n current. n) (new_conditional 9)))"
  have "cond_cached ?c" "cond_cache_function ?c" "\<not> cond_persisted ?c" "cond_widget ?c = Some 0"
    "cond_last_value ?c = Some 1" "(2::int) \<noteq> 1"
    by (simp_all add: conditional_draw_def get_or_create_widget_def create_widget_def
        conditional_cache_def new_conditional_def Let_def)
  from conditional_hidden_change_lost [OF this, THEN conjunct1]
  show ?thesis
    by (simp add: create_stub_def conditional_draw_def get_or_create_widget_def create_widget_def
        conditional_cache_def new_conditional_def Let_def)
qed

text \<open>
  A widget cached by its hook is never stale: at every drawing the widget shown was made from a hook that
  is equal to the present one.
\<close>

theorem hooked_cache_follows_hook:
  assumes "k < length hooks"
  shows "\<exists>n. snd (hooked_draws (\<lambda>n hook current. mk n hook) hooks
      (hooked_cache (\<lambda>n hook current. mk n hook) False new_hooked)) ! k = mk n (hooks ! k)"
  using assms
  by (intro hook_state_draws)
    (simp_all add: hook_state_def hooked_cache_def new_hooked_def)

theorem hooked_cache_follows_hook_witness:
  "\<exists>n. snd (hooked_draws (\<lambda>n hook current. (n::nat, hook)) [5, 5, 7::int]
      (hooked_cache (\<lambda>n hook current. (n, hook)) False new_hooked)) ! 2 = (n, 7)"
proof -
  have "2 < length [5, 5, 7::int]" by simp
  from hooked_cache_follows_hook [OF this, of Pair] show ?thesis by simp
qed

text \<open>
  An optional implements periods of visibility, whatever the order of spawns, destructions and drawings:
  a period's widget is made once, at its first drawing, from the properties of the last spawn, and a period
  ends only with a drawing while hidden. The cache on \<open>#spawned\<close> is a detail nobody can observe.
\<close>

theorem optional_refines_periods:
  "snd (emit_run optional_step ops (new_optional stub attach factory spawned)) =
     snd (emit_run (period_step stub (\<lambda>n p. attach (factory n p))) ops
       \<lparr>period_visible = (spawned = Some True), period_properties = None, period_widget = None,
        period_runs = 0\<rparr>)"
proof -
  have "optional_ok stub (\<lambda>n p. attach (factory n p)) (new_optional stub attach factory spawned)"
    by (simp add: optional_ok_def new_optional_def conditional_cache_def new_conditional_def
        create_stub_def Let_def)
  from optional_run_refines [OF this, of ops] show ?thesis
    by (simp add: period_of_def new_optional_def conditional_cache_def new_conditional_def)
qed

text \<open>
  Spawning again before the next drawing has no effect on the widget: neither a second spawn of the
  visible optional nor a destruction followed at once by a spawn replaces it, and the properties given to
  the new spawn are ignored until a drawing has found the optional hidden.
\<close>

theorem optional_respawn_ignored:
  "snd (emit_run optional_step [Spawn p, Draw_optional, Spawn q, Draw_optional]
      (new_optional stub attach factory None)) = [attach (factory 0 p), attach (factory 0 p)] \<and>
   snd (emit_run optional_step [Spawn p, Draw_optional, Destroy, Spawn q, Draw_optional]
      (new_optional stub attach factory None)) = [attach (factory 0 p), attach (factory 0 p)] \<and>
   snd (emit_run optional_step [Spawn p, Draw_optional, Destroy, Draw_optional, Spawn q, Draw_optional]
      (new_optional stub attach factory None)) = [attach (factory 0 p), stub, attach (factory 1 q)]"
proof -
  have ok: "optional_ok stub (\<lambda>n p. attach (factory n p)) (new_optional stub attach factory None)"
    by (simp add: optional_ok_def new_optional_def conditional_cache_def new_conditional_def
        create_stub_def Let_def)
  show ?thesis unfolding optional_run_refines [OF ok]
    by (simp add: period_of_def new_optional_def conditional_cache_def new_conditional_def
        period_draw_def Let_def)
qed

end
