(* ===== verification/Contexts.thy ===== *)
theory Contexts
  imports Synchronization Widgets
begin

text \<open>
  \<open>context/PlatformContext.ts\<close>: the widget that loads the data of a page and shows a loading indicator until
  every loader has answered, and the registry of contexts. It composes the synchronizer of the widget with
  pausing and notification. Loading is an emitted effect; the answer of a loader calls \<open>process\<close>.
\<close>

datatype page_loader =
    Applications_loader | Assemblies_loader | Modules_loader | Projects_loader | Resources_loader
  | Prepared_configurations_loader

datatype context_phase = Context_created | Context_loading | Context_initialized

datatype context_handler = Pause_context | Continue_context | Mark_initialized

record page_context =
  context_phase :: context_phase
  with_applications :: bool
  with_assemblies :: bool
  with_modules :: bool
  with_projects :: bool
  with_resources :: bool
  with_prepared_configurations :: bool
  context_synchronizer :: "(page_loader, context_handler) synchronizer"
  context_widget :: "(unit, unit) widget"

datatype context_view = Loading_view | Page_view

datatype context_effect = Load page_loader | Request_render nat | Show context_view

text \<open>The context has no configuration of its own: its widget is not managed.\<close>

definition new_context :: page_context where
  "new_context =
     \<lparr>context_phase = Context_created, with_applications = False, with_assemblies = False,
      with_modules = False, with_projects = False, with_resources = False,
      with_prepared_configurations = False, context_synchronizer = new_synchronizer,
      context_widget = new_widget 0 False False\<rparr>"

definition include_applications :: "page_context \<Rightarrow> page_context" where
  "include_applications c = c\<lparr>with_applications := True\<rparr>"

definition include_assemblies :: "page_context \<Rightarrow> page_context" where
  "include_assemblies c = c\<lparr>with_assemblies := True\<rparr>"

definition include_modules :: "page_context \<Rightarrow> page_context" where
  "include_modules c = c\<lparr>with_modules := True\<rparr>"

definition include_projects :: "page_context \<Rightarrow> page_context" where
  "include_projects c = c\<lparr>with_projects := True\<rparr>"

definition include_resources :: "page_context \<Rightarrow> page_context" where
  "include_resources c = c\<lparr>with_resources := True\<rparr>"

definition include_prepared_configurations :: "page_context \<Rightarrow> page_context" where
  "include_prepared_configurations c = c\<lparr>with_prepared_configurations := True\<rparr>"

definition context_reload :: "page_context \<Rightarrow> page_context" where
  "context_reload c =
     c\<lparr>context_synchronizer := sync_reset (context_synchronizer c), context_phase := Context_created\<rparr>"

section \<open>The synchronization of a render\<close>

definition included_loaders :: "page_context \<Rightarrow> page_loader list" where
  "included_loaders c =
     (if with_applications c then [Applications_loader] else []) @
     (if with_assemblies c then [Assemblies_loader] else []) @
     (if with_modules c then [Modules_loader] else []) @
     (if with_projects c then [Projects_loader] else []) @
     (if with_resources c then [Resources_loader] else []) @
     (if with_prepared_configurations c then [Prepared_configurations_loader] else [])"

definition context_action :: "page_context \<Rightarrow> page_context" where
  "context_action c =
     (if context_phase c = Context_initialized \<or> context_phase c = Context_loading then c
      else
        c\<lparr>context_phase := Context_loading,
          context_synchronizer := fold sync_action (included_loaders c)
            (sync_add_on_complete Mark_initialized (context_synchronizer c))\<rparr>)"

definition requests :: "('a, 's) widget_effect list \<Rightarrow> context_effect list" where
  "requests es = concat (map (\<lambda>e. case e of Set_state i \<Rightarrow> [Request_render i] | _ \<Rightarrow> []) es)"

text \<open>What the handlers and actions of the synchronizer do to the context.\<close>

fun run_context_call ::
  "(page_loader, context_handler) sync_call \<Rightarrow> page_context \<Rightarrow> page_context \<times> context_effect list" where
  "run_context_call (Run_action loader) c = (c, [Load loader])"
| "run_context_call (Run_handler Pause_context) c =
     (c\<lparr>context_widget := pause_render (context_widget c)\<rparr>, [])"
| "run_context_call (Run_handler Continue_context) c =
     (let (w, es) = continue_render (context_widget c) in (c\<lparr>context_widget := w\<rparr>, requests es))"
| "run_context_call (Run_handler Mark_initialized) c = (c\<lparr>context_phase := Context_initialized\<rparr>, [])"

definition run_context_calls ::
  "(page_loader, context_handler) sync_call list \<Rightarrow> page_context \<Rightarrow> page_context \<times> context_effect list" where
  "run_context_calls = emit_run run_context_call"

text \<open>\<open>Widget.synchronize\<close>: every render adds its handlers again and starts the synchronizer.\<close>

definition context_synchronize :: "page_context \<Rightarrow> page_context \<times> context_effect list" where
  "context_synchronize c =
     (let c1 = context_action (c\<lparr>context_synchronizer :=
            sync_add_on_complete Continue_context
              (sync_add_on_start Pause_context (context_synchronizer c))\<rparr>);
          (s, calls) = sync_start (context_synchronizer c1)
      in run_context_calls calls (c1\<lparr>context_synchronizer := s\<rparr>))"

text \<open>The synchronization is an action of \<open>onRender\<close>: it runs before the state changes and the drawing.\<close>

definition context_render :: "nat \<Rightarrow> page_context \<Rightarrow> page_context \<times> context_effect list" where
  "context_render i c =
     (let (c1, loads) = context_synchronize c;
          w = fst (render_widget i (context_widget c1))
      in (c1\<lparr>context_widget := w\<rparr>,
          loads @ [Show (if context_phase c1 = Context_initialized then Page_view else Loading_view)]))"

definition context_mount :: "nat \<Rightarrow> page_context \<Rightarrow> page_context" where
  "context_mount i c = c\<lparr>context_widget := fst (mount_widget i (context_widget c))\<rparr>"

definition context_unmount :: "nat \<Rightarrow> page_context \<Rightarrow> page_context" where
  "context_unmount i c = c\<lparr>context_widget := fst (unmount_widget i (context_widget c))\<rparr>"

text \<open>The answer of any loader: \<open>synchronizer.process\<close>.\<close>

definition context_loaded :: "page_context \<Rightarrow> page_context \<times> context_effect list" where
  "context_loaded c =
     (let (s, calls) = sync_process (context_synchronizer c)
      in run_context_calls calls (c\<lparr>context_synchronizer := s\<rparr>))"

datatype context_op = Render_context nat | Mount_context nat | Unmount_context nat | Loader_answered | Reload

fun context_step :: "context_op \<Rightarrow> page_context \<Rightarrow> page_context \<times> context_effect list" where
  "context_step (Render_context i) c = context_render i c"
| "context_step (Mount_context i) c = (context_mount i c, [])"
| "context_step (Unmount_context i) c = (context_unmount i c, [])"
| "context_step Loader_answered c = context_loaded c"
| "context_step Reload c = (context_reload c, [])"

section \<open>The registry\<close>

definition platform_context ::
  "string \<Rightarrow> (string, page_context) js_map \<Rightarrow> (string, page_context) js_map" where
  "platform_context name contexts = map_put name new_context contexts"

definition reload_contexts :: "(string, page_context) js_map \<Rightarrow> (string, page_context) js_map" where
  "reload_contexts contexts = map (\<lambda>(name, c). (name, context_reload c)) contexts"

definition reload_context ::
  "string \<Rightarrow> (string, page_context) js_map \<Rightarrow> (string, page_context) js_map" where
  "reload_context name contexts =
     (case map_get contexts name of None \<Rightarrow> contexts | Some c \<Rightarrow> map_put name (context_reload c) contexts)"

section \<open>Handlers and loads\<close>

text \<open>The widget of the context listens at instance \<open>i\<close>.\<close>

definition listens :: "nat \<Rightarrow> page_context \<Rightarrow> bool" where
  "listens i c \<longleftrightarrow>
     bound_trigger (context_widget c) = Some i \<and> i \<in> set (trigger_refs (context_widget c)) \<and>
     widget_state (context_widget c) \<noteq> UNMOUNTED"

lemma load_calls:
  "run_context_calls (map Run_action ls) c = (c, map Load ls)"
  by (induction ls) (simp_all add: run_context_calls_def emit_run.simps(2))

lemma start_calls:
  assumes "set hs \<subseteq> {Pause_context}"
  shows "run_context_calls (map Run_handler hs) c =
    (if hs = [] then c else c\<lparr>context_widget := pause_render (context_widget c)\<rparr>, [])"
  using assms
proof (induction hs arbitrary: c)
  case Nil
  show ?case by (simp add: run_context_calls_def)
next
  case (Cons h hs)
  then show ?case by (auto simp: run_context_calls_def emit_run.simps(2) pause_render_def)
qed

lemma run_context_calls_append:
  "run_context_calls (xs @ ys) c =
     (fst (run_context_calls ys (fst (run_context_calls xs c))),
      snd (run_context_calls xs c) @ snd (run_context_calls ys (fst (run_context_calls xs c))))"
  by (rule prod_eqI) (simp_all add: run_context_calls_def)

lemma pause_then_load:
  "run_context_calls (Run_handler Pause_context # map Run_action ls) c =
     (c\<lparr>context_widget := pause_render (context_widget c)\<rparr>, map Load ls)"
  using load_calls [of ls "c\<lparr>context_widget := pause_render (context_widget c)\<rparr>"]
  by (simp add: run_context_calls_def emit_run.simps(2))

text \<open>
  The completion handlers mark the context and continue it: a render is requested if rendering was paused.
  Together they leave everything but the phase and the pause as it was.
\<close>

definition completed :: "context_handler list \<Rightarrow> page_context \<Rightarrow> page_context \<Rightarrow> bool" where
  "completed hs c c' \<longleftrightarrow>
     context_phase c' = (if Mark_initialized \<in> set hs then Context_initialized else context_phase c) \<and>
     render_paused (context_widget c') =
       (render_paused (context_widget c) \<and> Continue_context \<notin> set hs) \<and>
     context_synchronizer c' = context_synchronizer c \<and> included_loaders c' = included_loaders c \<and>
     bound_trigger (context_widget c') = bound_trigger (context_widget c) \<and>
     trigger_refs (context_widget c') = trigger_refs (context_widget c) \<and>
     widget_state (context_widget c') = widget_state (context_widget c)"

lemma included_loaders_update [simp]:
  "included_loaders (c\<lparr>context_phase := p\<rparr>) = included_loaders c"
  "included_loaders (c\<lparr>context_widget := w\<rparr>) = included_loaders c"
  "included_loaders (c\<lparr>context_synchronizer := s\<rparr>) = included_loaders c"
  by (simp_all add: included_loaders_def)

lemma complete_call:
  assumes "h \<in> {Mark_initialized, Continue_context}" and "listens i c"
  shows "completed [h] c (fst (run_context_call (Run_handler h) c)) \<and>
    snd (run_context_call (Run_handler h) c) =
      (if h = Continue_context \<and> render_paused (context_widget c) then [Request_render i] else [])"
  using assms
  by (cases "render_paused (context_widget c)")
    (auto simp: completed_def split_beta listens_def continue_render_def notify_trigger_def
      trigger_notify_def new_trigger_def requests_def)

lemma complete_calls:
  assumes "set hs \<subseteq> {Mark_initialized, Continue_context}" and "listens i c"
  shows "completed hs c (fst (run_context_calls (map Run_handler hs) c)) \<and>
    snd (run_context_calls (map Run_handler hs) c) =
      (if Continue_context \<in> set hs \<and> render_paused (context_widget c) then [Request_render i] else [])"
  using assms
proof (induction hs arbitrary: c)
  case Nil
  show ?case by (simp add: run_context_calls_def completed_def)
next
  case (Cons h hs)
  let ?c = "fst (run_context_call (Run_handler h) c)"
  have h: "completed [h] c ?c" "snd (run_context_call (Run_handler h) c) =
      (if h = Continue_context \<and> render_paused (context_widget c) then [Request_render i] else [])"
    using complete_call [of h i c] Cons.prems by auto
  from h(1) Cons.prems(2) have "listens i ?c" by (simp add: listens_def completed_def)
  with Cons.IH [of ?c] Cons.prems(1) h show ?case
    by (auto simp: run_context_calls_def completed_def)
qed

lemma completed_listens: "completed hs c c' \<Longrightarrow> listens i c \<Longrightarrow> listens i c'"
  by (simp add: completed_def listens_def)

section \<open>Waiting for the loaders\<close>

text \<open>The handlers that renders have added, and the actions of the round.\<close>

definition handlers_ok :: "page_context \<Rightarrow> bool" where
  "handlers_ok c \<longleftrightarrow>
     \<not> sync_managed (context_synchronizer c) \<and>
     sync_on_start (context_synchronizer c) \<noteq> [] \<and>
     set (sync_on_start (context_synchronizer c)) \<subseteq> {Pause_context} \<and>
     set (sync_on_complete (context_synchronizer c)) = {Mark_initialized, Continue_context}"

definition waiting :: "nat \<Rightarrow> page_context \<Rightarrow> bool" where
  "waiting i c \<longleftrightarrow>
     handlers_ok c \<and> listens i c \<and>
     (sync_counter (context_synchronizer c) < length (sync_actions (context_synchronizer c)) \<longrightarrow>
        render_paused (context_widget c))"

lemma context_loaded_early:
  assumes "\<not> sync_managed (context_synchronizer c)"
    and "Suc (sync_counter (context_synchronizer c)) < length (sync_actions (context_synchronizer c))"
  shows "context_loaded c =
    (c\<lparr>context_synchronizer := (context_synchronizer c)
        \<lparr>sync_counter := Suc (sync_counter (context_synchronizer c))\<rparr>\<rparr>, [])"
  using assms by (simp add: context_loaded_def sync_process_def Let_def run_context_calls_def)

lemma context_loaded_late:
  assumes "handlers_ok c" and "listens i c"
    and "length (sync_actions (context_synchronizer c)) \<le> Suc (sync_counter (context_synchronizer c))"
  shows "completed [Mark_initialized, Continue_context]
      (c\<lparr>context_synchronizer := (context_synchronizer c)
        \<lparr>sync_counter := Suc (sync_counter (context_synchronizer c)), sync_done := True\<rparr>\<rparr>)
      (fst (context_loaded c)) \<and>
    snd (context_loaded c) = (if render_paused (context_widget c) then [Request_render i] else [])"
proof -
  let ?c = "c\<lparr>context_synchronizer := (context_synchronizer c)
    \<lparr>sync_counter := Suc (sync_counter (context_synchronizer c)), sync_done := True\<rparr>\<rparr>"
  have "listens i ?c" using assms(2) by (simp add: listens_def)
  from complete_calls [OF _ this, of "sync_on_complete (context_synchronizer c)"] assms
  show ?thesis
    by (simp add: context_loaded_def sync_process_def Let_def handlers_ok_def completed_def)
qed

section \<open>Renders\<close>

definition fresh_context :: "page_context \<Rightarrow> bool" where
  "fresh_context c \<longleftrightarrow>
     context_phase c = Context_created \<and> context_synchronizer c = new_synchronizer \<and>
     context_widget c = new_widget 0 False False"

text \<open>The state of a round: what the properties depend on.\<close>

definition round_state :: "nat \<Rightarrow> page_loader list \<Rightarrow> nat \<Rightarrow> context_phase \<Rightarrow> bool \<Rightarrow> page_context \<Rightarrow> bool" where
  "round_state i ls n phase paused c \<longleftrightarrow>
     handlers_ok c \<and> listens i c \<and> context_phase c = phase \<and>
     render_paused (context_widget c) = paused \<and>
     sync_actions (context_synchronizer c) = ls \<and> sync_counter (context_synchronizer c) = n"

lemma fold_sync_action [simp]:
  "fold sync_action ls s = s\<lparr>sync_actions := sync_actions s @ ls\<rparr>"
  by (induction ls arbitrary: s) (simp_all add: sync_action_def)

lemma listens_render:
  "listens i c \<Longrightarrow> listens i (c\<lparr>context_widget := fst (render_widget i (context_widget c))\<rparr>)"
  by (simp add: listens_def)

lemma first_render:
  assumes "fresh_context c" and "included_loaders c \<noteq> []"
  shows "round_state i (included_loaders c) 0 Context_loading True (fst (context_render i c)) \<and>
    snd (context_render i c) = map Load (included_loaders c) @ [Show Loading_view]"
  using assms
  by (simp add: fresh_context_def context_render_def context_synchronize_def context_action_def
      sync_add_on_complete_def sync_add_on_start_def new_synchronizer_def sync_start_def Let_def split_beta
      run_context_calls_append pause_then_load round_state_def
      handlers_ok_def listens_def new_widget_def)

lemma empty_render:
  assumes "fresh_context c" and "included_loaders c = []"
  shows "round_state i [] 0 Context_initialized False (fst (context_render i c)) \<and>
    snd (context_render i c) = [Show Page_view]"
  using assms
  by (simp add: fresh_context_def context_render_def context_synchronize_def context_action_def
      sync_add_on_complete_def sync_add_on_start_def new_synchronizer_def sync_start_def Let_def split_beta
      run_context_calls_def new_widget_def continue_render_def requests_def round_state_def handlers_ok_def
      listens_def insert_commute)

lemma render_again:
  assumes "round_state i ls n phase paused c" and "phase \<noteq> Context_created" and "n \<noteq> length ls"
  shows "round_state i ls n phase True (fst (context_render i c)) \<and>
    snd (context_render i c) =
      map Load ls @ [Show (if phase = Context_initialized then Page_view else Loading_view)]"
proof -
  let ?s = "sync_add_on_complete Continue_context (sync_add_on_start Pause_context (context_synchronizer c))"
  let ?c = "c\<lparr>context_synchronizer := ?s\<rparr>"
  have hs: "set (sync_on_start ?s) \<subseteq> {Pause_context}" "sync_on_start ?s \<noteq> []"
    using assms(1) by (auto simp: round_state_def handlers_ok_def sync_add_on_complete_def sync_add_on_start_def)
  have phase: "context_phase c = Context_initialized \<or> context_phase c = Context_loading"
    using assms by (cases phase) (auto simp: round_state_def)
  have "context_synchronize c =
    run_context_calls (map Run_handler (sync_on_start ?s) @ map Run_action ls) ?c"
    using assms phase
    by (auto simp: context_synchronize_def context_action_def sync_start_def round_state_def handlers_ok_def
        sync_add_on_complete_def sync_add_on_start_def Let_def)
  then have "context_synchronize c =
    (?c\<lparr>context_widget := pause_render (context_widget c)\<rparr>, map Load ls)"
    using hs(2) by (simp add: run_context_calls_append start_calls [OF hs(1)] load_calls)
  with assms(1) show ?thesis
    by (auto simp: context_render_def round_state_def handlers_ok_def listens_def sync_add_on_complete_def
        sync_add_on_start_def)
qed

lemma render_done:
  assumes "round_state i ls (length ls) Context_initialized False c"
  shows "round_state i ls (length ls) Context_initialized False (fst (context_render i c)) \<and>
    snd (context_render i c) = [Show Page_view]"
proof -
  let ?s = "sync_add_on_complete Continue_context (sync_add_on_start Pause_context (context_synchronizer c))"
  let ?c = "c\<lparr>context_synchronizer := ?s\<rparr>"
  have "listens i ?c" "set (sync_on_complete ?s) \<subseteq> {Mark_initialized, Continue_context}"
    using assms by (auto simp: round_state_def handlers_ok_def listens_def sync_add_on_complete_def
        sync_add_on_start_def)
  note r = complete_calls [OF this(2) this(1)]
  have "context_synchronize c = run_context_calls (map Run_handler (sync_on_complete ?s)) ?c"
    using assms
    by (simp add: context_synchronize_def context_action_def sync_start_def round_state_def
        sync_add_on_complete_def sync_add_on_start_def Let_def)
  with r assms show ?thesis
    by (auto simp: context_render_def split_beta round_state_def handlers_ok_def listens_def completed_def
        sync_add_on_complete_def sync_add_on_start_def)
qed

lemma mount_round:
  "round_state i ls n phase paused c \<Longrightarrow> round_state i ls n phase paused (context_mount i c)"
  by (auto simp: round_state_def handlers_ok_def listens_def context_mount_def mount_widget_def enter_def
      Let_def)

section \<open>Answers\<close>

lemma answer_early:
  assumes "round_state i ls n phase paused c" and "Suc n < length ls"
  shows "round_state i ls (Suc n) phase paused (fst (context_loaded c)) \<and> snd (context_loaded c) = []"
proof -
  have "context_loaded c =
    (c\<lparr>context_synchronizer := (context_synchronizer c)
        \<lparr>sync_counter := Suc (sync_counter (context_synchronizer c))\<rparr>\<rparr>, [])"
    using assms by (intro context_loaded_early) (auto simp: round_state_def handlers_ok_def)
  with assms show ?thesis by (auto simp: round_state_def handlers_ok_def listens_def)
qed

lemma answer_late:
  assumes "round_state i ls n phase paused c" and "length ls \<le> Suc n"
  shows "round_state i ls (Suc n) Context_initialized False (fst (context_loaded c)) \<and>
    snd (context_loaded c) = (if paused then [Request_render i] else [])"
  using assms context_loaded_late [of c i]
  by (auto simp: round_state_def handlers_ok_def listens_def completed_def)

lemma answers_early:
  assumes "round_state i ls n phase paused c" and "n + k < length ls"
  shows "round_state i ls (n + k) phase paused (fst (emit_run context_step (replicate k Loader_answered) c)) \<and>
    snd (emit_run context_step (replicate k Loader_answered) c) = []"
  using assms
proof (induction k arbitrary: n c)
  case 0
  then show ?case by simp
next
  case (Suc k)
  from Suc.prems have "round_state i ls (Suc n) phase paused (fst (context_loaded c)) \<and> snd (context_loaded c) = []"
    by (intro answer_early) auto
  with Suc.IH [of "Suc n" "fst (context_loaded c)"] Suc.prems show ?case by simp
qed

lemma answers_late:
  assumes "round_state i ls n phase paused c" and "length ls \<le> Suc n"
  shows "round_state i ls (n + Suc k) Context_initialized False
      (fst (emit_run context_step (replicate (Suc k) Loader_answered) c)) \<and>
    snd (emit_run context_step (replicate (Suc k) Loader_answered) c) =
      (if paused then [Request_render i] else [])"
  using assms
proof (induction k arbitrary: n c phase paused)
  case 0
  with answer_late [OF 0] show ?case by simp
next
  case (Suc k)
  note a = answer_late [OF Suc.prems]
  from Suc.IH [OF a [THEN conjunct1]] a Suc.prems(2) show ?case by simp
qed

text \<open>All answers of a round of \<open>length ls\<close> loads.\<close>

lemma answers_complete:
  assumes "round_state i ls 0 phase True c" and "ls \<noteq> []"
  shows "round_state i ls (length ls) Context_initialized False
      (fst (emit_run context_step (replicate (length ls) Loader_answered) c)) \<and>
    snd (emit_run context_step (replicate (length ls) Loader_answered) c) = [Request_render i]"
proof -
  from assms(2) obtain k where k: "length ls = Suc k" by (cases ls) auto
  then have "replicate (length ls) Loader_answered = replicate k Loader_answered @ [Loader_answered]"
    by (simp add: replicate_append_same)
  moreover note answers_early [OF assms(1), of k]
  moreover note answer_late [of i ls k phase True]
  ultimately show ?thesis using k by simp
qed

section \<open>Properties\<close>

text \<open>
  C26. A context becomes ready. Its first render loads every included kind of data once, in a fixed order,
  and shows the loading indicator; nothing happens until the last of the loaders has answered, whatever
  their order; the last answer requests exactly one render, and that render shows the page. Without
  included data the first render already shows the page.
\<close>

theorem context_becomes_ready:
  assumes "fresh_context c"
  shows "snd (emit_run context_step ([Render_context i, Mount_context i] @
        replicate (length (included_loaders c)) Loader_answered @ [Render_context i]) c) =
      (if included_loaders c = [] then [Show Page_view, Show Page_view]
       else map Load (included_loaders c) @ [Show Loading_view, Request_render i, Show Page_view]) \<and>
    (\<forall>k<length (included_loaders c).
      snd (emit_run context_step ([Render_context i, Mount_context i] @ replicate k Loader_answered) c) =
        map Load (included_loaders c) @ [Show Loading_view])"
proof (cases "included_loaders c = []")
  case True
  note e = empty_render [OF assms True, of i]
  have "round_state i [] (length []) Context_initialized False (context_mount i (fst (context_render i c)))"
    using e mount_round by simp
  from render_done [OF this] e show ?thesis using True by simp
next
  case False
  define c' where "c' = context_mount i (fst (context_render i c))"
  note f = first_render [OF assms False, of i]
  have m: "round_state i (included_loaders c) 0 Context_loading True c'"
    unfolding c'_def using f by (intro mount_round) blast
  note a = answers_complete [OF m False]
  note r = render_done [OF a [THEN conjunct1]]
  have e: "snd (emit_run context_step (replicate k Loader_answered) c') = []"
    if "k < length (included_loaders c)" for k
    using answers_early [OF m, of k] that by simp
  show ?thesis using f a r e False by (simp add: c'_def [symmetric])
qed

theorem context_becomes_ready_witness:
  "snd (emit_run context_step ([Render_context 0, Mount_context 0] @ replicate 2 Loader_answered @
      [Render_context 0]) (include_projects (include_resources new_context))) =
    [Load Projects_loader, Load Resources_loader, Show Loading_view, Request_render 0, Show Page_view]"
proof -
  let ?c = "include_projects (include_resources new_context)"
  have "fresh_context ?c" and l: "included_loaders ?c = [Projects_loader, Resources_loader]"
    by (simp_all add: fresh_context_def new_context_def include_projects_def include_resources_def
        included_loaders_def)
  from context_becomes_ready [OF this(1), of 0, THEN conjunct1, unfolded l]
  show ?thesis by (simp only: list.size One_nat_def [symmetric] add_0 Suc_1 add_Suc nat_1_add_1) simp
qed

text \<open>
  A second render while the data is loading breaks the context. It starts every load again; the page is
  shown when as many answers have come as there are loads, although they may be answers of the same loader;
  and once the remaining answers have come the counter has passed the number of actions for good: from then
  on every render starts all loads again and requests a further render when the first of them answers, so
  that rendering and loading never end.
\<close>

theorem context_rerender_never_ends:
  assumes "fresh_context c" and "included_loaders c \<noteq> []"
  shows "let ls = included_loaders c; answers = replicate (length ls) Loader_answered in
    snd (emit_run context_step ([Render_context i, Mount_context i, Render_context i] @
        answers @ [Render_context i] @ answers @
        concat (replicate m (Render_context i # answers))) c) =
      map Load ls @ [Show Loading_view] @ map Load ls @ [Show Loading_view, Request_render i, Show Page_view] @
      concat (replicate m (map Load ls @ [Show Page_view, Request_render i]))"
proof -
  define ls where "ls = included_loaders c"
  define answers where "answers = replicate (length ls) Loader_answered"
  from assms(2) obtain k where k: "length ls = Suc k" unfolding ls_def by (cases "included_loaders c") auto
  define c1 where "c1 = context_mount i (fst (context_render i c))"
  note f = first_render [OF assms, of i, folded ls_def]
  have m: "round_state i ls 0 Context_loading True c1"
    unfolding c1_def using f by (intro mount_round) blast
  define c2 where "c2 = fst (context_render i c1)"
  note r = render_again [OF m _ , folded c2_def] k
  then have r: "round_state i ls 0 Context_loading True c2"
      "snd (context_render i c1) = map Load ls @ [Show Loading_view]" by simp_all
  define c3 where "c3 = fst (emit_run context_step answers c2)"
  have "ls \<noteq> []" using k by auto
  note a = answers_complete [OF r(1) this, folded answers_def, folded c3_def]
  define c4 where "c4 = fst (context_render i c3)"
  note d = render_done [OF a [THEN conjunct1], folded c4_def]
  define c5 where "c5 = fst (emit_run context_step answers c4)"
  note l = answers_late [OF d [THEN conjunct1], of k, folded k, folded answers_def, folded c5_def]
  have loop: "snd (emit_run context_step (concat (replicate m (Render_context i # answers))) v) =
      concat (replicate m (map Load ls @ [Show Page_view, Request_render i]))"
    if "round_state i ls n Context_initialized False v" "length ls < n" for n v
    using that
  proof (induction m arbitrary: n v)
    case (Suc m)
    note r = render_again [OF Suc.prems(1)]
    note l = answers_late [of i ls n Context_initialized True "fst (context_render i v)" k, folded k,
        folded answers_def]
    from Suc.IH [of "n + length ls"] r l Suc.prems show ?case by simp
  qed simp
  from l have "round_state i ls (length ls + length ls) Context_initialized False c5" by simp
  from loop [OF this] k have
    "snd (emit_run context_step (concat (replicate m (Render_context i # answers))) c5) =
      concat (replicate m (map Load ls @ [Show Page_view, Request_render i]))" by simp
  with f r a d l show ?thesis
    unfolding Let_def ls_def [symmetric] answers_def [symmetric]
    by (simp add: c1_def [symmetric] c2_def [symmetric] c3_def [symmetric] c4_def [symmetric]
        c5_def [symmetric])
qed

theorem context_rerender_never_ends_witness:
  "snd (emit_run context_step ([Render_context 0, Mount_context 0, Render_context 0] @
      [Loader_answered] @ [Render_context 0] @ [Loader_answered] @
      concat (replicate 7 [Render_context 0, Loader_answered])) (include_resources new_context)) =
    [Load Resources_loader, Show Loading_view, Load Resources_loader, Show Loading_view, Request_render 0,
     Show Page_view] @ concat (replicate 7 [Load Resources_loader, Show Page_view, Request_render 0])"
proof -
  let ?c = "include_resources new_context"
  have "fresh_context ?c" and l: "included_loaders ?c = [Resources_loader]"
    by (simp_all add: fresh_context_def new_context_def include_resources_def included_loaders_def)
  from context_rerender_never_ends [OF this(1), of 0 7, unfolded l Let_def]
  show ?thesis by (simp del: emit_run_append emit_run_cons)
qed

end
