(* ===== verification/Entry.thy ===== *)
theory Entry
  imports Contexts Samples
begin

text \<open>
  \<open>component/entry/EntryPoint.ts\<close>: the user's session and the routing between public and private pages, and
  the routes of \<open>framework/dsl/simple/SimpleRouter.tsx\<close>. The element of the main switch is created once, so
  its route factories run when the switch is drawn and not when the location changes: the path under which
  the nested router was drawn and the targets of persisted redirects belong to the state. Whether a route's
  path matches a location is decided by \<open>react-router\<close>: the parameter \<open>matches\<close>. Cookies, the history and
  the window are effects; a redirect is the location that is visited next.
\<close>

record entry =
  entry_token :: "string option"
  entry_user :: "user option"
  entry_initialized :: bool
  entry_referer :: string
  entry_location :: string
  nested_path :: string
  authorize_target :: "string option"
  register_target :: "string option"

datatype entry_effect =
    Authenticate string | Push string | Remove_token | Reload_window | Render_locked

datatype entry_view = Loader_page | Authorization_page | Registration_page | Empty_page
  | Private_page string

definition authorized :: "entry \<Rightarrow> bool" where
  "authorized e \<longleftrightarrow> truthy_string (entry_token e) \<and> entry_user e \<noteq> None"

definition privileged :: "entry \<Rightarrow> string \<Rightarrow> bool" where
  "privileged e path \<longleftrightarrow>
     (case (entry_user e, action_of_path path) of
        (Some user, Some action) \<Rightarrow>
          authorized e \<and> side_bar_action_id action \<in> set (user_available_actions user)
      | _ \<Rightarrow> False)"

section \<open>The session\<close>

text \<open>\<open>#authenticate\<close>, run at the first load; both changes of a lock are one render.\<close>

definition entry_authenticate :: "entry \<Rightarrow> entry \<times> entry_effect list" where
  "entry_authenticate e =
     (if \<not> truthy_string (entry_token e)
      then (e\<lparr>entry_user := None, entry_initialized := True\<rparr>, [Render_locked])
      else (e, [Authenticate (the (entry_token e))]))"

definition entry_authenticated :: "user \<Rightarrow> entry \<Rightarrow> entry \<times> entry_effect list" where
  "entry_authenticated user e =
     (e\<lparr>entry_initialized := True, entry_user := Some user\<rparr>, [Render_locked])"

definition entry_not_authenticated :: "entry \<Rightarrow> entry \<times> entry_effect list" where
  "entry_not_authenticated e =
     (e\<lparr>entry_initialized := True, entry_user := None\<rparr>, [Render_locked])"

definition log_in :: "user \<Rightarrow> entry \<Rightarrow> entry \<times> entry_effect list" where
  "log_in user e =
     (if entry_user e \<noteq> None then (e, [])
      else
        (e\<lparr>entry_user := Some user, entry_location := entry_referer e\<rparr>,
         [Push (entry_referer e), Render_locked]))"

definition log_out :: "entry \<Rightarrow> entry \<times> entry_effect list" where
  "log_out e =
     (let e1 = e\<lparr>entry_token := None\<rparr> in
      if entry_user e1 = None then (e1, [Remove_token])
      else (e1\<lparr>entry_user := None\<rparr>, [Remove_token, Reload_window, Render_locked]))"

definition set_user :: "user \<Rightarrow> entry \<Rightarrow> entry" where
  "set_user user e = e\<lparr>entry_user := Some user\<rparr>"

definition redirect_to :: "string \<Rightarrow> entry \<Rightarrow> entry \<times> entry_effect list" where
  "redirect_to path e = (e\<lparr>entry_location := path\<rparr>, [Push path])"

text \<open>The authorization page stores the token of the new user before it reports the user.\<close>

definition authorization_succeeded :: "user \<Rightarrow> entry \<Rightarrow> entry \<times> entry_effect list" where
  "authorization_succeeded user e = log_in user (e\<lparr>entry_token := Some (user_token user)\<rparr>)"

section \<open>The routes\<close>

datatype outcome = Shown entry_view | Redirected string

text \<open>Drawing the main switch runs the route factories: new conditionals, whose redirects are not made yet.\<close>

definition draw_main_switch :: "entry \<Rightarrow> entry" where
  "draw_main_switch e =
     e\<lparr>nested_path := entry_referer e, authorize_target := None, register_target := None\<rparr>"

definition redirect_target :: "entry \<Rightarrow> string option \<Rightarrow> string" where
  "redirect_target e persisted =
     (case persisted of
        Some path \<Rightarrow> path
      | None \<Rightarrow> if privileged e (entry_referer e) then entry_referer e else ROUTING_DEFAULT_PATH)"

definition route_to_authorize :: "entry \<Rightarrow> entry \<times> outcome" where
  "route_to_authorize e =
     (if authorized e then
        let target = redirect_target e (authorize_target e)
        in (e\<lparr>authorize_target := Some target\<rparr>, Redirected target)
      else (e, Shown Authorization_page))"

definition route_to_register :: "entry \<Rightarrow> entry \<times> outcome" where
  "route_to_register e =
     (if authorized e then
        let target = redirect_target e (register_target e)
        in (e\<lparr>register_target := Some target\<rparr>, Redirected target)
      else (e, Shown Registration_page))"

text \<open>Both branches of \<open>#routeToPrivatePath\<close> store the location as the referer.\<close>

definition route_to_private :: "string \<Rightarrow> outcome \<Rightarrow> entry \<Rightarrow> entry \<times> outcome" where
  "route_to_private path page e =
     (e\<lparr>entry_referer := entry_location e\<rparr>, if privileged e path then page else Redirected AUTHORIZE_PATH)"

definition page_paths :: "string list" where
  "page_paths =
     [PROJECTS_PATH, RESOURCES_PATH, ASSEMBLIES_PATH, MODULES_PATH, CONFIGURATIONS_PATH,
      NETWORK_ACCESSES_PATH, APPLICATIONS_PATH, ADMINISTRATION_PATH]"

text \<open>The context of every page, with the data it loads.\<close>

definition page_context_of :: "string \<Rightarrow> (string \<times> page_context) option" where
  "page_context_of path =
     map_of
       [(PROJECTS_PATH, PROJECTS_CONTEXT, include_projects (include_resources new_context)),
        (RESOURCES_PATH, RESOURCES_CONTEXT, include_resources new_context),
        (ASSEMBLIES_PATH, ASSEMBLIES_CONTEXT,
         include_applications (include_projects (include_resources new_context))),
        (MODULES_PATH, MODULES_CONTEXT,
         include_applications (include_prepared_configurations (include_resources (include_projects
           (include_assemblies new_context))))),
        (CONFIGURATIONS_PATH, PREPARED_CONFIGURATIONS_CONTEXT,
         include_projects (include_modules (include_prepared_configurations new_context))),
        (NETWORK_ACCESSES_PATH, NETWORK_ACCESSES_CONTEXT, include_resources new_context),
        (APPLICATIONS_PATH, APPLICATIONS_CONTEXT, include_resources (include_applications new_context)),
        (ADMINISTRATION_PATH, ADMINISTRATION_CONTEXT, new_context)] path"

definition pages_switch :: "(string \<Rightarrow> string \<Rightarrow> bool) \<Rightarrow> entry \<Rightarrow> entry \<times> outcome" where
  "pages_switch matches e =
     (case find (\<lambda>path. matches path (entry_location e)) page_paths of
        Some path \<Rightarrow> route_to_private path (Shown (Private_page path)) e
      | None \<Rightarrow>
          if matches SLASH (entry_location e) then (e, Redirected ROUTING_DEFAULT_PATH)
          else (e, Shown Empty_page))"

text \<open>
  The nested router has no path and matches every location: the two routes after it are never reached.
\<close>

definition main_switch :: "(string \<Rightarrow> string \<Rightarrow> bool) \<Rightarrow> entry \<Rightarrow> entry \<times> outcome" where
  "main_switch matches e =
     (if \<not> entry_initialized e then (e, Shown Loader_page)
      else if matches AUTHORIZE_PATH (entry_location e) then route_to_authorize e
      else if matches REGISTER_PATH (entry_location e) then route_to_register e
      else
        let (e1, nested) = route_to_private (nested_path e) (Shown (Private_page (nested_path e))) e
        in if privileged e (nested_path e) then pages_switch matches e1 else (e1, nested))"

text \<open>Redirects are followed until a page is shown, at most \<open>fuel\<close> of them.\<close>

fun settle :: "nat \<Rightarrow> (string \<Rightarrow> string \<Rightarrow> bool) \<Rightarrow> entry \<Rightarrow> (entry \<times> entry_view) option" where
  "settle 0 matches e = None"
| "settle (Suc fuel) matches e =
     (case main_switch matches e of
        (e', Shown view) \<Rightarrow> Some (e', view)
      | (e', Redirected path) \<Rightarrow> settle fuel matches (e'\<lparr>entry_location := path\<rparr>))"

section \<open>Locations and rights\<close>

definition app_paths :: "string list" where
  "app_paths = AUTHORIZE_PATH # REGISTER_PATH # page_paths"

text \<open>What the routing relies on: a path matches itself and no other of the panel, a slash everything.\<close>

definition routes_apart :: "(string \<Rightarrow> string \<Rightarrow> bool) \<Rightarrow> bool" where
  "routes_apart matches \<longleftrightarrow>
     list_all (\<lambda>p. list_all (\<lambda>q. matches p q = (p = q)) app_paths) app_paths \<and>
     list_all (matches SLASH) app_paths"

lemma public_paths_apart:
  "AUTHORIZE_PATH \<notin> set page_paths" "REGISTER_PATH \<notin> set page_paths" "AUTHORIZE_PATH \<noteq> REGISTER_PATH"
  by (simp_all add: page_paths_def routers_defs)

lemma default_page: "ROUTING_DEFAULT_PATH \<in> set page_paths"
  by (simp add: page_paths_def ROUTING_DEFAULT_PATH_def)

lemma side_bar_paths: "set (map side_bar_path SIDE_BAR_ACTIONS) = set page_paths"
  by (simp add: SIDE_BAR_ACTIONS_def page_paths_def)

lemma privileged_page: "privileged e p \<Longrightarrow> p \<in> set page_paths"
proof -
  assume "privileged e p"
  then obtain action where "action_of_path p = Some action"
    by (auto simp: privileged_def split: option.splits)
  then have "\<exists>action\<in>set SIDE_BAR_ACTIONS. side_bar_path action = p"
    by (auto simp: action_of_path_def find_Some_iff)
  then have "p \<in> set (map side_bar_path SIDE_BAR_ACTIONS)" by auto
  with side_bar_paths show "p \<in> set page_paths" by simp
qed

lemma privileged_authorized: "privileged e p \<Longrightarrow> authorized e"
  by (auto simp: privileged_def split: option.splits)

lemma matches_app:
  "routes_apart matches \<Longrightarrow> p \<in> set app_paths \<Longrightarrow> q \<in> set app_paths \<Longrightarrow> matches p q \<longleftrightarrow> p = q"
  by (auto simp: routes_apart_def list_all_iff)

lemma find_unique:
  "x \<in> set xs \<Longrightarrow> (\<And>y. y \<in> set xs \<Longrightarrow> P y \<longleftrightarrow> y = x) \<Longrightarrow> find P xs = Some x"
  by (induction xs) auto

text \<open>Rights do not depend on where the user is.\<close>

lemma rights_update [simp]:
  "authorized (e\<lparr>entry_referer := r\<rparr>) = authorized e"
  "authorized (e\<lparr>entry_location := l\<rparr>) = authorized e"
  "authorized (e\<lparr>authorize_target := t\<rparr>) = authorized e"
  "authorized (e\<lparr>register_target := t\<rparr>) = authorized e"
  by (simp_all add: authorized_def)

lemma privileged_update [simp]:
  "privileged (e\<lparr>entry_referer := r\<rparr>) p = privileged e p"
  "privileged (e\<lparr>entry_location := l\<rparr>) p = privileged e p"
  "privileged (e\<lparr>authorize_target := t\<rparr>) p = privileged e p"
  "privileged (e\<lparr>register_target := t\<rparr>) p = privileged e p"
  by (simp_all add: privileged_def split: option.split)

lemma privileged_session:
  "entry_token e = entry_token e' \<Longrightarrow> entry_user e = entry_user e' \<Longrightarrow> privileged e p = privileged e' p"
  by (simp add: privileged_def authorized_def split: option.split)

section \<open>Visits\<close>

lemma visit_page:
  assumes "routes_apart matches" and "entry_initialized e" and "entry_location e \<in> set page_paths"
  shows "main_switch matches e =
    (e\<lparr>entry_referer := entry_location e\<rparr>,
     if privileged e (nested_path e) \<and> privileged e (entry_location e)
     then Shown (Private_page (entry_location e)) else Redirected AUTHORIZE_PATH)"
proof -
  have m: "matches p (entry_location e) \<longleftrightarrow> p = entry_location e" if "p \<in> set app_paths" for p
    using assms that by (intro matches_app) (simp_all add: app_paths_def)
  have "find (\<lambda>path. matches path (entry_location e)) page_paths = Some (entry_location e)"
    using assms(3) m by (intro find_unique) (simp_all add: app_paths_def)
  with assms(2,3) m [of AUTHORIZE_PATH] m [of REGISTER_PATH] public_paths_apart show ?thesis
    by (auto simp: main_switch_def route_to_private_def pages_switch_def app_paths_def Let_def)
qed

lemma visit_authorize:
  assumes "routes_apart matches" and "entry_initialized e" and "entry_location e = AUTHORIZE_PATH"
  shows "main_switch matches e = route_to_authorize e"
  using assms matches_app [OF assms(1), of AUTHORIZE_PATH AUTHORIZE_PATH]
  by (simp add: main_switch_def app_paths_def)

text \<open>A redirect of an authorized user leads to a page.\<close>

lemma redirect_target_page:
  assumes "authorize_target e = None \<or> the (authorize_target e) \<in> set page_paths"
  shows "redirect_target e (authorize_target e) \<in> set page_paths"
  using assms privileged_page [of e "entry_referer e"] default_page
  by (auto simp: redirect_target_def split: option.splits)

definition looping :: "entry \<Rightarrow> bool" where
  "looping e \<longleftrightarrow>
     entry_initialized e \<and> authorized e \<and> \<not> privileged e (nested_path e) \<and>
     (entry_location e = AUTHORIZE_PATH \<or> entry_location e \<in> set page_paths) \<and>
     (authorize_target e = None \<or> the (authorize_target e) \<in> set page_paths)"

lemma looping_visit:
  assumes "routes_apart matches" and "looping e"
  shows "\<exists>e' path. main_switch matches e = (e', Redirected path) \<and> looping (e'\<lparr>entry_location := path\<rparr>)"
proof (cases "entry_location e = AUTHORIZE_PATH")
  case True
  with assms redirect_target_page [of e] show ?thesis
    by (simp add: looping_def visit_authorize route_to_authorize_def Let_def)
next
  case False
  with assms have "entry_location e \<in> set page_paths" by (simp add: looping_def)
  with assms show ?thesis by (simp add: looping_def visit_page)
qed

lemma looping_settles_nowhere:
  assumes "routes_apart matches" and "looping e"
  shows "settle fuel matches e = None"
  using assms(2)
proof (induction fuel arbitrary: e)
  case (Suc fuel)
  from looping_visit [OF assms(1) Suc.prems] Suc.IH show ?case by auto
qed simp

text \<open>Every page that is shown is allowed, whatever was visited before.\<close>

lemma visit_rights:
  assumes "main_switch matches e = (e', outcome)"
  shows "entry_token e' = entry_token e \<and> entry_user e' = entry_user e \<and>
    (\<forall>p. outcome = Shown (Private_page p) \<longrightarrow> privileged e p \<and> matches p (entry_location e))"
  using assms
  by (auto simp: main_switch_def route_to_authorize_def route_to_register_def route_to_private_def
      pages_switch_def Let_def find_Some_iff split: if_splits option.splits)

section \<open>Properties\<close>

text \<open>
  C12. A page is shown only to a user who has the right for it: however many redirects are followed, a private
  page that is shown belongs to an action of the present, authorized user.
\<close>

theorem private_pages_guarded:
  assumes "settle fuel matches e = Some (e', Private_page path)"
  shows "privileged e path \<and> matches path (entry_location e')"
  using assms
proof (induction fuel arbitrary: e)
  case (Suc fuel)
  obtain e1 outcome where v: "main_switch matches e = (e1, outcome)" by (cases "main_switch matches e")
  note r = visit_rights [OF v]
  have l: "entry_location e1 = entry_location e"
    using v by (auto simp: main_switch_def route_to_authorize_def route_to_register_def route_to_private_def
        pages_switch_def Let_def split: if_splits option.splits)
  show ?case
  proof (cases outcome)
    case (Shown view)
    with Suc.prems v r l show ?thesis by simp
  next
    case (Redirected p)
    with Suc.prems v Suc.IH [of "e1\<lparr>entry_location := p\<rparr>"] r privileged_session [of e1 e path]
    show ?thesis by simp
  qed
qed simp

text \<open>Where the authorization page sends an authorized user who may not see the page asked for.\<close>

definition fallback_path :: "entry \<Rightarrow> string" where
  "fallback_path e = (case authorize_target e of None \<Rightarrow> ROUTING_DEFAULT_PATH | Some path \<Rightarrow> path)"

lemma fallback_page:
  assumes "routes_apart matches" and "entry_initialized e" and "privileged e (nested_path e)"
    and "entry_location e \<in> set page_paths" and "\<not> privileged e (entry_location e)"
    and "fallback_path e \<in> set page_paths"
  shows "settle (Suc (Suc fuel)) matches e = settle fuel matches
    (e\<lparr>entry_referer := entry_location e, authorize_target := Some (fallback_path e), entry_location := fallback_path e\<rparr>)"
proof -
  let ?e1 = "e\<lparr>entry_referer := entry_location e, entry_location := AUTHORIZE_PATH\<rparr>"
  have "main_switch matches ?e1 =
      (?e1\<lparr>authorize_target := Some (fallback_path e)\<rparr>, Redirected (fallback_path e))"
    using assms privileged_authorized [OF assms(3)]
    by (simp add: visit_authorize route_to_authorize_def redirect_target_def fallback_path_def Let_def split: option.split)
  with assms show ?thesis by (simp add: visit_page)
qed

lemma arrival:
  assumes "routes_apart matches" and "entry_initialized e" and "privileged e (nested_path e)"
    and "entry_location e \<in> set page_paths" and "privileged e (fallback_path e)"
  shows "map_option snd (settle 3 matches e) =
    Some (Private_page (if privileged e (entry_location e) then entry_location e else fallback_path e))"
proof (cases "privileged e (entry_location e)")
  case True
  with assms show ?thesis by (simp add: eval_nat_numeral visit_page)
next
  case False
  let ?e2 = "e\<lparr>entry_referer := entry_location e, authorize_target := Some (fallback_path e), entry_location := fallback_path e\<rparr>"
  have "main_switch matches ?e2 =
      (?e2\<lparr>entry_referer := fallback_path e\<rparr>, Shown (Private_page (fallback_path e)))"
    using visit_page [OF assms(1), of ?e2] assms privileged_page [OF assms(5)] by simp
  with fallback_page [OF assms(1-4) False privileged_page [OF assms(5)], of 1] False show ?thesis
    by (simp add: eval_nat_numeral)
qed

lemma no_arrival:
  assumes "routes_apart matches" and "entry_initialized e" and "privileged e (nested_path e)"
    and "entry_location e \<in> set page_paths" and "\<not> privileged e (entry_location e)"
    and "fallback_path e \<in> set page_paths" and "\<not> privileged e (fallback_path e)"
  shows "settle fuel matches e = None"
  using assms
proof (induction fuel arbitrary: e rule: less_induct)
  case (less fuel)
  show ?case
  proof (cases "fuel < 2")
    case True
    with less.prems show ?thesis
      by (cases fuel) (auto simp: visit_page eval_nat_numeral less_Suc_eq split: if_splits)
  next
    case False
    then obtain n where n: "fuel = Suc (Suc n)" by (cases fuel; cases "fuel - 1") auto
    show ?thesis
      unfolding n fallback_page [OF less.prems(1-6)]
      by (rule less.IH) (use less.prems n in \<open>simp_all add: fallback_path_def\<close>)
  qed
qed

text \<open>
  C27. What becomes of an authorized user who may see the page under which the nested router was drawn and asks for any
  page of the panel. A page that the user has the right for is shown at once. Otherwise the user is redirected twice, to
  the authorization page and from there to the target that this page has persisted, which is the default page unless
  an earlier redirect of the same drawing chose another; if the user has the right for it that page is shown, and if
  not the redirects never end.
\<close>

theorem authorized_user_arrives:
  assumes "routes_apart matches" and "entry_initialized e" and "privileged e (nested_path e)"
    and "entry_location e \<in> set page_paths"
    and "authorize_target e = None \<or> the (authorize_target e) \<in> set page_paths"
  shows "let target = (case authorize_target e of None \<Rightarrow> ROUTING_DEFAULT_PATH | Some path \<Rightarrow> path) in
    if privileged e (entry_location e)
    then map_option snd (settle 1 matches e) = Some (Private_page (entry_location e))
    else if privileged e target then map_option snd (settle 3 matches e) = Some (Private_page target)
    else settle fuel matches e = None"
proof -
  have page: "fallback_path e \<in> set page_paths"
    using assms(5) default_page by (auto simp: fallback_path_def split: option.split)
  show ?thesis
  proof (cases "privileged e (entry_location e)")
    case True
    with assms show ?thesis by (simp add: visit_page)
  next
    case False
    with arrival [OF assms(1-4)] no_arrival [OF assms(1-4) False page, of fuel] show ?thesis
      unfolding Let_def fallback_path_def [symmetric] by simp
  qed
qed

text \<open>
  Logging in returns to the page that was asked for. A visitor without a session who opens a page is shown
  the authorization page; when the authorization succeeds the user arrives at that page, or at the default
  page if the right for it is missing.
\<close>

theorem login_returns:
  assumes "routes_apart matches" and "entry_initialized e" and "authorize_target e = None"
    and "entry_user e = None" and "entry_location e \<in> set page_paths" and "user_token u \<noteq> []"
    and "\<forall>p\<in>{nested_path e, ROUTING_DEFAULT_PATH}. \<exists>action. action_of_path p = Some action \<and>
      side_bar_action_id action \<in> set (user_available_actions u)"
  shows "\<exists>e1. settle 2 matches e = Some (e1, Authorization_page) \<and>
    (let e2 = fst (authorization_succeeded u e1) in
     entry_location e2 = entry_location e \<and>
     map_option snd (settle 3 matches e2) =
       Some (Private_page (if privileged e2 (entry_location e) then entry_location e
                           else ROUTING_DEFAULT_PATH)))"
proof -
  have un: "\<not> authorized e" "\<not> privileged e p" for p
    using assms(4) by (simp_all add: authorized_def privileged_def)
  let ?e1 = "e\<lparr>entry_referer := entry_location e, entry_location := AUTHORIZE_PATH\<rparr>"
  have s: "settle 2 matches e = Some (?e1, Authorization_page)"
    using assms un by (simp add: eval_nat_numeral visit_page visit_authorize route_to_authorize_def)
  let ?e2 = "fst (authorization_succeeded u ?e1)"
  have e2: "entry_location ?e2 = entry_location e" "entry_user ?e2 = Some u"
    "entry_token ?e2 = Some (user_token u)" "nested_path ?e2 = nested_path e" "entry_initialized ?e2"
    "authorize_target ?e2 = None"
    using assms by (simp_all add: authorization_succeeded_def log_in_def)
  then have "privileged ?e2 (nested_path ?e2)" "privileged ?e2 ROUTING_DEFAULT_PATH"
    using assms(6,7) by (auto simp: privileged_def authorized_def truthy_string_def)
  moreover have fallback: "fallback_path ?e2 = ROUTING_DEFAULT_PATH" using e2(6) by (simp add: fallback_path_def)
  ultimately have a: "map_option snd (settle 3 matches ?e2) =
      Some (Private_page (if privileged ?e2 (entry_location e) then entry_location e else ROUTING_DEFAULT_PATH))"
    using arrival [OF assms(1) e2(5), unfolded fallback e2(1)] assms(5) by simp
  show ?thesis by (intro exI [of _ ?e1]) (simp only: Let_def s e2(1) a simp_thms)
qed

text \<open>
  C36. A user without the right for the page under which the nested router was drawn (the default page at
  first) gets nowhere: the nested router sends the user to the authorization page, which sends an authorized
  user back, and no number of redirects is enough to show any page, allowed ones included.
\<close>

theorem redirects_never_settle:
  assumes "routes_apart matches" and "entry_initialized e" and "authorized e"
    and "\<not> privileged e (nested_path e)" and "authorize_target e = None"
    and "entry_location e \<in> set page_paths"
  shows "settle fuel matches e = None"
  using assms by (intro looping_settles_nowhere) (simp_all add: looping_def)

definition sample_matches :: "string \<Rightarrow> string \<Rightarrow> bool" where
  "sample_matches path location \<longleftrightarrow> path = location \<or> path = SLASH"

definition sample_entry :: "user option \<Rightarrow> string \<Rightarrow> entry" where
  "sample_entry user location =
     \<lparr>entry_token = map_option user_token user, entry_user = user, entry_initialized = True,
      entry_referer = ROUTING_DEFAULT_PATH, entry_location = location, nested_path = ROUTING_DEFAULT_PATH,
      authorize_target = None, register_target = None\<rparr>"

lemma sample_routes: "routes_apart sample_matches"
  by (simp add: routes_apart_def sample_matches_def app_paths_def page_paths_def routers_defs)

lemma sample_rights:
  "privileged (sample_entry (Some (sample_user actions)) location) PROJECTS_PATH \<longleftrightarrow>
     ''PROJECTS_MANAGEMENT'' \<in> set actions"
  "privileged (sample_entry (Some (sample_user actions)) location) MODULES_PATH \<longleftrightarrow>
     ''MODULES_MANAGEMENT'' \<in> set actions"
  by (simp_all add: privileged_def authorized_def truthy_string_def sample_entry_def sample_user_def
      action_of_path_def SIDE_BAR_ACTIONS_def routers_defs user_action_defs)

theorem redirects_never_settle_witness:
  "settle 1000 sample_matches
     (sample_entry (Some (sample_user [''MODULES_MANAGEMENT''])) MODULES_PATH) = None"
proof -
  let ?e = "sample_entry (Some (sample_user [''MODULES_MANAGEMENT''])) MODULES_PATH"
  have "entry_initialized ?e" "authorized ?e" "\<not> privileged ?e (nested_path ?e)"
    "authorize_target ?e = None" "entry_location ?e \<in> set page_paths"
    using sample_rights [of "[''MODULES_MANAGEMENT'']" MODULES_PATH]
      privileged_authorized [of ?e MODULES_PATH]
    by (simp_all add: ROUTING_DEFAULT_PATH_def page_paths_def sample_entry_def)
  from redirects_never_settle [OF sample_routes this] show ?thesis .
qed

theorem private_pages_guarded_witness:
  "sample_matches PROJECTS_PATH (entry_location
     (fst (the (settle 1 sample_matches
       (sample_entry (Some (sample_user [''PROJECTS_MANAGEMENT''])) PROJECTS_PATH)))))"
proof -
  let ?e = "sample_entry (Some (sample_user [''PROJECTS_MANAGEMENT''])) PROJECTS_PATH"
  have "privileged ?e PROJECTS_PATH" by (simp add: sample_rights)
  then have "settle 1 sample_matches ?e =
    Some (?e\<lparr>entry_referer := PROJECTS_PATH\<rparr>, Private_page PROJECTS_PATH)"
    using visit_page [OF sample_routes, of ?e]
    by (simp add: eval_nat_numeral sample_entry_def page_paths_def ROUTING_DEFAULT_PATH_def)
  from private_pages_guarded [OF this] this show ?thesis by simp
qed

theorem authorized_user_arrives_witness:
  "map_option snd (settle 3 sample_matches
     (sample_entry (Some (sample_user [''PROJECTS_MANAGEMENT''])) MODULES_PATH)) =
   Some (Private_page PROJECTS_PATH)"
proof -
  let ?e = "sample_entry (Some (sample_user [''PROJECTS_MANAGEMENT''])) MODULES_PATH"
  note r = sample_rights [of "[''PROJECTS_MANAGEMENT'']" MODULES_PATH]
  have e: "entry_initialized ?e" "privileged ?e (nested_path ?e)" "entry_location ?e \<in> set page_paths"
    "authorize_target ?e = None \<or> the (authorize_target ?e) \<in> set page_paths"
    using r by (simp_all add: ROUTING_DEFAULT_PATH_def page_paths_def) (simp_all add: sample_entry_def
        ROUTING_DEFAULT_PATH_def)
  have "authorize_target ?e = None" "entry_location ?e = MODULES_PATH" by (simp_all add: sample_entry_def)
  with authorized_user_arrives [OF sample_routes e] r show ?thesis
    by (simp add: ROUTING_DEFAULT_PATH_def)
qed

theorem login_returns_witness:
  "\<exists>e1. settle 2 sample_matches (sample_entry None MODULES_PATH) = Some (e1, Authorization_page)"
proof -
  let ?e = "sample_entry None MODULES_PATH" and ?u = "sample_user [''PROJECTS_MANAGEMENT'']"
  have a: "\<exists>action. action_of_path PROJECTS_PATH = Some action \<and>
      side_bar_action_id action \<in> set (user_available_actions ?u)"
    by (simp add: sample_user_def action_of_path_def SIDE_BAR_ACTIONS_def user_action_defs)
  have "entry_initialized ?e" "authorize_target ?e = None" "entry_user ?e = None"
    "entry_location ?e \<in> set page_paths" "user_token ?u \<noteq> []"
    "\<forall>p\<in>{nested_path ?e, ROUTING_DEFAULT_PATH}. \<exists>action. action_of_path p = Some action \<and>
      side_bar_action_id action \<in> set (user_available_actions ?u)"
    using a by (simp_all add: sample_entry_def page_paths_def ROUTING_DEFAULT_PATH_def)
      (simp add: sample_user_def)
  from login_returns [OF sample_routes this] show ?thesis by blast
qed

end
