(* ===== verification/Text_Fields.thy ===== *)
theory Text_Fields
  imports Reactive
begin

text \<open>
  The managed text field and button, \<open>framework/dsl/managed/ManagedTextField.tsx\<close> and
  \<open>ManagedButton.tsx\<close>: the properties of their configurations and the operations of the widgets. A regular
  expression is the predicate that tells which texts \<open>match\<close> it. The text's own \<open>prevent\<close> consumer has an
  effect on the error, so the setter of the text is written out; everything else are the properties of
  \<open>Reactive\<close>. Consumers are tokens; the trigger of the configuration, the first consumer of every property,
  is left out.
\<close>

section \<open>Text fields\<close>

record field_error =
  error_shown :: bool
  error_text :: "string option"

record 'u text_field =
  field_text :: "(string, 'u) property"
  field_error :: "(field_error, 'u) property"
  field_disabled :: "(bool, 'u) property"
  field_regexp :: "(string \<Rightarrow> bool) option"
  field_mask :: "(string \<Rightarrow> bool) option"
  field_password :: "bool option"
  field_default_error :: "string option"
  field_enter :: "'u list"

datatype 'u field_effect =
    Text_call "(string, 'u) property_call"
  | Error_call "(field_error, 'u) property_call"
  | Disabled_call "(bool, 'u) property_call"
  | Enter_call 'u

definition new_text_field ::
  "string option \<Rightarrow> bool \<Rightarrow> bool \<Rightarrow> (string \<Rightarrow> bool) option \<Rightarrow> (string \<Rightarrow> bool) option \<Rightarrow>
    bool option \<Rightarrow> string option \<Rightarrow> 'u text_field" where
  "new_text_field v disabled error regexp masking password default_error =
     \<lparr>field_text = new_property (Some (case v of None \<Rightarrow> [] | Some text \<Rightarrow> text)),
      field_error = new_property (Some \<lparr>error_shown = error, error_text = default_error\<rparr>),
      field_disabled = new_property (Some disabled), field_regexp = regexp, field_mask = masking,
      field_password = password, field_default_error = default_error, field_enter = []\<rparr>"

definition field_set_error :: "field_error \<Rightarrow> 'u text_field \<Rightarrow> 'u text_field \<times> 'u field_effect list" where
  "field_set_error e f =
     (let (p, calls) = property_set (=) (Some e) (field_error f)
      in (f\<lparr>field_error := p\<rparr>, map Error_call calls))"

definition mismatch :: "string \<Rightarrow> (string \<Rightarrow> bool) option \<Rightarrow> bool" where
  "mismatch v regexp \<longleftrightarrow> v \<noteq> [] \<and> (case regexp of None \<Rightarrow> False | Some r \<Rightarrow> \<not> r v)"

text \<open>
  The setter of the text: an unchanged text stops it; a text outside the mask is refused; then the error is
  set from the regular expression, before the other \<open>prevent\<close> consumers may still refuse the text.
\<close>

definition field_set_text :: "string \<Rightarrow> 'u text_field \<Rightarrow> 'u text_field \<times> 'u field_effect list" where
  "field_set_text v f =
     (if property_value (field_text f) = Some v then
        let (p, calls) = property_set (=) (Some v) (field_text f)
        in (f\<lparr>field_text := p\<rparr>, map Text_call calls)
      else if mismatch v (field_mask f) then (f, [])
      else
        let (f1, errors) = field_set_error
              \<lparr>error_shown = mismatch v (field_regexp f), error_text = field_default_error f\<rparr> f;
            (p, calls) = property_set (=) (Some v) (field_text f1)
        in (f1\<lparr>field_text := p\<rparr>, errors @ map Text_call calls))"

definition field_clear :: "'u text_field \<Rightarrow> 'u text_field \<times> 'u field_effect list" where
  "field_clear f = field_set_text [] f"

definition field_prevent :: "(string option \<Rightarrow> bool) \<Rightarrow> 'u text_field \<Rightarrow> 'u text_field" where
  "field_prevent action f = f\<lparr>field_text := property_prevent action (field_text f)\<rparr>"

definition field_on_text_changed :: "'u \<Rightarrow> 'u text_field \<Rightarrow> 'u text_field \<times> 'u field_effect list" where
  "field_on_text_changed action f =
     (let (p, calls) = property_consume action (field_text f)
      in (f\<lparr>field_text := p\<rparr>, map Text_call calls))"

definition field_on_error_changed :: "'u \<Rightarrow> 'u text_field \<Rightarrow> 'u text_field \<times> 'u field_effect list" where
  "field_on_error_changed action f =
     (let (p, calls) = property_consume action (field_error f)
      in (f\<lparr>field_error := p\<rparr>, map Error_call calls))"

definition field_on_enter_pressed :: "'u \<Rightarrow> 'u text_field \<Rightarrow> 'u text_field" where
  "field_on_enter_pressed action f = f\<lparr>field_enter := event_handle (field_enter f) action\<rparr>"

definition field_enter_pressed :: "'u text_field \<Rightarrow> 'u field_effect list" where
  "field_enter_pressed f = map (\<lambda>(action, _). Enter_call action) (event_execute (field_enter f) ())"

definition field_set_disabled :: "bool \<Rightarrow> 'u text_field \<Rightarrow> 'u text_field \<times> 'u field_effect list" where
  "field_set_disabled b f =
     (let (p, calls) = property_set (=) (Some b) (field_disabled f)
      in (f\<lparr>field_disabled := p\<rparr>, map Disabled_call calls))"

definition field_set_password :: "bool \<Rightarrow> 'u text_field \<Rightarrow> 'u text_field" where
  "field_set_password b f = f\<lparr>field_password := Some b\<rparr>"

definition field_set_mask :: "(string \<Rightarrow> bool) \<Rightarrow> 'u text_field \<Rightarrow> 'u text_field" where
  "field_set_mask m f = f\<lparr>field_mask := Some m\<rparr>"

definition field_set_regexp :: "(string \<Rightarrow> bool) \<Rightarrow> 'u text_field \<Rightarrow> 'u text_field" where
  "field_set_regexp r f = f\<lparr>field_regexp := Some r\<rparr>"

text \<open>Readings. A text that was never cleared to \<open>undefined\<close> is defined.\<close>

definition text_of :: "'u text_field \<Rightarrow> string" where
  "text_of f = (case property_value (field_text f) of None \<Rightarrow> [] | Some v \<Rightarrow> v)"

definition error_of :: "'u text_field \<Rightarrow> bool" where
  "error_of f \<longleftrightarrow> (case property_value (field_error f) of None \<Rightarrow> False | Some e \<Rightarrow> error_shown e)"

definition disabled_of :: "'u text_field \<Rightarrow> bool" where
  "disabled_of f \<longleftrightarrow> property_value (field_disabled f) = Some True"

definition field_is_password :: "'u text_field \<Rightarrow> bool" where
  "field_is_password f \<longleftrightarrow> field_password f = Some True"

section \<open>Buttons\<close>

record 'u button =
  button_disabled :: "(bool, 'u) property"
  button_click :: "'u list"

definition new_button :: "bool \<Rightarrow> 'u button" where
  "new_button disabled = \<lparr>button_disabled = new_property (Some disabled), button_click = []\<rparr>"

definition button_on_click :: "'u \<Rightarrow> 'u button \<Rightarrow> 'u button" where
  "button_on_click action b = b\<lparr>button_click := event_handle (button_click b) action\<rparr>"

definition button_set_disabled :: "bool \<Rightarrow> 'u button \<Rightarrow> 'u button" where
  "button_set_disabled v b = b\<lparr>button_disabled := fst (property_set (=) (Some v) (button_disabled b))\<rparr>"

definition button_is_disabled :: "'u button \<Rightarrow> bool" where
  "button_is_disabled b \<longleftrightarrow> property_value (button_disabled b) = Some True"

text \<open>\<open>click\<close> of a disabled button does nothing.\<close>

definition button_clicked :: "'u button \<Rightarrow> 'u list" where
  "button_clicked b = (if button_is_disabled b then [] else map fst (event_execute (button_click b) ()))"

section \<open>What an assignment leaves behind\<close>

text \<open>A property nobody prevents takes the value it is given.\<close>

lemma property_set_value [simp]:
  "before_update_consumers p = [] \<Longrightarrow> property_value (fst (property_set (=) (Some v) p)) = Some v"
  by (auto simp: property_set_def prevented_def split: option.split)

lemma property_set_before [simp]:
  "before_update_consumers (fst (property_set eq v p)) = before_update_consumers p"
  by (rule property_set_keeps_consumers)

lemma property_set_same [simp]:
  "property_value p = Some v \<Longrightarrow> snd (property_set (=) (Some v) p) = []"
  by (simp add: property_set_def)

text \<open>A field with no further \<open>prevent\<close>, as all but the fields of ports.\<close>

definition plain_field :: "'u text_field \<Rightarrow> bool" where
  "plain_field f \<longleftrightarrow>
     before_update_consumers (field_text f) = [] \<and> before_update_consumers (field_error f) = [] \<and>
     before_update_consumers (field_disabled f) = []"

lemma plain_new_field [simp]: "plain_field (new_text_field v d e r m p t)"
  by (simp add: plain_field_def new_text_field_def new_property_def)

lemma field_set_error_reads [simp]:
  "plain_field f \<Longrightarrow> plain_field (fst (field_set_error e f))"
  "plain_field f \<Longrightarrow> error_of (fst (field_set_error e f)) = error_shown e"
  "text_of (fst (field_set_error e f)) = text_of f"
  "disabled_of (fst (field_set_error e f)) = disabled_of f"
  "field_regexp (fst (field_set_error e f)) = field_regexp f"
  "field_mask (fst (field_set_error e f)) = field_mask f"
  by (simp_all add: field_set_error_def split_beta plain_field_def error_of_def text_of_def disabled_of_def)

lemma field_set_disabled_reads [simp]:
  "plain_field f \<Longrightarrow> plain_field (fst (field_set_disabled b f))"
  "plain_field f \<Longrightarrow> disabled_of (fst (field_set_disabled b f)) = b"
  "text_of (fst (field_set_disabled b f)) = text_of f"
  "error_of (fst (field_set_disabled b f)) = error_of f"
  "field_regexp (fst (field_set_disabled b f)) = field_regexp f"
  "field_mask (fst (field_set_disabled b f)) = field_mask f"
  by (simp_all add: field_set_disabled_def split_beta plain_field_def error_of_def text_of_def
      disabled_of_def)

lemma field_set_text_reads:
  assumes "plain_field f" and "v \<noteq> text_of f" and "\<not> mismatch v (field_mask f)"
  shows "text_of (fst (field_set_text v f)) = v"
    and "error_of (fst (field_set_text v f)) = mismatch v (field_regexp f)"
    and "plain_field (fst (field_set_text v f))"
    and "disabled_of (fst (field_set_text v f)) = disabled_of f"
  using assms
  by (auto simp: field_set_text_def Let_def split_beta field_set_error_def plain_field_def text_of_def
      error_of_def disabled_of_def)

lemma field_set_text_frame [simp]:
  "field_regexp (fst (field_set_text v f)) = field_regexp f"
  "field_mask (fst (field_set_text v f)) = field_mask f"
  "plain_field f \<Longrightarrow> plain_field (fst (field_set_text v f))"
  by (auto simp: field_set_text_def Let_def split_beta field_set_error_def plain_field_def)

end
