(* ===== verification/Forms.thy ===== *)
theory Forms
  imports Text_Fields Regexps Samples
begin

text \<open>
  The forms of \<open>component/pages/authorization/AuthorizationPage.ts\<close> and
  \<open>component/pages/registration/RegistrationPage.ts\<close>: text fields, a button, validation on every change of a
  text, and the request with its two answers. The consumer of every text is the form's validation; input by
  the user is \<open>field_set_text\<close>. Cookies, notifications, navigation and requests are effects.
\<close>

datatype form_effect =
    Authorize_request user_authorization_request
  | Register_request user_registration_request
  | Store_token string
  | User_reported user
  | User_not_found string
  | Invalid_password

text \<open>A change of a text runs the validation once for every call of its consumer.\<close>

definition text_calls :: "'u field_effect list \<Rightarrow> nat" where
  "text_calls calls = length (filter (\<lambda>c. case c of Text_call _ \<Rightarrow> True | _ \<Rightarrow> False) calls)"

definition form_field :: "rx \<Rightarrow> bool option \<Rightarrow> unit text_field" where
  "form_field regexp password =
     fst (field_on_text_changed ()
       (new_text_field None False False (Some (matches regexp)) None password (Some [])))"

definition disable_field :: "unit text_field \<Rightarrow> unit text_field" where
  "disable_field f = fst (field_set_disabled True f)"

definition enable_field :: "unit text_field \<Rightarrow> unit text_field" where
  "enable_field f = fst (field_set_disabled False f)"

section \<open>Authorization\<close>

record authorization_page =
  authorization_name :: "unit text_field"
  authorization_password :: "unit text_field"
  authorize_button :: "unit button"
  register_button :: "unit button"
  authorization_user :: "user option"

definition new_authorization_page :: authorization_page where
  "new_authorization_page =
     \<lparr>authorization_name = form_field USER_NAME_REGEX None,
      authorization_password = form_field PASSWORD_REGEX (Some True),
      authorize_button = new_button True, register_button = new_button False, authorization_user = None\<rparr>"

definition authorization_validate :: "authorization_page \<Rightarrow> authorization_page" where
  "authorization_validate p =
     (let disabled = text_of (authorization_name p) = [] \<or> text_of (authorization_password p) = [] \<or>
            error_of (authorization_name p) \<or> error_of (authorization_password p)
      in p\<lparr>authorize_button := button_set_disabled disabled (authorize_button p)\<rparr>)"

definition authorization_type_name :: "string \<Rightarrow> authorization_page \<Rightarrow> authorization_page" where
  "authorization_type_name v p =
     (let (f, calls) = field_set_text v (authorization_name p)
      in (authorization_validate ^^ text_calls calls) (p\<lparr>authorization_name := f\<rparr>))"

definition authorization_type_password :: "string \<Rightarrow> authorization_page \<Rightarrow> authorization_page" where
  "authorization_type_password v p =
     (let (f, calls) = field_set_text v (authorization_password p)
      in (authorization_validate ^^ text_calls calls) (p\<lparr>authorization_password := f\<rparr>))"

definition authorization_disable :: "authorization_page \<Rightarrow> authorization_page" where
  "authorization_disable p =
     p\<lparr>authorize_button := button_set_disabled True (authorize_button p),
       register_button := button_set_disabled True (register_button p),
       authorization_name := disable_field (authorization_name p),
       authorization_password := disable_field (authorization_password p)\<rparr>"

definition authorization_enable :: "authorization_page \<Rightarrow> authorization_page" where
  "authorization_enable p =
     p\<lparr>authorize_button := button_set_disabled False (authorize_button p),
       register_button := button_set_disabled False (register_button p),
       authorization_name := enable_field (authorization_name p),
       authorization_password := enable_field (authorization_password p)\<rparr>"

definition authorization_authorize ::
  "authorization_page \<Rightarrow> authorization_page \<times> form_effect list" where
  "authorization_authorize p =
     (let name = text_of (authorization_name p); password = text_of (authorization_password p) in
      if name = [] \<or> password = [] then (p, [])
      else (authorization_disable p,
            [Authorize_request \<lparr>user_authorization_request_name = name,
               user_authorization_request_password = password\<rparr>]))"

text \<open>A click on the button, or the enter key, authorizes unless the button is disabled.\<close>

definition authorization_click :: "authorization_page \<Rightarrow> authorization_page \<times> form_effect list" where
  "authorization_click p =
     (if button_is_disabled (authorize_button p) then (p, []) else authorization_authorize p)"

definition authorization_on_success ::
  "user \<Rightarrow> authorization_page \<Rightarrow> authorization_page \<times> form_effect list" where
  "authorization_on_success user p =
     ((authorization_enable p)\<lparr>authorization_user := Some user\<rparr>,
      [Store_token (user_token user), User_reported user])"

definition authorization_on_error ::
  "string \<Rightarrow> authorization_page \<Rightarrow> authorization_page \<times> form_effect list" where
  "authorization_on_error error_code' p =
     (authorization_enable p,
      if error_code' = USER_DOES_NOT_EXISTS then [User_not_found (text_of (authorization_name p))]
      else if error_code' = INVALID_PASSWORD then [Invalid_password] else [])"

section \<open>Registration\<close>

record registration_page =
  registration_names :: "string list"
  registration_emails :: "string list"
  registration_full_name :: "unit text_field"
  registration_email :: "unit text_field"
  registration_name :: "unit text_field"
  registration_password :: "unit text_field"
  continue_button :: "unit button"
  registration_user :: "user option"

definition new_registration_page :: registration_page where
  "new_registration_page =
     \<lparr>registration_names = [], registration_emails = [],
      registration_full_name = form_field FULL_NAME_REGEX None,
      registration_email = form_field EMAIL_REGEX None,
      registration_name = form_field USER_NAME_REGEX None,
      registration_password = form_field PASSWORD_REGEX (Some True),
      continue_button = new_button True, registration_user = None\<rparr>"

text \<open>The texts of the two messages are left out.\<close>

definition duplicate_error :: field_error where
  "duplicate_error = \<lparr>error_shown = True, error_text = Some []\<rparr>"

definition registration_validate_duplicates :: "registration_page \<Rightarrow> registration_page" where
  "registration_validate_duplicates p =
     (let p1 = (if text_of (registration_name p) \<in> set (registration_names p)
                then p\<lparr>registration_name := fst (field_set_error duplicate_error (registration_name p))\<rparr>
                else p)
      in if text_of (registration_email p1) \<in> set (registration_emails p1)
         then p1\<lparr>registration_email := fst (field_set_error duplicate_error (registration_email p1))\<rparr>
         else p1)"

definition registration_validate :: "registration_page \<Rightarrow> registration_page" where
  "registration_validate p =
     (let p1 = registration_validate_duplicates p;
          empties = text_of (registration_name p1) = [] \<or> text_of (registration_password p1) = [] \<or>
            text_of (registration_full_name p1) = [] \<or> text_of (registration_email p1) = [];
          errors = error_of (registration_name p1) \<or> error_of (registration_email p1) \<or>
            error_of (registration_password p1) \<or> error_of (registration_password p1)
      in p1\<lparr>continue_button := button_set_disabled (empties \<or> errors) (continue_button p1)\<rparr>)"

datatype registration_field = Full_name_field | Email_field | Name_field | Password_field

fun registration_type :: "registration_field \<Rightarrow> string \<Rightarrow> registration_page \<Rightarrow> registration_page" where
  "registration_type Full_name_field v p =
     (let (f, calls) = field_set_text v (registration_full_name p)
      in (registration_validate ^^ text_calls calls) (p\<lparr>registration_full_name := f\<rparr>))"
| "registration_type Email_field v p =
     (let (f, calls) = field_set_text v (registration_email p)
      in (registration_validate ^^ text_calls calls) (p\<lparr>registration_email := f\<rparr>))"
| "registration_type Name_field v p =
     (let (f, calls) = field_set_text v (registration_name p)
      in (registration_validate ^^ text_calls calls) (p\<lparr>registration_name := f\<rparr>))"
| "registration_type Password_field v p =
     (let (f, calls) = field_set_text v (registration_password p)
      in (registration_validate ^^ text_calls calls) (p\<lparr>registration_password := f\<rparr>))"

text \<open>The answers to the two requests of \<open>onLoad\<close>.\<close>

definition registration_names_loaded :: "string list \<Rightarrow> registration_page \<Rightarrow> registration_page" where
  "registration_names_loaded names p =
     registration_validate_duplicates (p\<lparr>registration_names := names\<rparr>)"

definition registration_emails_loaded :: "string list \<Rightarrow> registration_page \<Rightarrow> registration_page" where
  "registration_emails_loaded emails p =
     registration_validate_duplicates (p\<lparr>registration_emails := emails\<rparr>)"

definition registration_disable :: "registration_page \<Rightarrow> registration_page" where
  "registration_disable p =
     p\<lparr>continue_button := button_set_disabled True (continue_button p),
       registration_name := disable_field (registration_name p),
       registration_full_name := disable_field (registration_full_name p),
       registration_email := disable_field (registration_email p),
       registration_password := disable_field (registration_password p)\<rparr>"

definition registration_enable :: "registration_page \<Rightarrow> registration_page" where
  "registration_enable p =
     p\<lparr>continue_button := button_set_disabled False (continue_button p),
       registration_name := enable_field (registration_name p),
       registration_full_name := disable_field (registration_full_name p),
       registration_email := disable_field (registration_email p),
       registration_password := enable_field (registration_password p)\<rparr>"

definition registration_register :: "registration_page \<Rightarrow> registration_page \<times> form_effect list" where
  "registration_register p =
     (let name = text_of (registration_name p); password = text_of (registration_password p);
          email = text_of (registration_email p); full_name = text_of (registration_full_name p) in
      if name = [] \<or> password = [] \<or> email = [] \<or> full_name = [] then (p, [])
      else (registration_disable p,
            [Register_request \<lparr>user_registration_request_name = name,
               user_registration_request_full_name = full_name, user_registration_request_email = email,
               user_registration_request_password = password\<rparr>]))"

definition registration_click :: "registration_page \<Rightarrow> registration_page \<times> form_effect list" where
  "registration_click p =
     (if button_is_disabled (continue_button p) then (p, []) else registration_register p)"

definition registration_on_success ::
  "user \<Rightarrow> registration_page \<Rightarrow> registration_page \<times> form_effect list" where
  "registration_on_success user p =
     ((registration_enable p)\<lparr>registration_user := Some user\<rparr>,
      [Store_token (user_token user), User_reported user])"

definition registration_on_error :: "registration_page \<Rightarrow> registration_page" where
  "registration_on_error p = registration_enable p"

section \<open>Fields of a form\<close>

definition form_field_ok :: "rx \<Rightarrow> unit text_field \<Rightarrow> bool" where
  "form_field_ok regexp f \<longleftrightarrow>
     plain_field f \<and> property_value (field_text f) \<noteq> None \<and>
     after_update_consumers (field_text f) = [()] \<and> field_mask f = None \<and>
     field_regexp f = Some (matches regexp)"

text \<open>The error of a field that only the user changed is the mismatch of its text.\<close>

definition field_honest :: "unit text_field \<Rightarrow> bool" where
  "field_honest f \<longleftrightarrow> error_of f = mismatch (text_of f) (field_regexp f)"

lemma form_field_ok_new [preserves]:
  "form_field_ok regexp (form_field regexp password)" "field_honest (form_field regexp password)"
  by (simp_all add: form_field_ok_def field_honest_def form_field_def field_on_text_changed_def
      new_text_field_def new_property_def property_consume_def plain_field_def error_of_def text_of_def
      mismatch_def)

lemma form_field_text [simp]: "text_of (form_field regexp password) = []"
  by (simp add: form_field_def field_on_text_changed_def new_text_field_def property_consume_def
      new_property_def text_of_def)

lemma form_field_ok_set_text [preserves]:
  "form_field_ok regexp f \<Longrightarrow> form_field_ok regexp (fst (field_set_text v f))"
  by (auto simp: form_field_ok_def field_set_text_def field_set_error_def Let_def split_beta plain_field_def
      property_set_keeps_consumers mismatch_def)

lemma form_field_ok_error [preserves]:
  "form_field_ok regexp f \<Longrightarrow> form_field_ok regexp (fst (field_set_error e f))"
  by (auto simp: form_field_ok_def field_set_error_def split_beta plain_field_def)

lemma form_field_ok_disabled [preserves]:
  "form_field_ok regexp f \<Longrightarrow> form_field_ok regexp (disable_field f)"
  "form_field_ok regexp f \<Longrightarrow> form_field_ok regexp (enable_field f)"
  by (auto simp: form_field_ok_def disable_field_def enable_field_def field_set_disabled_def split_beta
      plain_field_def)

lemma toggled_field_reads [simp]:
  "text_of (disable_field f) = text_of f" "text_of (enable_field f) = text_of f"
  "error_of (disable_field f) = error_of f" "error_of (enable_field f) = error_of f"
  "form_field_ok regexp f \<Longrightarrow> disabled_of (disable_field f)"
  "form_field_ok regexp f \<Longrightarrow> \<not> disabled_of (enable_field f)"
  by (simp_all add: disable_field_def enable_field_def form_field_ok_def)

lemma enabled_again [simp]: "form_field_ok regexp f \<Longrightarrow> \<not> disabled_of (enable_field (disable_field f))"
  by (intro toggled_field_reads(6) form_field_ok_disabled)

text \<open>Typing sets the text and the error, and validates once if the text is new.\<close>

lemma form_field_typed:
  assumes "form_field_ok regexp f"
  shows "text_of (fst (field_set_text v f)) = v"
    and "field_honest f \<Longrightarrow> field_honest (fst (field_set_text v f))"
    and "text_calls (snd (field_set_text v f)) = (if v = text_of f then 0 else 1)"
    and "disabled_of (fst (field_set_text v f)) = disabled_of f"
    and "v \<noteq> text_of f \<Longrightarrow> error_of (fst (field_set_text v f)) = mismatch v (Some (matches regexp))"
    and "v = text_of f \<Longrightarrow> error_of (fst (field_set_text v f)) = error_of f"
  using assms
  by (auto simp: form_field_ok_def field_honest_def plain_field_def field_set_text_def Let_def split_beta
      mismatch_def text_of_def error_of_def disabled_of_def field_set_error_def text_calls_def property_set_def
      prevented_def notify_updated_def split: option.splits)

lemma button_reads [simp]:
  "before_update_consumers (button_disabled b) = [] \<Longrightarrow> button_is_disabled (button_set_disabled v b) = v"
  "before_update_consumers (button_disabled (button_set_disabled v b)) =
     before_update_consumers (button_disabled b)"
  by (simp_all add: button_is_disabled_def button_set_disabled_def)

section \<open>The authorization page\<close>

datatype authorization_op = Type_name string | Type_password string

fun authorization_typed :: "authorization_op list \<Rightarrow> authorization_page \<Rightarrow> authorization_page" where
  "authorization_typed [] p = p"
| "authorization_typed (Type_name v # ops) p = authorization_typed ops (authorization_type_name v p)"
| "authorization_typed (Type_password v # ops) p = authorization_typed ops (authorization_type_password v p)"

definition authorization_ok :: "authorization_page \<Rightarrow> bool" where
  "authorization_ok p \<longleftrightarrow>
     form_field_ok USER_NAME_REGEX (authorization_name p) \<and> field_honest (authorization_name p) \<and>
     form_field_ok PASSWORD_REGEX (authorization_password p) \<and> field_honest (authorization_password p) \<and>
     before_update_consumers (button_disabled (authorize_button p)) = [] \<and>
     before_update_consumers (button_disabled (register_button p)) = [] \<and>
     (button_is_disabled (authorize_button p) \<longleftrightarrow>
        text_of (authorization_name p) = [] \<or> text_of (authorization_password p) = [] \<or>
        error_of (authorization_name p) \<or> error_of (authorization_password p))"

lemma authorization_ok_new [preserves]: "authorization_ok new_authorization_page"
  by (simp add: authorization_ok_def new_authorization_page_def preserves new_button_def
      new_property_def button_is_disabled_def)

lemma authorization_ok_name [preserves]:
  "authorization_ok p \<Longrightarrow> authorization_ok (authorization_type_name v p)"
  by (cases "v = text_of (authorization_name p)")
    (auto simp: authorization_ok_def authorization_type_name_def authorization_validate_def split_beta
      Let_def form_field_typed preserves)

lemma authorization_ok_password [preserves]:
  "authorization_ok p \<Longrightarrow> authorization_ok (authorization_type_password v p)"
  by (cases "v = text_of (authorization_password p)")
    (auto simp: authorization_ok_def authorization_type_password_def authorization_validate_def split_beta
      Let_def form_field_typed preserves)

lemma authorization_ok_typed [preserves]:
  "authorization_ok p \<Longrightarrow> authorization_ok (authorization_typed ops p)"
  by (induction ops p rule: authorization_typed.induct) (simp_all add: preserves)

section \<open>The registration page\<close>

datatype registration_op =
    Type_into registration_field string | Names_loaded "string list" | Emails_loaded "string list"
  | Continue_clicked | Registration_refused

fun registration_step :: "registration_op \<Rightarrow> registration_page \<Rightarrow> registration_page \<times> form_effect list" where
  "registration_step (Type_into field v) p = (registration_type field v p, [])"
| "registration_step (Names_loaded names) p = (registration_names_loaded names p, [])"
| "registration_step (Emails_loaded emails) p = (registration_emails_loaded emails p, [])"
| "registration_step Continue_clicked p = registration_click p"
| "registration_step Registration_refused p = (registration_on_error p, [])"

definition registration_ok :: "registration_page \<Rightarrow> bool" where
  "registration_ok p \<longleftrightarrow>
     form_field_ok FULL_NAME_REGEX (registration_full_name p) \<and>
     form_field_ok EMAIL_REGEX (registration_email p) \<and>
     form_field_ok USER_NAME_REGEX (registration_name p) \<and>
     form_field_ok PASSWORD_REGEX (registration_password p) \<and>
     before_update_consumers (button_disabled (continue_button p)) = []"

lemma registration_ok_new [preserves]: "registration_ok new_registration_page"
  by (simp add: registration_ok_def new_registration_page_def preserves new_button_def new_property_def)

lemma registration_ok_duplicates [preserves]:
  "registration_ok p \<Longrightarrow> registration_ok (registration_validate_duplicates p)"
  by (simp add: registration_ok_def registration_validate_duplicates_def Let_def preserves)

lemma registration_ok_validate [preserves]:
  "registration_ok p \<Longrightarrow> registration_ok (registration_validate p)"
  using registration_ok_duplicates [of p]
  by (simp add: registration_ok_def registration_validate_def Let_def)

lemma registration_ok_validates [preserves]:
  "registration_ok p \<Longrightarrow> registration_ok ((registration_validate ^^ n) p)"
  by (induction n) (simp_all add: preserves)

lemma registration_ok_type [preserves]: "registration_ok p \<Longrightarrow> registration_ok (registration_type field v p)"
proof (cases field)
  case Full_name_field
  assume "registration_ok p"
  then have "registration_ok (p\<lparr>registration_full_name := fst (field_set_text v (registration_full_name p))\<rparr>)"
    by (simp add: registration_ok_def preserves)
  with Full_name_field show ?thesis by (simp add: split_beta preserves)
next
  case Email_field
  assume "registration_ok p"
  then have "registration_ok (p\<lparr>registration_email := fst (field_set_text v (registration_email p))\<rparr>)"
    by (simp add: registration_ok_def preserves)
  with Email_field show ?thesis by (simp add: split_beta preserves)
next
  case Name_field
  assume "registration_ok p"
  then have "registration_ok (p\<lparr>registration_name := fst (field_set_text v (registration_name p))\<rparr>)"
    by (simp add: registration_ok_def preserves)
  with Name_field show ?thesis by (simp add: split_beta preserves)
next
  case Password_field
  assume "registration_ok p"
  then have "registration_ok (p\<lparr>registration_password := fst (field_set_text v (registration_password p))\<rparr>)"
    by (simp add: registration_ok_def preserves)
  with Password_field show ?thesis by (simp add: split_beta preserves)
qed

lemma registration_ok_step [preserves]:
  "registration_ok p \<Longrightarrow> registration_ok (fst (registration_step op p))"
  by (cases op)
    (simp_all add: preserves registration_names_loaded_def registration_emails_loaded_def
      registration_click_def registration_register_def registration_on_error_def,
     simp_all add: registration_ok_def registration_validate_duplicates_def registration_disable_def
      registration_enable_def Let_def preserves)

text \<open>
  Before the names in use are loaded, an input makes the error of its field the mismatch of its text and the
  button follows the texts and the errors that the validation looks at.
\<close>

definition registration_clean :: "registration_page \<Rightarrow> bool" where
  "registration_clean p \<longleftrightarrow>
     registration_ok p \<and> registration_names p = [] \<and> registration_emails p = [] \<and>
     field_honest (registration_full_name p) \<and> field_honest (registration_email p) \<and>
     field_honest (registration_name p) \<and> field_honest (registration_password p) \<and>
     (button_is_disabled (continue_button p) \<longleftrightarrow>
        text_of (registration_name p) = [] \<or> text_of (registration_password p) = [] \<or>
        text_of (registration_full_name p) = [] \<or> text_of (registration_email p) = [] \<or>
        error_of (registration_name p) \<or> error_of (registration_email p) \<or>
        error_of (registration_password p))"

fun field_of :: "registration_field \<Rightarrow> registration_page \<Rightarrow> unit text_field" where
  "field_of Full_name_field p = registration_full_name p"
| "field_of Email_field p = registration_email p"
| "field_of Name_field p = registration_name p"
| "field_of Password_field p = registration_password p"

lemma registration_clean_new: "registration_clean new_registration_page"
  unfolding registration_clean_def
  by (intro conjI registration_ok_new)
    (simp_all add: new_registration_page_def preserves new_button_def new_property_def button_is_disabled_def)

lemma validate_no_duplicates:
  assumes "registration_names p = []" and "registration_emails p = []"
  shows "registration_validate p = p\<lparr>continue_button := button_set_disabled
    ((text_of (registration_name p) = [] \<or> text_of (registration_password p) = [] \<or>
      text_of (registration_full_name p) = [] \<or> text_of (registration_email p) = []) \<or>
     error_of (registration_name p) \<or> error_of (registration_email p) \<or>
     error_of (registration_password p)) (continue_button p)\<rparr>"
  using assms by (simp add: registration_validate_def registration_validate_duplicates_def)

lemma registration_clean_type:
  assumes "registration_clean p"
  shows "registration_clean (registration_type field v p)"
proof -
  have ok: "registration_ok (registration_type field v p)"
    using assms registration_ok_type by (simp add: registration_clean_def)
  from assms have l: "registration_names p = []" "registration_emails p = []" and r: "registration_ok p"
    by (simp_all add: registration_clean_def)
  show ?thesis
  proof (cases "v = text_of (field_of field p)")
    case True
    with r have "text_calls (snd (field_set_text v (field_of field p))) = 0"
      by (cases field) (auto simp: registration_ok_def form_field_typed)
    with True assms r ok show ?thesis
      by (cases field) (auto simp: split_beta registration_clean_def registration_ok_def form_field_typed)
  next
    case False
    with r have "text_calls (snd (field_set_text v (field_of field p))) = 1"
      by (cases field) (auto simp: registration_ok_def form_field_typed)
    with False assms r ok l show ?thesis
      by (cases field)
        (auto simp: split_beta registration_clean_def validate_no_duplicates registration_ok_def form_field_typed)
  qed
qed

lemma registration_typed_text:
  assumes "registration_clean p"
  shows "text_of (field_of g (registration_type field v p)) = (if g = field then v else text_of (field_of g p))"
  using assms
  by (cases field; cases "v = text_of (field_of field p)"; cases g)
    (auto simp: registration_clean_def registration_ok_def validate_no_duplicates split_beta form_field_typed)

text \<open>The full name and the email, once locked, stay locked.\<close>

definition identity_locked :: "registration_page \<Rightarrow> bool" where
  "identity_locked p \<longleftrightarrow> disabled_of (registration_full_name p) \<and> disabled_of (registration_email p)"

lemma identity_locked_validate [simp]: "identity_locked (registration_validate p) = identity_locked p"
  by (simp add: identity_locked_def registration_validate_def registration_validate_duplicates_def Let_def)

lemma identity_locked_validates [simp]:
  "identity_locked ((registration_validate ^^ n) p) = identity_locked p"
  by (induction n) simp_all

lemma identity_locked_step:
  assumes "registration_ok p" and "identity_locked p"
  shows "identity_locked (fst (registration_step op p))"
proof (cases op)
  case (Type_into field v)
  with assms show ?thesis
    by (cases field)
      (simp_all add: split_beta, auto simp: identity_locked_def registration_ok_def form_field_typed)
qed (use assms in \<open>auto simp: identity_locked_def registration_names_loaded_def registration_emails_loaded_def
    registration_validate_duplicates_def registration_click_def registration_register_def
    registration_on_error_def registration_disable_def registration_enable_def registration_ok_def Let_def\<close>)

section \<open>Properties\<close>

text \<open>
  The authorization page sends exactly the valid inputs. Whatever is typed into its two fields, in any
  order, a click or the enter key sends a request if and only if the name and the password are valid, and
  the request carries the two texts; after a refusal all its fields are enabled again with their texts kept.
\<close>

theorem authorization_sends_valid:
  "let p = authorization_typed ops new_authorization_page;
       name = text_of (authorization_name p); password = text_of (authorization_password p);
       q = fst (authorization_on_error code (fst (authorization_click p)))
   in snd (authorization_click p) =
        (if name \<noteq> [] \<and> password \<noteq> [] \<and> matches USER_NAME_REGEX name \<and> matches PASSWORD_REGEX password
         then [Authorize_request \<lparr>user_authorization_request_name = name,
                 user_authorization_request_password = password\<rparr>] else []) \<and>
      \<not> disabled_of (authorization_name q) \<and> \<not> disabled_of (authorization_password q) \<and>
      text_of (authorization_name q) = name \<and> text_of (authorization_password q) = password"
proof -
  define p where "p = authorization_typed ops new_authorization_page"
  have ok: "authorization_ok p" by (simp add: p_def preserves)
  then have "error_of (authorization_name p) =
      mismatch (text_of (authorization_name p)) (Some (matches USER_NAME_REGEX))"
    "error_of (authorization_password p) =
      mismatch (text_of (authorization_password p)) (Some (matches PASSWORD_REGEX))"
    by (simp_all add: authorization_ok_def form_field_ok_def field_honest_def)
  with ok show ?thesis unfolding p_def [symmetric]
    by (auto simp: authorization_ok_def authorization_click_def authorization_authorize_def Let_def mismatch_def
        authorization_on_error_def authorization_enable_def authorization_disable_def preserves)
qed

text \<open>
  The registration page accepts a wrong full name. Its validation looks at the errors of the name, the
  email and, twice, the password, but not of the full name: with a full name that its expression rejects and
  otherwise valid texts the button is enabled, the field shows the error, and a click sends the request.
\<close>

theorem registration_accepts_bad_full_name:
  assumes "full \<noteq> []" and "\<not> matches FULL_NAME_REGEX full"
    and "email \<noteq> []" and "matches EMAIL_REGEX email" and "name \<noteq> []" and "matches USER_NAME_REGEX name"
    and "password \<noteq> []" and "matches PASSWORD_REGEX password"
  shows "let p = fst (emit_run registration_step [Type_into Full_name_field full, Type_into Email_field email,
      Type_into Name_field name, Type_into Password_field password] new_registration_page) in
    error_of (registration_full_name p) \<and> \<not> button_is_disabled (continue_button p) \<and>
    snd (registration_click p) =
      [Register_request \<lparr>user_registration_request_name = name, user_registration_request_full_name = full,
         user_registration_request_email = email, user_registration_request_password = password\<rparr>]"
proof -
  define p where "p = fst (emit_run registration_step [Type_into Full_name_field full,
    Type_into Email_field email, Type_into Name_field name, Type_into Password_field password]
    new_registration_page)"
  note typed = registration_clean_type
  have clean: "registration_clean p" unfolding p_def
    by (simp del: registration_type.simps add: typed registration_clean_new)
  have texts: "text_of (field_of g p) = (case g of Full_name_field \<Rightarrow> full | Email_field \<Rightarrow> email
      | Name_field \<Rightarrow> name | Password_field \<Rightarrow> password)" for g
    unfolding p_def
    by (cases g; simp del: registration_type.simps field_of.simps
        add: typed registration_typed_text registration_clean_new)
  from texts [of Full_name_field] texts [of Email_field] texts [of Name_field] texts [of Password_field]
    clean assms show ?thesis
    unfolding p_def [symmetric] Let_def
    by (auto simp: registration_clean_def registration_ok_def field_honest_def form_field_ok_def mismatch_def
        registration_click_def registration_register_def)
qed

text \<open>
  A refused registration cannot be corrected. After the refusal the page enables the name and the password
  but disables the full name and the email once more, and nothing enables them again, whatever is typed,
  loaded, clicked and refused afterwards.
\<close>

theorem registration_refusal_locks_identity:
  assumes "registration_ok p"
  shows "let q = fst (emit_run registration_step ops (registration_on_error p)) in
    disabled_of (registration_full_name q) \<and> disabled_of (registration_email q)"
proof -
  have "registration_ok q \<and> identity_locked q \<Longrightarrow>
      registration_ok (fst (registration_step op q)) \<and> identity_locked (fst (registration_step op q))" for op q
    by (simp add: registration_ok_step identity_locked_step)
  moreover have "registration_ok (registration_on_error p)" "identity_locked (registration_on_error p)"
    using assms registration_ok_step [of p Registration_refused]
    by (auto simp: registration_ok_def identity_locked_def registration_on_error_def registration_enable_def)
  ultimately have "registration_ok (fst (emit_run registration_step ops (registration_on_error p))) \<and>
      identity_locked (fst (emit_run registration_step ops (registration_on_error p)))"
    by (intro emit_run_invariant [where I = "\<lambda>q. registration_ok q \<and> identity_locked q"]) auto
  then show ?thesis by (simp add: Let_def identity_locked_def)
qed

theorem registration_refusal_locks_identity_witness:
  "disabled_of (registration_email (fst (emit_run registration_step
     [Type_into Email_field ''a@b.ru'', Continue_clicked] (registration_on_error new_registration_page))))"
  using registration_refusal_locks_identity [OF registration_ok_new]
  by (simp only: Let_def simp_thms)

lemma times_of_numeral:
  "times_of (numeral k) r = Seq r (times_of (pred_numeral k) r)"
  "up_to (numeral k) r = Alt Eps (Seq r (up_to (pred_numeral k) r))"
  by (simp_all add: numeral_eq_Suc)

lemmas rx_defs =
  matches_def codes_def rx_match_def lit_def chars_def but_def syms_def opt_of_def plus_of_def at_least_def
  between_def digits_def lower_def upper_def space_class_def line_ends_def mk_alt_def mk_seq_def
  in_class_def times_of_numeral

lemma sample_texts:
  "\<not> matches FULL_NAME_REGEX ''x''" "matches EMAIL_REGEX ''a@b.ru''" "matches USER_NAME_REGEX ''user''"
  "matches PASSWORD_REGEX ''secret''"
  by (simp_all add: rx_defs FULL_NAME_REGEX_def EMAIL_REGEX_def USER_NAME_REGEX_def PASSWORD_REGEX_def)

theorem registration_accepts_bad_full_name_witness:
  "\<not> button_is_disabled (continue_button (fst (emit_run registration_step
     [Type_into Full_name_field ''x'', Type_into Email_field ''a@b.ru'', Type_into Name_field ''user'',
      Type_into Password_field ''secret''] new_registration_page)))"
proof -
  have "''x'' \<noteq> []" "\<not> matches FULL_NAME_REGEX ''x''" "''a@b.ru'' \<noteq> []" "matches EMAIL_REGEX ''a@b.ru''"
    "''user'' \<noteq> []" "matches USER_NAME_REGEX ''user''" "''secret'' \<noteq> []" "matches PASSWORD_REGEX ''secret''"
    by (simp_all add: sample_texts)
  from registration_accepts_bad_full_name [OF this, unfolded Let_def, THEN conjunct2, THEN conjunct1]
  show ?thesis .
qed

end
