(* ===== verification/Collections.thy ===== *)
theory Collections
  imports Text_Fields
begin

text \<open>
  The managed collection, \<open>framework/dsl/managed/ManagedCollection.tsx\<close>: a list of numbered widgets that
  validates them on every change, and allows adding and editing only while all of them are valid and
  distinct. What the collection asks of an item is a record of functions on the item's widget. The first
  consumer of every property is the trigger of the configuration: the token \<open>None\<close>.
\<close>

record ('w, 'v) item_functions =
  item_validator :: "'w \<Rightarrow> bool"
  value_extractor :: "'w \<Rightarrow> 'v"
  disable_handler :: "bool \<Rightarrow> 'w \<Rightarrow> 'w"
  duplicate_handler :: "bool \<Rightarrow> 'w \<Rightarrow> 'w"

record ('w, 'u) collection =
  item_sequence :: int
  collection_items :: "(int \<times> 'w) list"
  last_item :: "int option"
  addition_disabled :: "(bool, 'u option) property"
  deletion_disabled :: "(bool, 'u option) property"
  editing_disabled :: "(int, 'u option) property"
  editing_handlers :: "int list"
  collection_add :: "'u list"
  collection_delete :: "'u list"

datatype 'u collection_effect =
    Addition_call "(bool, 'u option) property_call"
  | Deletion_call "(bool, 'u option) property_call"
  | Editing_call "(int, 'u option) property_call"
  | Items_changed | Render_paused | Render_continued
  | Item_added 'u int | Item_deleted 'u int

text \<open>\<open>property(value).consume(notifyTrigger).cleared(notifyTrigger)\<close>: nothing is pending yet.\<close>

definition configuration_property :: "'v option \<Rightarrow> ('v, 'u option) property" where
  "configuration_property v = property_cleared None (fst (property_consume None (new_property v)))"

text \<open>\<open>itemSequence\<close>: one more than the greatest of the initial identifiers, or \<open>1\<close>.\<close>

definition first_free_id :: "int list \<Rightarrow> int" where
  "first_free_id ids =
     (case find (\<lambda>i. list_all (\<lambda>less_than. less_than \<le> i) ids) ids of None \<Rightarrow> 0 | Some i \<Rightarrow> i) + 1"

definition empty_collection :: "int list \<Rightarrow> ('w, 'u) collection" where
  "empty_collection ids =
     \<lparr>item_sequence = first_free_id ids, collection_items = [], last_item = None,
      addition_disabled = configuration_property (Some False),
      deletion_disabled = configuration_property (Some False),
      editing_disabled = configuration_property None, editing_handlers = [], collection_add = [],
      collection_delete = []\<rparr>"

definition find_item :: "int \<Rightarrow> ('w, 'u) collection \<Rightarrow> 'w option" where
  "find_item i c = map_of (collection_items c) i"

definition update_item :: "int \<Rightarrow> ('w \<Rightarrow> 'w) \<Rightarrow> ('w, 'u) collection \<Rightarrow> ('w, 'u) collection" where
  "update_item i f c =
     c\<lparr>collection_items := map (\<lambda>(j, w). (j, if j = i then f w else w)) (collection_items c)\<rparr>"

section \<open>Addition and editing\<close>

definition set_addition_disabled ::
  "bool \<Rightarrow> ('w, 'u) collection \<Rightarrow> ('w, 'u) collection \<times> 'u collection_effect list" where
  "set_addition_disabled b c =
     (let (p, calls) = property_set (=) (Some b) (addition_disabled c)
      in (c\<lparr>addition_disabled := p\<rparr>, map Addition_call calls))"

definition set_deletion_disabled ::
  "bool \<Rightarrow> ('w, 'u) collection \<Rightarrow> ('w, 'u) collection \<times> 'u collection_effect list" where
  "set_deletion_disabled b c =
     (let (p, calls) = property_set (=) (Some b) (deletion_disabled c)
      in (c\<lparr>deletion_disabled := p\<rparr>, map Deletion_call calls))"

text \<open>The disable handlers consume every change of \<open>editingDisabled\<close>; handlers of deleted items act on nothing.\<close>

definition run_disable_handlers ::
  "('w, 'v) item_functions \<Rightarrow> (int \<Rightarrow> bool) \<Rightarrow> ('w, 'u) collection \<Rightarrow> ('w, 'u) collection" where
  "run_disable_handlers k disabled c =
     fold (\<lambda>i. update_item i (disable_handler k (disabled i))) (editing_handlers c) c"

definition disable_editing_except ::
  "('w, 'v) item_functions \<Rightarrow> int \<Rightarrow> ('w, 'u) collection \<Rightarrow> ('w, 'u) collection \<times> 'u collection_effect list" where
  "disable_editing_except k exclusion c =
     (let (p, calls) = property_set (=) (Some exclusion) (editing_disabled c);
          c1 = c\<lparr>editing_disabled := p\<rparr>
      in (if property_value p = property_value (editing_disabled c) then c1
         else run_disable_handlers k (\<lambda>i. exclusion \<noteq> i) c1,
         map Editing_call calls))"

definition enable_editing ::
  "('w, 'v) item_functions \<Rightarrow> ('w, 'u) collection \<Rightarrow> ('w, 'u) collection \<times> 'u collection_effect list" where
  "enable_editing k c =
     (let (p, calls) = property_clear (editing_disabled c)
      in (run_disable_handlers k (\<lambda>i. False) (c\<lparr>editing_disabled := p\<rparr>), map Editing_call calls))"

definition is_addition_disabled :: "('w, 'u) collection \<Rightarrow> bool" where
  "is_addition_disabled c \<longleftrightarrow> property_value (addition_disabled c) = Some True"

definition editing_exclusion :: "('w, 'u) collection \<Rightarrow> int option" where
  "editing_exclusion c = property_value (editing_disabled c)"

section \<open>Validation\<close>

datatype scan = Invalid_item | Duplicate_item | All_valid

text \<open>The loop of \<open>validateItemsExcept\<close> up to its first return.\<close>

fun scan_items ::
  "('w, 'v) item_functions \<Rightarrow> int \<Rightarrow> 'w \<Rightarrow> (int \<times> 'w) list \<Rightarrow> scan" where
  "scan_items k except except_widget [] = All_valid"
| "scan_items k except except_widget ((i, w) # items) =
     (if item_validator k w then Invalid_item
      else if i \<noteq> except \<and> value_extractor k except_widget = value_extractor k w then Duplicate_item
      else scan_items k except except_widget items)"

definition lock_except ::
  "('w, 'v) item_functions \<Rightarrow> int \<Rightarrow> ('w, 'u) collection \<Rightarrow> ('w, 'u) collection \<times> 'u collection_effect list" where
  "lock_except k except c =
     (let (c1, additions) = set_addition_disabled True c;
          (c2, edits) = disable_editing_except k except c1
      in (c2, Render_paused # additions @ edits @ [Render_continued]))"

definition validate_items_except ::
  "('w, 'v) item_functions \<Rightarrow> int \<Rightarrow> ('w, 'u) collection \<Rightarrow> ('w, 'u) collection \<times> 'u collection_effect list" where
  "validate_items_except k except c =
     (let (c1, additions) = (if is_addition_disabled c then set_addition_disabled False c else (c, []));
          (c2, edits) = (if editing_exclusion c1 \<noteq> None then enable_editing k c1 else (c1, []))
      in case find_item except c2 of
           None \<Rightarrow> (c2, additions @ edits)
         | Some w \<Rightarrow>
             (case scan_items k except w (collection_items c2) of
                All_valid \<Rightarrow> (update_item except (duplicate_handler k False) c2, additions @ edits)
              | Invalid_item \<Rightarrow>
                  let (c3, locks) = lock_except k except c2 in (c3, additions @ edits @ locks)
              | Duplicate_item \<Rightarrow>
                  let (c3, locks) = lock_except k except (update_item except (duplicate_handler k True) c2)
                  in (c3, additions @ edits @ locks)))"

section \<open>Items\<close>

text \<open>A new item is validated before its own handler consumes the state of editing.\<close>

definition add_item ::
  "('w, 'v) item_functions \<Rightarrow> int \<Rightarrow> 'w \<Rightarrow> ('w, 'u) collection \<Rightarrow>
    ('w, 'u) collection \<times> 'u collection_effect list" where
  "add_item k i w c =
     (let c1 = c\<lparr>collection_items := collection_items c @ [(i, w)], last_item := Some i\<rparr>;
          (c2, calls) = validate_items_except k i c1;
          c3 = c2\<lparr>editing_handlers := editing_handlers c2 @ [i]\<rparr>;
          c4 = (case property_pending (editing_disabled c3) of
                  None \<Rightarrow> c3
                | Some exclusion \<Rightarrow> update_item i (disable_handler k (exclusion \<noteq> i)) c3)
      in (c4, calls @ map (\<lambda>u. Item_added u i) (collection_add c)))"

definition add_new_item ::
  "('w, 'v) item_functions \<Rightarrow> (int \<Rightarrow> 'w) \<Rightarrow> ('w, 'u) collection \<Rightarrow>
    ('w, 'u) collection \<times> 'u collection_effect list" where
  "add_new_item k factory c =
     (let i = item_sequence c
      in add_item k i (factory i) (c\<lparr>item_sequence := i + 1\<rparr>))"

definition delete_item ::
  "('w, 'v) item_functions \<Rightarrow> int \<Rightarrow> ('w, 'u) collection \<Rightarrow>
    ('w, 'u) collection \<times> 'u collection_effect list" where
  "delete_item k i c =
     (let (c1, additions) = set_addition_disabled False c;
          (c2, edits) = (if editing_exclusion c1 = Some i then enable_editing k c1 else (c1, []))
      in case find_item i c2 of
           None \<Rightarrow> (c2, additions @ edits)
         | Some w \<Rightarrow>
             (let items = filter (\<lambda>(j, w). j \<noteq> i) (collection_items c2)
              in (c2\<lparr>collection_items := items, last_item := map_option fst (js_last items)\<rparr>,
                  additions @ edits @ Items_changed # map (\<lambda>u. Item_deleted u i) (collection_delete c2))))"

definition clear_collection ::
  "('w, 'v) item_functions \<Rightarrow> ('w, 'u) collection \<Rightarrow> ('w, 'u) collection \<times> 'u collection_effect list" where
  "clear_collection k c =
     (let cleared = (if collection_items c = [] then [] else [Items_changed]);
          (c1, additions) = set_addition_disabled False (c\<lparr>collection_items := []\<rparr>);
          (c2, edits) = enable_editing k c1
      in (c2\<lparr>collection_items := [], last_item := None\<rparr>, cleared @ additions @ edits))"

text \<open>A change of an item's value calls the consumer that \<open>addItem\<close> registered.\<close>

definition change_item ::
  "('w, 'v) item_functions \<Rightarrow> int \<Rightarrow> ('w \<Rightarrow> 'w \<times> bool) \<Rightarrow> ('w, 'u) collection \<Rightarrow>
    ('w, 'u) collection \<times> 'u collection_effect list" where
  "change_item k i edit c =
     (case find_item i c of
        None \<Rightarrow> (c, [])
      | Some w \<Rightarrow>
          let c1 = update_item i (\<lambda>w. fst (edit w)) c
          in if snd (edit w) then validate_items_except k i c1 else (c1, []))"

definition collection_on_add :: "'u \<Rightarrow> ('w, 'u) collection \<Rightarrow> ('w, 'u) collection" where
  "collection_on_add action c = c\<lparr>collection_add := event_handle (collection_add c) action\<rparr>"

definition collection_on_delete :: "'u \<Rightarrow> ('w, 'u) collection \<Rightarrow> ('w, 'u) collection" where
  "collection_on_delete action c = c\<lparr>collection_delete := event_handle (collection_delete c) action\<rparr>"

definition collection_values :: "('w, 'v option) item_functions \<Rightarrow> ('w, 'u) collection \<Rightarrow> 'v list" where
  "collection_values k c = List.map_filter (\<lambda>(i, w). value_extractor k w) (collection_items c)"

definition collection_widgets :: "('w, 'u) collection \<Rightarrow> 'w list" where
  "collection_widgets c = map snd (collection_items c)"

text \<open>The constructor adds an item for every initial identifier.\<close>

definition new_collection ::
  "('w, 'v) item_functions \<Rightarrow> (int \<Rightarrow> 'w) \<Rightarrow> int list \<Rightarrow> ('w, 'u) collection" where
  "new_collection k factory ids = fold (\<lambda>i c. fst (add_item k i (factory i) c)) ids (empty_collection ids)"

lemma first_free_id_bound: "i \<in> set ids \<Longrightarrow> i < first_free_id ids"
proof -
  assume i: "i \<in> set ids"
  then have "Max (set ids) \<in> set ids" and "\<forall>j \<in> set ids. j \<le> Max (set ids)"
    by (auto intro: Max_in)
  then have "find (\<lambda>i. list_all (\<lambda>less_than. less_than \<le> i) ids) ids \<noteq> None"
    unfolding find_None_iff list_all_iff by blast
  then obtain m where "find (\<lambda>i. list_all (\<lambda>less_than. less_than \<le> i) ids) ids = Some m" by blast
  moreover from this have "\<forall>j \<in> set ids. j \<le> m" by (auto simp: find_Some_iff list_all_iff)
  ultimately show ?thesis using i by (auto simp: first_free_id_def)
qed

section \<open>Frames\<close>

lemma set_addition_disabled_frame [simp]:
  "item_sequence (fst (set_addition_disabled b c)) = item_sequence c"
  "collection_items (fst (set_addition_disabled b c)) = collection_items c"
  "last_item (fst (set_addition_disabled b c)) = last_item c"
  "deletion_disabled (fst (set_addition_disabled b c)) = deletion_disabled c"
  "editing_disabled (fst (set_addition_disabled b c)) = editing_disabled c"
  "editing_handlers (fst (set_addition_disabled b c)) = editing_handlers c"
  "collection_add (fst (set_addition_disabled b c)) = collection_add c"
  "collection_delete (fst (set_addition_disabled b c)) = collection_delete c"
  "before_update_consumers (addition_disabled (fst (set_addition_disabled b c))) =
     before_update_consumers (addition_disabled c)"
  by (simp_all add: set_addition_disabled_def split_beta)

lemma set_addition_disabled_value [simp]:
  "before_update_consumers (addition_disabled c) = [] \<Longrightarrow>
   is_addition_disabled (fst (set_addition_disabled b c)) = b"
  by (simp add: set_addition_disabled_def is_addition_disabled_def split_beta)

lemma update_item_frame [simp]:
  "item_sequence (update_item i f c) = item_sequence c"
  "last_item (update_item i f c) = last_item c"
  "addition_disabled (update_item i f c) = addition_disabled c"
  "deletion_disabled (update_item i f c) = deletion_disabled c"
  "editing_disabled (update_item i f c) = editing_disabled c"
  "editing_handlers (update_item i f c) = editing_handlers c"
  "collection_add (update_item i f c) = collection_add c"
  "collection_delete (update_item i f c) = collection_delete c"
  "collection_items (update_item i f c) =
     map (\<lambda>(j, w). (j, if j = i then f w else w)) (collection_items c)"
  by (simp_all add: update_item_def)

text \<open>Each item's handler runs once for each of its registrations.\<close>

lemma fold_update_items:
  "fold (\<lambda>i. update_item i (f i)) is c =
     c\<lparr>collection_items := map (\<lambda>(j, w). (j, (f j ^^ count_list is j) w)) (collection_items c)\<rparr>"
proof (induction "is" arbitrary: c)
  case Nil
  show ?case by simp
next
  case (Cons i "is")
  have "(\<lambda>(j, w). (j, (f j ^^ count_list is j) w)) \<circ> (\<lambda>(j, w). (j, if j = i then f i w else w)) =
      (\<lambda>(j, w). (j, (f j ^^ count_list (i # is) j) w))"
    by (auto simp: fun_eq_iff funpow_swap1)
  with Cons.IH show ?case by (simp add: update_item_def)
qed

lemma run_disable_handlers_eq:
  "run_disable_handlers k d c =
     c\<lparr>collection_items :=
         map (\<lambda>(j, w). (j, (disable_handler k (d j) ^^ count_list (editing_handlers c) j) w))
           (collection_items c)\<rparr>"
  unfolding run_disable_handlers_def by (rule fold_update_items)

section \<open>Valid and distinct items\<close>

definition sound_items :: "('w, 'v) item_functions \<Rightarrow> (int \<times> 'w) list \<Rightarrow> bool" where
  "sound_items k items \<longleftrightarrow>
     list_all (\<lambda>(i, w). \<not> item_validator k w) items \<and> distinct (map (\<lambda>(i, w). value_extractor k w) items)"

definition other_items :: "int \<Rightarrow> (int \<times> 'w) list \<Rightarrow> (int \<times> 'w) list" where
  "other_items e items = filter (\<lambda>(i, w). i \<noteq> e) items"

abbreviation map_items :: "(int \<Rightarrow> 'w \<Rightarrow> 'w) \<Rightarrow> (int \<times> 'w) list \<Rightarrow> (int \<times> 'w) list" where
  "map_items g items \<equiv> map (\<lambda>(j, w). (j, g j w)) items"

lemma list_all_pairs: "list_all (\<lambda>(i, w). P i w) items \<longleftrightarrow> (\<forall>i w. (i, w) \<in> set items \<longrightarrow> P i w)"
  by (auto simp: list_all_iff)

lemma scan_all_valid:
  "scan_items k e we items = All_valid \<longleftrightarrow>
   list_all (\<lambda>(i, w). \<not> item_validator k w \<and> (i \<noteq> e \<longrightarrow> value_extractor k we \<noteq> value_extractor k w)) items"
  by (induction k e we items rule: scan_items.induct) auto

lemma other_items_absent: "e \<notin> fst ` set items \<Longrightarrow> other_items e items = items"
  by (induction items) (auto simp: other_items_def)

lemma sound_items_split:
  "distinct (map fst items) \<Longrightarrow> (e, we) \<in> set items \<Longrightarrow>
   sound_items k items \<longleftrightarrow>
     sound_items k (other_items e items) \<and> scan_items k e we items = All_valid"
proof (induction items)
  case Nil
  then show ?case by simp
next
  case (Cons item items)
  obtain i w where item: "item = (i, w)" by (cases item)
  show ?case
  proof (cases "i = e")
    case True
    with Cons.prems item have "w = we" and rest: "other_items e items = items"
        and absent: "\<forall>(i, w) \<in> set items. i \<noteq> e"
      by (auto intro: other_items_absent simp: image_iff)
    from rest True item have "other_items e (item # items) = items" by (simp add: other_items_def)
    with True item absent \<open>w = we\<close> show ?thesis
      by (auto simp: sound_items_def scan_all_valid list_all_iff)
  next
    case False
    with Cons item have ih: "sound_items k items \<longleftrightarrow>
        sound_items k (other_items e items) \<and> scan_items k e we items = All_valid"
      and mem: "(e, we) \<in> set items"
      by auto
    have "value_extractor k w \<notin> set (map (\<lambda>(i, w). value_extractor k w) items) \<longleftrightarrow>
        value_extractor k w \<notin> set (map (\<lambda>(i, w). value_extractor k w) (other_items e items)) \<and>
        value_extractor k we \<noteq> value_extractor k w"
      if "distinct (map fst items)"
      using that mem
      by (auto simp: other_items_def image_iff) (metis eq_key_imp_eq_value)
    with ih False item Cons.prems show ?thesis
      by (auto simp: sound_items_def other_items_def scan_all_valid)
  qed
qed

lemma find_item_mem:
  "distinct (map fst (collection_items c)) \<Longrightarrow>
   find_item i c = Some w \<longleftrightarrow> (i, w) \<in> set (collection_items c)"
  by (simp add: find_item_def)

lemma js_last_map: "js_last (map f xs) = map_option f (js_last xs)"
  by (simp add: js_last_def last_map)

lemma fst_map_items [simp]: "fst \<circ> (\<lambda>(j, w). (j, g j w)) = fst"
  by auto

lemma fst_case_pair [simp]: "fst (case x of (j, w) \<Rightarrow> (j, g j w)) = fst x"
  by (cases x) simp

lemma map_items_ids [simp]: "map fst (map_items g items) = map fst items"
  by simp

lemma other_map_items: "other_items e (map_items g items) = map_items g (other_items e items)"
  by (induction items) (auto simp: other_items_def)

lemma other_update [simp]:
  "other_items e (map (\<lambda>(j, w). (j, if j = e then f w else w)) items) = other_items e items"
  by (induction items) (auto simp: other_items_def)

section \<open>Locking and unlocking\<close>

text \<open>Nobody prevents the flags, and the state of editing that a new handler receives is the current one.\<close>

definition properties_free :: "('w, 'u) collection \<Rightarrow> bool" where
  "properties_free c \<longleftrightarrow>
     before_update_consumers (addition_disabled c) = [] \<and>
     before_update_consumers (editing_disabled c) = [] \<and>
     property_pending (editing_disabled c) = property_value (editing_disabled c)"

lemma properties_free_frame [simp]:
  "properties_free (update_item i f c) = properties_free c"
  "properties_free (c\<lparr>collection_items := items\<rparr>) = properties_free c"
  "properties_free (c\<lparr>last_item := l\<rparr>) = properties_free c"
  "properties_free (c\<lparr>item_sequence := n\<rparr>) = properties_free c"
  "properties_free (c\<lparr>editing_handlers := hs\<rparr>) = properties_free c"
  "properties_free c \<Longrightarrow> properties_free (fst (set_addition_disabled b c))"
  "properties_free c \<Longrightarrow> is_addition_disabled (fst (set_addition_disabled b c)) = b"
  by (simp_all add: properties_free_def)

lemma flags_frame [simp]:
  "is_addition_disabled (update_item i f c) = is_addition_disabled c"
  "is_addition_disabled (c\<lparr>collection_items := items\<rparr>) = is_addition_disabled c"
  "is_addition_disabled (c\<lparr>last_item := l\<rparr>) = is_addition_disabled c"
  "is_addition_disabled (c\<lparr>item_sequence := n\<rparr>) = is_addition_disabled c"
  "is_addition_disabled (c\<lparr>editing_handlers := hs\<rparr>) = is_addition_disabled c"
  "editing_exclusion (update_item i f c) = editing_exclusion c"
  "editing_exclusion (c\<lparr>collection_items := items\<rparr>) = editing_exclusion c"
  "editing_exclusion (c\<lparr>last_item := l\<rparr>) = editing_exclusion c"
  "editing_exclusion (c\<lparr>item_sequence := n\<rparr>) = editing_exclusion c"
  "editing_exclusion (c\<lparr>editing_handlers := hs\<rparr>) = editing_exclusion c"
  "editing_exclusion (fst (set_addition_disabled b c)) = editing_exclusion c"
  by (simp_all add: is_addition_disabled_def editing_exclusion_def)

definition handled ::
  "('w, 'v) item_functions \<Rightarrow> (int \<Rightarrow> bool) \<Rightarrow> int list \<Rightarrow> (int \<times> 'w) list \<Rightarrow> (int \<times> 'w) list" where
  "handled k d hs items = map_items (\<lambda>j. disable_handler k (d j) ^^ count_list hs j) items"

lemma enable_editing_result [simp]:
  "item_sequence (fst (enable_editing k c)) = item_sequence c"
  "last_item (fst (enable_editing k c)) = last_item c"
  "deletion_disabled (fst (enable_editing k c)) = deletion_disabled c"
  "editing_handlers (fst (enable_editing k c)) = editing_handlers c"
  "collection_add (fst (enable_editing k c)) = collection_add c"
  "collection_delete (fst (enable_editing k c)) = collection_delete c"
  "is_addition_disabled (fst (enable_editing k c)) = is_addition_disabled c"
  "editing_exclusion (fst (enable_editing k c)) = None"
  "properties_free c \<Longrightarrow> properties_free (fst (enable_editing k c))"
  "collection_items (fst (enable_editing k c)) =
     handled k (\<lambda>_. False) (editing_handlers c) (collection_items c)"
  by (simp_all add: enable_editing_def property_clear_def run_disable_handlers_eq handled_def
      is_addition_disabled_def editing_exclusion_def properties_free_def)

lemma disable_editing_pending:
  "before_update_consumers p = [] \<Longrightarrow> property_pending (fst (property_set (=) (Some v) p)) = Some v"
  by (auto simp: property_set_def prevented_def split: option.split)

lemma disable_editing_result:
  assumes "properties_free c" and "editing_exclusion c = None"
  shows "item_sequence (fst (disable_editing_except k e c)) = item_sequence c"
    and "last_item (fst (disable_editing_except k e c)) = last_item c"
    and "deletion_disabled (fst (disable_editing_except k e c)) = deletion_disabled c"
    and "editing_handlers (fst (disable_editing_except k e c)) = editing_handlers c"
    and "collection_add (fst (disable_editing_except k e c)) = collection_add c"
    and "collection_delete (fst (disable_editing_except k e c)) = collection_delete c"
    and "is_addition_disabled (fst (disable_editing_except k e c)) = is_addition_disabled c"
    and "editing_exclusion (fst (disable_editing_except k e c)) = Some e"
    and "properties_free (fst (disable_editing_except k e c))"
    and "collection_items (fst (disable_editing_except k e c)) =
      handled k (\<lambda>i. e \<noteq> i) (editing_handlers c) (collection_items c)"
proof -
  have v: "property_value (fst (property_set (=) (Some e) (editing_disabled c))) = Some e"
    and p: "property_pending (fst (property_set (=) (Some e) (editing_disabled c))) = Some e"
    using assms by (simp_all add: properties_free_def disable_editing_pending)
  let ?p = "property_set (=) (Some e) (editing_disabled c)"
  have eq: "fst (disable_editing_except k e c) =
      run_disable_handlers k (\<lambda>i. e \<noteq> i) (c\<lparr>editing_disabled := fst ?p\<rparr>)"
    using assms(2) v by (simp add: disable_editing_except_def split_beta Let_def editing_exclusion_def)
  show "item_sequence (fst (disable_editing_except k e c)) = item_sequence c"
    "last_item (fst (disable_editing_except k e c)) = last_item c"
    "deletion_disabled (fst (disable_editing_except k e c)) = deletion_disabled c"
    "editing_handlers (fst (disable_editing_except k e c)) = editing_handlers c"
    "collection_add (fst (disable_editing_except k e c)) = collection_add c"
    "collection_delete (fst (disable_editing_except k e c)) = collection_delete c"
    "is_addition_disabled (fst (disable_editing_except k e c)) = is_addition_disabled c"
    "editing_exclusion (fst (disable_editing_except k e c)) = Some e"
    "properties_free (fst (disable_editing_except k e c))"
    "collection_items (fst (disable_editing_except k e c)) =
      handled k (\<lambda>i. e \<noteq> i) (editing_handlers c) (collection_items c)"
    using v p assms(1)
    by (simp_all add: eq run_disable_handlers_eq is_addition_disabled_def editing_exclusion_def
        properties_free_def handled_def)
qed

lemma lock_except_result:
  assumes "properties_free c" and "editing_exclusion c = None"
  shows "item_sequence (fst (lock_except k e c)) = item_sequence c"
    and "last_item (fst (lock_except k e c)) = last_item c"
    and "deletion_disabled (fst (lock_except k e c)) = deletion_disabled c"
    and "editing_handlers (fst (lock_except k e c)) = editing_handlers c"
    and "collection_add (fst (lock_except k e c)) = collection_add c"
    and "collection_delete (fst (lock_except k e c)) = collection_delete c"
    and "is_addition_disabled (fst (lock_except k e c))"
    and "editing_exclusion (fst (lock_except k e c)) = Some e"
    and "properties_free (fst (lock_except k e c))"
    and "collection_items (fst (lock_except k e c)) =
      handled k (\<lambda>i. e \<noteq> i) (editing_handlers c) (collection_items c)"
  using assms disable_editing_result [of "fst (set_addition_disabled True c)" k e]
  by (simp_all add: lock_except_def split_beta Let_def properties_free_def)

text \<open>The first two steps of \<open>validateItemsExcept\<close>.\<close>

definition unlock ::
  "('w, 'v) item_functions \<Rightarrow> ('w, 'u) collection \<Rightarrow> ('w, 'u) collection" where
  "unlock k c =
     (let c1 = (if is_addition_disabled c then fst (set_addition_disabled False c) else c)
      in if editing_exclusion c1 \<noteq> None then fst (enable_editing k c1) else c1)"

lemma unlock_result [simp]:
  "item_sequence (unlock k c) = item_sequence c"
  "last_item (unlock k c) = last_item c"
  "deletion_disabled (unlock k c) = deletion_disabled c"
  "editing_handlers (unlock k c) = editing_handlers c"
  "collection_add (unlock k c) = collection_add c"
  "collection_delete (unlock k c) = collection_delete c"
  "properties_free c \<Longrightarrow> \<not> is_addition_disabled (unlock k c)"
  "editing_exclusion (unlock k c) = None"
  "properties_free c \<Longrightarrow> properties_free (unlock k c)"
  "collection_items (unlock k c) =
     (if editing_exclusion c = None then collection_items c
      else handled k (\<lambda>_. False) (editing_handlers c) (collection_items c))"
  by (auto simp: unlock_def Let_def)

lemma validate_items_except_state:
  "fst (validate_items_except k e c) =
     (case find_item e (unlock k c) of
        None \<Rightarrow> unlock k c
      | Some w \<Rightarrow>
          (case scan_items k e w (collection_items (unlock k c)) of
             All_valid \<Rightarrow> update_item e (duplicate_handler k False) (unlock k c)
           | Invalid_item \<Rightarrow> fst (lock_except k e (unlock k c))
           | Duplicate_item \<Rightarrow>
               fst (lock_except k e (update_item e (duplicate_handler k True) (unlock k c)))))"
proof -
  have "fst (if editing_exclusion c1 \<noteq> None then enable_editing k c1 else (c1, [])) = unlock k c"
    if "c1 = fst (if is_addition_disabled c then set_addition_disabled False c else (c, []))" for c1
    unfolding unlock_def that by simp
  note unlocked = this [OF refl]
  show ?thesis
    unfolding validate_items_except_def Let_def split_beta fst_conv snd_conv unlocked
    by (simp only: fst_conv prod.case_distrib option.case_distrib [of fst] scan.case_distrib [of fst])
qed

lemma validate_frame:
  assumes "properties_free c"
  shows "item_sequence (fst (validate_items_except k e c)) = item_sequence c"
    and "last_item (fst (validate_items_except k e c)) = last_item c"
    and "deletion_disabled (fst (validate_items_except k e c)) = deletion_disabled c"
    and "editing_handlers (fst (validate_items_except k e c)) = editing_handlers c"
    and "collection_add (fst (validate_items_except k e c)) = collection_add c"
    and "collection_delete (fst (validate_items_except k e c)) = collection_delete c"
    and "map fst (collection_items (fst (validate_items_except k e c))) = map fst (collection_items c)"
    and "properties_free (fst (validate_items_except k e c))"
  using assms
  by (auto simp: validate_items_except_state lock_except_result handled_def split: option.split scan.split)

text \<open>An item is editable unless another one holds the lock, and what the user may do to a collection.\<close>

datatype 'e item_action = Press_add | Press_delete int | Edit_item int 'e | Clear_items

definition delete_icon_disabled :: "int \<Rightarrow> ('w, 'u) collection \<Rightarrow> bool" where
  "delete_icon_disabled i c \<longleftrightarrow>
     (editing_exclusion c \<noteq> None \<and> editing_exclusion c \<noteq> Some i) \<or>
     property_value (deletion_disabled c) = Some True"

fun collection_act ::
  "('w, 'v) item_functions \<Rightarrow> (int \<Rightarrow> 'w) \<Rightarrow> ('w \<Rightarrow> bool) \<Rightarrow> ('e \<Rightarrow> 'w \<Rightarrow> 'w \<times> bool) \<Rightarrow> 'e item_action \<Rightarrow>
    ('w, 'u) collection \<Rightarrow> ('w, 'u) collection" where
  "collection_act k factory disabled edit Press_add c =
     (if is_addition_disabled c then c else fst (add_new_item k factory c))"
| "collection_act k factory disabled edit (Press_delete i) c =
     (if delete_icon_disabled i c then c else fst (delete_item k i c))"
| "collection_act k factory disabled edit (Edit_item i a) c =
     (case find_item i c of
        None \<Rightarrow> c
      | Some w \<Rightarrow> if disabled w then c else fst (change_item k i (edit a) c))"
| "collection_act k factory disabled edit Clear_items c = fst (clear_collection k c)"

section \<open>The invariant\<close>

text \<open>
  Unlocked, every item is valid, editable and different from the others; locked, this is so for the others of
  the one item that may be edited.
\<close>

definition collection_sound ::
  "('w, 'v) item_functions \<Rightarrow> ('w \<Rightarrow> bool) \<Rightarrow> ('w \<Rightarrow> bool) \<Rightarrow> ('w, 'u) collection \<Rightarrow> bool" where
  "collection_sound k fit disabled c \<longleftrightarrow>
     list_all (\<lambda>(i, w). fit w) (collection_items c) \<and>
     (case editing_exclusion c of
        None \<Rightarrow>
          \<not> is_addition_disabled c \<and> sound_items k (collection_items c) \<and>
          list_all (\<lambda>(i, w). \<not> disabled w) (collection_items c)
      | Some e \<Rightarrow>
          is_addition_disabled c \<and> e \<in> fst ` set (collection_items c) \<and>
          sound_items k (other_items e (collection_items c)) \<and>
          list_all (\<lambda>(i, w). disabled w \<longleftrightarrow> i \<noteq> e) (collection_items c))"

text \<open>The bookkeeping: identifiers are never used twice, \<open>last\<close> is the last of the items.\<close>

definition collection_shape :: "('w, 'u) collection \<Rightarrow> bool" where
  "collection_shape c \<longleftrightarrow>
     distinct (map fst (collection_items c)) \<and>
     list_all (\<lambda>(i, w). i < item_sequence c \<and> i \<in> set (editing_handlers c)) (collection_items c) \<and>
     last_item c = map_option fst (js_last (collection_items c)) \<and> properties_free c"

text \<open>
  What the user of a collection may rely on: the add button is off and the other items are disabled exactly
  while one item holds the lock, and all the items that do not hold it are good and distinct.
\<close>

definition guarded_collection ::
  "('w \<Rightarrow> bool) \<Rightarrow> ('w \<Rightarrow> 'v) \<Rightarrow> ('w \<Rightarrow> bool) \<Rightarrow> ('w, 'u) collection \<Rightarrow> bool" where
  "guarded_collection disabled value_of good c \<longleftrightarrow>
     distinct (map fst (collection_items c)) \<and>
     last_item c = map_option fst (js_last (collection_items c)) \<and>
     (is_addition_disabled c \<longleftrightarrow> editing_exclusion c \<noteq> None) \<and>
     list_all (\<lambda>(i, w). disabled w \<longleftrightarrow> editing_exclusion c \<noteq> None \<and> editing_exclusion c \<noteq> Some i)
       (collection_items c) \<and>
     (let settled = filter (\<lambda>(i, w). editing_exclusion c \<noteq> Some i) (collection_items c)
      in distinct (map (value_of \<circ> snd) settled) \<and> list_all (good \<circ> snd) settled)"

section \<open>The contract of an item\<close>

text \<open>
  What the collection relies on: disabling an item changes nothing else of it, marking a duplicate keeps the
  value, and an edit keeps the item enabled and tells whether it changed the value.
\<close>

locale item_laws =
  fixes k :: "('w, 'v) item_functions" and fit :: "'w \<Rightarrow> bool" and disabled :: "'w \<Rightarrow> bool"
    and edit :: "'e \<Rightarrow> 'w \<Rightarrow> 'w \<times> bool"
  assumes disable_fit: "fit w \<Longrightarrow> fit (disable_handler k b w)"
    and disable_validator: "fit w \<Longrightarrow> item_validator k (disable_handler k b w) = item_validator k w"
    and disable_value: "fit w \<Longrightarrow> value_extractor k (disable_handler k b w) = value_extractor k w"
    and disable_disabled: "fit w \<Longrightarrow> disabled (disable_handler k b w) = b"
    and duplicate_fit: "fit w \<Longrightarrow> b \<or> \<not> item_validator k w \<Longrightarrow> fit (duplicate_handler k b w)"
    and duplicate_validator:
      "fit w \<Longrightarrow> \<not> item_validator k w \<Longrightarrow> \<not> item_validator k (duplicate_handler k False w)"
    and duplicate_value: "fit w \<Longrightarrow> value_extractor k (duplicate_handler k b w) = value_extractor k w"
    and duplicate_disabled: "fit w \<Longrightarrow> disabled (duplicate_handler k b w) = disabled w"
    and edit_fit: "fit w \<Longrightarrow> fit (fst (edit a w))"
    and edit_disabled: "fit w \<Longrightarrow> disabled (fst (edit a w)) = disabled w"
    and edit_unchanged:
      "fit w \<Longrightarrow> \<not> snd (edit a w) \<Longrightarrow>
       item_validator k (fst (edit a w)) = item_validator k w \<and>
       value_extractor k (fst (edit a w)) = value_extractor k w"
begin

definition gentle :: "(int \<Rightarrow> 'w \<Rightarrow> 'w) \<Rightarrow> bool" where
  "gentle g \<longleftrightarrow> (\<forall>j w. fit w \<longrightarrow> fit (g j w) \<and> item_validator k (g j w) = item_validator k w \<and>
     value_extractor k (g j w) = value_extractor k w)"

lemma gentle_handlers: "gentle (\<lambda>j. disable_handler k (d j) ^^ n j)"
proof -
  have "fit ((disable_handler k b ^^ m) w) \<and>
      item_validator k ((disable_handler k b ^^ m) w) = item_validator k w \<and>
      value_extractor k ((disable_handler k b ^^ m) w) = value_extractor k w" if "fit w" for b m w
    using that by (induction m) (simp_all add: disable_fit disable_validator disable_value)
  then show ?thesis by (simp add: gentle_def)
qed

lemma handlers_disabled:
  assumes "fit w"
  shows "disabled ((disable_handler k b ^^ n) w) = (if n = 0 then disabled w else b)"
  using assms gentle_handlers [where d = "\<lambda>_. b" and n = "\<lambda>_. n - 1"]
  by (cases n) (simp_all add: disable_disabled gentle_def)

lemma sound_map_items:
  assumes "gentle g" and "\<forall>(i, w) \<in> set items. fit w"
  shows "sound_items k (map_items g items) = sound_items k items"
proof -
  have "map (\<lambda>(i, w). value_extractor k w) (map_items g items) = map (\<lambda>(i, w). value_extractor k w) items"
    and "list_all (\<lambda>(i, w). \<not> item_validator k w) (map_items g items) =
      list_all (\<lambda>(i, w). \<not> item_validator k w) items"
    using assms by (induction items) (auto simp: gentle_def)
  then show ?thesis by (simp only: sound_items_def)
qed

lemma handled_items:
  assumes "list_all (\<lambda>(i, w). fit w) items"
  shows "list_all (\<lambda>(i, w). fit w) (handled k d hs items)"
    and "sound_items k (handled k d hs items) = sound_items k items"
    and "sound_items k (other_items e (handled k d hs items)) = sound_items k (other_items e items)"
    and "map fst (handled k d hs items) = map fst items"
proof -
  have fits: "\<forall>(i, w) \<in> set items. fit w" and others: "\<forall>(i, w) \<in> set (other_items e items). fit w"
    using assms by (auto simp: list_all_pairs other_items_def)
  show "list_all (\<lambda>(i, w). fit w) (handled k d hs items)"
    using assms gentle_handlers [of "count_list hs" d]
    by (auto simp: handled_def list_all_pairs gentle_def)
  show "sound_items k (handled k d hs items) = sound_items k items"
    unfolding handled_def by (rule sound_map_items [OF gentle_handlers fits])
  show "sound_items k (other_items e (handled k d hs items)) = sound_items k (other_items e items)"
    unfolding handled_def other_map_items by (rule sound_map_items [OF gentle_handlers others])
  show "map fst (handled k d hs items) = map fst items"
    unfolding handled_def by (rule map_items_ids)
qed

lemma handled_disabled:
  assumes "list_all (\<lambda>(i, w). fit w) items"
    and "list_all (\<lambda>(i, w). i \<in> set hs \<or> disabled w = d i) items"
  shows "list_all (\<lambda>(i, w). disabled w = d i) (handled k d hs items)"
proof -
  have "disabled ((disable_handler k (d i) ^^ count_list hs i) w) = d i" if "(i, w) \<in> set items" for i w
    proof -
    have "fit w" and "i \<in> set hs \<or> disabled w = d i" using that assms by (auto simp: list_all_pairs)
    then show ?thesis by (auto simp: handlers_disabled count_list_0_iff)
  qed
  then show ?thesis by (auto simp: handled_def list_all_pairs)
qed

lemma lock_sound:
  assumes "properties_free c" and "editing_exclusion c = None"
    and "list_all (\<lambda>(i, w). fit w) (collection_items c)"
    and "e \<in> fst ` set (collection_items c)" and "sound_items k (other_items e (collection_items c))"
    and "list_all (\<lambda>(i, w). \<not> disabled w \<and> (i = e \<or> i \<in> set (editing_handlers c))) (collection_items c)"
  shows "collection_sound k fit disabled (fst (lock_except k e c))"
proof -
  note r = lock_except_result [OF assms(1,2), of k e] and h = handled_items [OF assms(3)]
  have "list_all (\<lambda>(i, w). i \<in> set (editing_handlers c) \<or> disabled w = (e \<noteq> i)) (collection_items c)"
    using assms(6) by (auto simp: list_all_pairs)
  note d = handled_disabled [OF assms(3) this]
  have "e \<in> set (map fst (collection_items c))" using assms(4) by simp
  then have "e \<in> set (map fst (handled k (\<lambda>i. e \<noteq> i) (editing_handlers c) (collection_items c)))"
    by (simp only: h(4))
  with d show ?thesis
    unfolding collection_sound_def r using h(1,3) assms(5) r(7)
    by (auto simp: list_all_pairs)
qed

lemma unmark_sound:
  assumes "editing_exclusion c = None" and "\<not> is_addition_disabled c"
    and fits: "list_all (\<lambda>(i, w). fit w) (collection_items c)"
    and enabled: "list_all (\<lambda>(i, w). \<not> disabled w) (collection_items c)"
    and ids: "distinct (map fst (collection_items c))" and w: "(e, w) \<in> set (collection_items c)"
    and others: "sound_items k (other_items e (collection_items c))"
    and valid: "scan_items k e w (collection_items c) = All_valid"
  shows "collection_sound k fit disabled (update_item e (duplicate_handler k False) c)"
proof -
  let ?items = "collection_items c" and ?v = "update_item e (duplicate_handler k False) c"
  have each: "\<not> item_validator k x \<and> (i \<noteq> e \<longrightarrow> value_extractor k w \<noteq> value_extractor k x)"
    "fit x" "\<not> disabled x" if "(i, x) \<in> set ?items" for i x
    using valid fits enabled that unfolding scan_all_valid list_all_pairs by blast+
  have eq: "x = w" if "(e, x) \<in> set ?items" for x
    using that w ids by (metis eq_key_imp_eq_value)
  have fit_w: "fit w" and valid_w: "\<not> item_validator k w" using each [OF w] by simp_all
  have "scan_items k e (duplicate_handler k False w) (collection_items ?v) = All_valid"
  proof -
    let ?g = "\<lambda>j x. if j = e then duplicate_handler k False x else x"
    have "\<not> item_validator k (?g j x) \<and>
        (j \<noteq> e \<longrightarrow> value_extractor k (duplicate_handler k False w) \<noteq> value_extractor k (?g j x))"
      if mem: "(j, x) \<in> set ?items" for j x
      using each [OF mem] duplicate_validator [of x] duplicate_value [OF fit_w, of False] by auto
    then have "list_all (\<lambda>(j, x). \<not> item_validator k (?g j x) \<and>
        (j \<noteq> e \<longrightarrow> value_extractor k (duplicate_handler k False w) \<noteq> value_extractor k (?g j x))) ?items"
      unfolding list_all_pairs by blast
    then show ?thesis by (simp add: scan_all_valid list.pred_map comp_def case_prod_unfold)
  qed
  moreover have "(e, duplicate_handler k False w) \<in> set (collection_items ?v)" using w by force
  moreover have "sound_items k (other_items e (collection_items ?v))"
    unfolding update_item_frame other_update by (rule others)
  moreover have "distinct (map fst (collection_items ?v))" using ids by simp
  ultimately have "sound_items k (collection_items ?v)" using sound_items_split by metis
  with assms(1,2) each show ?thesis
    by (auto simp: collection_sound_def list_all_pairs duplicate_fit duplicate_disabled split: if_splits)
qed

lemma validate_sound:
  assumes free: "properties_free c" and ids: "distinct (map fst (collection_items c))"
    and mem: "(e, we) \<in> set (collection_items c)"
    and fits: "list_all (\<lambda>(i, w). fit w) (collection_items c)"
    and others: "sound_items k (other_items e (collection_items c))"
    and enabled: "list_all (\<lambda>(i, w). (i = e \<or> editing_exclusion c = None \<longrightarrow> \<not> disabled w) \<and>
      (i = e \<or> i \<in> set (editing_handlers c))) (collection_items c)"
  shows "collection_sound k fit disabled (fst (validate_items_except k e c))"
proof -
  let ?u = "unlock k c"
  note h = handled_items [OF fits]
  have u: "properties_free ?u" "editing_exclusion ?u = None" "\<not> is_addition_disabled ?u"
    using free by simp_all
  have fits_u: "list_all (\<lambda>(i, w). fit w) (collection_items ?u)"
    and ids_u: "map fst (collection_items ?u) = map fst (collection_items c)"
    and others_u: "sound_items k (other_items e (collection_items ?u))"
    using fits h others by simp_all
  have "list_all (\<lambda>(i, w). i \<in> set (editing_handlers c) \<or> disabled w = False) (collection_items c)"
    using enabled by (auto simp: list_all_pairs)
  from handled_disabled [OF fits this]
  have dis_u: "list_all (\<lambda>(i, w). \<not> disabled w) (collection_items ?u)"
    using enabled by (auto simp: list_all_pairs)
  have "e \<in> set (map fst (collection_items ?u))"
    unfolding ids_u using mem by force
  then obtain w where w: "(e, w) \<in> set (collection_items ?u)" by auto
  then have found: "find_item e ?u = Some w" using ids ids_u by (simp add: find_item_mem)
  have handled_u: "i = e \<or> i \<in> set (editing_handlers c)" if "(i, w) \<in> set (collection_items ?u)" for i w
  proof -
    have "list_all (\<lambda>i. i = e \<or> i \<in> set (editing_handlers c)) (map fst (collection_items ?u))"
      unfolding ids_u using enabled by (auto simp: list_all_iff)
    with that show ?thesis by (force simp: list_all_iff)
  qed
  have fit_w: "fit w" using w fits_u by (auto simp: list_all_pairs)
  have marked: "collection_sound k fit disabled (fst (lock_except k e v))"
    if "v = ?u \<or> v = update_item e (duplicate_handler k True) ?u" for v
  proof (rule lock_sound)
    show "e \<in> fst ` set (collection_items v)" using that w by force
  qed (use that fits_u others_u dis_u u in
      \<open>auto simp: list_all_pairs duplicate_fit duplicate_disabled simp del: unlock_result(10)
        split: if_splits dest: handled_u\<close>)
  have unmarked: "collection_sound k fit disabled (update_item e (duplicate_handler k False) ?u)"
    if "scan_items k e w (collection_items ?u) = All_valid"
    using u(2,3) fits_u dis_u that w ids ids_u others_u by (intro unmark_sound) simp_all
  show ?thesis
    unfolding validate_items_except_state found option.case
    using marked unmarked by (simp split: scan.split)
qed

text \<open>A validation locks the collection exactly when some item is invalid or a duplicate.\<close>

lemma validate_exclusion:
  assumes "properties_free c" and ids: "distinct (map fst (collection_items c))"
    and mem: "(e, we) \<in> set (collection_items c)"
    and fits: "list_all (\<lambda>(i, w). fit w) (collection_items c)"
    and others: "sound_items k (other_items e (collection_items c))"
  shows "editing_exclusion (fst (validate_items_except k e c)) =
    (if sound_items k (collection_items c) then None else Some e)"
proof -
  let ?u = "unlock k c"
  note h = handled_items [OF fits]
  have ids_u: "map fst (collection_items ?u) = map fst (collection_items c)"
    and others_u: "sound_items k (other_items e (collection_items ?u))"
    and sound_u: "sound_items k (collection_items ?u) = sound_items k (collection_items c)"
    using h others by simp_all
  have "e \<in> set (map fst (collection_items ?u))"
    unfolding ids_u using mem by force
  then obtain w where w: "(e, w) \<in> set (collection_items ?u)" by auto
  have found: "find_item e ?u = Some w" using ids ids_u w by (simp add: find_item_mem)
  have "sound_items k (collection_items ?u) \<longleftrightarrow> scan_items k e w (collection_items ?u) = All_valid"
    using sound_items_split [OF _ w] ids ids_u others_u by metis
  then show ?thesis
    unfolding validate_items_except_state found option.case sound_u using assms(1)
    by (auto simp: lock_except_result split: scan.split)
qed

definition collection_inv :: "('w, 'u) collection \<Rightarrow> bool" where
  "collection_inv c \<longleftrightarrow> collection_shape c \<and> collection_sound k fit disabled c"

lemma collection_invD:
  assumes "collection_inv c"
  shows "properties_free c" and "distinct (map fst (collection_items c))"
    and "last_item c = map_option fst (js_last (collection_items c))"
    and "\<And>i w. (i, w) \<in> set (collection_items c) \<Longrightarrow>
      fit w \<and> i < item_sequence c \<and> i \<in> set (editing_handlers c)"
    and "\<And>i w. (i, w) \<in> set (collection_items c) \<Longrightarrow>
      disabled w \<longleftrightarrow> editing_exclusion c \<noteq> None \<and> editing_exclusion c \<noteq> Some i"
    and "is_addition_disabled c \<longleftrightarrow> editing_exclusion c \<noteq> None"
    and "editing_exclusion c \<in> {None, Some e} \<Longrightarrow> sound_items k (other_items e (collection_items c))"
    and "editing_exclusion c = None \<Longrightarrow> sound_items k (collection_items c)"
proof -
  have sub: "sound_items k (other_items e items)" if "sound_items k items" for items
    using that by (auto simp: sound_items_def other_items_def list_all_iff distinct_map_filter)
  show "editing_exclusion c \<in> {None, Some e} \<Longrightarrow> sound_items k (other_items e (collection_items c))"
    using assms sub by (auto simp: collection_inv_def collection_sound_def split: option.splits)
qed (use assms in \<open>auto simp: collection_inv_def collection_shape_def collection_sound_def list_all_pairs
    split: option.splits\<close>)


lemma sound_handlers [simp]:
  "collection_sound k fit disabled (c\<lparr>editing_handlers := hs\<rparr>) = collection_sound k fit disabled c"
  by (simp add: collection_sound_def split: option.split)

text \<open>A change of one item that nobody can see keeps the invariant.\<close>

lemma unseen_update_inv:
  assumes inv: "collection_inv c"
    and unseen: "\<And>w. (i, w) \<in> set (collection_items c) \<Longrightarrow>
      fit (f w) \<and> disabled (f w) = disabled w \<and> item_validator k (f w) = item_validator k w \<and>
      value_extractor k (f w) = value_extractor k w"
  shows "collection_inv (update_item i f c)"
proof -
  let ?g = "\<lambda>j w. if j = i then f w else w"
  have same: "sound_items k (map_items ?g items) = sound_items k items"
    if "set items \<subseteq> set (collection_items c)" for items
  proof -
    have "map (\<lambda>(i, w). value_extractor k w) (map_items ?g items) =
        map (\<lambda>(i, w). value_extractor k w) items"
      and "list_all (\<lambda>(i, w). \<not> item_validator k w) (map_items ?g items) =
        list_all (\<lambda>(i, w). \<not> item_validator k w) items"
      using that unseen by (induction items) (auto split: if_splits)
    then show ?thesis by (simp only: sound_items_def)
  qed
  have "set (other_items e (collection_items c)) \<subseteq> set (collection_items c)" for e
    by (auto simp: other_items_def)
  note sames = same [OF this] same [OF subset_refl]
  have ids: "map fst (map_items ?g (collection_items c)) = map fst (collection_items c)"
    by (rule map_items_ids)
  show ?thesis
    using inv unseen sames ids
    by (auto simp: collection_inv_def collection_shape_def collection_sound_def list_all_pairs
        other_map_items js_last_map [symmetric] split: option.splits if_splits intro: rev_image_eqI)
qed

lemma validate_inv:
  assumes free: "properties_free c" and ids: "distinct (map fst (collection_items c))"
    and mem: "(e, we) \<in> set (collection_items c)"
    and fits: "list_all (\<lambda>(i, w). fit w) (collection_items c)"
    and others: "sound_items k (other_items e (collection_items c))"
    and enabled: "list_all (\<lambda>(i, w). (i = e \<or> editing_exclusion c = None \<longrightarrow> \<not> disabled w) \<and>
      (i = e \<or> i \<in> set (editing_handlers c))) (collection_items c)"
    and bounds: "list_all (\<lambda>i. i < item_sequence c \<and> i \<in> set hs) (map fst (collection_items c))"
    and "last_item c = js_last (map fst (collection_items c))"
  shows "collection_inv (fst (validate_items_except k e c)\<lparr>editing_handlers := hs\<rparr>)"
proof -
  let ?c = "fst (validate_items_except k e c)"
  note f = validate_frame [OF free, of k e]
  have "list_all (\<lambda>i. i < item_sequence c \<and> i \<in> set hs) (map fst (collection_items ?c))"
    using bounds by (simp only: f(7))
  then have "list_all (\<lambda>(i, w). i < item_sequence c \<and> i \<in> set hs) (collection_items ?c)"
    by (auto simp: list_all_iff)
  moreover have "last_item ?c = map_option fst (js_last (collection_items ?c))"
    using assms(8) f by (metis js_last_map)
  ultimately show ?thesis
    using validate_sound [OF free ids mem fits others enabled] f ids
    by (simp add: collection_inv_def collection_shape_def)
qed

lemma edit_inv:
  assumes inv: "collection_inv c" and w: "find_item i c = Some w" and enabled: "\<not> disabled w"
  shows "collection_inv (fst (change_item k i (edit a) c))"
proof -
  note d = collection_invD [OF inv]
  let ?c = "update_item i (\<lambda>w. fst (edit a w)) c"
  have mem: "(i, w) \<in> set (collection_items c)" using w d(2) by (simp add: find_item_mem)
  have excl: "editing_exclusion c \<in> {None, Some i}" using d(5) [OF mem] enabled by auto
  have eq: "v = w" if "(i, v) \<in> set (collection_items c)" for v
    using that mem d(2) by (metis eq_key_imp_eq_value)
  have fits: "list_all (\<lambda>(i, w). fit w) (collection_items ?c)"
    using d(4) by (auto simp: list_all_pairs edit_fit)
  have shape: "distinct (map fst (collection_items ?c))" "last_item ?c = js_last (map fst (collection_items ?c))"
    using d(2,3) by (simp_all add: js_last_map)
  show ?thesis
  proof (cases "snd (edit a w)")
    case True
    have "collection_inv (fst (validate_items_except k i ?c)\<lparr>editing_handlers := editing_handlers c\<rparr>)"
    proof (rule validate_inv [OF _ shape(1) _ fits _ _ _ shape(2)])
      show "(i, fst (edit a w)) \<in> set (collection_items ?c)" using mem by force
    qed (use d excl enabled eq in \<open>auto simp: list_all_pairs list_all_iff edit_disabled split: if_splits\<close>)
    moreover have "editing_handlers (fst (validate_items_except k i ?c)) = editing_handlers c"
      using d(1) by (simp add: validate_frame)
    then have "fst (validate_items_except k i ?c)\<lparr>editing_handlers := editing_handlers c\<rparr> =
        fst (validate_items_except k i ?c)" by auto
    ultimately show ?thesis using True w by (simp add: change_item_def Let_def split_beta)
  next
    case False
    have "collection_inv ?c"
      using d(4) eq False by (intro unseen_update_inv [OF inv]) (auto simp: edit_fit edit_disabled edit_unchanged)
    with False w show ?thesis by (simp add: change_item_def Let_def)
  qed
qed

text \<open>The values themselves are the user's: no validation changes them.\<close>

abbreviation item_values :: "('w, 'u) collection \<Rightarrow> 'v list" where
  "item_values c \<equiv> map (\<lambda>(i, w). value_extractor k w) (collection_items c)"

lemma validate_values:
  assumes "properties_free c" and fits: "list_all (\<lambda>(i, w). fit w) (collection_items c)"
  shows "item_values (fst (validate_items_except k e c)) = item_values c"
proof -
  let ?u = "unlock k c"
  have handled: "map (\<lambda>(i, w). value_extractor k w) (handled k d hs items) =
      map (\<lambda>(i, w). value_extractor k w) items" if "list_all (\<lambda>(i, w). fit w) items" for d hs items
    using that gentle_handlers [of "count_list hs" d]
    by (auto simp: handled_def gentle_def list_all_pairs)
  have fits_u: "list_all (\<lambda>(i, w). fit w) (collection_items ?u)"
    and values_u: "item_values ?u = item_values c"
    using fits handled_items(1) [OF fits] handled [OF fits] by simp_all
  have fits_d: "list_all (\<lambda>(i, w). fit w) (collection_items (update_item e (duplicate_handler k True) ?u))"
    using fits_u by (auto simp: list_all_pairs duplicate_fit)
  have values_d: "item_values (update_item e (duplicate_handler k b) ?u) = item_values ?u" for b
    using fits_u by (auto simp: list_all_pairs duplicate_value)
  have u: "properties_free ?u" "editing_exclusion ?u = None" using assms(1) by simp_all
  show ?thesis
    unfolding validate_items_except_state
    using values_u values_d handled fits_u fits_d u
    by (auto simp: lock_except_result split: option.split scan.split simp del: unlock_result(10) update_item_frame(9))
qed

lemma add_item_inv:
  assumes inv: "collection_inv c" and free: "editing_exclusion c = None"
    and fresh: "i \<notin> fst ` set (collection_items c)" "i < item_sequence c"
    and w: "fit w" "\<not> disabled w"
  shows "collection_inv (fst (add_item k i w c))"
    and "editing_exclusion (fst (add_item k i w c)) =
      (if sound_items k (collection_items c @ [(i, w)]) then None else Some i)"
    and "item_values (fst (add_item k i w c)) = item_values c @ [value_extractor k w]"
    and "map fst (collection_items (fst (add_item k i w c))) = map fst (collection_items c) @ [i]"
    and "item_sequence (fst (add_item k i w c)) = item_sequence c"
proof -
  note d = collection_invD [OF inv]
  let ?c1 = "c\<lparr>collection_items := collection_items c @ [(i, w)], last_item := Some i\<rparr>"
  let ?c2 = "fst (validate_items_except k i ?c1)"
  let ?c3 = "?c2\<lparr>editing_handlers := editing_handlers c @ [i]\<rparr>"
  have shape: "properties_free ?c1" "distinct (map fst (collection_items ?c1))"
    "(i, w) \<in> set (collection_items ?c1)" "list_all (\<lambda>(i, w). fit w) (collection_items ?c1)"
    using d(1,2,4) fresh w by (auto simp: list_all_pairs)
  have "other_items i (collection_items c @ [(i, w)]) = collection_items c"
    using fresh(1) other_items_absent [of i] by (simp add: other_items_def)
  then have others: "sound_items k (other_items i (collection_items ?c1))"
    using d(8) free by simp
  have inv3: "collection_inv ?c3"
    by (rule validate_inv [OF shape others])
      (use d(4,5) free fresh(2) w in \<open>auto simp: list_all_pairs list_all_iff\<close>)
  have excl: "editing_exclusion ?c2 = (if sound_items k (collection_items c @ [(i, w)]) then None else Some i)"
    using validate_exclusion [OF shape others] by simp
  have "fst (add_item k i w c) = ?c3 \<or>
      editing_exclusion ?c3 = Some i \<and> fst (add_item k i w c) = update_item i (disable_handler k False) ?c3"
    using validate_frame [OF shape(1), of k i] excl
    by (auto simp: add_item_def Let_def split_beta properties_free_def editing_exclusion_def
        split: option.splits if_splits)
  moreover have "collection_inv (update_item i (disable_handler k False) ?c3)"
    if "editing_exclusion ?c3 = Some i"
    using that collection_invD(4,5) [OF inv3]
    by (intro unseen_update_inv [OF inv3])
      (auto simp: disable_fit disable_validator disable_value disable_disabled)
  ultimately show "collection_inv (fst (add_item k i w c))" using inv3 by metis
  show "editing_exclusion (fst (add_item k i w c)) =
      (if sound_items k (collection_items c @ [(i, w)]) then None else Some i)"
    using excl by (simp add: add_item_def Let_def split_beta split: option.split)
  have "item_values (update_item i (disable_handler k b) ?c3) = item_values ?c3" for b
    using collection_invD(4) [OF inv3] by (auto simp: disable_value)
  moreover have "item_values ?c2 = item_values c @ [value_extractor k w]"
    using validate_values [OF shape(1,4), of i] by simp
  ultimately show "item_values (fst (add_item k i w c)) = item_values c @ [value_extractor k w]"
    using validate_frame(4) [OF shape(1), of k i]
    by (auto simp: add_item_def Let_def split_beta simp del: update_item_frame(9) split: option.split)
  show "map fst (collection_items (fst (add_item k i w c))) = map fst (collection_items c) @ [i]"
    "item_sequence (fst (add_item k i w c)) = item_sequence c"
    using validate_frame [OF shape(1), of k i]
    by (auto simp: add_item_def Let_def split_beta split: option.split)
qed

lemma add_new_item_inv:
  assumes inv: "collection_inv c" and "\<not> is_addition_disabled c"
    and "\<And>i. fit (factory i) \<and> \<not> disabled (factory i)"
  shows "collection_inv (fst (add_new_item k factory c))"
proof -
  note d = collection_invD [OF inv]
  have "collection_inv (c\<lparr>item_sequence := item_sequence c + 1\<rparr>)"
    using inv by (auto simp: collection_inv_def collection_shape_def collection_sound_def list_all_pairs
        split: option.splits)
  moreover have "item_sequence c \<notin> fst ` set (collection_items c)" using d(4) by fastforce
  ultimately show ?thesis
    using assms(2,3) d(6) by (auto simp: add_new_item_def Let_def intro!: add_item_inv)
qed

lemma delete_item_inv:
  assumes inv: "collection_inv c" and excl: "editing_exclusion c \<in> {None, Some i}"
  shows "collection_inv (fst (delete_item k i c))"
proof -
  note d = collection_invD [OF inv]
  let ?c1 = "fst (set_addition_disabled False c)"
  define c2 where "c2 = (if editing_exclusion c = None then ?c1 else fst (enable_editing k ?c1))"
  have fits: "list_all (\<lambda>(i, w). fit w) (collection_items c)" using d(4) by (auto simp: list_all_pairs)
  note h = handled_items [OF fits]
  have ids: "map fst (collection_items c2) = map fst (collection_items c)"
    and flags: "properties_free c2" "editing_exclusion c2 = None" "\<not> is_addition_disabled c2"
    and frame: "item_sequence c2 = item_sequence c" "editing_handlers c2 = editing_handlers c"
      "last_item c2 = last_item c"
    and sound: "sound_items k (other_items i (collection_items c2))"
      "editing_exclusion c = None \<Longrightarrow> sound_items k (collection_items c2)"
    and fits2: "list_all (\<lambda>(i, w). fit w) (collection_items c2)"
    using excl d(1,7,8) h fits by (auto simp: c2_def)
  have dis: "list_all (\<lambda>(i, w). \<not> disabled w) (collection_items c2)"
    using handled_disabled [OF fits, of "editing_handlers c" "\<lambda>_. False"] d(4,5)
    by (auto simp: c2_def list_all_pairs)
  have step: "fst (delete_item k i c) = (case find_item i c2 of None \<Rightarrow> c2
      | Some w \<Rightarrow> c2\<lparr>collection_items := other_items i (collection_items c2),
          last_item := map_option fst (js_last (other_items i (collection_items c2)))\<rparr>)"
    using excl by (auto simp: delete_item_def c2_def Let_def split_beta other_items_def split: option.split)
  have bounds: "list_all (\<lambda>(i, w). i < item_sequence c \<and> i \<in> set (editing_handlers c)) (collection_items c2)"
  proof -
    have "list_all (\<lambda>i. i < item_sequence c \<and> i \<in> set (editing_handlers c)) (map fst (collection_items c2))"
      unfolding ids using d(4) by (auto simp: list_all_iff)
    then show ?thesis by (auto simp: list_all_iff)
  qed
  have last: "last_item c2 = map_option fst (js_last (collection_items c2))"
    using d(3) ids frame(3) by (metis js_last_map)
  show ?thesis
  proof (cases "find_item i c2")
    case None
    then have "i \<notin> set (map fst (collection_items c2))" by (force simp: find_item_def map_of_eq_None_iff)
    then have "i \<notin> set (map fst (collection_items c))" by (simp only: ids not_False_eq_True)
    then have "editing_exclusion c = None"
      using inv excl by (auto simp: collection_inv_def collection_sound_def)
    with None sound(2) flags fits2 dis bounds last frame ids d(2) show ?thesis
      by (simp add: step collection_inv_def collection_shape_def collection_sound_def)
  next
    case (Some w)
    have "distinct (map fst (other_items i (collection_items c2)))"
      using d(2) ids by (auto simp: other_items_def distinct_map_filter)
    moreover have "fit v \<and> \<not> disabled v \<and> j < item_sequence c \<and> j \<in> set (editing_handlers c)"
      if "(j, v) \<in> set (other_items i (collection_items c2))" for j v
    proof -
      have "(j, v) \<in> set (collection_items c2)" using that by (auto simp: other_items_def)
      with fits2 dis bounds show ?thesis unfolding list_all_pairs by blast
    qed
    ultimately show ?thesis using Some sound(1) flags frame
      by (simp add: step collection_inv_def collection_shape_def collection_sound_def list_all_pairs)
  qed
qed

lemma clear_collection_inv:
  assumes "collection_inv c"
  shows "collection_inv (fst (clear_collection k c))"
  using collection_invD(1) [OF assms]
  by (simp add: clear_collection_def Let_def split_beta collection_inv_def collection_shape_def
      collection_sound_def sound_items_def)

lemma collection_act_inv:
  assumes inv: "collection_inv c" and factory: "\<And>i. fit (factory i) \<and> \<not> disabled (factory i)"
  shows "collection_inv (collection_act k factory disabled edit a c)"
proof (cases a)
  case Press_add
  with assms show ?thesis by (simp add: add_new_item_inv)
next
  case (Press_delete i)
  with inv show ?thesis by (auto simp: delete_icon_disabled_def intro: delete_item_inv)
next
  case (Edit_item i e)
  with inv show ?thesis by (auto intro: edit_inv split: option.split)
next
  case Clear_items
  with inv show ?thesis by (simp add: clear_collection_inv)
qed

lemma collection_run_inv:
  "collection_inv c \<Longrightarrow> (\<And>i. fit (factory i) \<and> \<not> disabled (factory i)) \<Longrightarrow>
   collection_inv (fold (collection_act k factory disabled edit) acts c)"
  by (induction acts arbitrary: c) (simp_all add: collection_act_inv)


lemma initial_items_inv:
  assumes "collection_inv c" and "editing_exclusion c = None" and "distinct (map fst (collection_items c) @ is)"
    and "\<forall>i \<in> set is. i < item_sequence c"
    and factory: "\<And>i. fit (factory i) \<and> \<not> disabled (factory i)"
    and "\<forall>i \<in> set is. \<not> item_validator k (factory i)"
    and "distinct (item_values c @ map (\<lambda>i. value_extractor k (factory i)) is)"
  shows "collection_inv (fold (\<lambda>i c. fst (add_item k i (factory i) c)) is c) \<and>
    editing_exclusion (fold (\<lambda>i c. fst (add_item k i (factory i) c)) is c) = None"
  using assms(1-4,6-)
proof (induction "is" arbitrary: c)
  case Nil
  then show ?case by simp
next
  case (Cons i "is")
  let ?c = "fst (add_item k i (factory i) c)"
  note add = add_item_inv [OF Cons.prems(1,2), of i "factory i"]
  have fresh: "i \<notin> fst ` set (collection_items c)" "i < item_sequence c"
    using Cons.prems(3,4) by auto
  note a = add [OF fresh conjunct1 [OF factory] conjunct2 [OF factory]]
  have "sound_items k (collection_items c @ [(i, factory i)])"
    using collection_invD(8) [OF Cons.prems(1,2)] Cons.prems(5,6) by (simp add: sound_items_def)
  then have "editing_exclusion ?c = None" by (simp add: a(2))
  with Cons.IH [OF a(1)] Cons.prems(3-6) show ?case by (simp add: a(3,4,5))
qed

text \<open>A collection built from valid, distinct items and driven by its user.\<close>

lemma collection_session:
  assumes factory: "\<And>i. fit (factory i) \<and> \<not> disabled (factory i)" and ids: "distinct ids"
    and "\<forall>i \<in> set ids. \<not> item_validator k (factory i)"
    and "distinct (map (\<lambda>i. value_extractor k (factory i)) ids)"
  shows "collection_inv (fold (collection_act k factory disabled edit) acts
    (new_collection k factory ids :: ('w, 'u) collection))"
proof -
  have "collection_inv (empty_collection ids :: ('w, 'u) collection) \<and> editing_exclusion (empty_collection ids :: ('w, 'u) collection) = None \<and>
      item_sequence (empty_collection ids :: ('w, 'u) collection) = first_free_id ids \<and>
      collection_items (empty_collection ids :: ('w, 'u) collection) = []"
    by (simp add: collection_inv_def collection_shape_def collection_sound_def empty_collection_def
        configuration_property_def properties_free_def sound_items_def is_addition_disabled_def
        editing_exclusion_def property_cleared_def property_consume_def new_property_def)
  with initial_items_inv [of "empty_collection ids :: ('w, 'u) collection" ids factory] assms
  have "collection_inv (new_collection k factory ids :: ('w, 'u) collection)"
    by (simp add: new_collection_def first_free_id_bound)
  with factory show ?thesis by (rule collection_run_inv [rotated])
qed

lemma collection_guarded:
  assumes inv: "collection_inv c" and good: "\<And>w. fit w \<Longrightarrow> \<not> item_validator k w \<Longrightarrow> good w"
  shows "guarded_collection disabled (value_extractor k) good c"
proof -
  note d = collection_invD [OF inv]
  let ?settled = "filter (\<lambda>(i, w). editing_exclusion c \<noteq> Some i) (collection_items c)"
  have sound: "sound_items k ?settled"
  proof (cases "editing_exclusion c")
    case None
    with d(8) show ?thesis by simp
  next
    case (Some e)
    with d(7) [of e] have "sound_items k (other_items e (collection_items c))" by simp
    moreover have "?settled = other_items e (collection_items c)"
      unfolding other_items_def Some by (rule filter_cong) auto
    ultimately show ?thesis by simp
  qed
  then have "distinct (map (value_extractor k \<circ> snd) ?settled)"
    by (simp add: sound_items_def comp_def case_prod_unfold)
  moreover have "list_all (good \<circ> snd) ?settled"
    using sound d(4) good by (auto simp: sound_items_def list_all_iff)
  ultimately show ?thesis
    using d(2,3,5,6) by (simp add: guarded_collection_def list_all_pairs)
qed

end

end
