(* ===== verification/Platform_Collections.thy ===== *)
theory Platform_Collections
  imports Collections Regexps
begin

text \<open>
  The collections of \<open>component/embeddable/common/PlatformCollections.ts\<close>: strings, ports, pairs (key and
  value, and the two kinds of variables) and files. Each is a \<open>collection\<close> over its own items; a \<open>decorator\<close>
  is a function on the fresh text field, the identity when the caller gives none. What a user does to an
  item is an edit of one of its widgets, which tells whether the consumers of the extracted text are called.
\<close>

section \<open>The fields of an item\<close>

text \<open>A change of the text calls the consumers of the text: the collection is among them.\<close>

definition edit_field :: "string \<Rightarrow> 'u text_field \<Rightarrow> 'u text_field \<times> bool" where
  "edit_field v f =
     (let f' = fst (field_set_text v f)
      in (f', property_value (field_text f') \<noteq> property_value (field_text f)))"

definition open_field :: "'u text_field \<Rightarrow> bool" where
  "open_field f \<longleftrightarrow>
     before_update_consumers (field_error f) = [] \<and> before_update_consumers (field_disabled f) = []"

lemma plain_field_open: "plain_field f \<Longrightarrow> open_field f"
  by (simp add: plain_field_def open_field_def)

lemma open_field_frame [simp]:
  "open_field f \<Longrightarrow> open_field (fst (field_set_error e f))"
  "open_field f \<Longrightarrow> open_field (fst (field_set_disabled b f))"
  "open_field f \<Longrightarrow> open_field (fst (field_set_text v f))"
  "open_field f \<Longrightarrow> disabled_of (fst (field_set_disabled b f)) = b"
  "open_field f \<Longrightarrow> error_of (fst (field_set_error e f)) = error_shown e"
  by (auto simp: open_field_def field_set_error_def field_set_disabled_def field_set_text_def Let_def
      split_beta disabled_of_def error_of_def)

lemma field_text_frame [simp]:
  "field_text (fst (field_set_error e f)) = field_text f"
  "field_text (fst (field_set_disabled b f)) = field_text f"
  "disabled_of (fst (field_set_text v f)) = disabled_of f"
  by (auto simp: field_set_error_def field_set_disabled_def field_set_text_def Let_def split_beta disabled_of_def)

lemma edit_field_simps [simp]:
  "fst (edit_field v f) = fst (field_set_text v f)"
  "snd (edit_field v f) \<longleftrightarrow> property_value (field_text (fst (field_set_text v f))) \<noteq> property_value (field_text f)"
  by (simp_all add: edit_field_def Let_def)

section \<open>Strings\<close>

definition item_duplicate_error :: "string \<Rightarrow> bool \<Rightarrow> field_error" where
  "item_duplicate_error message duplicate = \<lparr>error_shown = duplicate, error_text = Some message\<rparr>"

definition string_functions :: "string \<Rightarrow> ('u text_field, string option) item_functions" where
  "string_functions message =
     \<lparr>item_validator = \<lambda>f. text_of f = [],
      value_extractor = \<lambda>f. property_value (field_text f),
      disable_handler = \<lambda>b f. fst (field_set_disabled b f),
      duplicate_handler = \<lambda>b f. fst (field_set_error (item_duplicate_error message b) f)\<rparr>"

definition string_item ::
  "(string \<Rightarrow> bool) option \<Rightarrow> (string \<Rightarrow> bool) option \<Rightarrow> ('u text_field \<Rightarrow> 'u text_field) option \<Rightarrow>
    string list \<Rightarrow> int \<Rightarrow> 'u text_field" where
  "string_item regexp masking decorator strings i =
     (case decorator of None \<Rightarrow> (\<lambda>f. f) | Some decorate \<Rightarrow> decorate)
       (new_text_field (js_at strings (nat i)) False False regexp masking None None)"

definition initial_ids :: "'a list \<Rightarrow> int list" where
  "initial_ids xs = map int [0..<length xs]"

definition string_collection ::
  "string \<Rightarrow> (string \<Rightarrow> bool) option \<Rightarrow> (string \<Rightarrow> bool) option \<Rightarrow>
    ('u text_field \<Rightarrow> 'u text_field) option \<Rightarrow> string list \<Rightarrow> ('u text_field, 'k) collection" where
  "string_collection message regexp masking decorator strings =
     new_collection (string_functions message) (string_item regexp masking decorator strings)
       (initial_ids strings)"

interpretation strings: item_laws "string_functions message" open_field disabled_of edit_field for message
  by unfold_locales (auto simp: string_functions_def item_duplicate_error_def text_of_def)

section \<open>Pairs and variables\<close>

record 'u pair_item =
  pair_name :: "'u text_field"
  pair_content :: "'u text_field"

definition pair_functions :: "string \<Rightarrow> ('u pair_item, string option) item_functions" where
  "pair_functions message =
     \<lparr>item_validator = \<lambda>p. text_of (pair_name p) = [],
      value_extractor = \<lambda>p. property_value (field_text (pair_name p)),
      disable_handler = \<lambda>b p. p\<lparr>pair_name := fst (field_set_disabled b (pair_name p)),
        pair_content := fst (field_set_disabled b (pair_content p))\<rparr>,
      duplicate_handler = \<lambda>b p. p\<lparr>pair_name := fst (field_set_error (item_duplicate_error message b) (pair_name p))\<rparr>\<rparr>"

definition key_value_item ::
  "(string \<Rightarrow> bool) option \<Rightarrow> (string \<Rightarrow> bool) option \<Rightarrow> (string \<Rightarrow> bool) option \<Rightarrow> (string \<Rightarrow> bool) option \<Rightarrow>
    ('u text_field \<Rightarrow> 'u text_field) option \<Rightarrow> ('u text_field \<Rightarrow> 'u text_field) option \<Rightarrow>
    (string \<times> string) list \<Rightarrow> int \<Rightarrow> 'u pair_item" where
  "key_value_item key_regexp value_regexp key_mask value_mask key_decorator value_decorator pairs i =
     \<lparr>pair_name = (case key_decorator of None \<Rightarrow> (\<lambda>f. f) | Some decorate \<Rightarrow> decorate)
        (new_text_field (map_option fst (js_at pairs (nat i))) False False key_regexp key_mask None None),
      pair_content = (case value_decorator of None \<Rightarrow> (\<lambda>f. f) | Some decorate \<Rightarrow> decorate)
        (new_text_field (map_option snd (js_at pairs (nat i))) False False value_regexp value_mask None None)\<rparr>"

definition environment_variable_item :: "(string \<times> string) list \<Rightarrow> int \<Rightarrow> 'u pair_item" where
  "environment_variable_item variables i =
     \<lparr>pair_name = new_text_field (map_option fst (js_at variables (nat i))) False False
        (Some (matches VARIABLE_NAME_REGEX)) None None None,
      pair_content = new_text_field (map_option snd (js_at variables (nat i))) False False
        (Some (matches VARIABLE_VALUE_REGEX)) None None None\<rparr>"

definition variable_item :: "(string \<times> string) list \<Rightarrow> int \<Rightarrow> 'u pair_item" where
  "variable_item variables i =
     \<lparr>pair_name = new_text_field (map_option fst (js_at variables (nat i))) False False
        (Some (matches VARIABLE_NAME_REGEX)) None None None,
      pair_content = new_text_field (map_option snd (js_at variables (nat i))) False False None None None None\<rparr>"

definition key_value_collection ::
  "string \<Rightarrow> (int \<Rightarrow> 'u pair_item) \<Rightarrow> (string \<times> string) list \<Rightarrow> ('u pair_item, 'k) collection" where
  "key_value_collection message item pairs =
     new_collection (pair_functions message) item (initial_ids pairs)"

datatype pair_edit = Edit_name string | Edit_content string

fun edit_pair :: "pair_edit \<Rightarrow> 'u pair_item \<Rightarrow> 'u pair_item \<times> bool" where
  "edit_pair (Edit_name v) p =
     (let (f, changed) = edit_field v (pair_name p) in (p\<lparr>pair_name := f\<rparr>, changed))"
| "edit_pair (Edit_content v) p = (p\<lparr>pair_content := fst (edit_field v (pair_content p))\<rparr>, False)"

definition open_pair :: "'u pair_item \<Rightarrow> bool" where
  "open_pair p \<longleftrightarrow> open_field (pair_name p) \<and> open_field (pair_content p)"

interpretation pairs: item_laws "pair_functions message" open_pair "\<lambda>p. disabled_of (pair_name p)" edit_pair
  for message
proof unfold_locales
  fix w :: "'u pair_item" and a
  assume "open_pair w"
  then show "open_pair (fst (edit_pair a w))"
    by (cases a) (auto simp: open_pair_def split_beta)
next
  fix w :: "'u pair_item" and a
  assume "open_pair w"
  then show "disabled_of (pair_name (fst (edit_pair a w))) = disabled_of (pair_name w)"
    by (cases a) (auto simp: open_pair_def split_beta)
next
  fix w :: "'u pair_item" and a
  assume "open_pair w" and "\<not> snd (edit_pair a w)"
  then show "item_validator (pair_functions message) (fst (edit_pair a w)) =
        item_validator (pair_functions message) w \<and>
      value_extractor (pair_functions message) (fst (edit_pair a w)) =
        value_extractor (pair_functions message) w"
    by (cases a) (auto simp: pair_functions_def text_of_def split_beta)
qed (auto simp: pair_functions_def open_pair_def item_duplicate_error_def)

section \<open>Ports\<close>

text \<open>
  The initial ports are numbers, and the text property of their fields holds these numbers: a number is
  distinct from the text that prints it. Such a field has the number beside a text that is not set yet; the
  setter replaces it as it replaces a text that is \<open>undefined\<close>, since no text equals a number.
\<close>

datatype port_value = Port_number int | Port_text string

record 'u port_item =
  port_number :: "int option"
  port_field :: "'u text_field"

definition port_value_of :: "'u port_item \<Rightarrow> port_value option" where
  "port_value_of p =
     (case port_number p of
        Some n \<Rightarrow> Some (Port_number n)
      | None \<Rightarrow> map_option Port_text (property_value (field_text (port_field p))))"

definition port_functions :: "string \<Rightarrow> ('u port_item, port_value option) item_functions" where
  "port_functions message =
     \<lparr>item_validator = \<lambda>p. (case port_number p of Some n \<Rightarrow> n = 0 | None \<Rightarrow> text_of (port_field p) = []),
      value_extractor = port_value_of,
      disable_handler = \<lambda>b p. p\<lparr>port_field := fst (field_set_disabled b (port_field p))\<rparr>,
      duplicate_handler = \<lambda>b p. p\<lparr>port_field := fst (field_set_error (item_duplicate_error message b) (port_field p))\<rparr>\<rparr>"

definition no_leading_zero :: "string option \<Rightarrow> bool" where
  "no_leading_zero port \<longleftrightarrow> (case port of None \<Rightarrow> True | Some text \<Rightarrow> take 1 text \<noteq> ''0'')"

definition port_field_of :: "string option \<Rightarrow> 'u text_field" where
  "port_field_of v =
     field_prevent no_leading_zero
       (new_text_field v False False (Some (matches PORT_REGEX)) (Some (matches PORT_REGEX)) None None)"

definition port_item :: "int list \<Rightarrow> int \<Rightarrow> 'u port_item" where
  "port_item ports i =
     (case js_at ports (nat i) of
        None \<Rightarrow> \<lparr>port_number = None, port_field = port_field_of None\<rparr>
      | Some n \<Rightarrow>
          \<lparr>port_number = Some n,
           port_field = (port_field_of None)\<lparr>field_text := (field_text (port_field_of None))\<lparr>property_value := None\<rparr>\<rparr>\<rparr>)"

definition ports_collection :: "string \<Rightarrow> int list \<Rightarrow> ('u port_item, 'k) collection" where
  "ports_collection message ports =
     new_collection (port_functions message) (port_item ports) (initial_ids ports)"

definition edit_port :: "string \<Rightarrow> 'u port_item \<Rightarrow> 'u port_item \<times> bool" where
  "edit_port v p =
     (let (f, changed) = edit_field v (port_field p)
      in (p\<lparr>port_number := if changed then None else port_number p, port_field := f\<rparr>, changed))"

text \<open>A port that was typed is one that the mask lets through, without a leading zero.\<close>

definition typed_port :: "string \<Rightarrow> bool" where
  "typed_port v \<longleftrightarrow> v = [] \<or> matches PORT_REGEX v \<and> take 1 v \<noteq> ''0''"

definition open_port :: "'u port_item \<Rightarrow> bool" where
  "open_port p \<longleftrightarrow>
     open_field (port_field p) \<and> field_mask (port_field p) = Some (matches PORT_REGEX) \<and>
     before_update_consumers (field_text (port_field p)) = [no_leading_zero] \<and>
     typed_port (text_of (port_field p)) \<and>
     (port_number p = None \<longleftrightarrow> property_value (field_text (port_field p)) \<noteq> None)"

lemma port_text_set:
  assumes "before_update_consumers (field_text f) = [no_leading_zero]"
    and "field_mask f = Some (matches PORT_REGEX)" and "typed_port (text_of f)"
  shows "before_update_consumers (field_text (fst (field_set_text v f))) = [no_leading_zero]"
    and "typed_port (text_of (fst (field_set_text v f)))"
    and "property_value (field_text (fst (field_set_text v f))) \<in> {property_value (field_text f), Some v}"
  using assms
  by (auto simp: field_set_text_def Let_def split_beta mismatch_def property_set_def prevented_def text_of_def
      typed_port_def no_leading_zero_def split: option.splits if_splits)

lemma open_port_edit: "open_port p \<Longrightarrow> open_port (fst (edit_port v p))"
  using port_text_set [of "port_field p" v]
  by (auto simp: open_port_def edit_port_def split_beta)

interpretation ports: item_laws "port_functions message" open_port "\<lambda>p. disabled_of (port_field p)" edit_port
  for message
proof unfold_locales
  fix w :: "'u port_item" and a
  assume w: "open_port w"
  show "open_port (fst (edit_port a w))" using w by (rule open_port_edit)
  show "disabled_of (port_field (fst (edit_port a w))) = disabled_of (port_field w)"
    by (simp add: edit_port_def split_beta)
  show "item_validator (port_functions message) (fst (edit_port a w)) =
        item_validator (port_functions message) w \<and>
      value_extractor (port_functions message) (fst (edit_port a w)) =
        value_extractor (port_functions message) w" if "\<not> snd (edit_port a w)"
    using that by (auto simp: port_functions_def edit_port_def split_beta text_of_def port_value_of_def
        split: option.split)
qed (auto simp: port_functions_def open_port_def item_duplicate_error_def port_value_of_def text_of_def)

section \<open>Files\<close>

record 'u code_editor =
  editor_file_name :: "(string, 'u) property"
  editor_text :: "(string, 'u) property"
  editor_read_only :: "(bool, 'u) property"

record 'u file_item =
  file_name :: "'u text_field"
  file_content :: "'u code_editor"

definition new_code_editor :: "string option \<Rightarrow> string option \<Rightarrow> bool option \<Rightarrow> 'u code_editor" where
  "new_code_editor name content read_only =
     \<lparr>editor_file_name = new_property name,
      editor_text = new_property (Some (case content of None \<Rightarrow> [] | Some text \<Rightarrow> text)),
      editor_read_only = new_property read_only\<rparr>"

definition editor_set_file_name :: "string \<Rightarrow> 'u code_editor \<Rightarrow> 'u code_editor" where
  "editor_set_file_name v e = e\<lparr>editor_file_name := fst (property_set (=) (Some v) (editor_file_name e))\<rparr>"

definition editor_set_text :: "string \<Rightarrow> 'u code_editor \<Rightarrow> 'u code_editor" where
  "editor_set_text v e = e\<lparr>editor_text := fst (property_set (=) (Some v) (editor_text e))\<rparr>"

definition editor_set_read_only :: "bool \<Rightarrow> 'u code_editor \<Rightarrow> 'u code_editor" where
  "editor_set_read_only b e = e\<lparr>editor_read_only := fst (property_set (=) (Some b) (editor_read_only e))\<rparr>"

definition file_functions :: "string \<Rightarrow> ('u file_item, string option) item_functions" where
  "file_functions message =
     \<lparr>item_validator = \<lambda>p. text_of (file_name p) = [] \<or> error_of (file_name p),
      value_extractor = \<lambda>p. property_value (field_text (file_name p)),
      disable_handler = \<lambda>b p. p\<lparr>file_name := fst (field_set_disabled b (file_name p)),
        file_content := editor_set_read_only b (file_content p)\<rparr>,
      duplicate_handler = \<lambda>b p. p\<lparr>file_name := fst (field_set_error (item_duplicate_error message b) (file_name p))\<rparr>\<rparr>"

text \<open>The name's own consumer renames the editor's file, before the collection validates.\<close>

definition file_item_of ::
  "(string \<Rightarrow> bool) option \<Rightarrow> (string \<Rightarrow> bool) option \<Rightarrow> string option \<Rightarrow>
    ('u text_field \<Rightarrow> 'u text_field) option \<Rightarrow> ('u code_editor \<Rightarrow> 'u code_editor) option \<Rightarrow>
    (string \<times> string) list \<Rightarrow> int \<Rightarrow> 'u file_item" where
  "file_item_of regexp masking error name_decorator content_decorator files i =
     (let name = (case name_decorator of None \<Rightarrow> (\<lambda>f. f) | Some decorate \<Rightarrow> decorate)
            (new_text_field (map_option fst (js_at files (nat i))) False False regexp masking None error)
      in \<lparr>file_name = name,
          file_content = (case content_decorator of None \<Rightarrow> (\<lambda>e. e) | Some decorate \<Rightarrow> decorate)
            (new_code_editor (property_value (field_text name)) (map_option snd (js_at files (nat i))) None)\<rparr>)"

definition file_collection ::
  "string \<Rightarrow> (string \<Rightarrow> bool) option \<Rightarrow> (string \<Rightarrow> bool) option \<Rightarrow> string option \<Rightarrow>
    ('u text_field \<Rightarrow> 'u text_field) option \<Rightarrow> ('u code_editor \<Rightarrow> 'u code_editor) option \<Rightarrow>
    (string \<times> string) list \<Rightarrow> ('u file_item, 'k) collection" where
  "file_collection message regexp masking error name_decorator content_decorator files =
     new_collection (file_functions message)
       (file_item_of regexp masking error name_decorator content_decorator files) (initial_ids files)"

fun edit_file :: "pair_edit \<Rightarrow> 'u file_item \<Rightarrow> 'u file_item \<times> bool" where
  "edit_file (Edit_name v) p =
     (let (f, changed) = edit_field v (file_name p)
      in (p\<lparr>file_name := f,
            file_content := if changed then editor_set_file_name v (file_content p) else file_content p\<rparr>,
          changed))"
| "edit_file (Edit_content v) p = (p\<lparr>file_content := editor_set_text v (file_content p)\<rparr>, False)"

text \<open>A name that the regular expression rejects shows the error that makes the item invalid.\<close>

definition checked_file :: "(string \<Rightarrow> bool) option \<Rightarrow> 'u file_item \<Rightarrow> bool" where
  "checked_file regexp p \<longleftrightarrow>
     plain_field (file_name p) \<and> field_regexp (file_name p) = regexp \<and>
     property_value (field_text (file_name p)) \<noteq> None \<and>
     (mismatch (text_of (file_name p)) regexp \<longrightarrow> error_of (file_name p))"

lemma file_name_set:
  assumes "plain_field f" and "property_value (field_text f) \<noteq> None"
  shows "property_value (field_text (fst (field_set_text v f))) \<noteq> None"
    and "mismatch (text_of f) (field_regexp f) \<longrightarrow> error_of f \<Longrightarrow>
      mismatch (text_of (fst (field_set_text v f))) (field_regexp f) \<longrightarrow> error_of (fst (field_set_text v f))"
    and "property_value (field_text (fst (field_set_text v f))) = property_value (field_text f) \<Longrightarrow>
      error_of (fst (field_set_text v f)) = error_of f"
  using assms
  by (auto simp: field_set_text_def Let_def split_beta plain_field_def text_of_def error_of_def
      field_set_error_def property_set_def prevented_def split: option.splits)

interpretation files: item_laws "file_functions message" "checked_file regexp"
    "\<lambda>p. disabled_of (file_name p)" edit_file
  for message regexp
proof unfold_locales
  fix w :: "'u file_item" and a
  assume w: "checked_file regexp w"
  then show "checked_file regexp (fst (edit_file a w))"
    using file_name_set [of "file_name w"]
    by (cases a) (auto simp: checked_file_def split_beta)
  show "disabled_of (file_name (fst (edit_file a w))) = disabled_of (file_name w)"
    by (cases a) (auto simp: split_beta)
  show "item_validator (file_functions message) (fst (edit_file a w)) =
        item_validator (file_functions message) w \<and>
      value_extractor (file_functions message) (fst (edit_file a w)) =
        value_extractor (file_functions message) w" if "\<not> snd (edit_file a w)"
    using that w file_name_set(3) [of "file_name w"]
    by (cases a) (auto simp: checked_file_def file_functions_def text_of_def split_beta)
qed (auto simp: file_functions_def checked_file_def item_duplicate_error_def text_of_def)

section \<open>What the collections guarantee\<close>

lemma initial_ids_nth:
  "i \<in> set (initial_ids xs) \<Longrightarrow> \<exists>x \<in> set xs. js_at xs (nat i) = Some x"
  by (auto simp: initial_ids_def js_at_def)

lemma js_at_mem: "js_at xs n = Some x \<Longrightarrow> x \<in> set xs"
  by (auto simp: js_at_def split: if_splits)

lemma distinct_initial_ids [simp]: "distinct (initial_ids xs)"
  by (simp add: initial_ids_def distinct_map)

lemma map_initial_ids:
  "(\<And>i x. js_at xs (nat i) = Some x \<Longrightarrow> f i = g x) \<Longrightarrow> map f (initial_ids xs) = map g xs"
  by (auto simp: initial_ids_def js_at_def intro!: nth_equalityI)

lemma new_field_reads [simp]:
  "text_of (new_text_field v d e r m p t) = (case v of None \<Rightarrow> [] | Some text \<Rightarrow> text)"
  "property_value (field_text (new_text_field v d e r m p t)) = Some (case v of None \<Rightarrow> [] | Some text \<Rightarrow> text)"
  "error_of (new_text_field v d e r m p t) = e"
  "disabled_of (new_text_field v d e r m p t) = d"
  "field_regexp (new_text_field v d e r m p t) = r"
  "field_mask (new_text_field v d e r m p t) = m"
  "open_field (new_text_field v d e r m p t)"
  by (simp_all add: text_of_def new_text_field_def new_property_def error_of_def disabled_of_def open_field_def)

text \<open>
  C16. A collection of texts that starts with distinct, non-empty texts keeps them so: whatever its user adds,
  deletes, clears and types, addition is off and every other item is disabled exactly while one item is
  locked, all the texts outside the lock are non-empty and distinct, the identifiers stay distinct and
  \<open>last\<close> is the last item, where the add button stands.
\<close>
theorem string_collection_guarded:
  fixes acts :: "string item_action list"
  assumes "distinct strings" and "[] \<notin> set strings"
  shows "guarded_collection disabled_of (\<lambda>f. property_value (field_text f)) (\<lambda>f. text_of f \<noteq> [])
    (fold (collection_act (string_functions message) (string_item regexp masking None strings) disabled_of
        edit_field) acts
      (string_collection message regexp masking None strings :: ('u text_field, 'k) collection))"
proof -
  let ?k = "string_functions message :: ('u text_field, string option) item_functions"
  let ?item = "string_item regexp masking None strings :: int \<Rightarrow> 'u text_field"
  have "strings.collection_inv message (fold (collection_act ?k ?item disabled_of edit_field) acts
      (new_collection ?k ?item (initial_ids strings) :: ('u text_field, 'k) collection))"
  proof (rule strings.collection_session)
    show "\<forall>i \<in> set (initial_ids strings). \<not> item_validator ?k (?item i)"
      using assms(2) by (auto simp: string_functions_def string_item_def dest!: initial_ids_nth)
    have "map (\<lambda>i. value_extractor ?k (?item i)) (initial_ids strings) = map Some strings"
      by (rule map_initial_ids) (simp add: string_functions_def string_item_def)
    then show "distinct (map (\<lambda>i. value_extractor ?k (?item i)) (initial_ids strings))"
      using assms(1) by (simp add: distinct_map)
  qed (simp_all add: string_item_def)
  from strings.collection_guarded [OF this, of "\<lambda>f. text_of f \<noteq> []"]
  show ?thesis by (simp add: string_collection_def string_functions_def)
qed

theorem string_collection_guarded_witness:
  "guarded_collection disabled_of (\<lambda>f. property_value (field_text f)) (\<lambda>f. text_of f \<noteq> [])
    (fold (collection_act (string_functions ''unique'') (string_item None None None [''a'', ''b'']) disabled_of
        edit_field) [Edit_item 1 ''a'', Press_add, Edit_item 0 ''c'', Edit_item 1 ''d'', Press_add]
      (string_collection ''unique'' None None None [''a'', ''b''] :: (unit text_field, unit) collection))"
  by (rule string_collection_guarded) simp_all

text \<open>
  C33. A collection of files whose initial names are distinct and match its regular expression keeps every
  name outside the lock non-empty, distinct and matching, through any additions, deletions, clearings and
  edits of names and contents: the error that the text field shows is part of the validation.
\<close>
theorem file_collection_guarded:
  fixes acts :: "pair_edit item_action list"
  assumes "distinct (map fst files)" and "\<forall>(name, content) \<in> set files. name \<noteq> [] \<and> r name"
  shows "guarded_collection (\<lambda>p. disabled_of (file_name p)) (\<lambda>p. property_value (field_text (file_name p)))
    (\<lambda>p. text_of (file_name p) \<noteq> [] \<and> r (text_of (file_name p)))
    (fold (collection_act (file_functions message) (file_item_of (Some r) masking error None None files)
        (\<lambda>p. disabled_of (file_name p)) edit_file) acts
      (file_collection message (Some r) masking error None None files :: ('u file_item, 'k) collection))"
proof -
  let ?k = "file_functions message :: ('u file_item, string option) item_functions"
  let ?item = "file_item_of (Some r) masking error None None files :: int \<Rightarrow> 'u file_item"
  let ?disabled = "\<lambda>p :: 'u file_item. disabled_of (file_name p)"
  have "files.collection_inv message (Some r) (fold (collection_act ?k ?item ?disabled edit_file) acts
      (new_collection ?k ?item (initial_ids files) :: ('u file_item, 'k) collection))"
  proof (rule files.collection_session)
    fix i
    show "checked_file (Some r) (?item i) \<and> \<not> ?disabled (?item i)"
      using assms(2) by (auto simp: file_item_of_def checked_file_def mismatch_def split: option.split dest!: js_at_mem)
  next
    show "\<forall>i \<in> set (initial_ids files). \<not> item_validator ?k (?item i)"
      using assms(2) by (fastforce simp: file_functions_def file_item_of_def dest!: initial_ids_nth)
    have "map (\<lambda>i. value_extractor ?k (?item i)) (initial_ids files) = map (Some \<circ> fst) files"
      by (rule map_initial_ids) (simp add: file_functions_def file_item_of_def)
    then show "distinct (map (\<lambda>i. value_extractor ?k (?item i)) (initial_ids files))"
      using assms(1) by (simp add: distinct_map comp_inj_on)
  qed simp
  from files.collection_guarded [OF this, of "\<lambda>p. text_of (file_name p) \<noteq> [] \<and> r (text_of (file_name p))"]
  show ?thesis
    by (simp add: file_collection_def file_functions_def checked_file_def mismatch_def)
qed

theorem file_collection_guarded_witness:
  "guarded_collection (\<lambda>p. disabled_of (file_name p)) (\<lambda>p. property_value (field_text (file_name p)))
    (\<lambda>p. text_of (file_name p) \<noteq> [] \<and> length (text_of (file_name p)) \<le> 3)
    (fold (collection_act (file_functions ''unique'')
        (file_item_of (Some (\<lambda>v. length v \<le> 3)) None None None None [(''a.c'', ''x'')])
        (\<lambda>p. disabled_of (file_name p)) edit_file)
        [Press_add, Edit_item 1 (Edit_name ''b.cpp''), Edit_item 0 (Edit_content ''y''), Press_delete 1]
      (file_collection ''unique'' (Some (\<lambda>v. length v \<le> 3)) None None None None [(''a.c'', ''x'')]
        :: (unit file_item, unit) collection))"
  by (rule file_collection_guarded) simp_all

text \<open>
  C34. A collection of ports that starts with distinct ports keeps the ports outside the lock distinct as they
  are stored, and each that was typed is non-empty, matches the expression of ports and has no leading zero:
  the mask refuses any other text before it is stored.
\<close>
theorem ports_collection_guarded:
  fixes acts :: "string item_action list"
  assumes "distinct ports" and "0 \<notin> set ports"
  shows "guarded_collection (\<lambda>p. disabled_of (port_field p)) port_value_of
    (\<lambda>p. case port_number p of
       Some n \<Rightarrow> n \<noteq> 0
     | None \<Rightarrow> matches PORT_REGEX (text_of (port_field p)) \<and> take 1 (text_of (port_field p)) \<noteq> ''0'')
    (fold (collection_act (port_functions message) (port_item ports) (\<lambda>p. disabled_of (port_field p)) edit_port)
        acts
      (ports_collection message ports :: ('u port_item, 'k) collection))"
proof -
  let ?k = "port_functions message :: ('u port_item, port_value option) item_functions"
  let ?item = "port_item ports :: int \<Rightarrow> 'u port_item"
  let ?disabled = "\<lambda>p :: 'u port_item. disabled_of (port_field p)"
  let ?good = "\<lambda>p :: 'u port_item. case port_number p of Some n \<Rightarrow> n \<noteq> 0
    | None \<Rightarrow> matches PORT_REGEX (text_of (port_field p)) \<and> take 1 (text_of (port_field p)) \<noteq> ''0''"
  have "ports.collection_inv message (fold (collection_act ?k ?item ?disabled edit_port) acts
      (new_collection ?k ?item (initial_ids ports) :: ('u port_item, 'k) collection))"
  proof (rule ports.collection_session)
    fix i
    show "open_port (?item i) \<and> \<not> ?disabled (?item i)"
      by (simp add: port_item_def port_field_of_def open_port_def open_field_def field_prevent_def
          new_text_field_def new_property_def property_prevent_def text_of_def typed_port_def disabled_of_def
          split: option.split)
  next
    show "\<forall>i \<in> set (initial_ids ports). \<not> item_validator ?k (?item i)"
      using assms(2) by (auto simp: port_functions_def port_item_def dest!: initial_ids_nth)
    have "map (\<lambda>i. value_extractor ?k (?item i)) (initial_ids ports) = map (Some \<circ> Port_number) ports"
      by (rule map_initial_ids) (simp add: port_functions_def port_item_def port_value_of_def)
    then show "distinct (map (\<lambda>i. value_extractor ?k (?item i)) (initial_ids ports))"
      using assms(1) by (simp add: distinct_map inj_on_def)
  qed simp
  moreover have "?good p" if "open_port p" and "\<not> item_validator ?k p" for p
    using that by (auto simp: port_functions_def open_port_def typed_port_def split: option.splits)
  ultimately have "guarded_collection ?disabled (value_extractor ?k) ?good
      (fold (collection_act ?k ?item ?disabled edit_port) acts
        (ports_collection message ports :: ('u port_item, 'k) collection))"
    unfolding ports_collection_def by (rule ports.collection_guarded [where good = ?good])
  moreover have "value_extractor ?k = port_value_of" by (simp add: port_functions_def)
  ultimately show ?thesis by (simp only:)
qed

theorem ports_collection_guarded_witness:
  "guarded_collection (\<lambda>p. disabled_of (port_field p)) port_value_of
    (\<lambda>p. case port_number p of
       Some n \<Rightarrow> n \<noteq> 0
     | None \<Rightarrow> matches PORT_REGEX (text_of (port_field p)) \<and> take 1 (text_of (port_field p)) \<noteq> ''0'')
    (fold (collection_act (port_functions ''unique'') (port_item [80, 443]) (\<lambda>p. disabled_of (port_field p))
        edit_port) [Press_add, Edit_item 2 ''8080'', Edit_item 0 ''08'', Press_delete 1]
      (ports_collection ''unique'' [80, 443] :: (unit port_item, unit) collection))"
  by (rule ports_collection_guarded) simp_all

text \<open>
  A number and the text that prints it are different values, so the ports of a module can be doubled:
  beside the stored port \<open>80\<close> the user adds a new one and types \<open>80\<close>, and the collection neither locks nor
  shows an error.
\<close>
theorem typed_port_doubles_stored:
  "let c = fold (collection_act (port_functions message) (port_item [80]) (\<lambda>p. disabled_of (port_field p))
        edit_port) [Press_add, Edit_item 1 ''80'']
      (ports_collection message [80] :: ('u port_item, 'k) collection)
   in \<not> is_addition_disabled c \<and> editing_exclusion c = None \<and>
      map (port_value_of \<circ> snd) (collection_items c) = [Some (Port_number 80), Some (Port_text ''80'')] \<and>
      list_all (\<lambda>(i, p). \<not> error_of (port_field p)) (collection_items c)"
  by code_simp

text \<open>
  The regular expression of the keys is never enforced. The field shows the error of a key that does not
  match, but the collection's validation runs after it, asks only whether the key is empty, and takes the
  error away again as it does for a key that is not a duplicate: a mismatching key is accepted in silence.
\<close>
theorem pairs_accept_mismatch:
  assumes "v \<noteq> []" and "\<not> r v"
  shows "let c = fold (collection_act (pair_functions message)
          (key_value_item (Some r) value_regexp None None None None []) (\<lambda>p. disabled_of (pair_name p)) edit_pair)
          [Press_add, Edit_item 1 (Edit_name v)]
        (key_value_collection message (key_value_item (Some r) value_regexp None None None None []) []
          :: ('u pair_item, 'k) collection)
     in \<not> is_addition_disabled c \<and> editing_exclusion c = None \<and>
        map (\<lambda>(i, p). (text_of (pair_name p), error_of (pair_name p))) (collection_items c) = [(v, False)]"
  using assms
  by (simp add: fold_simps collection_act.simps edit_pair.simps edit_field_def key_value_collection_def new_collection_def initial_ids_def
      empty_collection_def first_free_id_def configuration_property_def add_new_item_def add_item_def change_item_def
      validate_items_except_def find_item_def update_item_def set_addition_disabled_def lock_except_def
      is_addition_disabled_def editing_exclusion_def enable_editing_def disable_editing_except_def
      run_disable_handlers_def property_set_def property_clear_def property_cleared_def property_consume_def
      new_property_def prevented_def notify_updated_def key_value_item_def new_text_field_def js_at_def
      pair_functions_def field_set_error_def field_set_disabled_def field_set_text_def mismatch_def item_duplicate_error_def
      text_of_def error_of_def disabled_of_def Let_def)

theorem pairs_accept_mismatch_witness:
  "let c = fold (collection_act (pair_functions ''unique'')
          (key_value_item (Some (\<lambda>v. v = ''ok'')) None None None None None []) (\<lambda>p. disabled_of (pair_name p)) edit_pair)
          [Press_add, Edit_item 1 (Edit_name ''??'')]
        (key_value_collection ''unique'' (key_value_item (Some (\<lambda>v. v = ''ok'')) None None None None None []) []
          :: (unit pair_item, unit) collection)
   in \<not> is_addition_disabled c \<and> editing_exclusion c = None \<and>
      map (\<lambda>(i, p). (text_of (pair_name p), error_of (pair_name p))) (collection_items c) = [(''??'', False)]"
  by (rule pairs_accept_mismatch) simp_all

end
