(* ===== verification/Selectors.thy ===== *)
theory Selectors
  imports Reactive
begin

text \<open>
  The selector and the searcher, \<open>framework/dsl/managed/ManagedSelector.tsx\<close> and \<open>ManagedSearcher.tsx\<close>. Each
  keeps two properties, the selected value or values and their index or indexes, and each property sets the
  other in its consumer: an assignment sets off a chain of assignments inside one another. The setters are
  recursive over a depth of calls; \<open>Too_deep\<close> stands for a chain deeper than that, and the lemmas show which
  depth is enough. An index outside the items reads a member of \<open>undefined\<close>, a \<open>Type_error\<close>. Only the
  consumers of \<open>onSelect\<close> are kept, as tokens; the result has their calls in order.
\<close>

datatype 'r settled = Settled 'r | Type_error | Too_deep

fun settled_then :: "'r settled \<Rightarrow> ('r \<Rightarrow> 's settled) \<Rightarrow> 's settled" where
  "settled_then (Settled r) f = f r"
| "settled_then Type_error f = Type_error"
| "settled_then Too_deep f = Too_deep"

text \<open>\<open>Math.max(findIndex(\<dots>), 0)\<close>: the first index that satisfies the test, or \<open>0\<close>.\<close>

fun first_index :: "('a \<Rightarrow> bool) \<Rightarrow> 'a list \<Rightarrow> nat option" where
  "first_index test [] = None"
| "first_index test (x # xs) = (if test x then Some 0 else map_option Suc (first_index test xs))"

definition index_or_first :: "('a \<Rightarrow> bool) \<Rightarrow> 'a list \<Rightarrow> nat" where
  "index_or_first test xs = (case first_index test xs of None \<Rightarrow> 0 | Some i \<Rightarrow> i)"

lemma first_index_Some:
  "first_index test xs = Some i \<Longrightarrow> i < length xs \<and> test (xs ! i) \<and> (\<forall>j < i. \<not> test (xs ! j))"
proof (induction xs arbitrary: i)
  case (Cons x xs)
  then show ?case by (auto simp: less_Suc_eq_0_disj split: if_splits)
qed simp

lemma first_index_None: "first_index test xs = None \<longleftrightarrow> list_all (\<lambda>x. \<not> test x) xs"
  by (induction xs) auto

section \<open>Selector\<close>

record 'v selector_item =
  item_value :: 'v
  item_suggestion :: string

record ('v, 'c) selector =
  selector_items :: "'v selector_item list"
  selector_selected :: "('v, 'c) property"
  selector_index :: "(nat, 'c) property"
  selector_disabled :: "(bool, 'c) property"

datatype ('v, 'c) selector_call =
    Value_call "('v, 'c) property_call"
  | Index_call "(nat, 'c) property_call"

definition index_of_value :: "'v selector_item list \<Rightarrow> 'v option \<Rightarrow> nat" where
  "index_of_value items v = index_or_first (\<lambda>item. Some (item_value item) = v) items"

text \<open>An assignment reaches the consumers unless the value is equal or prevented.\<close>

definition property_changes :: "('v, 'c) property \<Rightarrow> 'v option \<Rightarrow> bool" where
  "property_changes p v \<longleftrightarrow>
     \<not> (property_value p \<noteq> None \<and> property_value p = v) \<and> \<not> prevented p v"

text \<open>
  \<open>selected.value = v\<close> and \<open>selectedIndex.value = i\<close>: the consumer that sets the other property is the first
  of the consumers, the others are called when it has returned, with the value of their own assignment.
\<close>

fun selector_set_value ::
  "nat \<Rightarrow> 'v option \<Rightarrow> ('v, 'c) selector \<Rightarrow> (('v, 'c) selector \<times> ('v, 'c) selector_call list) settled"
and selector_set_index ::
  "nat \<Rightarrow> nat \<Rightarrow> ('v, 'c) selector \<Rightarrow> (('v, 'c) selector \<times> ('v, 'c) selector_call list) settled" where
  "selector_set_value 0 v s = Too_deep"
| "selector_set_value (Suc depth) v s =
     (let (p, calls) = property_set (=) v (selector_selected s);
          s1 = s\<lparr>selector_selected := p\<rparr>; i = index_of_value (selector_items s1) v
      in if \<not> property_changes (selector_selected s) v then Settled (s1, [])
         else settled_then
           (if property_value (selector_index s1) = Some i then Settled (s1, [])
            else selector_set_index depth i s1)
           (\<lambda>(s2, inner). Settled (s2, inner @ map Value_call calls)))"
| "selector_set_index 0 i s = Too_deep"
| "selector_set_index (Suc depth) i s =
     (let (p, calls) = property_set (=) (Some i) (selector_index s); s1 = s\<lparr>selector_index := p\<rparr>
      in if \<not> property_changes (selector_index s) (Some i) then Settled (s1, [])
         else
           (case js_at (selector_items s1) i of
              None \<Rightarrow> Type_error
            | Some item \<Rightarrow>
                settled_then (selector_set_value depth (Some (item_value item)) s1)
                  (\<lambda>(s2, inner). Settled (s2, inner @ map Index_call calls))))"

text \<open>A chain is never deeper than this.\<close>

definition selector_depth :: nat where "selector_depth = 4"

definition new_selector ::
  "('v \<Rightarrow> bool) \<Rightarrow> ('v \<Rightarrow> 'v selector_item) \<Rightarrow> 'v list \<Rightarrow> 'v option \<Rightarrow> bool \<Rightarrow> ('v, 'c) selector option" where
  "new_selector truthy factory available selected disabled =
     (if available = [] then None
      else
        let items = map factory available
        in Some \<lparr>selector_items = items,
             selector_selected = new_property (case selected of None \<Rightarrow> js_at available 0 | Some v \<Rightarrow> Some v),
             selector_index = new_property (Some (case selected of
                 None \<Rightarrow> 0
               | Some v \<Rightarrow> if truthy v then index_of_value items (Some v) else 0)),
             selector_disabled = new_property (Some disabled)\<rparr>)"

definition selector_select ::
  "'v option \<Rightarrow> ('v, 'c) selector \<Rightarrow> (('v, 'c) selector \<times> ('v, 'c) selector_call list) settled" where
  "selector_select v s =
     (case v of None \<Rightarrow> Settled (s, []) | Some v \<Rightarrow> selector_set_value selector_depth (Some v) s)"

definition selector_select_index ::
  "nat \<Rightarrow> ('v, 'c) selector \<Rightarrow> (('v, 'c) selector \<times> ('v, 'c) selector_call list) settled" where
  "selector_select_index i s = selector_set_index selector_depth i s"

definition selector_reset ::
  "('v, 'c) selector \<Rightarrow> (('v, 'c) selector \<times> ('v, 'c) selector_call list) settled" where
  "selector_reset s = selector_select_index 0 s"

definition selector_select_item ::
  "string \<Rightarrow> ('v, 'c) selector \<Rightarrow> (('v, 'c) selector \<times> ('v, 'c) selector_call list) settled" where
  "selector_select_item suggestion s =
     selector_select_index (index_or_first (\<lambda>item. item_suggestion item = suggestion) (selector_items s)) s"

definition selector_set_available ::
  "('v \<Rightarrow> 'v selector_item) \<Rightarrow> 'v list \<Rightarrow> ('v, 'c) selector \<Rightarrow>
    (('v, 'c) selector \<times> ('v, 'c) selector_call list) settled" where
  "selector_set_available factory values s =
     (let s1 = s\<lparr>selector_items := map factory values\<rparr>
      in case property_value (selector_selected s1) of
           None \<Rightarrow>
             settled_then (selector_set_index selector_depth 0 s1)
               (\<lambda>(s2, calls). settled_then (selector_set_value selector_depth (js_at values 0) s2)
                 (\<lambda>(s3, calls'). Settled (s3, calls @ calls')))
         | Some selected \<Rightarrow>
             let i = index_or_first (\<lambda>v. v = selected) values
             in if property_value (selector_index s1) = Some i
                then selector_set_value selector_depth (js_at values i) s1
                else selector_set_index selector_depth i s1)"

definition selector_on_select ::
  "'c \<Rightarrow> ('v, 'c) selector \<Rightarrow> ('v, 'c) selector \<times> ('v, 'c) selector_call list" where
  "selector_on_select action s =
     (let (p, calls) = property_consume action (selector_selected s)
      in (s\<lparr>selector_selected := p\<rparr>, map Value_call calls))"

definition selector_set_disabled :: "bool \<Rightarrow> ('v, 'c) selector \<Rightarrow> ('v, 'c) selector" where
  "selector_set_disabled b s =
     s\<lparr>selector_disabled := fst (property_set (=) (Some b) (selector_disabled s))\<rparr>"

definition selector_find_item :: "string \<Rightarrow> ('v, 'c) selector \<Rightarrow> 'v selector_item option" where
  "selector_find_item suggestion s = find (\<lambda>item. item_suggestion item = suggestion) (selector_items s)"

text \<open>Readings.\<close>

definition selector_value :: "('v, 'c) selector \<Rightarrow> 'v option" where
  "selector_value s = property_value (selector_selected s)"

definition selector_position :: "('v, 'c) selector \<Rightarrow> nat option" where
  "selector_position s = property_value (selector_index s)"

definition values_reported :: "('v, 'c) selector_call list \<Rightarrow> 'v option list" where
  "values_reported calls =
     List.map_filter (\<lambda>call. case call of Value_call (Updated _ v) \<Rightarrow> Some v | _ \<Rightarrow> None) calls"

text \<open>Nobody prevents a selection, and one consumer was registered by \<open>onSelect\<close>.\<close>

definition selector_free :: "('v, 'c) selector \<Rightarrow> bool" where
  "selector_free s \<longleftrightarrow>
     before_update_consumers (selector_selected s) = [] \<and> before_update_consumers (selector_index s) = [] \<and>
     length (after_update_consumers (selector_selected s)) = 1"

lemma selector_depth_eq: "selector_depth = Suc (Suc (Suc (Suc 0)))"
  by (simp add: selector_depth_def)

lemma property_set_changed:
  assumes "before_update_consumers p = []" and "property_value p \<noteq> Some v"
  shows "property_changes p (Some v)"
    and "property_value (fst (property_set (=) (Some v) p)) = Some v"
    and "snd (property_set (=) (Some v) p) = map (\<lambda>action. Updated action (Some v)) (after_update_consumers p)"
  using assms
  by (auto simp: property_changes_def property_set_def prevented_def notify_updated_def split: option.split)

lemma property_set_unchanged:
  assumes "property_value p = Some v"
  shows "\<not> property_changes p (Some v)" and "property_value (fst (property_set (=) (Some v) p)) = Some v"
  using assms by (auto simp: property_changes_def property_set_def)

lemma index_of_value_first:
  "index_of_value items (Some v) =
     (case first_index (\<lambda>x. x = v) (map item_value items) of None \<Rightarrow> 0 | Some i \<Rightarrow> i)"
proof -
  have "first_index (\<lambda>item. item_value item = v) items = first_index (\<lambda>x. x = v) (map item_value items)"
    by (induction items) auto
  then show ?thesis by (simp add: index_of_value_def index_or_first_def)
qed

lemma values_reported_simps [simp]:
  "values_reported [] = []"
  "values_reported (calls @ calls') = values_reported calls @ values_reported calls'"
  "values_reported (map Index_call cs) = []"
  "values_reported (map (Index_call \<circ> f) xs) = []"
  "values_reported (map (Value_call \<circ> (\<lambda>action. Updated action v)) actions) = replicate (length actions) v"
  by (auto simp: values_reported_def map_filter_def comp_def map_replicate_const filter_empty_conv)

text \<open>
  C35. A selection always settles. Selecting an available value stores it, its first index and reports it
  once to \<open>onSelect\<close>. Selecting a value that is not available falls back to the first item, but only if
  another item was selected; and then the fallback is reported first and the refused value last, so that
  \<open>onSelect\<close> hears of a value that is not the selected one.
\<close>
theorem selector_select_correct:
  fixes s :: "('v, 'c) selector"
  assumes "selector_free s" and "selector_items s \<noteq> []"
    and "selector_value s \<noteq> Some v" and "selector_position s = Some i"
  shows "\<exists>s' calls. selector_select (Some v) s = Settled (s', calls) \<and>
    (case first_index (\<lambda>x. x = v) (map item_value (selector_items s)) of
       Some j \<Rightarrow>
         selector_value s' = Some v \<and> selector_position s' = Some j \<and> values_reported calls = [Some v]
     | None \<Rightarrow>
         selector_position s' = Some 0 \<and>
         (if i = 0 then selector_value s' = Some v \<and> values_reported calls = [Some v]
          else
            let first_value = item_value (hd (selector_items s))
            in selector_value s' = Some first_value \<and> values_reported calls = [Some first_value, Some v]))"
proof -
  let ?items = "selector_items s" and ?P = "property_set (=) (Some v) (selector_selected s)"
  let ?j = "index_of_value ?items (Some v)"
  let ?Q = "property_set (=) (Some ?j) (selector_index s)"
  have free: "before_update_consumers (selector_selected s) = []" "before_update_consumers (selector_index s) = []"
    "length (after_update_consumers (selector_selected s)) = 1"
    using assms(1) by (simp_all add: selector_free_def)
  note P = property_set_changed [OF free(1), of v] and Q = property_set_changed [OF free(2), of ?j]
  have pos: "property_value (selector_index s) = Some i" and value_s: "property_value (selector_selected s) \<noteq> Some v"
    using assms(3,4) by (simp_all add: selector_position_def selector_value_def)
  show ?thesis
  proof (cases "first_index (\<lambda>x. x = v) (map item_value ?items)")
    case (Some j)
    then have j: "?j = j" "j < length ?items" "item_value (?items ! j) = v"
      using first_index_Some [OF Some] by (auto simp: index_of_value_first)
    have same: "\<not> property_changes (fst ?P) (Some v)" "property_value (fst (property_set (=) (Some v) (fst ?P))) = Some v"
      using property_set_unchanged [OF P(2) [OF value_s]] by simp_all
    show ?thesis
      using j same P [OF value_s] Q pos free Some
      by (cases "i = j") (simp_all add: selector_select_def selector_depth_eq Let_def split_beta js_at_def
          selector_value_def selector_position_def property_set_unchanged)
  next
    case None
    then have j: "?j = 0" and missing: "item_value (?items ! 0) \<noteq> v"
      using assms(2) first_index_None [of "\<lambda>x. x = v" "map item_value ?items"]
      by (auto simp: index_of_value_first list_all_length)
    have hd: "hd ?items = ?items ! 0" "js_at ?items 0 = Some (?items ! 0)"
      using assms(2) by (simp_all add: hd_conv_nth js_at_def)
    let ?first = "item_value (?items ! 0)"
    have first: "index_of_value ?items (Some ?first) = 0"
      using assms(2) by (cases ?items) (simp_all add: index_of_value_first)
    have R: "property_changes (fst ?P) (Some ?first)"
      "property_value (fst (property_set (=) (Some ?first) (fst ?P))) = Some ?first"
      "snd (property_set (=) (Some ?first) (fst ?P)) =
        map (\<lambda>action. Updated action (Some ?first)) (after_update_consumers (selector_selected s))"
      using property_set_changed [of "fst ?P" ?first] free P(2) [OF value_s] missing
      by (simp_all add: property_set_keeps_consumers)
    show ?thesis
      using j hd first R P [OF value_s] Q pos free None
      by (cases "i = 0") (simp_all add: selector_select_def selector_depth_eq Let_def split_beta
          selector_value_def selector_position_def)
  qed
qed

theorem selector_select_correct_witness:
  "\<exists>s' calls. selector_select (Some (7::nat))
      \<lparr>selector_items = [\<lparr>item_value = 5, item_suggestion = ''a''\<rparr>, \<lparr>item_value = 6, item_suggestion = ''b''\<rparr>],
       selector_selected = fst (property_consume () (new_property (Some 6))),
       selector_index = new_property (Some 1), selector_disabled = new_property (Some False)\<rparr> =
      Settled (s', calls) \<and>
    selector_position s' = Some 0 \<and> selector_value s' = Some 5 \<and> values_reported calls = [Some 5, Some 7]"
  using selector_select_correct [of "\<lparr>selector_items = [\<lparr>item_value = 5, item_suggestion = ''a''\<rparr>,
         \<lparr>item_value = 6, item_suggestion = ''b''\<rparr>],
       selector_selected = fst (property_consume () (new_property (Some 6))),
       selector_index = new_property (Some 1), selector_disabled = new_property (Some False)\<rparr>" "7::nat" 1]
  by (simp add: selector_free_def selector_value_def selector_position_def new_property_def
      property_consume_def)

text \<open>Without available values the index of the former selection is read in vain, and the render stays paused.\<close>

lemma selector_no_values_error:
  assumes "before_update_consumers (selector_index s) = []" and "selector_value s \<noteq> None"
    and "selector_position s \<noteq> Some 0"
  shows "selector_set_available factory [] s = Type_error"
proof -
  have "property_changes (selector_index s) (Some 0)"
    using assms by (auto simp: property_changes_def prevented_def selector_position_def)
  with assms show ?thesis
    by (auto simp: selector_set_available_def selector_depth_eq Let_def split_beta selector_value_def
        selector_position_def index_or_first_def js_at_def)
qed

section \<open>Searcher\<close>

text \<open>
  The option of every item is a checkbox that consumes the indexes. Options of items that were replaced still
  consume them, seen by nobody; they are left out.
\<close>

record 'v searcher_item =
  searched_value :: 'v
  searched_suggestion :: string
  option_checked :: bool

record ('v, 'c) searcher =
  searcher_items :: "'v searcher_item list"
  selected_indexes :: "(nat list, 'c) property"
  searcher_selected :: "('v list, 'c) property"
  searcher_disabled :: "(bool, 'c) property"

datatype ('v, 'c) searcher_call =
    Values_call "('v list, 'c) property_call"
  | Indexes_call "(nat list, 'c) property_call"

definition matching_indexes :: "('v \<Rightarrow> 'v \<Rightarrow> bool) \<Rightarrow> 'v searcher_item list \<Rightarrow> 'v list \<Rightarrow> nat list" where
  "matching_indexes comparator items values =
     filter (\<lambda>i. case js_at items i of
         None \<Rightarrow> False
       | Some item \<Rightarrow> list_ex (\<lambda>v. comparator (searched_value item) v) values) [0..<length items]"

fun values_at :: "'v searcher_item list \<Rightarrow> nat list \<Rightarrow> 'v list option" where
  "values_at items [] = Some []"
| "values_at items (i # idx) =
     (case js_at items i of
        None \<Rightarrow> None
      | Some item \<Rightarrow> map_option (\<lambda>vs. searched_value item # vs) (values_at items idx))"

definition item_is_selected :: "'v searcher_item list \<Rightarrow> nat list \<Rightarrow> string \<Rightarrow> bool" where
  "item_is_selected items indexes suggestion =
     list_ex (\<lambda>i. map_option searched_suggestion (js_at items i) = Some suggestion) indexes"

definition check_options :: "nat list \<Rightarrow> ('v, 'c) searcher \<Rightarrow> ('v, 'c) searcher" where
  "check_options indexes s =
     s\<lparr>searcher_items :=
         map (\<lambda>item. item\<lparr>option_checked :=
             item_is_selected (searcher_items s) indexes (searched_suggestion item)\<rparr>) (searcher_items s)\<rparr>"

fun searcher_set_indexes ::
  "('v \<Rightarrow> 'v \<Rightarrow> bool) \<Rightarrow> nat \<Rightarrow> nat list \<Rightarrow> ('v, 'c) searcher \<Rightarrow>
    (('v, 'c) searcher \<times> ('v, 'c) searcher_call list) settled"
and searcher_set_values ::
  "('v \<Rightarrow> 'v \<Rightarrow> bool) \<Rightarrow> nat \<Rightarrow> 'v list \<Rightarrow> ('v, 'c) searcher \<Rightarrow>
    (('v, 'c) searcher \<times> ('v, 'c) searcher_call list) settled" where
  "searcher_set_indexes comparator 0 indexes s = Too_deep"
| "searcher_set_indexes comparator (Suc depth) indexes s =
     (let (p, calls) = property_set (=) (Some indexes) (selected_indexes s); s1 = s\<lparr>selected_indexes := p\<rparr>
      in if \<not> property_changes (selected_indexes s) (Some indexes) then Settled (s1, [])
         else
           (case values_at (searcher_items s1) indexes of
              None \<Rightarrow> Type_error
            | Some values \<Rightarrow>
                settled_then (searcher_set_values comparator depth values s1)
                  (\<lambda>(s2, inner). Settled (check_options indexes s2, inner @ map Indexes_call calls))))"
| "searcher_set_values comparator 0 values s = Too_deep"
| "searcher_set_values comparator (Suc depth) values s =
     (let (p, calls) = property_set (=) (Some values) (searcher_selected s); s1 = s\<lparr>searcher_selected := p\<rparr>
      in if \<not> property_changes (searcher_selected s) (Some values) then Settled (s1, [])
         else settled_then
           (searcher_set_indexes comparator depth (matching_indexes comparator (searcher_items s1) values) s1)
           (\<lambda>(s2, inner). Settled (s2, inner @ map Values_call calls)))"

text \<open>Enough for every chain, when the comparator finds a value equal to itself.\<close>

definition searcher_depth :: "('v, 'c) searcher \<Rightarrow> nat" where
  "searcher_depth s = 2 * length (searcher_items s) + 5"

definition new_searcher ::
  "('v \<Rightarrow> 'v \<Rightarrow> bool) \<Rightarrow> ('v \<Rightarrow> 'v \<times> string \<times> bool option) \<Rightarrow> 'v list \<Rightarrow> 'v list option \<Rightarrow> bool \<Rightarrow>
    ('v, 'c) searcher" where
  "new_searcher comparator factory available selected disabled =
     (let indexes = (case selected of
            None \<Rightarrow> []
          | Some values \<Rightarrow> List.map_filter (\<lambda>v. first_index (\<lambda>item. comparator item v) available) values)
      in \<lparr>searcher_items = map (\<lambda>(i, v). case factory v of (value, suggestion, chosen) \<Rightarrow>
             \<lparr>searched_value = value, searched_suggestion = suggestion,
              option_checked = (case chosen of None \<Rightarrow> i \<in> set indexes | Some b \<Rightarrow> b)\<rparr>)
             (List.enumerate 0 available),
          selected_indexes = new_property (Some indexes),
          searcher_selected = new_property (Some (case selected of None \<Rightarrow> [] | Some values \<Rightarrow> values)),
          searcher_disabled = new_property (Some disabled)\<rparr>)"

definition searcher_select_indexes ::
  "('v \<Rightarrow> 'v \<Rightarrow> bool) \<Rightarrow> nat list \<Rightarrow> ('v, 'c) searcher \<Rightarrow>
    (('v, 'c) searcher \<times> ('v, 'c) searcher_call list) settled" where
  "searcher_select_indexes comparator indexes s = searcher_set_indexes comparator (searcher_depth s) indexes s"

definition searcher_select ::
  "('v \<Rightarrow> 'v \<Rightarrow> bool) \<Rightarrow> 'v list \<Rightarrow> ('v, 'c) searcher \<Rightarrow>
    (('v, 'c) searcher \<times> ('v, 'c) searcher_call list) settled" where
  "searcher_select comparator values s = searcher_set_values comparator (searcher_depth s) values s"

definition searcher_select_items ::
  "('v \<Rightarrow> 'v \<Rightarrow> bool) \<Rightarrow> string list \<Rightarrow> ('v, 'c) searcher \<Rightarrow>
    (('v, 'c) searcher \<times> ('v, 'c) searcher_call list) settled" where
  "searcher_select_items comparator suggestions s =
     searcher_select_indexes comparator
       (List.map_filter (\<lambda>suggestion.
          first_index (\<lambda>item. searched_suggestion item = suggestion) (searcher_items s)) suggestions) s"

text \<open>
  The options of new values consume the pending indexes at once, while the former items are still there.
\<close>

definition searcher_set_available ::
  "('v \<Rightarrow> 'v \<Rightarrow> bool) \<Rightarrow> ('v \<Rightarrow> 'v \<times> string \<times> bool option) \<Rightarrow> 'v list \<Rightarrow> ('v, 'c) searcher \<Rightarrow>
    (('v, 'c) searcher \<times> ('v, 'c) searcher_call list) settled" where
  "searcher_set_available comparator factory values s =
     (let selected = (case property_value (searcher_selected s) of None \<Rightarrow> [] | Some vs \<Rightarrow> vs);
          items = map (\<lambda>v. case factory v of (value, suggestion, chosen) \<Rightarrow>
            \<lparr>searched_value = value, searched_suggestion = suggestion,
             option_checked = (case property_pending (selected_indexes s) of
                 Some indexes \<Rightarrow> item_is_selected (searcher_items s) indexes suggestion
               | None \<Rightarrow> (case chosen of None \<Rightarrow> v \<in> set selected | Some b \<Rightarrow> b))\<rparr>) values;
          s1 = s\<lparr>searcher_items := items\<rparr>
      in searcher_select_indexes comparator
           (List.map_filter (\<lambda>v. first_index (\<lambda>item. comparator (searched_value item) v) items) selected) s1)"

definition searcher_on_select ::
  "'c \<Rightarrow> ('v, 'c) searcher \<Rightarrow> ('v, 'c) searcher \<times> ('v, 'c) searcher_call list" where
  "searcher_on_select action s =
     (let (p, calls) = property_consume action (searcher_selected s)
      in (s\<lparr>searcher_selected := p\<rparr>, map Values_call calls))"

definition searcher_available :: "('v, 'c) searcher \<Rightarrow> 'v list" where
  "searcher_available s = map searched_value (searcher_items s)"

definition searcher_values :: "('v, 'c) searcher \<Rightarrow> 'v list option" where
  "searcher_values s = property_value (searcher_selected s)"

definition searcher_indexes :: "('v, 'c) searcher \<Rightarrow> nat list option" where
  "searcher_indexes s = property_value (selected_indexes s)"

section \<open>Every selection settles\<close>

definition searcher_free :: "('v, 'c) searcher \<Rightarrow> bool" where
  "searcher_free s \<longleftrightarrow>
     before_update_consumers (searcher_selected s) = [] \<and> before_update_consumers (selected_indexes s) = [] \<and>
     searcher_values s \<noteq> None \<and> searcher_indexes s \<noteq> None"

lemma values_at_Some:
  "values_at items idx = Some vs \<longleftrightarrow>
   list_all (\<lambda>i. i < length items) idx \<and> vs = map (\<lambda>i. searched_value (items ! i)) idx"
  by (induction idx arbitrary: vs) (auto simp: js_at_def split: option.splits)

lemma matching_bounds: "list_all (\<lambda>i. i < length items) (matching_indexes comparator items values)"
  by (auto simp: matching_indexes_def list_all_iff)

lemma matching_sorted: "sorted_wrt (<) (matching_indexes comparator items values)"
  by (simp add: matching_indexes_def sorted_wrt_filter)

lemma matching_subset: "set (matching_indexes comparator items values) \<subseteq> {..<length items}"
  by (auto simp: matching_indexes_def)

lemma matching_grows:
  assumes "\<And>v. comparator v v" and "values_at items idx = Some values"
  shows "set idx \<subseteq> set (matching_indexes comparator items values)"
  using assms by (auto simp: values_at_Some matching_indexes_def list_all_iff js_at_def list_ex_iff)

lemma sorted_same_set: "sorted_wrt (<) xs \<Longrightarrow> sorted_wrt (<) ys \<Longrightarrow> set xs = set ys \<Longrightarrow> xs = (ys :: nat list)"
  by (simp add: strict_sorted_equal strict_sorted_iff)

text \<open>The options aside, an assignment leaves the items and the absence of preventing consumers alone.\<close>

definition searched_values :: "('v, 'c) searcher \<Rightarrow> 'v list" where
  "searched_values s = map searched_value (searcher_items s)"

lemma check_options_frame [simp]:
  "selected_indexes (check_options is' s) = selected_indexes s"
  "searcher_selected (check_options is' s) = searcher_selected s"
  "searcher_disabled (check_options is' s) = searcher_disabled s"
  "searched_values (check_options is' s) = searched_values s"
  "searcher_free (check_options is' s) = searcher_free s"
  by (simp_all add: check_options_def searched_values_def searcher_free_def comp_def searcher_values_def
      searcher_indexes_def)

lemma values_at_cong:
  assumes "map searched_value items = map searched_value items'"
  shows "values_at items idx = values_at items' idx"
    and "matching_indexes comparator items vs = matching_indexes comparator items' vs"
proof -
  have n: "length items = length items'" using assms by (metis length_map)
  have v: "map_option searched_value (js_at items i) = map_option searched_value (js_at items' i)" for i
    using assms n by (auto simp: js_at_def) (metis nth_map)
  show "values_at items idx = values_at items' idx"
  proof (induction idx)
    case (Cons i idx)
    then show ?case using v [of i] by (auto split: option.splits)
  qed simp
  have "matching_indexes comparator items vs =
      filter (\<lambda>i. case map_option searched_value (js_at items i) of None \<Rightarrow> False
        | Some x \<Rightarrow> list_ex (comparator x) vs) [0..<length items]" for items
    unfolding matching_indexes_def by (rule filter_cong) (auto split: option.split)
  then show "matching_indexes comparator items vs = matching_indexes comparator items' vs"
    by (simp only: n v)
qed

text \<open>The state that an assignment stores, whether it reaches the consumers or not.\<close>

definition stored_indexes :: "nat list \<Rightarrow> ('v, 'c) searcher \<Rightarrow> ('v, 'c) searcher" where
  "stored_indexes idx s = s\<lparr>selected_indexes := fst (property_set (=) (Some idx) (selected_indexes s))\<rparr>"

definition stored_values :: "'v list \<Rightarrow> ('v, 'c) searcher \<Rightarrow> ('v, 'c) searcher" where
  "stored_values vs s = s\<lparr>searcher_selected := fst (property_set (=) (Some vs) (searcher_selected s))\<rparr>"

lemma property_set_stores:
  "before_update_consumers p = [] \<Longrightarrow> property_value (fst (property_set (=) (Some v) p)) = Some v"
  by (auto simp: property_set_def prevented_def split: option.split)

lemma stored_simps [simp]:
  "searcher_items (stored_indexes idx s) = searcher_items s"
  "searcher_items (stored_values vs s) = searcher_items s"
  "searcher_free s \<Longrightarrow> searcher_free (stored_indexes idx s)"
  "searcher_free s \<Longrightarrow> searcher_free (stored_values vs s)"
  "searcher_free s \<Longrightarrow> searcher_indexes (stored_indexes idx s) = Some idx"
  "searcher_free s \<Longrightarrow> searcher_values (stored_values vs s) = Some vs"
  "searcher_values (stored_indexes idx s) = searcher_values s"
  "searcher_indexes (stored_values vs s) = searcher_indexes s"
  by (simp_all add: stored_indexes_def stored_values_def searcher_free_def searcher_indexes_def
      searcher_values_def property_set_stores property_set_keeps_consumers)

lemma searcher_steps:
  assumes "searcher_free s"
  shows "searcher_set_indexes comparator (Suc depth) idx s =
      (if searcher_indexes s = Some idx then Settled (stored_indexes idx s, [])
       else case values_at (searcher_items s) idx of
         None \<Rightarrow> Type_error
       | Some vs \<Rightarrow> settled_then (searcher_set_values comparator depth vs (stored_indexes idx s))
           (\<lambda>(s2, inner). Settled (check_options idx s2,
              inner @ map (\<lambda>a. Indexes_call (Updated a (Some idx))) (after_update_consumers (selected_indexes s)))))"
    and "searcher_set_values comparator (Suc depth) vs s =
      (if searcher_values s = Some vs then Settled (stored_values vs s, [])
       else settled_then
         (searcher_set_indexes comparator depth (matching_indexes comparator (searcher_items s) vs)
            (stored_values vs s))
         (\<lambda>(s2, inner). Settled (s2,
            inner @ map (\<lambda>a. Values_call (Updated a (Some vs))) (after_update_consumers (searcher_selected s)))))"
  using assms property_set_changed [of "selected_indexes s" idx] property_set_unchanged [of "selected_indexes s" idx]
    property_set_changed [of "searcher_selected s" vs] property_set_unchanged [of "searcher_selected s" vs]
  by (auto simp: searcher_free_def searcher_indexes_def searcher_values_def stored_indexes_def stored_values_def
      split_beta Let_def comp_def split: option.split)

declare searcher_set_indexes.simps [simp del] searcher_set_values.simps [simp del]

definition searcher_consistent :: "('v, 'c) searcher \<Rightarrow> bool" where
  "searcher_consistent s \<longleftrightarrow>
     (\<exists>idx vs. searcher_indexes s = Some idx \<and> searcher_values s = Some vs \<and>
        values_at (searcher_items s) idx = Some vs)"

lemma check_options_consistent [simp]:
  "searcher_consistent (check_options idx s) = searcher_consistent s"
  "searcher_indexes (check_options idx s) = searcher_indexes s"
  "searcher_values (check_options idx s) = searcher_values s"
proof -
  have "values_at (searcher_items (check_options idx s)) is' = values_at (searcher_items s) is'" for is'
    by (rule values_at_cong) (simp add: check_options_def comp_def)
  then show "searcher_consistent (check_options idx s) = searcher_consistent s"
    by (simp add: searcher_consistent_def searcher_indexes_def searcher_values_def)
qed (simp_all add: searcher_indexes_def searcher_values_def)

text \<open>
  The indexes that a choice may end in: the chosen ones and, step by step, those whose values the comparator
  takes for the value of one of them.
\<close>

inductive_set linked :: "('v \<Rightarrow> 'v \<Rightarrow> bool) \<Rightarrow> 'v list \<Rightarrow> nat list \<Rightarrow> nat set"
  for comparator :: "'v \<Rightarrow> 'v \<Rightarrow> bool" and "values" :: "'v list" and idx :: "nat list" where
  linked_chosen: "i \<in> set idx \<Longrightarrow> i \<in> linked comparator values idx"
| linked_step: "i \<in> linked comparator values idx \<Longrightarrow> j < length values \<Longrightarrow> comparator (values ! j) (values ! i) \<Longrightarrow>
    j \<in> linked comparator values idx"

lemma linked_within:
  assumes "set idx' \<subseteq> linked comparator values idx"
  shows "linked comparator values idx' \<subseteq> linked comparator values idx"
proof
  fix i assume "i \<in> linked comparator values idx'"
  then show "i \<in> linked comparator values idx"
    by induction (use assms in \<open>auto intro: linked_step\<close>)
qed

lemma matching_linked:
  assumes "values_at items idx = Some vs"
  shows "set (matching_indexes comparator items vs) \<subseteq> linked comparator (map searched_value items) idx"
proof
  fix j assume "j \<in> set (matching_indexes comparator items vs)"
  with assms obtain i where "i \<in> set idx" "i < length items" "j < length items"
    "comparator (searched_value (items ! j)) (searched_value (items ! i))"
    by (auto simp: matching_indexes_def values_at_Some js_at_def list_ex_iff list_all_iff split: if_splits)
  then show "j \<in> linked comparator (map searched_value items) idx"
    by (auto intro!: linked_step [OF linked_chosen])
qed

lemma linked_default:
  assumes "distinct values" and "list_all (\<lambda>i. i < length values) idx"
  shows "linked (=) values idx = set idx"
proof (rule set_eqI, rule iffI)
  fix j assume "j \<in> linked (=) values idx"
  then show "j \<in> set idx"
    by induction (use assms in \<open>auto simp: nth_eq_iff_index_eq list_all_iff\<close>)
qed (rule linked_chosen)

text \<open>What a choice of indexes ends in: the values stand at the indexes, and these are the chosen ones and linked ones.\<close>

definition chosen_at :: "('v \<Rightarrow> 'v \<Rightarrow> bool) \<Rightarrow> nat list \<Rightarrow> ('v, 'c) searcher \<Rightarrow> bool" where
  "chosen_at comparator idx s \<longleftrightarrow>
     searcher_consistent s \<and>
     (\<exists>final. searcher_indexes s = Some final \<and> set idx \<subseteq> set final \<and>
        set final \<subseteq> linked comparator (searched_values s) idx)"

lemma chosen_at_same:
  "searcher_consistent s \<Longrightarrow> searcher_indexes s = Some idx \<Longrightarrow> chosen_at comparator idx s"
  by (auto simp: chosen_at_def intro: linked_chosen)

lemma chosen_at_mono:
  assumes "chosen_at comparator idx' s" and "set idx \<subseteq> set idx'"
    and "set idx' \<subseteq> linked comparator (searched_values s) idx"
  shows "chosen_at comparator idx s"
  using assms linked_within [OF assms(3)] unfolding chosen_at_def by blast

lemma chosen_at_check_options [simp]:
  "chosen_at comparator idx (check_options is' s) = chosen_at comparator idx s"
  by (simp add: chosen_at_def)

text \<open>At the end of a chain the indexes are in order, each once.\<close>

definition settled_at :: "('v \<Rightarrow> 'v \<Rightarrow> bool) \<Rightarrow> nat list \<Rightarrow> ('v, 'c) searcher \<Rightarrow> bool" where
  "settled_at comparator idx s \<longleftrightarrow>
     chosen_at comparator idx s \<and> sorted_wrt (<) (the (searcher_indexes s))"

lemma settled_at_same:
  "searcher_consistent s \<Longrightarrow> searcher_indexes s = Some idx \<Longrightarrow> sorted_wrt (<) idx \<Longrightarrow> settled_at comparator idx s"
  by (simp add: settled_at_def chosen_at_same)

lemma settled_at_mono:
  assumes "settled_at comparator idx' s" and "set idx \<subseteq> set idx'"
    and "set idx' \<subseteq> linked comparator (searched_values s) idx"
  shows "settled_at comparator idx s"
  using assms chosen_at_mono [of comparator idx' s idx] by (simp add: settled_at_def)

lemma settled_at_check_options [simp]:
  "settled_at comparator idx (check_options is' s) = settled_at comparator idx s"
  by (simp add: settled_at_def)

lemma sorted_chain_settles:
  fixes s :: "('v, 'c) searcher"
  assumes refl: "\<And>v. comparator v v"
  shows "searcher_free s \<Longrightarrow> list_all (\<lambda>i. i < length (searcher_items s)) idx \<Longrightarrow> sorted_wrt (<) idx \<Longrightarrow>
    length (searcher_items s) \<le> card (set idx) + k \<Longrightarrow> 2 * k + 3 \<le> depth \<Longrightarrow>
    \<exists>s' calls. searcher_set_indexes comparator depth idx s = Settled (s', calls) \<and>
      searched_values s' = searched_values s \<and> searcher_free s' \<and>
      (searcher_indexes s \<noteq> Some idx \<longrightarrow> settled_at comparator idx s')"
proof (induction k arbitrary: idx s depth rule: less_induct)
  case (less k)
  let ?items = "searcher_items s" and ?vs = "map (\<lambda>i. searched_value (searcher_items s ! i)) idx"
  let ?M = "matching_indexes comparator ?items ?vs" and ?s1 = "stored_indexes idx s"
  let ?s2 = "stored_values ?vs ?s1"
  define d where "d = depth - 3"
  have d: "depth = Suc (Suc (Suc d))" "2 * k \<le> d" using less.prems(5) by (simp_all add: d_def)
  have vs: "values_at ?items idx = Some ?vs" using less.prems(2) by (simp add: values_at_Some)
  have free: "searcher_free ?s1" "searcher_free ?s2" using less.prems(1) by simp_all
  have indexes2: "searcher_indexes ?s2 = Some idx" "searcher_values ?s2 = Some ?vs"
    using less.prems(1) by simp_all
  have inner: "\<exists>s' calls. searcher_set_indexes comparator (Suc d) ?M ?s2 = Settled (s', calls) \<and>
      searched_values s' = searched_values s \<and> searcher_free s' \<and> settled_at comparator idx s'"
  proof (cases "?M = idx")
    case True
    have "searcher_consistent (stored_indexes idx ?s2)"
      using vs free(2) indexes2 by (simp add: searcher_consistent_def)
    then have "settled_at comparator idx (stored_indexes idx ?s2)"
      using free(2) less.prems(3) by (simp add: settled_at_same)
    with True show ?thesis
      using searcher_steps(1) [OF free(2), of comparator d idx] indexes2(1) free(2)
      by (simp add: searched_values_def)
  next
    case False
    have grows: "set idx \<subseteq> set ?M" by (rule matching_grows [OF refl vs])
    have "set idx \<noteq> set ?M"
      using False sorted_same_set [OF less.prems(3) matching_sorted [of comparator ?items ?vs]] by metis
    with grows have "set idx \<subset> set ?M" by (rule psubsetI)
    then have "card (set idx) < card (set ?M)" by (simp add: psubset_card_mono)
    moreover have "card (set ?M) \<le> length ?items"
      using card_mono [OF finite_lessThan matching_subset, of comparator ?items ?vs] by simp
    ultimately have k: "k - 1 < k" "length ?items \<le> card (set ?M) + (k - 1)" "2 * (k - 1) + 3 \<le> Suc d"
      using less.prems(4) d(2) by linarith+
    have "searcher_indexes ?s2 \<noteq> Some ?M" using indexes2 False by simp
    moreover have "\<exists>s' calls. searcher_set_indexes comparator (Suc d) ?M ?s2 = Settled (s', calls) \<and>
        searched_values s' = searched_values ?s2 \<and> searcher_free s' \<and>
        (searcher_indexes ?s2 \<noteq> Some ?M \<longrightarrow> settled_at comparator ?M s')"
      by (rule less.IH [OF k(1) free(2) _ matching_sorted _ k(3)]) (use matching_bounds k(2) in simp_all)
    moreover have "searched_values ?s2 = searched_values s" by (simp add: searched_values_def)
    moreover have "set ?M \<subseteq> linked comparator (searched_values s) idx"
      unfolding searched_values_def by (rule matching_linked [OF vs])
    ultimately show ?thesis using settled_at_mono [OF _ grows] by (metis (no_types, lifting))
  qed
  show ?case
  proof (cases "searcher_indexes s = Some idx")
    case True
    then show ?thesis
      using searcher_steps(1) [OF less.prems(1), of comparator "Suc (Suc d)" idx] less.prems(1)
      by (simp add: d(1) searched_values_def)
  next
    case False
    have "\<exists>s' calls. searcher_set_values comparator (Suc (Suc d)) ?vs ?s1 = Settled (s', calls) \<and>
        searched_values s' = searched_values s \<and> searcher_free s' \<and> settled_at comparator idx s'"
    proof (cases "searcher_values ?s1 = Some ?vs")
      case True
      with vs free show ?thesis
        using searcher_steps(2) [OF free(1), of comparator "Suc d" ?vs] less.prems(1,3)
        by (simp add: searched_values_def searcher_consistent_def settled_at_same)
    next
      case False
      with inner show ?thesis
        using searcher_steps(2) [OF free(1), of comparator "Suc d" ?vs] by auto
    qed
    with False vs show ?thesis
      using searcher_steps(1) [OF less.prems(1), of comparator "Suc (Suc d)" idx] by (auto simp: d(1))
  qed
qed

lemma chosen_bounds:
  "list_all (\<lambda>i. i < length items)
     (List.map_filter (\<lambda>suggestion. first_index (\<lambda>item. test suggestion item) items) suggestions)"
  by (auto simp: list_all_iff map_filter_def dest: first_index_Some)

lemma values_settle:
  fixes s :: "('v, 'c) searcher" and vs :: "'v list"
  assumes reflexive: "\<And>v. comparator v v"
    and t: "searcher_free s" "searcher_indexes s = Some idx" and d: "2 * length (searcher_items s) + 3 \<le> d"
  defines "matching \<equiv> matching_indexes comparator (searcher_items s) vs"
  shows "\<exists>s' calls. searcher_set_values comparator (Suc d) vs s = Settled (s', calls) \<and>
    searched_values s' = searched_values s \<and> searcher_free s' \<and>
    (if searcher_values s = Some vs then searcher_values s' = Some vs \<and> searcher_indexes s' = Some idx \<and> calls = []
     else if matching = idx then searcher_values s' = Some vs \<and> searcher_indexes s' = Some idx
     else settled_at comparator matching s')"
proof (cases "searcher_values s = Some vs")
  case True
  then show ?thesis
    using searcher_steps(2) [OF t(1), of comparator d vs] t by (simp add: searched_values_def)
next
  case False
  let ?t = "stored_values vs s"
  have "\<exists>s' calls. searcher_set_indexes comparator d matching ?t = Settled (s', calls) \<and>
      searched_values s' = searched_values ?t \<and> searcher_free s' \<and>
      (searcher_indexes ?t \<noteq> Some matching \<longrightarrow> settled_at comparator matching s')"
    unfolding matching_def
    by (rule sorted_chain_settles [OF reflexive, where k = "length (searcher_items s)"])
      (use t d matching_bounds matching_sorted in simp_all)
  moreover obtain e where "d = Suc e" using d by (cases d) simp_all
  moreover have "searched_values ?t = searched_values s" "searched_values (stored_indexes idx ?t) = searched_values s"
    by (simp_all add: searched_values_def)
  ultimately show ?thesis
    using searcher_steps(2) [OF t(1), of comparator d vs] False t
      searcher_steps(1) [of ?t comparator e idx]
    by (cases "matching = idx") (auto simp: matching_def [symmetric])
qed

text \<open>Selecting valid indexes settles, and unless they were selected already the values stand at the indexes.\<close>

lemma indexes_settle:
  fixes s :: "('v, 'c) searcher"
  assumes reflexive: "\<And>v. comparator v v" and free: "searcher_free s"
    and valid: "list_all (\<lambda>i. i < length (searcher_items s)) idx"
  shows "\<exists>s' calls. searcher_select_indexes comparator idx s = Settled (s', calls) \<and>
    searched_values s' = searched_values s \<and> searcher_free s' \<and>
    (if searcher_indexes s = Some idx then s' = stored_indexes idx s \<and> calls = []
     else chosen_at comparator idx s' \<and>
       (searcher_values s' = searcher_values s \<or> sorted_wrt (<) (the (searcher_indexes s'))))"
proof (cases "searcher_indexes s = Some idx")
  case True
  have depth: "searcher_depth s = Suc (2 * length (searcher_items s) + 4)" by (simp add: searcher_depth_def)
  show ?thesis
    using searcher_steps(1) [OF free, of comparator "2 * length (searcher_items s) + 4" idx] True free
    by (simp add: searcher_select_indexes_def depth searched_values_def)
next
  case False
  let ?items = "searcher_items s" and ?n = "2 * length (searcher_items s)" and ?s1 = "stored_indexes idx s"
  let ?vs = "map (\<lambda>i. searched_value (?items ! i)) idx"
  let ?M = "matching_indexes comparator ?items ?vs"
  have vs: "values_at ?items idx = Some ?vs" using valid by (simp add: values_at_Some)
  have depth: "searcher_depth s = Suc (Suc (?n + 3))" by (simp add: searcher_depth_def)
  have "\<exists>s' calls. searcher_set_values comparator (Suc (?n + 3)) ?vs ?s1 = Settled (s', calls) \<and>
    searched_values s' = searched_values s \<and> searcher_free s' \<and>
    (if searcher_values s = Some ?vs then searcher_values s' = Some ?vs \<and> searcher_indexes s' = Some idx \<and> calls = []
     else if ?M = idx then searcher_values s' = Some ?vs \<and> searcher_indexes s' = Some idx
     else settled_at comparator ?M s')"
    using values_settle [of comparator ?s1 idx "?n + 3" ?vs, OF reflexive] free
    by (auto simp: searched_values_def split: if_splits)
  then obtain s' calls where settled: "searcher_set_values comparator (Suc (?n + 3)) ?vs ?s1 = Settled (s', calls)"
    and free': "searcher_free s'"
    and same: "searched_values s' = map searched_value ?items"
    and result: "if searcher_values s = Some ?vs then searcher_values s' = Some ?vs \<and> searcher_indexes s' = Some idx \<and> calls = []
     else if ?M = idx then searcher_values s' = Some ?vs \<and> searcher_indexes s' = Some idx
     else settled_at comparator ?M s'"
    unfolding searched_values_def by blast
  have "values_at (searcher_items s') idx = Some ?vs"
    using values_at_cong(1) [of "searcher_items s'" ?items idx] same vs by (simp add: searched_values_def)
  then have "searcher_consistent s'" if "searcher_values s' = Some ?vs" "searcher_indexes s' = Some idx"
    using that by (simp add: searcher_consistent_def)
  then have "chosen_at comparator idx s' \<and>
      (searcher_values s' = searcher_values s \<or> sorted_wrt (<) (the (searcher_indexes s')))"
    using result chosen_at_mono [of comparator ?M s' idx] matching_grows [of comparator, OF reflexive vs]
      matching_linked [OF vs, where comparator = comparator] matching_sorted [of comparator ?items ?vs]
    by (auto simp: same chosen_at_same settled_at_def split: if_splits)
  moreover have "searched_values s' = searched_values s" using same by (simp add: searched_values_def)
  ultimately show ?thesis
    using settled free' searcher_steps(1) [OF free, of comparator "Suc (?n + 3)" idx] False vs
    by (simp add: searcher_select_indexes_def depth)
qed

text \<open>With the default comparator, distinct values stay distinct, whatever is chosen.\<close>

definition searcher_distinct :: "('v, 'c) searcher \<Rightarrow> bool" where
  "searcher_distinct s \<longleftrightarrow>
     searcher_free s \<and> distinct (searched_values s) \<and> distinct (the (searcher_values s))"

lemma indexes_keep_distinct:
  assumes ok: "searcher_distinct s" and valid: "list_all (\<lambda>i. i < length (searcher_items s)) idx"
    and settled: "searcher_select_indexes (=) idx s = Settled (s', calls)"
  shows "searcher_distinct s' \<and> searched_values s' = searched_values s"
proof -
  have free: "searcher_free s" using ok by (simp add: searcher_distinct_def)
  from indexes_settle [of "(=)" s idx, OF _ free valid] settled
  have r: "searched_values s' = searched_values s" "searcher_free s'"
    "if searcher_indexes s = Some idx then s' = stored_indexes idx s \<and> calls = []
     else chosen_at (=) idx s' \<and>
       (searcher_values s' = searcher_values s \<or> sorted_wrt (<) (the (searcher_indexes s')))"
    by auto
  have "distinct vs" if "values_at (searcher_items s') final = Some vs" "sorted_wrt (<) final" for final vs
  proof -
    have "distinct final" using that(2) by (simp add: strict_sorted_iff)
    moreover have "distinct (map searched_value (searcher_items s'))"
      using ok r(1) by (simp add: searcher_distinct_def searched_values_def)
    then have "inj_on (\<lambda>i. searched_value (searcher_items s' ! i)) {..<length (searcher_items s')}"
      by (auto simp: inj_on_def distinct_conv_nth)
    ultimately show ?thesis using that(1)
      by (auto simp: values_at_Some distinct_map list_all_iff intro: inj_on_subset)
  qed
  then have "distinct (the (searcher_values s'))"
    using r(3) ok by (auto simp: searcher_distinct_def chosen_at_def searcher_consistent_def split: if_splits)
  with r ok show ?thesis by (simp add: searcher_distinct_def)
qed

text \<open>The indexes that a choice of suggestions names.\<close>

definition suggested_indexes :: "('v, 'c) searcher \<Rightarrow> string list \<Rightarrow> nat list" where
  "suggested_indexes s suggestions =
     List.map_filter (\<lambda>suggestion.
       first_index (\<lambda>item. searched_suggestion item = suggestion) (searcher_items s)) suggestions"

text \<open>
  C25. Indexes and values set each other without end only if the comparator denies that a value equals itself. With
  a reflexive one every choice of suggestions and every selection of values settles, within a depth of twice the number
  of items and five. A choice of the current indexes changes and reports nothing; any other ends with values that stand
  at the selected indexes, which are the chosen ones and beyond them only ones whose values the comparator links to
  them. A selection of the current values changes and reports nothing; one whose matching indexes are selected already
  stores just the values; any other ends like the choice of the matching indexes.
\<close>
theorem searcher_settles:
  fixes s :: "('v, 'c) searcher"
  assumes reflexive: "\<And>v. comparator v v" and free: "searcher_free s"
  shows "(\<exists>s' calls. searcher_select_items comparator suggestions s = Settled (s', calls) \<and>
      (if searcher_indexes s = Some (suggested_indexes s suggestions)
       then searcher_values s' = searcher_values s \<and> searcher_indexes s' = searcher_indexes s \<and> calls = []
       else chosen_at comparator (suggested_indexes s suggestions) s')) \<and>
    (\<exists>s' calls. searcher_select comparator chosen s = Settled (s', calls) \<and>
      (if searcher_values s = Some chosen
       then searcher_values s' = searcher_values s \<and> searcher_indexes s' = searcher_indexes s \<and> calls = []
       else if searcher_indexes s = Some (matching_indexes comparator (searcher_items s) chosen)
       then searcher_values s' = Some chosen \<and> searcher_indexes s' = searcher_indexes s
       else chosen_at comparator (matching_indexes comparator (searcher_items s) chosen) s'))"
proof -
  obtain idx where idx: "searcher_indexes s = Some idx" using free by (auto simp: searcher_free_def)
  have depth: "searcher_depth s = Suc (2 * length (searcher_items s) + 4)" by (simp add: searcher_depth_def)
  note items = indexes_settle [of comparator s "suggested_indexes s suggestions", OF reflexive free]
    and stored = stored_simps(5) [OF free, of "suggested_indexes s suggestions"]
  from values_settle [of comparator s idx "2 * length (searcher_items s) + 4" chosen, OF reflexive free idx]
  have "\<exists>s' calls. searcher_select comparator chosen s = Settled (s', calls) \<and>
      (if searcher_values s = Some chosen
       then searcher_values s' = searcher_values s \<and> searcher_indexes s' = searcher_indexes s \<and> calls = []
       else if searcher_indexes s = Some (matching_indexes comparator (searcher_items s) chosen)
       then searcher_values s' = Some chosen \<and> searcher_indexes s' = searcher_indexes s
       else chosen_at comparator (matching_indexes comparator (searcher_items s) chosen) s')"
    unfolding searcher_select_def depth by (auto simp: idx settled_at_def split: if_splits)
  moreover have "list_all (\<lambda>i. i < length (searcher_items s)) (suggested_indexes s suggestions)"
    unfolding suggested_indexes_def by (rule chosen_bounds)
  with items obtain s' calls where "searcher_select_indexes comparator (suggested_indexes s suggestions) s = Settled (s', calls)"
    "if searcher_indexes s = Some (suggested_indexes s suggestions)
     then s' = stored_indexes (suggested_indexes s suggestions) s \<and> calls = []
     else chosen_at comparator (suggested_indexes s suggestions) s'" by (auto split: if_splits)
  then have "\<exists>s' calls. searcher_select_items comparator suggestions s = Settled (s', calls) \<and>
      (if searcher_indexes s = Some (suggested_indexes s suggestions)
       then searcher_values s' = searcher_values s \<and> searcher_indexes s' = searcher_indexes s \<and> calls = []
       else chosen_at comparator (suggested_indexes s suggestions) s')"
    using stored unfolding searcher_select_items_def suggested_indexes_def by (auto split: if_splits)
  ultimately show ?thesis by blast
qed

theorem searcher_settles_witness:
  "let s = new_searcher (\<lambda>a b. a = b \<or> a = 0) (\<lambda>v. (v, replicate v CHR ''x'', None)) [3, 0, 2::nat] (Some [2]) False
     :: (nat, unit) searcher
   in \<exists>s' calls. searcher_select_items (\<lambda>a b. a = b \<or> a = 0) [''xx'', ''xxx''] s = Settled (s', calls) \<and>
        chosen_at (\<lambda>a b. a = b \<or> a = 0) [2, 0] s'"
proof -
  let ?s = "new_searcher (\<lambda>a b. a = b \<or> a = 0) (\<lambda>v. (v, replicate v CHR ''x'', None)) [3, 0, 2::nat] (Some [2]) False
     :: (nat, unit) searcher"
  have free: "searcher_free ?s"
    by (simp add: new_searcher_def searcher_free_def new_property_def searcher_values_def searcher_indexes_def)
  have "suggested_indexes ?s [''xx'', ''xxx''] = [2, 0]" "searcher_indexes ?s = Some [1]"
    by code_simp+
  with searcher_settles [of "\<lambda>a b. a = b \<or> a = 0" ?s "[''xx'', ''xxx'']", OF _ free] show ?thesis
    by (simp add: Let_def)
qed

section \<open>What a searcher reports\<close>

definition selections_reported :: "('v, 'c) searcher_call list \<Rightarrow> 'v list option list" where
  "selections_reported calls =
     List.map_filter (\<lambda>call. case call of Values_call (Updated _ vs) \<Rightarrow> Some vs | _ \<Rightarrow> None) calls"

lemma selections_reported_simps [simp]:
  "selections_reported [] = []"
  "selections_reported (Values_call (Updated a v) # calls) = v # selections_reported calls"
  "selections_reported (calls @ calls') = selections_reported calls @ selections_reported calls'"
  "selections_reported (map (\<lambda>a. Indexes_call (Updated a ns)) actions) = []"
  "selections_reported (map (\<lambda>a. Values_call (Updated a vs)) actions) = replicate (length actions) vs"
  by (auto simp: selections_reported_def map_filter_def comp_def map_replicate_const filter_empty_conv)

lemma matching_distinct:
  assumes "distinct (map searched_value items)" and "values_at items idx = Some vs"
  shows "matching_indexes (=) items vs = filter (\<lambda>i. i \<in> set idx) [0..<length items]"
proof -
  have "(\<exists>v \<in> set vs. searched_value (items ! i) = v) \<longleftrightarrow> i \<in> set idx" if "i < length items" for i
    using assms that by (auto simp: values_at_Some list_all_iff distinct_conv_nth)
  then show ?thesis
    unfolding matching_indexes_def
    by (auto intro!: filter_cong simp: js_at_def list_ex_iff)
qed

lemma values_at_filter:
  assumes "distinct (map searched_value items)" and "values_at items idx = Some vs"
  shows "values_at items (filter (\<lambda>i. i \<in> set idx) [0..<length items]) =
    Some (filter (\<lambda>v. v \<in> set vs) (map searched_value items))"
proof -
  have "i \<in> set idx \<longleftrightarrow> searched_value (items ! i) \<in> set vs" if "i < length items" for i
    using assms that by (auto simp: values_at_Some list_all_iff distinct_conv_nth)
  then have "filter (\<lambda>i. i \<in> set idx) [0..<length items] =
      filter (\<lambda>i. searched_value (items ! i) \<in> set vs) [0..<length items]"
    by (intro filter_cong) auto
  moreover have "filter (\<lambda>v. v \<in> set vs) (map searched_value items) =
      map (\<lambda>i. searched_value (items ! i)) (filter (\<lambda>i. searched_value (items ! i) \<in> set vs) [0..<length items])"
    by (subst map_nth [symmetric, of items]) (simp add: filter_map comp_def del: map_nth)
  ultimately show ?thesis by (auto simp: values_at_Some list_all_iff)
qed

text \<open>
  With distinct values and the default comparator, a choice of items in any order ends with the chosen
  values in the order in which they are available. \<open>onSelect\<close> is called once if they were chosen in that
  order; otherwise twice, first with the values as they are kept and last with the values as they were
  chosen, so that its consumer is left with an order the searcher no longer has.
\<close>
theorem searcher_reports_choice:
  fixes s :: "('v, 'c) searcher"
  assumes free: "searcher_free s" and distinct: "distinct (searcher_available s)"
    and consumer: "after_update_consumers (searcher_selected s) = [action]"
    and vs: "values_at (searcher_items s) idx = Some vs"
    and new: "searcher_indexes s \<noteq> Some idx" "searcher_values s \<noteq> Some vs"
  shows "\<exists>s' calls. searcher_select_indexes (=) idx s = Settled (s', calls) \<and>
    (let ordered = filter (\<lambda>v. v \<in> set vs) (searcher_available s)
     in searcher_values s' = Some ordered \<and>
        selections_reported calls = map Some (if ordered = vs then [vs] else [ordered, vs]))"
proof -
  let ?items = "searcher_items s" and ?n = "2 * length (searcher_items s)"
  let ?M = "filter (\<lambda>i. i \<in> set idx) [0..<length ?items]"
  let ?ordered = "filter (\<lambda>v. v \<in> set vs) (searcher_available s)"
  let ?s1 = "stored_indexes idx s" and ?s2 = "stored_values vs (stored_indexes idx s)"
  let ?s3 = "stored_indexes ?M ?s2"
  have dist: "distinct (map searched_value ?items)" using distinct by (simp add: searcher_available_def)
  have M: "matching_indexes (=) ?items vs = ?M" by (rule matching_distinct [OF dist vs])
  have ordered: "values_at ?items ?M = Some ?ordered"
    using values_at_filter [OF dist vs] by (simp add: searcher_available_def)
  have MM: "matching_indexes (=) ?items ?ordered = ?M"
    using matching_distinct [OF dist ordered] by (auto intro!: filter_cong)
  have free': "searcher_free ?s1" "searcher_free ?s2" "searcher_free ?s3" "searcher_free (stored_values ?ordered ?s3)"
    using free by simp_all
  have consumers: "after_update_consumers (searcher_selected ?s1) = [action]"
    "after_update_consumers (searcher_selected ?s3) = [action]"
    using consumer by (simp_all add: stored_indexes_def stored_values_def property_set_keeps_consumers)
  have depth: "searcher_depth s = Suc (Suc (Suc (Suc (Suc ?n))))" by (simp add: searcher_depth_def)
  note steps = searcher_steps(1) [OF free, of "(=)" "Suc (Suc (Suc (Suc ?n)))" idx]
    searcher_steps(2) [OF free'(1), of "(=)" "Suc (Suc (Suc ?n))" vs]
    searcher_steps(1) [OF free'(2), of "(=)" "Suc (Suc ?n)" ?M]
    searcher_steps(2) [OF free'(3), of "(=)" "Suc ?n" ?ordered]
    searcher_steps(1) [OF free'(4), of "(=)" "?n" ?M]
  have unordered: "?ordered = vs" if "?M = idx" using that ordered vs by simp
  show ?thesis
    unfolding searcher_select_indexes_def depth
    using steps new vs M MM ordered unordered free free' consumers
    by (cases "?M = idx"; cases "?ordered = vs") (simp_all add: Let_def)
qed

theorem searcher_reports_choice_witness:
  "\<exists>s' calls. searcher_select_indexes (=) [2, 0]
      (fst (searcher_on_select () (new_searcher (=) (\<lambda>v. (v, replicate v CHR ''x'', None)) [1, 2, 3::nat] None False)))
      = Settled (s', calls) \<and>
    searcher_values s' = Some [1, 3] \<and> selections_reported calls = [Some [1, 3], Some [3, 1]]"
  using searcher_reports_choice [of "fst (searcher_on_select () (new_searcher (=)
      (\<lambda>v. (v, replicate v CHR ''x'', None)) [1, 2, 3::nat] None False))" "()" "[2, 0]" "[3, 1]"]
  by (simp add: new_searcher_def searcher_on_select_def searcher_free_def new_property_def property_consume_def
      searcher_values_def searcher_indexes_def searcher_available_def js_at_def Let_def)

end
