(* ===== verification/Grids.thy ===== *)
theory Grids
  imports Reactive
begin

text \<open>
  The managed grid, \<open>framework/dsl/managed/ManagedGrid.tsx\<close>: a list of items, each a widget under a key, and
  beside it the property of the keys, through which the grid looks for the item of a key. The key of a widget
  is the function \<open>key_of\<close>; an item made with a key of its own has another one. Breakpoints and styles of the
  items are layout and left out.
\<close>

record ('k, 'w) grid_item =
  item_key :: 'k
  item_widget :: 'w

record ('k, 'w, 'c) grid =
  grid_items :: "('k, 'w) grid_item list"
  grid_keys :: "('k list, 'c) property"

datatype ('k, 'c) grid_effect =
    Keys_call "('k list, 'c) property_call"
  | Grid_paused | Grid_continued

definition new_grid :: "('k, 'w, 'c) grid" where
  "new_grid = \<lparr>grid_items = [], grid_keys = new_property (Some [])\<rparr>"

definition new_grid_item :: "('w \<Rightarrow> 'k) \<Rightarrow> 'w \<Rightarrow> 'k option \<Rightarrow> ('k, 'w) grid_item" where
  "new_grid_item key_of w key = \<lparr>item_key = (case key of None \<Rightarrow> key_of w | Some k \<Rightarrow> k), item_widget = w\<rparr>"

definition keys_value :: "('k, 'w, 'c) grid \<Rightarrow> 'k list" where
  "keys_value g = (case property_value (grid_keys g) of None \<Rightarrow> [] | Some ks \<Rightarrow> ks)"

definition set_keys :: "'k list \<Rightarrow> ('k, 'w, 'c) grid \<Rightarrow> ('k, 'w, 'c) grid \<times> ('k, 'c) grid_effect list" where
  "set_keys ks g =
     (let (p, calls) = property_set (=) (Some ks) (grid_keys g)
      in (g\<lparr>grid_keys := p\<rparr>, map Keys_call calls))"

definition grid_locked ::
  "(('k, 'w, 'c) grid \<Rightarrow> ('k, 'w, 'c) grid \<times> ('k, 'c) grid_effect list) \<Rightarrow> ('k, 'w, 'c) grid \<Rightarrow>
    ('k, 'w, 'c) grid \<times> ('k, 'c) grid_effect list" where
  "grid_locked action g =
     (let (g', effects) = action g in (g', Grid_paused # effects @ [Grid_continued]))"

section \<open>Widgets\<close>

definition unshift_item ::
  "('k, 'w) grid_item \<Rightarrow> ('k, 'w, 'c) grid \<Rightarrow> ('k, 'w, 'c) grid \<times> ('k, 'c) grid_effect list" where
  "unshift_item item g =
     set_keys (item_key item # keys_value g) (g\<lparr>grid_items := item # grid_items g\<rparr>)"

definition push_item ::
  "('k, 'w) grid_item \<Rightarrow> ('k, 'w, 'c) grid \<Rightarrow> ('k, 'w, 'c) grid \<times> ('k, 'c) grid_effect list" where
  "push_item item g =
     set_keys (keys_value g @ [item_key item]) (g\<lparr>grid_items := grid_items g @ [item]\<rparr>)"

definition push_items ::
  "('k, 'w) grid_item list \<Rightarrow> ('k, 'w, 'c) grid \<Rightarrow> ('k, 'w, 'c) grid \<times> ('k, 'c) grid_effect list" where
  "push_items items g =
     set_keys (keys_value g @ map item_key items) (g\<lparr>grid_items := grid_items g @ items\<rparr>)"

definition unshift_widget ::
  "('w \<Rightarrow> 'k) \<Rightarrow> 'w \<Rightarrow> ('k, 'w, 'c) grid \<Rightarrow> ('k, 'w, 'c) grid \<times> ('k, 'c) grid_effect list" where
  "unshift_widget key_of w g = unshift_item (new_grid_item key_of w (Some (key_of w))) g"

definition push_widget ::
  "('w \<Rightarrow> 'k) \<Rightarrow> 'w \<Rightarrow> ('k, 'w, 'c) grid \<Rightarrow> ('k, 'w, 'c) grid \<times> ('k, 'c) grid_effect list" where
  "push_widget key_of w g = push_item (new_grid_item key_of w (Some (key_of w))) g"

definition push_widgets ::
  "('w \<Rightarrow> 'k) \<Rightarrow> 'w list \<Rightarrow> ('k, 'w, 'c) grid \<Rightarrow> ('k, 'w, 'c) grid \<times> ('k, 'c) grid_effect list" where
  "push_widgets key_of ws g =
     set_keys (keys_value g @ map key_of ws)
       (g\<lparr>grid_items := grid_items g @ map (\<lambda>w. new_grid_item key_of w (Some (key_of w))) ws\<rparr>)"

text \<open>Each widget is put in front of the former one: the items come in reverse, their keys do not.\<close>

definition unshift_widgets ::
  "('w \<Rightarrow> 'k) \<Rightarrow> 'w list \<Rightarrow> ('k, 'w, 'c) grid \<Rightarrow> ('k, 'w, 'c) grid \<times> ('k, 'c) grid_effect list" where
  "unshift_widgets key_of ws g =
     set_keys (map key_of ws @ keys_value g)
       (g\<lparr>grid_items := fold (\<lambda>w items. new_grid_item key_of w (Some (key_of w)) # items) ws (grid_items g)\<rparr>)"

text \<open>\<open>filter\<close> by index.\<close>

definition without_index :: "nat \<Rightarrow> 'a list \<Rightarrow> 'a list" where
  "without_index i xs = take i xs @ drop (Suc i) xs"

definition remove_index ::
  "nat \<Rightarrow> ('k, 'w, 'c) grid \<Rightarrow> ('k, 'w, 'c) grid \<times> ('k, 'c) grid_effect list" where
  "remove_index i g =
     set_keys (without_index i (keys_value g)) (g\<lparr>grid_items := without_index i (grid_items g)\<rparr>)"

fun position_of :: "'a \<Rightarrow> 'a list \<Rightarrow> nat option" where
  "position_of x [] = None"
| "position_of x (y # ys) = (if x = y then Some 0 else map_option Suc (position_of x ys))"

definition remove_key ::
  "'k \<Rightarrow> ('k, 'w, 'c) grid \<Rightarrow> ('k, 'w, 'c) grid \<times> ('k, 'c) grid_effect list" where
  "remove_key key g =
     (case position_of key (keys_value g) of None \<Rightarrow> (g, []) | Some i \<Rightarrow> remove_index i g)"

definition remove_widget ::
  "('w \<Rightarrow> 'k) \<Rightarrow> 'w \<Rightarrow> ('k, 'w, 'c) grid \<Rightarrow> ('k, 'w, 'c) grid \<times> ('k, 'c) grid_effect list" where
  "remove_widget key_of w g = remove_key (key_of w) g"

definition remove_item ::
  "('w \<Rightarrow> 'k) \<Rightarrow> ('k, 'w) grid_item \<Rightarrow> ('k, 'w, 'c) grid \<Rightarrow> ('k, 'w, 'c) grid \<times> ('k, 'c) grid_effect list" where
  "remove_item key_of item g = remove_widget key_of (item_widget item) g"

definition replace_item ::
  "('k, 'w) grid_item \<Rightarrow> ('k, 'w, 'c) grid \<Rightarrow> ('k, 'w, 'c) grid \<times> ('k, 'c) grid_effect list" where
  "replace_item item =
     grid_locked (\<lambda>g.
       let (g1, removed) = remove_key (item_key item) g; (g2, pushed) = push_item item g1
       in (g2, removed @ pushed))"

definition replace_widget ::
  "('w \<Rightarrow> 'k) \<Rightarrow> 'w \<Rightarrow> ('k, 'w, 'c) grid \<Rightarrow> ('k, 'w, 'c) grid \<times> ('k, 'c) grid_effect list" where
  "replace_widget key_of w = replace_item (new_grid_item key_of w (Some (key_of w)))"

definition clear_grid :: "('k, 'w, 'c) grid \<Rightarrow> ('k, 'w, 'c) grid \<times> ('k, 'c) grid_effect list" where
  "clear_grid g = set_keys [] (g\<lparr>grid_items := []\<rparr>)"

definition set_widgets ::
  "('w \<Rightarrow> 'k) \<Rightarrow> 'w list \<Rightarrow> ('k, 'w, 'c) grid \<Rightarrow> ('k, 'w, 'c) grid \<times> ('k, 'c) grid_effect list" where
  "set_widgets key_of ws =
     grid_locked (\<lambda>g.
       let (g1, cleared) = clear_grid g; (g2, pushed) = push_widgets key_of ws g1
       in (g2, cleared @ pushed))"

definition set_items ::
  "('k, 'w) grid_item list \<Rightarrow> ('k, 'w, 'c) grid \<Rightarrow> ('k, 'w, 'c) grid \<times> ('k, 'c) grid_effect list" where
  "set_items items =
     grid_locked (\<lambda>g.
       let (g1, cleared) = clear_grid g; (g2, pushed) = push_items items g1
       in (g2, cleared @ pushed))"

definition grid_widgets :: "('k, 'w, 'c) grid \<Rightarrow> 'w list" where
  "grid_widgets g = map item_widget (grid_items g)"

definition arrange_widgets ::
  "('w \<Rightarrow> 'k) \<Rightarrow> 'k list \<Rightarrow> ('k, 'w, 'c) grid \<Rightarrow> ('k, 'w, 'c) grid \<times> ('k, 'c) grid_effect list" where
  "arrange_widgets key_of keys g =
     set_widgets key_of (List.map_filter (\<lambda>k. find (\<lambda>w. key_of w = k) (grid_widgets g)) keys) g"

section \<open>Readings\<close>

definition item_by_index :: "nat \<Rightarrow> ('k, 'w, 'c) grid \<Rightarrow> ('k, 'w) grid_item option" where
  "item_by_index i g = js_at (grid_items g) i"

definition item_by_key :: "'k \<Rightarrow> ('k, 'w, 'c) grid \<Rightarrow> ('k, 'w) grid_item option" where
  "item_by_key k g = find (\<lambda>item. item_key item = k) (grid_items g)"

definition widget_by_key :: "'k \<Rightarrow> ('k, 'w, 'c) grid \<Rightarrow> 'w option" where
  "widget_by_key k g = map_option item_widget (item_by_key k g)"

definition has_key :: "'k \<Rightarrow> ('k, 'w, 'c) grid \<Rightarrow> bool" where
  "has_key k g \<longleftrightarrow> k \<in> set (keys_value g)"

definition has_widget :: "('w \<Rightarrow> 'k) \<Rightarrow> 'w \<Rightarrow> ('k, 'w, 'c) grid \<Rightarrow> bool" where
  "has_widget key_of w g = has_key (key_of w) g"

definition has_item :: "('w \<Rightarrow> 'k) \<Rightarrow> ('k, 'w) grid_item \<Rightarrow> ('k, 'w, 'c) grid \<Rightarrow> bool" where
  "has_item key_of item g = has_widget key_of (item_widget item) g"

definition grid_has_index :: "nat \<Rightarrow> ('k, 'w, 'c) grid \<Rightarrow> bool" where
  "grid_has_index i g \<longleftrightarrow> js_at (keys_value g) i \<noteq> None"

definition grid_is_empty :: "('k, 'w, 'c) grid \<Rightarrow> bool" where
  "grid_is_empty g \<longleftrightarrow> keys_value g = []"

definition grid_length :: "('k, 'w, 'c) grid \<Rightarrow> nat" where
  "grid_length g = length (keys_value g)"

definition keys_changed :: "'c \<Rightarrow> ('k, 'w, 'c) grid \<Rightarrow> ('k, 'w, 'c) grid \<times> ('k, 'c) grid_effect list" where
  "keys_changed action g =
     (let (p, calls) = property_consume action (grid_keys g)
      in (g\<lparr>grid_keys := p\<rparr>, map Keys_call calls))"

text \<open>\<open>filter\<close> makes a grid of its own from the widgets of the keys; a key without an item is a type error.\<close>

definition filter_grid :: "('w \<Rightarrow> 'k) \<Rightarrow> ('k \<Rightarrow> bool) \<Rightarrow> ('k, 'w, 'c) grid \<Rightarrow> ('k, 'w, 'c) grid option" where
  "filter_grid key_of test g =
     map_option (\<lambda>ws. fst (push_widgets key_of ws new_grid))
       (those (map (\<lambda>k. widget_by_key k g) (filter test (keys_value g))))"

section \<open>The grid is the list of its items\<close>

datatype ('k, 'w) grid_op =
    Push_item "('k, 'w) grid_item" | Push_items "('k, 'w) grid_item list" | Unshift_item "('k, 'w) grid_item"
  | Remove_index nat | Remove_key 'k | Replace_item "('k, 'w) grid_item" | Set_items "('k, 'w) grid_item list"
  | Push_widgets "'w list" | Set_widgets "'w list" | Arrange_widgets "'k list" | Clear_grid

fun grid_step ::
  "('w \<Rightarrow> 'k) \<Rightarrow> ('k, 'w) grid_op \<Rightarrow> ('k, 'w, 'c) grid \<Rightarrow> ('k, 'w, 'c) grid \<times> ('k, 'c) grid_effect list" where
  "grid_step key_of (Push_item item) g = push_item item g"
| "grid_step key_of (Push_items items) g = push_items items g"
| "grid_step key_of (Unshift_item item) g = unshift_item item g"
| "grid_step key_of (Remove_index i) g = remove_index i g"
| "grid_step key_of (Remove_key k) g = remove_key k g"
| "grid_step key_of (Replace_item item) g = replace_item item g"
| "grid_step key_of (Set_items items) g = set_items items g"
| "grid_step key_of (Push_widgets ws) g = push_widgets key_of ws g"
| "grid_step key_of (Set_widgets ws) g = set_widgets key_of ws g"
| "grid_step key_of (Arrange_widgets keys) g = arrange_widgets key_of keys g"
| "grid_step key_of Clear_grid g = clear_grid g"

text \<open>What each operation promises of the list of items.\<close>

fun without_first :: "('a \<Rightarrow> bool) \<Rightarrow> 'a list \<Rightarrow> 'a list" where
  "without_first test [] = []"
| "without_first test (x # xs) = (if test x then xs else x # without_first test xs)"

definition own_item :: "('w \<Rightarrow> 'k) \<Rightarrow> 'w \<Rightarrow> ('k, 'w) grid_item" where
  "own_item key_of w = \<lparr>item_key = key_of w, item_widget = w\<rparr>"

fun items_step :: "('w \<Rightarrow> 'k) \<Rightarrow> ('k, 'w) grid_op \<Rightarrow> ('k, 'w) grid_item list \<Rightarrow> ('k, 'w) grid_item list" where
  "items_step key_of (Push_item item) items = items @ [item]"
| "items_step key_of (Push_items more_items) items = items @ more_items"
| "items_step key_of (Unshift_item item) items = item # items"
| "items_step key_of (Remove_index i) items = without_index i items"
| "items_step key_of (Remove_key k) items = without_first (\<lambda>item. item_key item = k) items"
| "items_step key_of (Replace_item item) items =
     without_first (\<lambda>old. item_key old = item_key item) items @ [item]"
| "items_step key_of (Set_items items') items = items'"
| "items_step key_of (Push_widgets ws) items = items @ map (own_item key_of) ws"
| "items_step key_of (Set_widgets ws) items = map (own_item key_of) ws"
| "items_step key_of (Arrange_widgets keys) items =
     map (own_item key_of)
       (List.map_filter (\<lambda>k. find (\<lambda>w. key_of w = k) (map item_widget items)) keys)"
| "items_step key_of Clear_grid items = []"

definition grid_ok :: "('k, 'w, 'c) grid \<Rightarrow> bool" where
  "grid_ok g \<longleftrightarrow>
     before_update_consumers (grid_keys g) = [] \<and> property_value (grid_keys g) = Some (map item_key (grid_items g))"

lemma grid_ok_new [simp]: "grid_ok new_grid"
  by (simp add: grid_ok_def new_grid_def new_property_def)

lemma keys_value_ok: "grid_ok g \<Longrightarrow> keys_value g = map item_key (grid_items g)"
  by (simp add: grid_ok_def keys_value_def)

lemma set_keys_items [simp]: "grid_items (fst (set_keys ks g)) = grid_items g"
  by (simp add: set_keys_def split_beta)

lemma set_keys_ok:
  "before_update_consumers (grid_keys g) = [] \<Longrightarrow> ks = map item_key (grid_items g) \<Longrightarrow>
   grid_ok (fst (set_keys ks g))"
  by (auto simp: grid_ok_def set_keys_def split_beta property_set_def prevented_def split: option.split)

lemma without_index_map: "without_index i (map f xs) = map f (without_index i xs)"
  by (simp add: without_index_def take_map drop_map)

lemma position_of_first:
  "position_of k (map f xs) = None \<Longrightarrow> without_first (\<lambda>x. f x = k) xs = xs"
  "position_of k (map f xs) = Some i \<Longrightarrow> without_first (\<lambda>x. f x = k) xs = without_index i xs"
  by (induction xs arbitrary: i) (auto simp: without_index_def split: if_splits)

lemma new_grid_item_own [simp]: "new_grid_item key_of w (Some (key_of w)) = own_item key_of w"
  by (simp add: new_grid_item_def own_item_def)

lemma own_item_key [simp]: "item_key (own_item key_of w) = key_of w" "item_key \<circ> own_item key_of = key_of"
  by (auto simp: own_item_def)

lemma locked_fst [simp]: "fst (grid_locked action g) = fst (action g)"
  by (simp add: grid_locked_def split_beta)

lemma grid_ops_refine:
  assumes "grid_ok g"
  shows "grid_ok (fst (push_items items g)) \<and> grid_items (fst (push_items items g)) = grid_items g @ items"
    and "grid_ok (fst (push_item item g)) \<and> grid_items (fst (push_item item g)) = grid_items g @ [item]"
    and "grid_ok (fst (unshift_item item g)) \<and> grid_items (fst (unshift_item item g)) = item # grid_items g"
    and "grid_ok (fst (remove_index i g)) \<and> grid_items (fst (remove_index i g)) = without_index i (grid_items g)"
    and "grid_ok (fst (push_widgets key_of ws g)) \<and>
      grid_items (fst (push_widgets key_of ws g)) = grid_items g @ map (own_item key_of) ws"
    and "grid_ok (fst (clear_grid g)) \<and> grid_items (fst (clear_grid g)) = []"
proof -
  have free: "before_update_consumers (grid_keys g) = []" using assms by (simp add: grid_ok_def)
  show "grid_ok (fst (push_items items g)) \<and> grid_items (fst (push_items items g)) = grid_items g @ items"
    "grid_ok (fst (push_item item g)) \<and> grid_items (fst (push_item item g)) = grid_items g @ [item]"
    "grid_ok (fst (unshift_item item g)) \<and> grid_items (fst (unshift_item item g)) = item # grid_items g"
    "grid_ok (fst (remove_index i g)) \<and> grid_items (fst (remove_index i g)) = without_index i (grid_items g)"
    "grid_ok (fst (push_widgets key_of ws g)) \<and>
      grid_items (fst (push_widgets key_of ws g)) = grid_items g @ map (own_item key_of) ws"
    "grid_ok (fst (clear_grid g)) \<and> grid_items (fst (clear_grid g)) = []"
    using assms free
    by (auto simp: push_items_def push_item_def unshift_item_def remove_index_def push_widgets_def clear_grid_def
        keys_value_ok without_index_map intro!: set_keys_ok)
qed

lemma grid_remove_key:
  assumes "grid_ok g"
  shows "grid_ok (fst (remove_key k g)) \<and>
    grid_items (fst (remove_key k g)) = without_first (\<lambda>item. item_key item = k) (grid_items g)"
proof (cases "position_of k (keys_value g)")
  case None
  with assms show ?thesis by (simp add: remove_key_def keys_value_ok position_of_first)
next
  case (Some i)
  with assms grid_ops_refine(4) [OF assms, of i] show ?thesis
    by (simp add: remove_key_def keys_value_ok position_of_first(2))
qed

lemma grid_step_refines:
  assumes ok: "grid_ok g"
  shows "grid_ok (fst (grid_step key_of op g)) \<and>
    grid_items (fst (grid_step key_of op g)) = items_step key_of op (grid_items g)"
proof (cases op)
  case (Replace_item item)
  then show ?thesis
    using grid_remove_key [OF ok, of "item_key item"]
      grid_ops_refine(2) [of "fst (remove_key (item_key item) g)" item]
    by (simp add: replace_item_def split_beta Let_def)
next
  case (Set_items items)
  then show ?thesis
    using grid_ops_refine(6) [OF ok] grid_ops_refine(1) [of "fst (clear_grid g)" items]
    by (simp add: set_items_def split_beta Let_def)
next
  case (Set_widgets ws)
  then show ?thesis
    using grid_ops_refine(6) [OF ok] grid_ops_refine(5) [of "fst (clear_grid g)" key_of ws]
    by (simp add: set_widgets_def split_beta Let_def)
next
  case (Arrange_widgets keys)
  then show ?thesis
    using grid_ops_refine(6) [OF ok] grid_ops_refine(5) [of "fst (clear_grid g)" key_of]
    by (simp add: arrange_widgets_def grid_widgets_def set_widgets_def split_beta Let_def)
qed (use grid_ops_refine [OF ok] grid_remove_key [OF ok] in simp_all)

text \<open>
  C31. The keys of a grid and its items never come apart: through any operations (but \<open>unshiftWidgets\<close>) the
  property of the keys has the keys of the items in their order, and the items are those that the operations
  promise of a plain list; the removal of a key removes the first item that has it.
\<close>
theorem grid_refines_list:
  "let g = fst (emit_run (grid_step key_of) ops (new_grid :: ('k, 'w, 'c) grid))
   in property_value (grid_keys g) = Some (map item_key (grid_items g)) \<and>
      grid_items g = fold (items_step key_of) ops []"
proof -
  have "grid_ok (fst (emit_run (grid_step key_of) ops g)) \<and>
      grid_items (fst (emit_run (grid_step key_of) ops g)) = fold (items_step key_of) ops (grid_items g)"
    if "grid_ok g" for g :: "('k, 'w, 'c) grid"
    using that by (induction ops arbitrary: g) (simp_all add: emit_run_cons grid_step_refines)
  from this [OF grid_ok_new] show ?thesis by (simp add: Let_def grid_ok_def new_grid_def)
qed

text \<open>After \<open>unshiftWidgets\<close> a key names another widget, and its removal removes that one.\<close>

lemma unshifted_widgets_swapped:
  assumes "key_of a \<noteq> key_of b"
  shows "let g = fst (unshift_widgets key_of [a, b] (new_grid :: ('k, 'w, 'c) grid))
    in keys_value g = [key_of a, key_of b] \<and> grid_widgets g = [b, a] \<and>
       grid_widgets (fst (remove_key (key_of a) g)) = [a]"
  using assms
  by (simp add: unshift_widgets_def new_grid_def new_property_def set_keys_def keys_value_def property_set_def
      prevented_def grid_widgets_def remove_key_def remove_index_def without_index_def own_item_def)

end
