(* ===== verification/Filters.thy ===== *)
theory Filters
  imports Selectors Model Catalog
begin

text \<open>
  The filter of the pages, \<open>component/embeddable/filter/Filter.ts\<close>, with the searchers of
  \<open>component/embeddable/common/PlatformSearchers.ts\<close>. For each kind of value the filter has a property of what is
  available and a cached widget that makes a searcher anew whenever the style changes; every searcher made
  consumes the property from then on. A style is a number, the consumers of the property are the numbers of the
  searchers in the order in which they were made, and the actions of the page are tokens.
\<close>

section \<open>Platform searchers\<close>

definition suggested :: "('v \<Rightarrow> string) \<Rightarrow> 'v \<Rightarrow> 'v \<times> string \<times> bool option" where
  "suggested suggestion v = (v, suggestion v, None)"

text \<open>\<open>current?.selected() || properties.selected\<close>.\<close>

definition kept_selection :: "('v, 'c) searcher option \<Rightarrow> 'v list option \<Rightarrow> 'v list option" where
  "kept_selection current selected =
     (case current of
        None \<Rightarrow> selected
      | Some s \<Rightarrow> (case searcher_values s of None \<Rightarrow> selected | Some vs \<Rightarrow> Some vs))"

definition cached_searcher ::
  "('v \<Rightarrow> 'v \<Rightarrow> bool) \<Rightarrow> ('v \<Rightarrow> string) \<Rightarrow> 'v list \<Rightarrow> 'v list option \<Rightarrow> ('v, 'c) searcher option \<Rightarrow>
    ('v, 'c) searcher" where
  "cached_searcher comparator suggestion available selected current =
     new_searcher comparator (suggested suggestion) available (kept_selection current selected) False"

definition string_searcher ::
  "string list \<Rightarrow> string list option \<Rightarrow> (string, 'c) searcher option \<Rightarrow> (string, 'c) searcher" where
  "string_searcher = cached_searcher (=) (\<lambda>s. s)"

definition project_searcher ::
  "project list \<Rightarrow> project list option \<Rightarrow> (project, 'c) searcher option \<Rightarrow> (project, 'c) searcher" where
  "project_searcher = cached_searcher (=) project_name"

definition module_searcher ::
  "module_information list \<Rightarrow> module_information list option \<Rightarrow> (module_information, 'c) searcher option \<Rightarrow>
    (module_information, 'c) searcher" where
  "module_searcher = cached_searcher (=) mod_name"

definition resource_searcher ::
  "resource_identifier list \<Rightarrow> resource_identifier list option \<Rightarrow> (resource_identifier, 'c) searcher option \<Rightarrow>
    (resource_identifier, 'c) searcher" where
  "resource_searcher = cached_searcher (=) rid_name"

definition project_artifacts_searcher ::
  "project_artifact list \<Rightarrow> project_artifact list option \<Rightarrow> (project_artifact, 'c) searcher option \<Rightarrow>
    (project_artifact, 'c) searcher" where
  "project_artifacts_searcher =
     cached_searcher (\<lambda>a b. project_artifact_name a = project_artifact_name b) project_artifact_name"

definition assembled_artifacts_searcher ::
  "assembled_artifact list \<Rightarrow> assembled_artifact list option \<Rightarrow> (assembled_artifact, 'c) searcher option \<Rightarrow>
    (assembled_artifact, 'c) searcher" where
  "assembled_artifacts_searcher = cached_searcher (=) artifact_name"

text \<open>
  The condition of the searcher of technologies takes in both alternatives: with a former searcher it reads the
  given names, \<open>undefined\<close> or not; the former selection is never kept. An empty list of names is a list.
\<close>

definition technology_searcher ::
  "string list \<Rightarrow> string list option \<Rightarrow> (technology, 'c) searcher option \<Rightarrow> (technology, 'c) searcher option" where
  "technology_searcher technologies selected current =
     (let former = (case current of None \<Rightarrow> False | Some s \<Rightarrow> searcher_values s \<noteq> None)
      in if former \<or> selected \<noteq> None
         then map_option (\<lambda>names. new_searcher (=) (suggested technology_name) (technologies_of technologies)
                (Some (technologies_of names)) False) selected
         else Some (new_searcher (=) (suggested technology_name) (technologies_of technologies) (Some []) False))"

lemma technology_searcher_forgets:
  assumes "searcher_values s \<noteq> None"
  shows "technology_searcher technologies None (Some s) = None"
  using assms by (auto simp: technology_searcher_def)

section \<open>One kind of value\<close>

record ('v, 'c) filter_part =
  part_source :: "('v list, nat) property"
  part_initial :: "'v list"
  part_searchers :: "('v, 'c) searcher list"
  part_style :: "nat option"
  part_actions :: "'c list"

definition new_filter_part :: "'v list option \<Rightarrow> ('v, 'c) filter_part" where
  "new_filter_part given =
     \<lparr>part_source = new_property given, part_initial = (case given of None \<Rightarrow> [] | Some vs \<Rightarrow> vs),
      part_searchers = [], part_style = None, part_actions = []\<rparr>"

definition part_current :: "('v, 'c) filter_part \<Rightarrow> ('v, 'c) searcher option" where
  "part_current p = (if part_searchers p = [] then None else Some (last (part_searchers p)))"

definition part_offer ::
  "('v \<Rightarrow> string) \<Rightarrow> nat \<Rightarrow> 'v list \<Rightarrow> ('v, 'c) filter_part \<Rightarrow>
    (('v, 'c) filter_part \<times> ('v, 'c) searcher_call list) settled" where
  "part_offer suggestion n vs p =
     (case js_at (part_searchers p) n of
        None \<Rightarrow> Settled (p, [])
      | Some s \<Rightarrow>
          settled_then (searcher_set_available (=) (suggested suggestion) vs s)
            (\<lambda>(s', calls). Settled (p\<lparr>part_searchers := (part_searchers p)[n := s']\<rparr>, calls)))"

fun part_deliver ::
  "('v \<Rightarrow> string) \<Rightarrow> ('v list, nat) property_call list \<Rightarrow> ('v, 'c) filter_part \<Rightarrow>
    (('v, 'c) filter_part \<times> ('v, 'c) searcher_call list) settled" where
  "part_deliver suggestion [] p = Settled (p, [])"
| "part_deliver suggestion (Updated n (Some vs) # calls) p =
     settled_then (part_offer suggestion n vs p) (\<lambda>(p', first).
       settled_then (part_deliver suggestion calls p') (\<lambda>(p'', rest). Settled (p'', first @ rest)))"
| "part_deliver suggestion (Updated n None # calls) p = Type_error"
| "part_deliver suggestion (Cleared n # calls) p = part_deliver suggestion calls p"

definition part_set_available ::
  "('v \<Rightarrow> string) \<Rightarrow> 'v list \<Rightarrow> ('v, 'c) filter_part \<Rightarrow>
    (('v, 'c) filter_part \<times> ('v, 'c) searcher_call list) settled" where
  "part_set_available suggestion vs p =
     (let (source, calls) = property_set (=) (Some vs) (part_source p)
      in part_deliver suggestion calls (p\<lparr>part_source := source\<rparr>))"

text \<open>
  A page's actions are applied to every new searcher, after it has consumed the property.
\<close>

fun listen_all :: "'c list \<Rightarrow> ('v, 'c) searcher \<Rightarrow> ('v, 'c) searcher \<times> ('v, 'c) searcher_call list" where
  "listen_all [] s = (s, [])"
| "listen_all (action # actions) s =
     (let (s', first) = searcher_on_select action s; (s'', rest) = listen_all actions s' in (s'', first @ rest))"

definition part_listen ::
  "'c list \<Rightarrow> ('v, 'c) filter_part \<Rightarrow> ('v, 'c) filter_part \<times> ('v, 'c) searcher_call list" where
  "part_listen actions p =
     (case part_current p of
        None \<Rightarrow> (p, [])
      | Some s \<Rightarrow>
          (let (s', calls) = listen_all actions s
           in (p\<lparr>part_searchers := (part_searchers p)[length (part_searchers p) - 1 := s']\<rparr>, calls)))"

definition part_draw ::
  "('v \<Rightarrow> string) \<Rightarrow> nat \<Rightarrow> ('v, 'c) filter_part \<Rightarrow>
    (('v, 'c) filter_part \<times> ('v, 'c) searcher_call list) settled" where
  "part_draw suggestion style p =
     (if part_style p = Some style \<and> part_searchers p \<noteq> [] then Settled (p, [])
      else
        let s = cached_searcher (=) suggestion (part_initial p) None (part_current p);
            (source, calls) = property_consume (length (part_searchers p)) (part_source p);
            p1 = p\<lparr>part_searchers := part_searchers p @ [s], part_source := source, part_style := Some style\<rparr>
        in settled_then (part_deliver suggestion calls p1) (\<lambda>(p2, first).
             let (p3, rest) = part_listen (part_actions p2) p2 in Settled (p3, first @ rest)))"

definition part_on_filtered ::
  "'c \<Rightarrow> ('v, 'c) filter_part \<Rightarrow> ('v, 'c) filter_part \<times> ('v, 'c) searcher_call list" where
  "part_on_filtered action p = part_listen [action] (p\<lparr>part_actions := part_actions p @ [action]\<rparr>)"

text \<open>The user chooses in the searcher on screen.\<close>

definition part_choose ::
  "string list \<Rightarrow> ('v, 'c) filter_part \<Rightarrow> (('v, 'c) filter_part \<times> ('v, 'c) searcher_call list) settled" where
  "part_choose suggestions p =
     (case part_current p of
        None \<Rightarrow> Settled (p, [])
      | Some s \<Rightarrow>
          settled_then (searcher_select_items (=) suggestions s)
            (\<lambda>(s', calls). Settled
               (p\<lparr>part_searchers := (part_searchers p)[length (part_searchers p) - 1 := s']\<rparr>, calls)))"

definition part_filtered :: "('v, 'c) filter_part \<Rightarrow> 'v list" where
  "part_filtered p =
     (case part_current p of
        None \<Rightarrow> []
      | Some s \<Rightarrow> (case searcher_values s of None \<Rightarrow> [] | Some vs \<Rightarrow> vs))"

definition part_available :: "('v, 'c) filter_part \<Rightarrow> 'v list" where
  "part_available p = (case part_current p of None \<Rightarrow> [] | Some s \<Rightarrow> searcher_available s)"

datatype ('v, 'c) part_op =
  Draw_part nat | Offer_values "'v list" | Choose_values "string list" | On_filtered 'c

fun part_step ::
  "('v \<Rightarrow> string) \<Rightarrow> ('v, 'c) part_op \<Rightarrow> ('v, 'c) filter_part \<Rightarrow>
    (('v, 'c) filter_part \<times> ('v, 'c) searcher_call list) settled" where
  "part_step suggestion (Draw_part style) p = part_draw suggestion style p"
| "part_step suggestion (Offer_values vs) p = part_set_available suggestion vs p"
| "part_step suggestion (Choose_values suggestions) p = part_choose suggestions p"
| "part_step suggestion (On_filtered action) p = Settled (part_on_filtered action p)"

fun part_run ::
  "('v \<Rightarrow> string) \<Rightarrow> ('v, 'c) part_op list \<Rightarrow> ('v, 'c) filter_part \<Rightarrow>
    (('v, 'c) filter_part \<times> ('v, 'c) searcher_call list) settled" where
  "part_run suggestion [] p = Settled (p, [])"
| "part_run suggestion (op # ops) p =
     settled_then (part_step suggestion op p) (\<lambda>(p', first).
       settled_then (part_run suggestion ops p') (\<lambda>(p'', rest). Settled (p'', first @ rest)))"

section \<open>A filter offers what was set last\<close>

text \<open>What became available last: the values of the last \<open>setAvailable\<close>, or those of the construction.\<close>

definition values_offered :: "'v list option \<Rightarrow> ('v, 'c) part_op list \<Rightarrow> 'v list" where
  "values_offered given ops =
     fold (\<lambda>op latest. case op of Offer_values vs \<Rightarrow> vs | _ \<Rightarrow> latest) ops (case given of None \<Rightarrow> [] | Some vs \<Rightarrow> vs)"

definition positions_of :: "'v searcher_item list \<Rightarrow> 'v list \<Rightarrow> nat list" where
  "positions_of items vs = List.map_filter (\<lambda>v. first_index (\<lambda>item. searched_value item = v) items) vs"

lemma positions_bounds: "list_all (\<lambda>i. i < length items) (positions_of items vs)"
  by (auto simp: positions_of_def list_all_iff map_filter_def dest: first_index_Some)

lemma positions_simps [simp]:
  "positions_of items [] = []"
  "positions_of items (v # vs) =
     (case first_index (\<lambda>item. searched_value item = v) items of
        None \<Rightarrow> positions_of items vs
      | Some i \<Rightarrow> i # positions_of items vs)"
  by (auto simp: positions_of_def map_filter_def split: option.split)

lemma positions_short: "length (positions_of items vs) \<le> length vs"
  by (induction vs) (auto split: option.split)

lemma positions_all:
  "set vs \<subseteq> set (map searched_value items) \<Longrightarrow> length (positions_of items vs) = length vs"
  by (induction vs) (auto simp: first_index_None list_all_iff split: option.split)

lemma positions_values:
  "length (positions_of items vs) = length vs \<Longrightarrow> values_at items (positions_of items vs) = Some vs"
proof (induction vs)
  case (Cons v vs)
  then obtain i where i: "first_index (\<lambda>item. searched_value item = v) items = Some i"
    using positions_short [of items vs] by (fastforce split: option.splits)
  with Cons show ?case by (auto simp: js_at_def dest!: first_index_Some)
qed simp

text \<open>A searcher whose indexes are as many as its values notices when it loses one.\<close>

definition searcher_even :: "('v, 'c) searcher \<Rightarrow> bool" where
  "searcher_even s \<longleftrightarrow> map_option length (searcher_indexes s) = map_option length (searcher_values s)"

lemma values_at_length: "values_at items idx = Some vs \<Longrightarrow> length idx = length vs"
  by (simp add: values_at_Some)

lemma consistent_even: "searcher_consistent s \<Longrightarrow> searcher_even s"
  by (auto simp: searcher_consistent_def searcher_even_def dest: values_at_length)

lemma consistent_subset:
  "searcher_consistent s \<Longrightarrow> searcher_values s = Some vs \<Longrightarrow> set vs \<subseteq> set (searched_values s)"
  by (auto simp: searcher_consistent_def values_at_Some searched_values_def list_all_iff)

lemma set_available_settles:
  fixes s :: "('v, 'c) searcher"
  assumes free: "searcher_free s"
  shows "\<exists>s' calls. searcher_set_available (=) (suggested suggestion) vs s = Settled (s', calls) \<and>
    searcher_free s' \<and> searched_values s' = vs \<and>
    (searcher_even s \<or> set (the (searcher_values s)) \<subseteq> set vs \<longrightarrow> searcher_consistent s')"
proof -
  obtain selected idx where selected: "searcher_values s = Some selected" "searcher_indexes s = Some idx"
    using free by (auto simp: searcher_free_def)
  define option_of where "option_of v = \<lparr>searched_value = v, searched_suggestion = suggestion v,
      option_checked = (case property_pending (selected_indexes s) of
          Some indexes \<Rightarrow> item_is_selected (searcher_items s) indexes (suggestion v)
        | None \<Rightarrow> v \<in> set selected)\<rparr>" for v
  define items where "items = map option_of vs"
  have items: "map searched_value items = vs" by (simp add: items_def option_of_def comp_def)
  have set: "searcher_set_available (=) (suggested suggestion) vs s =
      searcher_select_indexes (=) (positions_of items selected) (s\<lparr>searcher_items := items\<rparr>)"
    using selected(1)
    by (simp add: searcher_set_available_def Let_def searcher_values_def suggested_def positions_of_def items_def
        option_of_def [abs_def] cong: option.case_cong)
  let ?s = "s\<lparr>searcher_items := items\<rparr>"
  have s: "searcher_free ?s" "searched_values ?s = vs" "searcher_values ?s = Some selected"
    "searcher_indexes ?s = Some idx" "searcher_items ?s = items"
    using free items selected
    by (simp_all add: searcher_free_def searched_values_def searcher_values_def searcher_indexes_def)
  from indexes_settle [of "(=)" ?s "positions_of items selected"] s(1) positions_bounds [of items selected]
  obtain s' calls where s': "searcher_select_indexes (=) (positions_of items selected) ?s = Settled (s', calls)"
    "searched_values s' = vs" "searcher_free s'"
    "if searcher_indexes ?s = Some (positions_of items selected)
     then s' = stored_indexes (positions_of items selected) ?s else searcher_consistent s'"
    using s(2) by (auto simp: chosen_at_def split: if_splits)
  have "searcher_consistent s'" if "searcher_even s \<or> set selected \<subseteq> set vs"
  proof (cases "searcher_indexes ?s = Some (positions_of items selected)")
    case True
    then have idx: "idx = positions_of items selected" using s by simp
    have "length (positions_of items selected) = length selected"
      using that selected idx positions_all [of selected items] items by (auto simp: searcher_even_def)
    then have "values_at items (positions_of items selected) = Some selected" by (rule positions_values)
    with s' True s show ?thesis by (simp add: searcher_consistent_def)
  next
    case False
    with s'(4) show ?thesis by simp
  qed
  with s' set selected show ?thesis by auto
qed

lemma listen_all_frame:
  "searcher_free s \<Longrightarrow> searcher_free (fst (listen_all actions s))"
  "searched_values (fst (listen_all actions s)) = searched_values s"
  "searcher_consistent (fst (listen_all actions s)) = searcher_consistent s"
proof -
  have "searcher_items (fst (listen_all actions s)) = searcher_items s \<and>
      selected_indexes (fst (listen_all actions s)) = selected_indexes s \<and>
      property_value (searcher_selected (fst (listen_all actions s))) = property_value (searcher_selected s) \<and>
      before_update_consumers (searcher_selected (fst (listen_all actions s))) =
        before_update_consumers (searcher_selected s)"
    by (induction actions arbitrary: s)
      (auto simp: searcher_on_select_def property_consume_def Let_def split_beta)
  then show "searcher_free s \<Longrightarrow> searcher_free (fst (listen_all actions s))"
    "searched_values (fst (listen_all actions s)) = searched_values s"
    "searcher_consistent (fst (listen_all actions s)) = searcher_consistent s"
    by (simp_all add: searcher_free_def searched_values_def searcher_consistent_def searcher_values_def
        searcher_indexes_def)
qed

lemma cached_searcher_facts:
  fixes current :: "('v, 'c) searcher option" and suggestion :: "'v \<Rightarrow> string" and available :: "'v list"
  defines "s \<equiv> cached_searcher (=) suggestion available None current"
  shows "searcher_free s" and "searched_values s = available"
    and "searcher_values s = Some (case current of None \<Rightarrow> [] | Some c \<Rightarrow>
      (case searcher_values c of None \<Rightarrow> [] | Some vs \<Rightarrow> vs))"
    and "set (the (searcher_values s)) \<subseteq> set available \<Longrightarrow> searcher_consistent s"
proof -
  define vs where "vs = (case kept_selection current None of None \<Rightarrow> [] | Some vs \<Rightarrow> vs)"
  have items: "map searched_value (searcher_items s) = available"
    by (rule nth_equalityI)
      (simp_all add: s_def cached_searcher_def new_searcher_def suggested_def Let_def enumerate_eq_zip)
  then show "searched_values s = available" by (simp add: searched_values_def)
  have "first_index (\<lambda>item. item = v) (map searched_value its) =
      first_index (\<lambda>item. searched_value item = v) its" for its :: "'v searcher_item list" and v
    by (induction its) auto
  then have find: "first_index (\<lambda>item. item = v) available =
      first_index (\<lambda>item. searched_value item = v) (searcher_items s)" for v
    by (simp flip: items)
  show kept: "searcher_values s = Some (case current of None \<Rightarrow> [] | Some c \<Rightarrow>
      (case searcher_values c of None \<Rightarrow> [] | Some vs \<Rightarrow> vs))"
    by (auto simp: s_def cached_searcher_def new_searcher_def searcher_values_def new_property_def Let_def
        kept_selection_def split: option.split)
  have vs: "searcher_values s = Some vs"
    unfolding kept by (auto simp: vs_def kept_selection_def split: option.split)
  have "searcher_indexes s = Some (List.map_filter (\<lambda>v. first_index (\<lambda>item. item = v) available) vs)"
    by (auto simp: s_def cached_searcher_def new_searcher_def searcher_indexes_def new_property_def Let_def
        vs_def map_filter_def split: option.split)
  then have idx: "searcher_indexes s = Some (positions_of (searcher_items s) vs)"
    by (simp add: find positions_of_def)
  show "searcher_free s"
    using vs idx by (simp add: searcher_free_def) (simp add: s_def cached_searcher_def new_searcher_def
        new_property_def Let_def)
  show "searcher_consistent s" if "set (the (searcher_values s)) \<subseteq> set available"
  proof -
    have "length (positions_of (searcher_items s) vs) = length vs"
      using that items vs positions_all [of vs "searcher_items s"] by simp
    then show ?thesis using vs idx positions_values [of "searcher_items s" vs] by (simp add: searcher_consistent_def)
  qed
qed

section \<open>Every searcher follows the property\<close>

definition part_ok :: "'v list \<Rightarrow> ('v, 'c) filter_part \<Rightarrow> bool" where
  "part_ok latest p \<longleftrightarrow>
     before_update_consumers (part_source p) = [] \<and>
     after_update_consumers (part_source p) = [0..<length (part_searchers p)] \<and>
     property_value (part_source p) \<in> {None, Some latest} \<and>
     (property_pending (part_source p) = Some latest \<or>
      property_pending (part_source p) = None \<and> latest = part_initial p) \<and>
     list_all searcher_free (part_searchers p) \<and>
     (case part_current p of
        None \<Rightarrow> True
      | Some s \<Rightarrow> searched_values s = latest \<and> searcher_consistent s)"

lemma part_current_frame [simp]:
  "part_current (p\<lparr>part_source := source\<rparr>) = part_current p"
  "part_current (p\<lparr>part_actions := actions\<rparr>) = part_current p"
  by (simp_all add: part_current_def)

lemma part_current_update:
  "n < length (part_searchers p) \<Longrightarrow>
   part_current (p\<lparr>part_searchers := (part_searchers p)[n := s]\<rparr>) =
     (if n = length (part_searchers p) - 1 then Some s else part_current p)"
  by (auto simp: part_current_def last_list_update)

text \<open>
  Delivered to, a searcher offers the new values; the current one stays consistent, or becomes so if its
  selection is among them.
\<close>

definition part_ready :: "'v list \<Rightarrow> ('v, 'c) filter_part \<Rightarrow> bool" where
  "part_ready vs p \<longleftrightarrow> list_all searcher_free (part_searchers p) \<and>
     (case part_current p of
        None \<Rightarrow> True
      | Some s \<Rightarrow> searcher_even s \<or> set (the (searcher_values s)) \<subseteq> set vs)"

text \<open>What the delivery of \<open>vs\<close> to the searchers \<open>ns\<close> changes.\<close>

definition delivered ::
  "'v list \<Rightarrow> nat list \<Rightarrow> ('v, 'c) filter_part \<Rightarrow> ('v, 'c) filter_part \<Rightarrow> bool" where
  "delivered vs ns p p' \<longleftrightarrow>
     part_source p' = part_source p \<and> part_initial p' = part_initial p \<and>
     length (part_searchers p') = length (part_searchers p) \<and> part_ready vs p' \<and>
     (if length (part_searchers p) - 1 \<in> set ns
      then \<exists>s. part_current p' = Some s \<and> searched_values s = vs \<and> searcher_consistent s
      else part_current p' = part_current p)"

lemma part_deliver_settles:
  fixes p :: "('v, 'c) filter_part"
  assumes "part_ready vs p" and "set ns \<subseteq> {..<length (part_searchers p)}"
  shows "\<exists>p' calls. part_deliver suggestion (map (\<lambda>n. Updated n (Some vs)) ns) p = Settled (p', calls) \<and>
    delivered vs ns p p'"
  using assms
proof (induction ns arbitrary: p)
  case Nil
  then show ?case by (simp add: delivered_def)
next
  case (Cons n ns)
  let ?ss = "part_searchers p"
  have n: "n < length ?ss" using Cons.prems by simp
  have free: "searcher_free (?ss ! n)" using Cons.prems n by (simp add: part_ready_def list_all_length)
  from set_available_settles [OF free, of suggestion vs] obtain s' calls where
    s': "searcher_set_available (=) (suggested suggestion) vs (?ss ! n) = Settled (s', calls)"
      "searcher_free s'" "searched_values s' = vs"
      "searcher_even (?ss ! n) \<or> set (the (searcher_values (?ss ! n))) \<subseteq> set vs \<longrightarrow> searcher_consistent s'"
    by auto
  let ?p = "p\<lparr>part_searchers := ?ss[n := s']\<rparr>"
  have offer: "part_offer suggestion n vs p = Settled (?p, calls)"
    using n s'(1) by (simp add: part_offer_def js_at_def)
  have current: "part_current p = Some (?ss ! n)" if "n = length ?ss - 1"
    using that n by (cases ?ss) (simp_all add: part_current_def last_conv_nth)
  have consistent: "searcher_consistent s'" if "n = length ?ss - 1"
    using Cons.prems(1) current [OF that] s'(4) by (simp add: part_ready_def)
  have ready: "part_ready vs ?p"
    using Cons.prems(1) n s'(2) consistent
    by (auto simp: part_ready_def part_current_update list_all_length nth_list_update consistent_even
        split: option.splits)
  from Cons.IH [OF ready] Cons.prems(2) obtain p' calls' where
    "part_deliver suggestion (map (\<lambda>n. Updated n (Some vs)) ns) ?p = Settled (p', calls')" "delivered vs ns ?p p'"
    by auto
  with offer n s'(3) consistent show ?case
    by (auto simp: delivered_def part_current_update split: if_splits)
qed

lemma part_ok_ready: "part_ok latest p \<Longrightarrow> part_ready vs p"
  by (auto simp: part_ok_def part_ready_def consistent_even split: option.splits)

lemma part_current_None: "part_current p = None \<longleftrightarrow> part_searchers p = []"
  by (simp add: part_current_def)

lemma part_set_available_ok:
  assumes ok: "part_ok latest p"
  shows "\<exists>p' calls. part_set_available suggestion vs p = Settled (p', calls) \<and> part_ok vs p'"
proof (cases "property_value (part_source p) = Some vs")
  case True
  with ok show ?thesis
    by (auto simp: part_set_available_def property_set_def part_ok_def part_current_def)
next
  case False
  let ?ss = "part_searchers p"
  have free: "before_update_consumers (part_source p) = []" and
    ns: "after_update_consumers (part_source p) = [0..<length ?ss]"
    using ok by (simp_all add: part_ok_def)
  obtain source where set: "property_set (=) (Some vs) (part_source p) =
      (source, map (\<lambda>n. Updated n (Some vs)) [0..<length ?ss])"
    and source: "property_value source = Some vs" "property_pending source = Some vs"
      "before_update_consumers source = []" "after_update_consumers source = [0..<length ?ss]"
  proof (rule that [of "fst (property_set (=) (Some vs) (part_source p))"])
  qed (use False free ns in \<open>auto simp: property_set_def prevented_def notify_updated_def split: option.split\<close>)
  let ?p = "p\<lparr>part_source := source\<rparr>"
  have ready: "part_ready vs ?p" using part_ok_ready [OF ok, of vs] by (simp add: part_ready_def)
  have range: "set [0..<length ?ss] \<subseteq> {..<length (part_searchers ?p)}" by auto
  from part_deliver_settles [OF ready range, of suggestion] obtain p' calls where
    p': "part_deliver suggestion (map (\<lambda>n. Updated n (Some vs)) [0..<length ?ss]) ?p = Settled (p', calls)"
      "delivered vs [0..<length ?ss] ?p p'"
    by blast
  have "part_current p' = None" if "?ss = []"
    using that p'(2) by (simp add: part_current_None delivered_def)
  moreover have "\<exists>s. part_current p' = Some s \<and> searched_values s = vs \<and> searcher_consistent s" if "?ss \<noteq> []"
  proof -
    have "length ?ss - 1 \<in> set [0..<length ?ss]" using that by simp
    then show ?thesis using p'(2) by (simp add: delivered_def)
  qed
  ultimately have current: "case part_current p' of None \<Rightarrow> True | Some s \<Rightarrow> searched_values s = vs \<and> searcher_consistent s"
    by (cases "?ss = []") auto
  have "part_source p' = source" "length (part_searchers p') = length ?ss" "list_all searcher_free (part_searchers p')"
    using p'(2) by (simp_all add: delivered_def part_ready_def)
  with source current have "part_ok vs p'" by (simp add: part_ok_def)
  with p'(1) show ?thesis by (simp add: part_set_available_def set)
qed

lemma part_listen_ok:
  assumes ok: "part_ok latest p"
  shows "part_ok latest (fst (part_listen actions p))"
proof (cases "part_current p")
  case None
  with ok show ?thesis by (simp add: part_listen_def)
next
  case (Some s)
  let ?ss = "part_searchers p"
  have n: "length ?ss - 1 < length ?ss" using Some by (cases ?ss) (simp_all add: part_current_def)
  have s: "?ss ! (length ?ss - 1) = s" using Some by (auto simp: part_current_def last_conv_nth split: if_splits)
  have "searcher_free s" using ok n s by (auto simp: part_ok_def list_all_length)
  with ok n Some show ?thesis
    by (auto simp: part_listen_def part_ok_def Let_def split_beta part_current_update listen_all_frame
        list_all_length nth_list_update)
qed

lemma part_on_filtered_ok: "part_ok latest p \<Longrightarrow> part_ok latest (fst (part_on_filtered action p))"
  unfolding part_on_filtered_def
  by (rule part_listen_ok) (simp add: part_ok_def)

lemma part_choose_ok:
  assumes ok: "part_ok latest p"
  shows "\<exists>p' calls. part_choose suggestions p = Settled (p', calls) \<and> part_ok latest p'"
proof (cases "part_current p")
  case None
  with ok show ?thesis by (simp add: part_choose_def)
next
  case (Some s)
  let ?ss = "part_searchers p"
  let ?idx = "List.map_filter (\<lambda>suggestion. first_index (\<lambda>item. searched_suggestion item = suggestion)
    (searcher_items s)) suggestions"
  have n: "length ?ss - 1 < length ?ss" using Some by (cases ?ss) (simp_all add: part_current_def)
  have s: "?ss ! (length ?ss - 1) = s" using Some by (auto simp: part_current_def last_conv_nth split: if_splits)
  have free: "searcher_free s" using ok n s by (auto simp: part_ok_def list_all_length)
  have consistent: "searcher_consistent s" "searched_values s = latest"
    using ok Some by (simp_all add: part_ok_def)
  from indexes_settle [of "(=)" s ?idx, OF _ free chosen_bounds]
  obtain s' calls where s': "searcher_select_items (=) suggestions s = Settled (s', calls)"
    "searched_values s' = latest" "searcher_free s'"
    "if searcher_indexes s = Some ?idx then s' = stored_indexes ?idx s else searcher_consistent s'"
    using consistent by (auto simp: searcher_select_items_def chosen_at_def split: if_splits)
  have "searcher_consistent s'"
  proof (cases "searcher_indexes s = Some ?idx")
    case True
    with s'(4) consistent free show ?thesis by (auto simp: searcher_consistent_def)
  next
    case False
    with s'(4) show ?thesis by simp
  qed
  with ok n Some s' show ?thesis
    by (auto simp: part_choose_def part_ok_def part_current_update list_all_length nth_list_update)
qed

lemma part_filtered_latest:
  assumes ok: "part_ok latest p"
  shows "set (part_filtered p) \<subseteq> set latest"
proof (cases "part_current p")
  case (Some s)
  then have "searcher_consistent s" "searched_values s = latest" using ok by (simp_all add: part_ok_def)
  moreover from this obtain vs where "searcher_values s = Some vs" by (auto simp: searcher_consistent_def)
  ultimately show ?thesis using Some consistent_subset [of s vs] by (simp add: part_filtered_def)
qed (simp add: part_filtered_def)

lemma part_filtered_none: "part_searchers p = [] \<Longrightarrow> part_filtered p = []"
  by (simp add: part_filtered_def part_current_def)

lemma part_draw_ok:
  assumes ok: "part_ok latest p"
  shows "\<exists>p' calls. part_draw suggestion style p = Settled (p', calls) \<and> part_ok latest p'"
proof (cases "part_style p = Some style \<and> part_searchers p \<noteq> []")
  case True
  with ok show ?thesis by (simp add: part_draw_def)
next
  case False
  let ?ss = "part_searchers p" and ?s = "cached_searcher (=) suggestion (part_initial p) None (part_current p)"
  let ?source = "fst (property_consume (length ?ss) (part_source p))"
  let ?p = "p\<lparr>part_searchers := ?ss @ [?s], part_source := ?source, part_style := Some style\<rparr>"
  note s = cached_searcher_facts [of suggestion "part_initial p" "part_current p"]
  have current: "part_current ?p = Some ?s" by (simp add: part_current_def)
  have source: "before_update_consumers ?source = []" "after_update_consumers ?source = [0..<Suc (length ?ss)]"
    "property_value ?source = property_value (part_source p)"
    "property_pending ?source = property_pending (part_source p)"
    using ok by (simp_all add: part_ok_def property_consume_def)
  have selection: "set (the (searcher_values ?s)) \<subseteq> set latest"
    using part_filtered_latest [OF ok] by (simp add: s(3) part_filtered_def)
  have drawn: "\<exists>p2 calls. part_deliver suggestion (snd (property_consume (length ?ss) (part_source p))) ?p =
      Settled (p2, calls) \<and> part_ok latest p2"
  proof (cases "property_pending (part_source p)")
    case None
    then have "latest = part_initial p" using ok by (simp add: part_ok_def)
    with selection s have "searcher_consistent ?s" "searched_values ?s = latest" by simp_all
    with ok None source current s(1) show ?thesis
      by (auto simp: property_consume_def part_ok_def)
  next
    case (Some v)
    then have v: "v = latest" using ok by (simp add: part_ok_def)
    have ready: "part_ready latest ?p"
      using ok s(1) selection current by (simp add: part_ready_def part_ok_def)
    from part_deliver_settles [OF ready, of "[length ?ss]" suggestion] obtain p' calls where
      p': "part_deliver suggestion [Updated (length ?ss) (Some latest)] ?p = Settled (p', calls)"
        "delivered latest [length ?ss] ?p p'"
      by auto
    with ok source Some v show ?thesis
      by (auto simp: property_consume_def part_ok_def part_ready_def delivered_def)
  qed
  then obtain p2 calls where "part_deliver suggestion (snd (property_consume (length ?ss) (part_source p))) ?p =
      Settled (p2, calls)" "part_ok latest p2" by blast
  with False part_listen_ok [OF this(2), of "part_actions p2"] show ?thesis
    by (auto simp: part_draw_def Let_def split_beta)
qed

lemma part_step_ok:
  assumes "part_ok latest p"
  shows "\<exists>p' calls. part_step suggestion op p = Settled (p', calls) \<and>
    part_ok (case op of Offer_values vs \<Rightarrow> vs | _ \<Rightarrow> latest) p'"
  using assms part_draw_ok part_choose_ok part_set_available_ok part_on_filtered_ok
  by (cases op) (fastforce simp: prod_eq_iff)+

text \<open>A filter that is offered each value once has each chosen value once.\<close>

definition part_distinct :: "('v, 'c) filter_part \<Rightarrow> bool" where
  "part_distinct p \<longleftrightarrow>
     distinct (part_initial p) \<and> (\<forall>vs. property_pending (part_source p) = Some vs \<longrightarrow> distinct vs) \<and>
     list_all searcher_distinct (part_searchers p)"

lemma part_distinct_lists: "part_distinct p \<Longrightarrow> distinct (part_filtered p) \<and> distinct (part_available p)"
proof -
  assume ok: "part_distinct p"
  show ?thesis
  proof (cases "part_searchers p = []")
    case False
    then have "searcher_distinct (last (part_searchers p))" using ok by (simp add: part_distinct_def list_all_iff)
    with False show ?thesis
      by (auto simp: part_filtered_def part_available_def part_current_def searcher_distinct_def
          searcher_available_def searched_values_def split: option.split)
  qed (simp add: part_filtered_def part_available_def part_current_def)
qed

lemma settled_thenE:
  "settled_then r f = Settled y \<Longrightarrow> (\<And>x. r = Settled x \<Longrightarrow> f x = Settled y \<Longrightarrow> thesis) \<Longrightarrow> thesis"
  by (cases r) simp_all

lemma set_available_distinct:
  assumes ok: "searcher_distinct s" and new: "distinct vs"
    and settled: "searcher_set_available (=) (suggested suggestion) vs s = Settled (s', calls)"
  shows "searcher_distinct s'"
proof -
  obtain selected where selected: "searcher_values s = Some selected"
    using ok by (auto simp: searcher_distinct_def searcher_free_def)
  obtain items where items: "map searched_value items = vs"
    and set: "searcher_set_available (=) (suggested suggestion) vs s =
      searcher_select_indexes (=) (positions_of items selected) (s\<lparr>searcher_items := items\<rparr>)"
  proof (rule that)
    let ?items = "map (\<lambda>v. case suggested suggestion v of (value, suggestion, chosen) \<Rightarrow>
       \<lparr>searched_value = value, searched_suggestion = suggestion,
        option_checked = (case property_pending (selected_indexes s) of
            Some indexes \<Rightarrow> item_is_selected (searcher_items s) indexes suggestion
          | None \<Rightarrow> (case chosen of None \<Rightarrow> v \<in> set selected | Some b \<Rightarrow> b))\<rparr>) vs"
    show "map searched_value ?items = vs" by (simp add: comp_def suggested_def)
    show "searcher_set_available (=) (suggested suggestion) vs s =
      searcher_select_indexes (=) (positions_of ?items selected) (s\<lparr>searcher_items := ?items\<rparr>)"
      using selected by (simp add: searcher_set_available_def Let_def searcher_values_def positions_of_def)
  qed
  have "searcher_distinct (s\<lparr>searcher_items := items\<rparr>)"
    using ok items new
    by (simp add: searcher_distinct_def searcher_free_def searched_values_def searcher_values_def searcher_indexes_def)
  with indexes_keep_distinct [of "s\<lparr>searcher_items := items\<rparr>" "positions_of items selected" s' calls]
    positions_bounds [of items selected] settled set
  show ?thesis by simp
qed

lemma part_deliver_distinct:
  assumes "part_distinct p" and "list_all (\<lambda>call. case call of Updated n (Some vs) \<Rightarrow> distinct vs | _ \<Rightarrow> True) updates"
    and "part_deliver suggestion updates p = Settled (p', calls)"
  shows "part_distinct p' \<and> part_source p' = part_source p \<and> part_initial p' = part_initial p"
  using assms
proof (induction suggestion updates p arbitrary: p' calls rule: part_deliver.induct)
  case (2 suggestion n vs updates p)
  from "2.prems"(3) obtain p1 first rest where
    offer: "part_offer suggestion n vs p = Settled (p1, first)"
    and rest: "part_deliver suggestion updates p1 = Settled (p', rest)"
    by (auto elim!: settled_thenE)
  have p1: "part_distinct p1 \<and> part_source p1 = part_source p \<and> part_initial p1 = part_initial p"
  proof (cases "js_at (part_searchers p) n")
    case None
    with offer "2.prems"(1) show ?thesis by (simp add: part_offer_def)
  next
    case (Some s)
    then have s: "s \<in> set (part_searchers p)" and n: "n < length (part_searchers p)"
      by (auto simp: js_at_def split: if_splits)
    from offer Some obtain s' c where
      s': "searcher_set_available (=) (suggested suggestion) vs s = Settled (s', c)"
        "p1 = p\<lparr>part_searchers := (part_searchers p)[n := s']\<rparr>"
      by (auto simp: part_offer_def elim!: settled_thenE)
    have "searcher_distinct s'"
      by (rule set_available_distinct [OF _ _ s'(1)]) (use "2.prems"(1,2) s in \<open>auto simp: part_distinct_def list_all_iff\<close>)
    with s'(2) n "2.prems"(1) show ?thesis
      by (auto simp: part_distinct_def list_all_length nth_list_update)
  qed
  from "2.IH" [OF _ _ rest] p1 "2.prems"(2) show ?case by simp
qed simp_all

lemma part_set_available_distinct:
  assumes "part_distinct p" and "distinct vs" and "part_set_available suggestion vs p = Settled (p', calls)"
  shows "part_distinct p'"
proof -
  let ?r = "property_set (=) (Some vs) (part_source p)"
  have "part_distinct (p\<lparr>part_source := fst ?r\<rparr>)"
    using assms(1,2) by (auto simp: part_distinct_def property_set_def split: option.splits)
  moreover have "list_all (\<lambda>call. case call of Updated n (Some vs) \<Rightarrow> distinct vs | _ \<Rightarrow> True) (snd ?r)"
    using assms(2) by (auto simp: property_set_def notify_updated_def list_all_iff split: option.splits)
  moreover have "part_deliver suggestion (snd ?r) (p\<lparr>part_source := fst ?r\<rparr>) = Settled (p', calls)"
    using assms(3) by (simp add: part_set_available_def split_beta)
  ultimately show ?thesis using part_deliver_distinct by blast
qed

lemma listen_all_distinct [simp]: "searcher_distinct (fst (listen_all actions s)) = searcher_distinct s"
proof -
  have "before_update_consumers (searcher_selected (fst (listen_all actions s))) = before_update_consumers (searcher_selected s) \<and>
      selected_indexes (fst (listen_all actions s)) = selected_indexes s \<and>
      searcher_items (fst (listen_all actions s)) = searcher_items s \<and>
      property_value (searcher_selected (fst (listen_all actions s))) = property_value (searcher_selected s)"
    by (induction actions arbitrary: s)
      (simp_all add: searcher_on_select_def property_consume_def Let_def split_beta)
  then show ?thesis
    by (simp add: searcher_distinct_def searcher_free_def searched_values_def searcher_values_def searcher_indexes_def)
qed

lemma part_listen_distinct:
  assumes "part_distinct p"
  shows "part_distinct (fst (part_listen actions p))"
proof (cases "part_searchers p = []")
  case False
  then have "searcher_distinct (last (part_searchers p))" using assms by (simp add: part_distinct_def list_all_iff)
  with assms False show ?thesis
    by (auto simp: part_listen_def part_current_def part_distinct_def Let_def split_beta list_all_length nth_list_update)
qed (use assms in \<open>simp add: part_listen_def part_current_def\<close>)

lemma part_on_filtered_distinct: "part_distinct p \<Longrightarrow> part_distinct (fst (part_on_filtered action p))"
  unfolding part_on_filtered_def by (rule part_listen_distinct) (simp add: part_distinct_def)

lemma part_choose_distinct:
  assumes "part_distinct p" and "part_choose suggestions p = Settled (p', calls)"
  shows "part_distinct p'"
proof (cases "part_current p")
  case None
  with assms show ?thesis by (simp add: part_choose_def)
next
  case (Some s)
  then have s: "searcher_distinct s"
    using assms(1) by (auto simp: part_current_def part_distinct_def list_all_iff split: if_splits)
  from assms(2) Some obtain s' c where
    s': "searcher_select_items (=) suggestions s = Settled (s', c)"
      "p' = p\<lparr>part_searchers := (part_searchers p)[length (part_searchers p) - 1 := s']\<rparr>"
    by (auto simp: part_choose_def elim!: settled_thenE)
  from indexes_keep_distinct [OF s chosen_bounds s'(1) [unfolded searcher_select_items_def]] have "searcher_distinct s'"
    by simp
  with s'(2) assms(1) show ?thesis by (auto simp: part_distinct_def list_all_length nth_list_update)
qed

lemma part_draw_distinct:
  assumes "part_distinct p" and "part_draw suggestion style p = Settled (p', calls)"
  shows "part_distinct p'"
proof (cases "part_style p = Some style \<and> part_searchers p \<noteq> []")
  case True
  with assms show ?thesis by (simp add: part_draw_def)
next
  case False
  let ?s = "cached_searcher (=) suggestion (part_initial p) None (part_current p) :: ('a, 'b) searcher"
  let ?r = "property_consume (length (part_searchers p)) (part_source p)"
  let ?p1 = "p\<lparr>part_searchers := part_searchers p @ [?s], part_source := fst ?r, part_style := Some style\<rparr>"
  note s = cached_searcher_facts [of suggestion "part_initial p" "part_current p"]
  have "distinct (part_filtered p)" using part_distinct_lists [OF assms(1)] by simp
  then have "searcher_distinct ?s"
    using s(1-3) assms(1) by (simp add: searcher_distinct_def part_distinct_def part_filtered_def split: option.splits)
  then have "part_distinct ?p1"
    using assms(1) by (auto simp: part_distinct_def property_consume_def Let_def)
  moreover have "list_all (\<lambda>call. case call of Updated n (Some vs) \<Rightarrow> distinct vs | _ \<Rightarrow> True) (snd ?r)"
    using assms(1) by (auto simp: property_consume_def part_distinct_def list_all_iff split: option.splits)
  moreover from assms(2) False obtain p2 first where
    p2: "part_deliver suggestion (snd ?r) ?p1 = Settled (p2, first)"
      "p' = fst (part_listen (part_actions p2) p2)"
    by (auto simp: part_draw_def Let_def split_beta elim!: settled_thenE)
  ultimately have "part_distinct p2" using part_deliver_distinct by blast
  then show ?thesis unfolding p2(2) by (rule part_listen_distinct)
qed

text \<open>
  C30. Whatever the order of drawings in changing styles, offers of new values, choices of the user and new
  actions, the filter settles; its searcher offers the values that were set last, also when it was made after
  they were set, and the filter keeps only values among them, so that no request of a page asks for a value
  that is no longer on offer.
\<close>
theorem filter_offers_latest:
  "\<exists>p calls. part_run suggestion ops (new_filter_part given :: ('v, 'c) filter_part) = Settled (p, calls) \<and>
    part_available p = (if part_searchers p = [] then [] else values_offered given ops) \<and>
    set (part_filtered p) \<subseteq> set (part_available p)"
proof -
  have run: "\<exists>p' calls. part_run suggestion ops p = Settled (p', calls) \<and>
      part_ok (fold (\<lambda>op latest. case op of Offer_values vs \<Rightarrow> vs | _ \<Rightarrow> latest) ops latest) p'"
    if "part_ok latest p" for p :: "('v, 'c) filter_part" and latest
    using that
  proof (induction ops arbitrary: p latest)
    case (Cons op ops)
    from part_step_ok [OF Cons.prems, of suggestion op] obtain p1 first where
      p1: "part_step suggestion op p = Settled (p1, first)"
        "part_ok (case op of Offer_values vs \<Rightarrow> vs | _ \<Rightarrow> latest) p1" by blast
    from Cons.IH [OF p1(2)] p1(1) show ?case by auto
  qed auto
  have new: "part_ok (case given of None \<Rightarrow> [] | Some vs \<Rightarrow> vs) (new_filter_part given :: ('v, 'c) filter_part)"
    by (auto simp: part_ok_def new_filter_part_def new_property_def part_current_def split: option.split)
  from run [OF new] obtain p :: "('v, 'c) filter_part" and calls where
    p: "part_run suggestion ops (new_filter_part given) = Settled (p, calls)" "part_ok (values_offered given ops) p"
    by (auto simp: values_offered_def)
  have "part_available p = (if part_searchers p = [] then [] else values_offered given ops)"
    using p(2) by (auto simp: part_available_def part_ok_def searcher_available_def searched_values_def part_current_def)
  moreover have "set (part_filtered p) \<subseteq> set (part_available p)"
    using part_filtered_latest [OF p(2)] calculation
    by (cases "part_searchers p = []") (simp_all add: part_filtered_none)
  ultimately show ?thesis using p(1) by blast
qed

section \<open>The filter of a page\<close>

record filter_flags =
  filter_projects :: bool
  filter_profiles :: bool
  filter_versions :: bool
  filter_names :: bool
  filter_modules :: bool
  filter_states :: bool

text \<open>
  The checkboxes of the states are kept in the order of their first drawing, each with its check mark.
\<close>

record 'c page_filter =
  pf_projects :: "(project, 'c) filter_part"
  pf_versions :: "(string, 'c) filter_part"
  pf_names :: "(string, 'c) filter_part"
  pf_profiles :: "(string, 'c) filter_part"
  pf_modules :: "(module_information, 'c) filter_part"
  pf_groups :: "filterable_state list list"
  pf_checks :: "(string \<times> bool) list"
  pf_states :: "(string list, 'c) property"

definition new_page_filter :: "filterable_state list list \<Rightarrow> 'c page_filter" where
  "new_page_filter groups =
     \<lparr>pf_projects = new_filter_part None, pf_versions = new_filter_part None, pf_names = new_filter_part None,
      pf_profiles = new_filter_part None, pf_modules = new_filter_part None, pf_groups = groups, pf_checks = [],
      pf_states = new_property (Some [])\<rparr>"

text \<open>The actions of the page that the calls of a searcher reach, in order.\<close>

definition actions_called :: "('v, 'c) searcher_call list \<Rightarrow> 'c list" where
  "actions_called calls =
     List.map_filter (\<lambda>call. case call of Values_call (Updated action _) \<Rightarrow> Some action | _ \<Rightarrow> None) calls"

definition on_projects ::
  "((project, 'c) filter_part \<Rightarrow> ((project, 'c) filter_part \<times> (project, 'c) searcher_call list) settled) \<Rightarrow>
    'c page_filter \<Rightarrow> ('c page_filter \<times> 'c list) settled" where
  "on_projects f pf =
     settled_then (f (pf_projects pf)) (\<lambda>(p, calls). Settled (pf\<lparr>pf_projects := p\<rparr>, actions_called calls))"

definition on_versions ::
  "((string, 'c) filter_part \<Rightarrow> ((string, 'c) filter_part \<times> (string, 'c) searcher_call list) settled) \<Rightarrow>
    'c page_filter \<Rightarrow> ('c page_filter \<times> 'c list) settled" where
  "on_versions f pf =
     settled_then (f (pf_versions pf)) (\<lambda>(p, calls). Settled (pf\<lparr>pf_versions := p\<rparr>, actions_called calls))"

definition on_names ::
  "((string, 'c) filter_part \<Rightarrow> ((string, 'c) filter_part \<times> (string, 'c) searcher_call list) settled) \<Rightarrow>
    'c page_filter \<Rightarrow> ('c page_filter \<times> 'c list) settled" where
  "on_names f pf =
     settled_then (f (pf_names pf)) (\<lambda>(p, calls). Settled (pf\<lparr>pf_names := p\<rparr>, actions_called calls))"

definition on_profiles ::
  "((string, 'c) filter_part \<Rightarrow> ((string, 'c) filter_part \<times> (string, 'c) searcher_call list) settled) \<Rightarrow>
    'c page_filter \<Rightarrow> ('c page_filter \<times> 'c list) settled" where
  "on_profiles f pf =
     settled_then (f (pf_profiles pf)) (\<lambda>(p, calls). Settled (pf\<lparr>pf_profiles := p\<rparr>, actions_called calls))"

definition on_modules ::
  "((module_information, 'c) filter_part \<Rightarrow>
      ((module_information, 'c) filter_part \<times> (module_information, 'c) searcher_call list) settled) \<Rightarrow>
    'c page_filter \<Rightarrow> ('c page_filter \<times> 'c list) settled" where
  "on_modules f pf =
     settled_then (f (pf_modules pf)) (\<lambda>(p, calls). Settled (pf\<lparr>pf_modules := p\<rparr>, actions_called calls))"

definition set_available_projects :: "project list \<Rightarrow> 'c page_filter \<Rightarrow> ('c page_filter \<times> 'c list) settled" where
  "set_available_projects vs = on_projects (part_set_available project_name vs)"

definition set_available_versions :: "string list \<Rightarrow> 'c page_filter \<Rightarrow> ('c page_filter \<times> 'c list) settled" where
  "set_available_versions vs = on_versions (part_set_available (\<lambda>s. s) vs)"

definition set_available_names :: "string list \<Rightarrow> 'c page_filter \<Rightarrow> ('c page_filter \<times> 'c list) settled" where
  "set_available_names vs = on_names (part_set_available (\<lambda>s. s) vs)"

definition set_available_profiles :: "string list \<Rightarrow> 'c page_filter \<Rightarrow> ('c page_filter \<times> 'c list) settled" where
  "set_available_profiles vs = on_profiles (part_set_available (\<lambda>s. s) vs)"

definition set_available_modules ::
  "module_information list \<Rightarrow> 'c page_filter \<Rightarrow> ('c page_filter \<times> 'c list) settled" where
  "set_available_modules vs = on_modules (part_set_available mod_name vs)"

definition on_projects_filtered :: "'c \<Rightarrow> 'c page_filter \<Rightarrow> ('c page_filter \<times> 'c list) settled" where
  "on_projects_filtered action = on_projects (\<lambda>p. Settled (part_on_filtered action p))"

definition on_versions_filtered :: "'c \<Rightarrow> 'c page_filter \<Rightarrow> ('c page_filter \<times> 'c list) settled" where
  "on_versions_filtered action = on_versions (\<lambda>p. Settled (part_on_filtered action p))"

definition on_names_filtered :: "'c \<Rightarrow> 'c page_filter \<Rightarrow> ('c page_filter \<times> 'c list) settled" where
  "on_names_filtered action = on_names (\<lambda>p. Settled (part_on_filtered action p))"

definition on_profiles_filtered :: "'c \<Rightarrow> 'c page_filter \<Rightarrow> ('c page_filter \<times> 'c list) settled" where
  "on_profiles_filtered action = on_profiles (\<lambda>p. Settled (part_on_filtered action p))"

definition on_modules_filtered :: "'c \<Rightarrow> 'c page_filter \<Rightarrow> ('c page_filter \<times> 'c list) settled" where
  "on_modules_filtered action = on_modules (\<lambda>p. Settled (part_on_filtered action p))"

definition property_actions :: "('v, 'c) property_call list \<Rightarrow> 'c list" where
  "property_actions calls = List.map_filter (\<lambda>call. case call of Updated action _ \<Rightarrow> Some action | _ \<Rightarrow> None) calls"

definition on_states_filtered :: "'c \<Rightarrow> 'c page_filter \<Rightarrow> 'c page_filter \<times> 'c list" where
  "on_states_filtered action pf =
     (let (p, calls) = property_consume action (pf_states pf) in (pf\<lparr>pf_states := p\<rparr>, property_actions calls))"

definition filtered_projects :: "'c page_filter \<Rightarrow> project list" where
  "filtered_projects pf = part_filtered (pf_projects pf)"
definition available_projects :: "'c page_filter \<Rightarrow> project list" where
  "available_projects pf = part_available (pf_projects pf)"
definition filtered_versions :: "'c page_filter \<Rightarrow> string list" where
  "filtered_versions pf = part_filtered (pf_versions pf)"
definition available_versions :: "'c page_filter \<Rightarrow> string list" where
  "available_versions pf = part_available (pf_versions pf)"
definition filtered_names :: "'c page_filter \<Rightarrow> string list" where
  "filtered_names pf = part_filtered (pf_names pf)"
definition available_names :: "'c page_filter \<Rightarrow> string list" where
  "available_names pf = part_available (pf_names pf)"
definition filtered_profiles :: "'c page_filter \<Rightarrow> string list" where
  "filtered_profiles pf = part_filtered (pf_profiles pf)"
definition available_profiles :: "'c page_filter \<Rightarrow> string list" where
  "available_profiles pf = part_available (pf_profiles pf)"
definition filtered_modules :: "'c page_filter \<Rightarrow> module_information list" where
  "filtered_modules pf = part_filtered (pf_modules pf)"
definition available_modules :: "'c page_filter \<Rightarrow> module_information list" where
  "available_modules pf = part_available (pf_modules pf)"
definition filtered_states :: "'c page_filter \<Rightarrow> string list" where
  "filtered_states pf = (case property_value (pf_states pf) of None \<Rightarrow> [] | Some states \<Rightarrow> states)"

text \<open>Drawing: the kinds that are asked for, from top to bottom; the states get a checkbox once.\<close>

definition draw_states :: "'c page_filter \<Rightarrow> 'c page_filter" where
  "draw_states pf =
     pf\<lparr>pf_checks := fold (\<lambda>state checks.
         if filterable_state_id state \<in> fst ` set checks then checks
         else checks @ [(filterable_state_id state, False)]) (concat (pf_groups pf)) (pf_checks pf)\<rparr>"

definition and_then ::
  "('c page_filter \<Rightarrow> ('c page_filter \<times> 'c list) settled) \<Rightarrow> bool \<Rightarrow> ('c page_filter \<times> 'c list) settled \<Rightarrow>
    ('c page_filter \<times> 'c list) settled" where
  "and_then f flag r =
     (if flag
      then settled_then r (\<lambda>(pf, first). settled_then (f pf) (\<lambda>(pf', rest). Settled (pf', first @ rest)))
      else r)"

definition draw_filter :: "filter_flags \<Rightarrow> nat \<Rightarrow> 'c page_filter \<Rightarrow> ('c page_filter \<times> 'c list) settled" where
  "draw_filter flags style pf =
     and_then (\<lambda>pf. Settled (draw_states pf, [])) (filter_states flags)
       (and_then (on_modules (part_draw mod_name style)) (filter_modules flags)
       (and_then (on_profiles (part_draw (\<lambda>s. s) style)) (filter_profiles flags)
       (and_then (on_names (part_draw (\<lambda>s. s) style)) (filter_names flags)
       (and_then (on_versions (part_draw (\<lambda>s. s) style)) (filter_versions flags)
       (and_then (on_projects (part_draw project_name style)) (filter_projects flags) (Settled (pf, [])))))))"

definition check_state :: "string \<Rightarrow> bool \<Rightarrow> 'c page_filter \<Rightarrow> 'c page_filter \<times> 'c list" where
  "check_state state mark pf =
     (if map_of (pf_checks pf) state = Some (\<not> mark)
      then
        let checks = map (\<lambda>(s, b). if s = state then (s, mark) else (s, b)) (pf_checks pf);
            (p, calls) = property_set (=) (Some (map fst (filter snd checks))) (pf_states pf)
        in (pf\<lparr>pf_checks := checks, pf_states := p\<rparr>, property_actions calls)
      else (pf, []))"

text \<open>The states filtered by are the checked ones, in the order of the checkboxes.\<close>

definition states_ok :: "'c page_filter \<Rightarrow> bool" where
  "states_ok pf \<longleftrightarrow> before_update_consumers (pf_states pf) = [] \<and>
     filtered_states pf = map fst (filter snd (pf_checks pf))"

lemma states_ok_ops:
  "states_ok (new_page_filter groups)"
  "states_ok pf \<Longrightarrow> states_ok (draw_states pf)"
  "states_ok pf \<Longrightarrow> states_ok (fst (check_state state mark pf))"
proof -
  show "states_ok (new_page_filter groups)"
    by (simp add: states_ok_def new_page_filter_def filtered_states_def new_property_def)
  have "filter snd (fold (\<lambda>state checks.
         if filterable_state_id state \<in> fst ` set checks then checks
         else checks @ [(filterable_state_id state, False)]) ss checks) = filter snd checks" for ss :: "filterable_state list" and checks
    by (induction ss arbitrary: checks) auto
  then show "states_ok pf \<Longrightarrow> states_ok (draw_states pf)"
    by (simp add: states_ok_def draw_states_def filtered_states_def)
  show "states_ok pf \<Longrightarrow> states_ok (fst (check_state state mark pf))"
    by (auto simp: states_ok_def check_state_def filtered_states_def Let_def split_beta property_set_def
        prevented_def split: option.splits)
qed

end
