(* ===== verification/Entity_Cards.thy ===== *)
theory Entity_Cards
  imports Catalog Api Samples
begin

text \<open>
  The cards of modules and assemblies, \<open>component/embeddable/module/ModuleCard.tsx\<close> and
  \<open>component/embeddable/assembly/AssemblyCard.tsx\<close>, with \<open>calculator/DurationCalculator.ts\<close>. A card starts with the
  entity of the page's listing, loads the entity in full when it is expanded and follows the entity's stream
  while it is mounted. What it shows is what its avatar, menu and attributes were last set to; icons, tooltips
  and texts are constructors.
\<close>

section \<open>Shared parts of cards\<close>

datatype card_avatar =
    Progress_avatar colour
  | Primary_progress
  | Letter_avatar "char option" colour
  | Failed_icon | Canceled_icon | Done_icon

record ('b, 'a) card_view =
  view_avatar :: card_avatar
  view_menu :: "'b list"
  view_attributes :: "'a list"
  view_expanded :: bool

datatype card_dialog = Updating_dialog | Cloning_dialog | Logs_dialog | Modules_dialog

text \<open>The answer to a request of a card, with the dialog it opens once it is there.\<close>

datatype card_callback = Entity_loaded "card_dialog option"

datatype card_effect =
    Card_call "card_callback api_call"
  | Spawned card_dialog
  | Attributes_failed
  | Logs_loading bool

text \<open>Avatar and menu are set before the attributes are computed, which may fail.\<close>

definition refresh_view ::
  "card_avatar \<Rightarrow> 'b list \<Rightarrow> 'a list option \<Rightarrow> ('b, 'a) card_view \<Rightarrow> ('b, 'a) card_view \<times> card_effect list" where
  "refresh_view avatar menu attributes v =
     (case attributes of
        None \<Rightarrow> (v\<lparr>view_avatar := avatar, view_menu := menu\<rparr>, [Attributes_failed])
      | Some a \<Rightarrow> (v\<lparr>view_avatar := avatar, view_menu := menu, view_attributes := a\<rparr>, []))"

text \<open>A new card is kept only if its attributes could be computed.\<close>

definition first_view ::
  "card_avatar \<Rightarrow> 'b list \<Rightarrow> 'a list option \<Rightarrow> bool \<Rightarrow> ('b, 'a) card_view option \<times> card_effect list" where
  "first_view avatar menu attributes expanded =
     (case attributes of
        None \<Rightarrow> (None, [Attributes_failed])
      | Some a \<Rightarrow>
          (Some \<lparr>view_avatar = avatar, view_menu = menu, view_attributes = a, view_expanded = expanded\<rparr>, []))"

definition with_view ::
  "(('b, 'a) card_view \<Rightarrow> ('b, 'a) card_view \<times> card_effect list) \<Rightarrow> ('b, 'a) card_view option \<Rightarrow>
    ('b, 'a) card_view option \<times> card_effect list" where
  "with_view f view =
     (case view of None \<Rightarrow> (None, []) | Some v \<Rightarrow> (let (v', effects) = f v in (Some v', effects)))"

section \<open>Module card\<close>

datatype module_button =
    Clone_button | Delete_button | Refresh_button | Refresh_and_launch_button | Change_button
  | Restart_button | Launch_button | Stop_button | Uninstall_button | Reinstall_button

datatype card_attribute =
    Project_attribute string
  | Url_attribute string
  | Url_port_attribute port_mapping
  | Ports_attribute "port_mapping list"
  | Count_attribute int
  | Version_attribute string
  | Artifact_attribute assembled_artifact
  | Resource_attribute resource_identifier
  | External_attribute string
  | Internal_ip_attribute string
  | Parameters_attribute "string list"
  | Update_attribute int
  | Configurations_attribute "prepared_configuration_identifier list" "string_file list"
  | Files_attribute "platform_file_identifier list"
  | Applications_attribute "application_identifier list"
  | State_attribute module_label string

record module_card =
  mc_project :: project
  mc_given :: module_information
  mc_modules :: "module_information list"
  mc_given_expanded :: bool
  mc_loaded :: "module_full option"
  mc_theme :: palette
  mc_view :: "(module_button, card_attribute) card_view option"
  mc_created :: bool
  mc_mounted :: bool
  mc_spawned :: "card_dialog list"
  mc_deleting :: bool

definition new_module_card :: "project \<Rightarrow> module_information \<Rightarrow> module_information list \<Rightarrow> module_card" where
  "new_module_card project module modules =
     \<lparr>mc_project = project, mc_given = module, mc_modules = modules, mc_given_expanded = False, mc_loaded = None,
      mc_theme = Light, mc_view = None, mc_created = True, mc_mounted = False, mc_spawned = [], mc_deleting = False\<rparr>"

definition module_card_key :: "module_card \<Rightarrow> int" where
  "module_card_key c = mod_id (mc_given c)"

text \<open>The information of a listing is a module whose own fields are \<open>undefined\<close>.\<close>

definition as_module :: "module_information \<Rightarrow> module_full" where
  "as_module information = module_information.extend information (module_full.fields None None)"

definition current_module :: "module_card \<Rightarrow> module_full" where
  "current_module c = (case mc_loaded c of None \<Rightarrow> as_module (mc_given c) | Some m \<Rightarrow> m)"

definition module_avatar :: "module_full \<Rightarrow> palette \<Rightarrow> card_avatar" where
  "module_avatar m theme =
     (if mod_state m \<in>
        {MODULE_INSTALLING_STATE, MODULE_INSTALLATION_STARTED_STATE, MODULE_UPDATE_STARTED_STATE,
         MODULE_STOP_STARTED_STATE, MODULE_RESTART_STARTED_STATE, MODULE_UNINSTALL_STARTED_STATE,
         MODULE_UPDATING_STATE, MODULE_STOPPING_STATE, MODULE_RESTARTING_STATE, MODULE_UNINSTALLING_STATE}
      then Progress_avatar (calculate_module_state_color (mod_state m) theme)
      else Letter_avatar (js_at (mod_name m) 0) (calculate_module_state_color (mod_state m) theme))"

definition module_menu :: "module_full \<Rightarrow> module_button list" where
  "module_menu m =
     (if mod_state m \<in>
        {MODULE_INSTALLATION_STARTED_STATE, MODULE_UPDATE_STARTED_STATE, MODULE_STOP_STARTED_STATE,
         MODULE_RESTART_STARTED_STATE, MODULE_UNINSTALL_STARTED_STATE, MODULE_UPDATING_STATE,
         MODULE_STOPPING_STATE, MODULE_RESTARTING_STATE, MODULE_UNINSTALLING_STATE, MODULE_INSTALLING_STATE}
      then [Clone_button, Delete_button]
      else if mod_state m = MODULE_RUN_STATE
      then [Clone_button, Refresh_button, Change_button, Restart_button, Stop_button, Uninstall_button,
            Delete_button]
      else if mod_state m = MODULE_STOPPED_STATE
      then [Clone_button, Launch_button, Change_button, Refresh_and_launch_button, Uninstall_button, Delete_button]
      else if mod_state m = MODULE_NOT_INSTALLED_STATE
      then [Clone_button, Change_button, Reinstall_button, Delete_button]
      else [Clone_button, Change_button, Reinstall_button, Uninstall_button, Delete_button])"

text \<open>\<open>parameters.trim().split(SPACE).filter(parameter => parameter.trim())\<close>.\<close>

definition js_space :: "char \<Rightarrow> bool" where
  "js_space c = (of_char c \<in> {9, 10, 11, 12, 13, 32, 160 :: nat})"

definition js_trim :: "string \<Rightarrow> string" where
  "js_trim s = rev (dropWhile js_space (rev (dropWhile js_space s)))"

fun split_at_char :: "char \<Rightarrow> string \<Rightarrow> string list" where
  "split_at_char c [] = [[]]"
| "split_at_char c (x # xs) =
     (if x = c then [] # split_at_char c xs
      else case split_at_char c xs of [] \<Rightarrow> [[x]] | part # parts \<Rightarrow> (x # part) # parts)"

definition shown_parameters :: "string \<Rightarrow> string list" where
  "shown_parameters parameters =
     filter (\<lambda>parameter. js_trim parameter \<noteq> []) (split_at_char CHR '' '' (js_trim parameters))"

text \<open>
  The attributes, where \<open>None\<close> is the type error of reading a member of \<open>undefined\<close>. The test \<open>if (module)\<close>
  reads the global of that name, which the bundler defines: \<open>bundled\<close> says whether it does.
\<close>

definition url_port_of :: "module_full \<Rightarrow> int option" where
  "url_port_of m = (case mod_url m of None \<Rightarrow> None | Some url \<Rightarrow> url_port url)"

definition url_attributes :: "module_full \<Rightarrow> card_attribute list" where
  "url_attributes m =
     (let port = (case mod_port_mappings m of
            None \<Rightarrow> None
          | Some mappings \<Rightarrow> find (\<lambda>mapping. Some (port_mapping_internal_port mapping) = url_port_of m) mappings);
          url = (case mod_url m of None \<Rightarrow> None | Some url \<Rightarrow> url_url url)
      in if mod_state m \<noteq> MODULE_INSTALLING_STATE \<and> truthy_string url \<and> port \<noteq> None
         then [Url_attribute (the url), Url_port_attribute (the port)] else [])"

definition configuration_attributes :: "module_full \<Rightarrow> card_attribute list option" where
  "configuration_attributes m =
     (if is_not_empty_array (mod_prepared_configurations m) \<or> is_not_empty_array (mod_manual_configurations m)
      then case mod_prepared_configurations m of
          None \<Rightarrow> None
        | Some prepared \<Rightarrow>
            (case mod_manual_configurations m of
               None \<Rightarrow> None
             | Some manual \<Rightarrow> Some [Configurations_attribute prepared manual])
      else Some [])"

definition module_attributes :: "bool \<Rightarrow> project \<Rightarrow> module_full \<Rightarrow> card_attribute list option" where
  "module_attributes bundled project m =
     (case mod_port_mappings m of
        None \<Rightarrow> None
      | Some mappings \<Rightarrow>
          (let ports = filter (\<lambda>mapping. Some (port_mapping_internal_port mapping) \<noteq> url_port_of m) mappings
           in map_option (\<lambda>configurations.
             [Project_attribute (project_name project)] @
             url_attributes m @
             (if is_not_empty_array (Some ports) then [Ports_attribute ports] else []) @
             (if bundled
              then [Count_attribute (mod_count m), Version_attribute (artifact_version (mod_artifact m)),
                    Artifact_attribute (mod_artifact m)] else []) @
             (case (mod_external_id m, mod_resource_id m) of
                (Some external, Some resource) \<Rightarrow>
                  [Resource_attribute resource, External_attribute (eid_id external)]
              | _ \<Rightarrow> []) @
             (if mod_internal_ip m \<noteq> [] then [Internal_ip_attribute (mod_internal_ip m)] else []) @
             (if truthy_string (mod_parameters m)
              then [Parameters_attribute (shown_parameters (the (mod_parameters m)))] else []) @
             (case mod_update_time_stamp m of
                None \<Rightarrow> []
              | Some t \<Rightarrow> if t = 0 then [] else [Update_attribute t]) @
             configurations @
             (if is_not_empty_array (mod_additional_files m) then [Files_attribute (the (mod_additional_files m))]
              else []) @
             (if is_not_empty_array (mod_applications m)
              then [Applications_attribute (map module_application_application_id (the (mod_applications m)))]
              else []) @
             [State_attribute (translate_module_state_to_human (mod_state m))
               (calculate_module_state_chip_styles (mod_state m))])
             (configuration_attributes m)))"

text \<open>The consumer of the loaded module; the first rendering runs \<open>onLoad\<close>, and again as long as it fails, a later one
  only subscribes; the change of the theme leaves the menu alone.\<close>

definition refresh_module_card :: "bool \<Rightarrow> module_card \<Rightarrow> module_card \<times> card_effect list" where
  "refresh_module_card bundled c =
     (let m = current_module c;
          (view, effects) = with_view (refresh_view (module_avatar m (mc_theme c)) (module_menu m)
            (module_attributes bundled (mc_project c) m)) (mc_view c)
      in (c\<lparr>mc_view := view\<rparr>, effects))"

definition set_module :: "bool \<Rightarrow> module_full \<Rightarrow> module_card \<Rightarrow> module_card \<times> card_effect list" where
  "set_module bundled m c =
     (if mc_loaded c = Some m then (c, []) else refresh_module_card bundled (c\<lparr>mc_loaded := Some m\<rparr>))"

definition mount_module_card :: "bool \<Rightarrow> palette \<Rightarrow> module_card \<Rightarrow> module_card \<times> card_effect list" where
  "mount_module_card bundled theme c =
     (if mc_created c
      then
        let m = current_module c;
            (view, effects) = first_view (module_avatar m theme) (module_menu m)
              (module_attributes bundled (mc_project c) m) (mc_given_expanded c)
        in (if view = None then c\<lparr>mc_theme := theme\<rparr>
            else c\<lparr>mc_theme := theme, mc_created := False, mc_mounted := True, mc_view := view\<rparr>, effects)
      else (c\<lparr>mc_theme := theme, mc_mounted := True\<rparr>, []))"

definition module_theme_changed :: "bool \<Rightarrow> palette \<Rightarrow> module_card \<Rightarrow> module_card \<times> card_effect list" where
  "module_theme_changed bundled theme c =
     (let m = current_module c;
          (view, effects) = with_view (\<lambda>v. refresh_view (module_avatar m theme) (view_menu v)
            (module_attributes bundled (mc_project c) m) v) (mc_view c)
      in (c\<lparr>mc_view := view\<rparr>, effects))"

definition load_module :: "card_dialog option \<Rightarrow> module_card \<Rightarrow> module_card \<times> card_effect list" where
  "load_module completion c =
     (if mc_loaded c \<noteq> None then (c, [])
      else (c, [Card_call (api_get_module (mod_id (mc_given c)) (Entity_loaded completion))]))"

definition spawn_dialog :: "card_dialog \<Rightarrow> module_card \<Rightarrow> module_card \<times> card_effect list" where
  "spawn_dialog d c = (c\<lparr>mc_spawned := d # mc_spawned c\<rparr>, [Spawned d])"

definition start_updating :: "module_card \<Rightarrow> module_card \<times> card_effect list" where
  "start_updating c =
     (if mc_loaded c = None then load_module (Some Updating_dialog) c else spawn_dialog Updating_dialog c)"

definition start_cloning :: "module_card \<Rightarrow> module_card \<times> card_effect list" where
  "start_cloning c =
     (if mc_loaded c = None then load_module (Some Cloning_dialog) c else spawn_dialog Cloning_dialog c)"

text \<open>The answer of \<open>getModule\<close>: the module is set, and what was to follow follows.\<close>

definition module_answered ::
  "bool \<Rightarrow> card_dialog option \<Rightarrow> module_full \<Rightarrow> module_card \<Rightarrow> module_card \<times> card_effect list" where
  "module_answered bundled completion m c =
     (let (c1, shown) = set_module bundled m c
      in if Attributes_failed \<in> set shown then (c1, shown)
         else case completion of
             None \<Rightarrow> (c1, shown)
           | Some d \<Rightarrow> (let (c2, spawned) = spawn_dialog d c1 in (c2, shown @ spawned)))"

definition expand_module_card :: "bool \<Rightarrow> module_card \<Rightarrow> module_card \<times> card_effect list" where
  "expand_module_card expanded c =
     (case mc_view c of
        None \<Rightarrow> (c, [])
      | Some v \<Rightarrow>
          if view_expanded v = expanded then (c, [])
          else
            let c' = c\<lparr>mc_view := Some (v\<lparr>view_expanded := expanded\<rparr>)\<rparr>
            in if expanded then load_module None c' else (c', []))"

definition module_card_expanded :: "module_card \<Rightarrow> bool option" where
  "module_card_expanded c = map_option view_expanded (mc_view c)"

fun click_module_button :: "module_button \<Rightarrow> module_card \<Rightarrow> module_card \<times> card_effect list" where
  "click_module_button Clone_button c = start_cloning c"
| "click_module_button Change_button c = start_updating c"
| "click_module_button Delete_button c = (c\<lparr>mc_deleting := True\<rparr>, [])"
| "click_module_button Refresh_button c = (c, [Card_call (api_refresh_module_artifact (mod_id (current_module c)))])"
| "click_module_button Refresh_and_launch_button c =
     (c, [Card_call (api_refresh_module_artifact (mod_id (current_module c)))])"
| "click_module_button Restart_button c = (c, [Card_call (api_restart_module (mod_id (current_module c)))])"
| "click_module_button Launch_button c = (c, [Card_call (api_restart_module (mod_id (current_module c)))])"
| "click_module_button Stop_button c = (c, [Card_call (api_stop_module (mod_id (current_module c)))])"
| "click_module_button Uninstall_button c =
     (c, [Card_call (api_delete_module_from_resource (mod_id (current_module c)))])"
| "click_module_button Reinstall_button c = (c, [Card_call (api_reinstall_module (mod_id (current_module c)))])"

definition approve_module_deletion :: "module_card \<Rightarrow> module_card \<times> card_effect list" where
  "approve_module_deletion c =
     (if mc_deleting c then (c, [Card_call (api_delete_module (mod_id (current_module c)))]) else (c, []))"

datatype module_card_op =
    Mount_card palette | Unmount_card | Draw_card palette | Theme_changed palette | Expand_card bool
  | Click_button module_button | Module_answer "card_dialog option" module_full | Module_update module_full
  | Close_dialog card_dialog | Approve_deletion | Cancel_deletion

text \<open>
  A button is clicked only while it is on screen; the subscription to updates lives while the card is mounted.
\<close>

fun module_card_step :: "bool \<Rightarrow> module_card_op \<Rightarrow> module_card \<Rightarrow> module_card \<times> card_effect list" where
  "module_card_step bundled (Mount_card theme) c = mount_module_card bundled theme c"
| "module_card_step bundled Unmount_card c = (c\<lparr>mc_mounted := False\<rparr>, [])"
| "module_card_step bundled (Draw_card theme) c = (c\<lparr>mc_theme := theme\<rparr>, [])"
| "module_card_step bundled (Theme_changed theme) c = module_theme_changed bundled theme c"
| "module_card_step bundled (Expand_card b) c = (if mc_mounted c then expand_module_card b c else (c, []))"
| "module_card_step bundled (Click_button b) c =
     (case mc_view c of
        None \<Rightarrow> (c, [])
      | Some v \<Rightarrow> if mc_mounted c \<and> b \<in> set (view_menu v) then click_module_button b c else (c, []))"
| "module_card_step bundled (Module_answer completion m) c = module_answered bundled completion m c"
| "module_card_step bundled (Module_update m) c = (if mc_mounted c then set_module bundled m c else (c, []))"
| "module_card_step bundled (Close_dialog d) c = (c\<lparr>mc_spawned := removeAll d (mc_spawned c)\<rparr>, [])"
| "module_card_step bundled Approve_deletion c = approve_module_deletion c"
| "module_card_step bundled Cancel_deletion c = (c\<lparr>mc_deleting := False\<rparr>, [])"

section \<open>What a module card shows and allows\<close>

text \<open>
  The menu follows the state of the module: it always begins with cloning and ends with deletion, offers
  nothing else exactly while the module is changing, stopping and restarting exactly while it runs, launching
  exactly when it is stopped, the removal from the resource unless it is changing or not installed, and no
  button twice.
\<close>
theorem module_menu_follows_state:
  "hd (module_menu m) = Clone_button \<and> last (module_menu m) = Delete_button \<and> distinct (module_menu m) \<and>
   (module_menu m = [Clone_button, Delete_button] \<longleftrightarrow> module_is_changing m) \<and>
   (Stop_button \<in> set (module_menu m) \<longleftrightarrow> mod_state m = MODULE_RUN_STATE) \<and>
   (Restart_button \<in> set (module_menu m) \<longleftrightarrow> mod_state m = MODULE_RUN_STATE) \<and>
   (Launch_button \<in> set (module_menu m) \<longleftrightarrow> mod_state m = MODULE_STOPPED_STATE) \<and>
   (Uninstall_button \<in> set (module_menu m) \<longleftrightarrow>
      \<not> module_is_changing m \<and> mod_state m \<noteq> MODULE_NOT_INSTALLED_STATE) \<and>
   (Change_button \<in> set (module_menu m) \<longleftrightarrow> \<not> module_is_changing m)"
  by (simp add: module_menu_def module_is_changing_def states_defs)

text \<open>What is on screen is what the current module asks for, as far as its attributes can be computed.\<close>

definition view_current :: "'b list \<Rightarrow> 'a list option \<Rightarrow> ('b, 'a) card_view option \<Rightarrow> bool" where
  "view_current menu attributes view =
     (case view of
        None \<Rightarrow> True
      | Some v \<Rightarrow> view_menu v = menu \<and> (case attributes of None \<Rightarrow> True | Some a \<Rightarrow> view_attributes v = a))"

lemma view_current_none [simp]: "view_current menu attributes None"
  by (simp add: view_current_def)

lemma refresh_view_current [simp]:
  "view_current menu attributes (fst (with_view (refresh_view avatar menu attributes) view))"
  by (auto simp: view_current_def with_view_def refresh_view_def split: option.split)

lemma retheme_view_current:
  "view_current menu attributes view \<Longrightarrow>
   view_current menu attributes (fst (with_view (\<lambda>v. refresh_view avatar (view_menu v) attributes v) view))"
  by (auto simp: view_current_def with_view_def refresh_view_def split: option.splits)

lemma first_view_current:
  "fst (first_view avatar menu attributes expanded) = Some v \<Longrightarrow> view_current menu attributes (Some v)"
  by (auto simp: view_current_def first_view_def split: option.splits)

lemma expanded_view_current [simp]:
  "view_current menu attributes (Some (v\<lparr>view_expanded := b\<rparr>)) = view_current menu attributes (Some v)"
  by (simp add: view_current_def split: option.split)

lemma current_module_frame [simp]:
  "current_module (c\<lparr>mc_view := view\<rparr>) = current_module c"
  "current_module (c\<lparr>mc_theme := theme\<rparr>) = current_module c"
  "current_module (c\<lparr>mc_created := b\<rparr>) = current_module c"
  "current_module (c\<lparr>mc_mounted := b\<rparr>) = current_module c"
  "current_module (c\<lparr>mc_spawned := ds\<rparr>) = current_module c"
  "current_module (c\<lparr>mc_deleting := b\<rparr>) = current_module c"
  "current_module (c\<lparr>mc_loaded := Some m\<rparr>) = m"
  by (simp_all add: current_module_def split: option.split)

definition module_card_ok :: "bool \<Rightarrow> module_card \<Rightarrow> bool" where
  "module_card_ok bundled c \<longleftrightarrow>
     view_current (module_menu (current_module c)) (module_attributes bundled (mc_project c) (current_module c))
       (mc_view c) \<and>
     list_all (\<lambda>d. mc_loaded c \<noteq> None) (mc_spawned c)"

lemma set_module_ok:
  assumes "module_card_ok bundled c"
  shows "module_card_ok bundled (fst (set_module bundled m c))" and "mc_loaded (fst (set_module bundled m c)) = Some m"
  using assms
  by (auto simp: module_card_ok_def set_module_def refresh_module_card_def split_beta Let_def list_all_iff)

lemma spawn_dialog_ok:
  "module_card_ok bundled c \<Longrightarrow> mc_loaded c \<noteq> None \<Longrightarrow>
   module_card_ok bundled (fst (spawn_dialog d c))"
  by (auto simp: module_card_ok_def spawn_dialog_def)

lemma load_module_same [simp]: "fst (load_module completion c) = c"
  by (simp add: load_module_def)

lemma click_module_button_ok:
  "module_card_ok bundled c \<Longrightarrow> module_card_ok bundled (fst (click_module_button b c))"
  by (cases b) (auto simp: start_updating_def start_cloning_def spawn_dialog_ok,
    simp_all add: module_card_ok_def)

lemma module_card_step_ok:
  assumes ok: "module_card_ok bundled c"
  shows "module_card_ok bundled (fst (module_card_step bundled op c))"
proof (cases op)
  case (Mount_card theme)
  with ok first_view_current show ?thesis
    by (auto simp: module_card_ok_def mount_module_card_def Let_def split_beta)
next
  case (Theme_changed theme)
  with ok show ?thesis
    by (auto simp: module_card_ok_def module_theme_changed_def Let_def split_beta retheme_view_current)
next
  case (Expand_card b)
  with ok show ?thesis
    by (auto simp: module_card_ok_def expand_module_card_def Let_def split: option.split)
next
  case (Click_button b)
  with ok show ?thesis by (auto simp: click_module_button_ok split: option.split)
next
  case (Module_answer completion m)
  with set_module_ok [OF ok, of m] show ?thesis
    by (auto simp: module_answered_def Let_def split_beta intro!: spawn_dialog_ok split: option.splits)
next
  case (Module_update m)
  with ok set_module_ok [OF ok, of m] show ?thesis by simp
next
  case Approve_deletion
  with ok show ?thesis by (simp add: approve_module_deletion_def)
qed (use ok in \<open>auto simp: module_card_ok_def list_all_iff\<close>)

text \<open>
  C20. In any run of its life a module card shows the state of the module it knows: the menu on screen is the
  menu of the current module, its attributes are those of the current module whenever they can be computed,
  a button that the current module does not offer does nothing, and the dialogs that edit or clone the module
  are open only once the module is loaded in full, so that their factories never read \<open>undefined\<close>.
\<close>
theorem module_card_shows_current:
  "let c = fst (emit_run (module_card_step bundled) ops (new_module_card project given modules));
       m = current_module c
   in (case mc_view c of
         None \<Rightarrow> True
       | Some v \<Rightarrow> view_menu v = module_menu m \<and>
           (case module_attributes bundled (mc_project c) m of None \<Rightarrow> True | Some a \<Rightarrow> view_attributes v = a)) \<and>
      (if button \<in> set (module_menu m) then True else module_card_step bundled (Click_button button) c = (c, [])) \<and>
      list_all (\<lambda>d. mc_loaded c = Some m) (mc_spawned c)"
proof -
  let ?c = "fst (emit_run (module_card_step bundled) ops (new_module_card project given modules))"
  have "module_card_ok bundled (new_module_card project given modules)"
    by (simp add: module_card_ok_def new_module_card_def)
  then have ok: "module_card_ok bundled ?c"
    by (rule emit_run_invariant [of "module_card_ok bundled" "module_card_step bundled", OF module_card_step_ok, rotated])
  then have "list_all (\<lambda>d. mc_loaded ?c = Some (current_module ?c)) (mc_spawned ?c)"
    by (auto simp: module_card_ok_def list_all_iff current_module_def)
  with ok show ?thesis
    by (auto simp: Let_def module_card_ok_def view_current_def split: option.split)
qed

text \<open>Nothing but the stream and answers still under way changes a module once it is loaded.\<close>

definition local_op :: "module_card_op \<Rightarrow> bool" where
  "local_op op \<longleftrightarrow> (case op of Module_answer _ _ \<Rightarrow> False | Module_update _ \<Rightarrow> False | _ \<Rightarrow> True)"

lemma local_step_keeps:
  assumes "local_op op" and "mc_loaded c = Some m"
  shows "mc_loaded (fst (module_card_step bundled op c)) = Some m"
    and "Card_call (api_get_module i callback) \<notin> set (snd (module_card_step bundled op c))"
proof -
  have clicks: "mc_loaded (fst (click_module_button b c)) = Some m"
    "Card_call (api_get_module i callback) \<notin> set (snd (click_module_button b c))" for b
    using assms(2)
    by (cases b; simp add: start_updating_def start_cloning_def spawn_dialog_def api_get_module_def
        api_refresh_module_artifact_def api_restart_module_def api_stop_module_def
        api_delete_module_from_resource_def api_reinstall_module_def create_function_request_def
        api_constants_defs)+
  show "mc_loaded (fst (module_card_step bundled op c)) = Some m"
    using assms clicks(1)
    by (cases op) (auto simp: local_op_def mount_module_card_def module_theme_changed_def expand_module_card_def
      approve_module_deletion_def Let_def split_beta split: option.split)
  show "Card_call (api_get_module i callback) \<notin> set (snd (module_card_step bundled op c))"
    using assms clicks(2)
    by (cases op) (auto simp: local_op_def mount_module_card_def module_theme_changed_def expand_module_card_def
      approve_module_deletion_def first_view_def with_view_def refresh_view_def load_module_def Let_def split_beta
      api_get_module_def api_delete_module_def create_function_request_def api_constants_defs split: option.split)
qed

text \<open>
  An update that comes while the card is off screen (the pages take every card off during a request for
  the listing) is lost for good: after the card is mounted again it goes on showing the module that it had,
  and nothing that the user does to the card makes it ask for the module again.
\<close>
theorem missed_update_stays_lost:
  assumes "list_all local_op ops" and "mc_loaded c = Some stale"
  shows "let run = emit_run (module_card_step bundled) ([Unmount_card, Module_update fresh, Mount_card theme] @ ops) c
    in current_module (fst run) = stale \<and> Card_call (api_get_module i callback) \<notin> set (snd run)"
proof -
  have run: "mc_loaded (fst (emit_run (module_card_step bundled) ops c)) = Some stale \<and>
      Card_call (api_get_module i callback) \<notin> set (snd (emit_run (module_card_step bundled) ops c))"
    if "list_all local_op ops" "mc_loaded c = Some stale" for ops c
    using that by (induction ops arbitrary: c) (simp_all add: local_step_keeps)
  let ?c = "c\<lparr>mc_mounted := False\<rparr>"
  have c: "mc_loaded ?c = Some stale" using assms(2) by simp
  have "list_all local_op (Mount_card theme # ops)" using assms(1) by (simp add: local_op_def)
  from run [OF this c] show ?thesis
    by (auto simp: Let_def current_module_def)
qed

theorem missed_update_stays_lost_witness:
  "let c = fst (module_card_step True (Module_answer None (sample_module []))
         (new_module_card sample_project (module_information.truncate (sample_module [])) []));
       run = emit_run (module_card_step True) ([Unmount_card, Module_update ((sample_module [])\<lparr>mod_state := MODULE_STOPPED_STATE\<rparr>),
         Mount_card Dark] @ [Expand_card True, Click_button Stop_button]) c
   in current_module (fst run) = sample_module [] \<and> Card_call (api_get_module 3 (Entity_loaded None)) \<notin> set (snd run)"
proof -
  let ?c = "fst (module_card_step True (Module_answer None (sample_module []))
         (new_module_card sample_project (module_information.truncate (sample_module [])) []))"
  have "mc_loaded ?c = Some (sample_module [])"
    by (simp add: module_answered_def set_module_def new_module_card_def refresh_module_card_def split_beta Let_def)
  from missed_update_stays_lost [OF _ this, of "[Expand_card True, Click_button Stop_button]"]
  show ?thesis by (simp add: local_op_def Let_def del: emit_run_cons)
qed

section \<open>Durations\<close>

text \<open>
  \<open>calculateDuration\<close> of two time stamps in seconds. \<open>toFixed()\<close> rounds to the nearest integer, a half upwards;
  the quotients by 60 and 3600 are rounded to it as rationals, which agrees with the rounding of the machine's
  numbers, since a half is represented exactly and is no neighbour of another quotient.
\<close>

datatype duration = Hours int | Minutes int | Seconds int | About_a_second

definition rounded :: "int \<Rightarrow> int \<Rightarrow> int" where
  "rounded n unit = (2 * n + unit) div (2 * unit)"

definition calculate_duration :: "int \<Rightarrow> int \<Rightarrow> duration" where
  "calculate_duration end_time_stamp start_time_stamp =
     (let difference = end_time_stamp - start_time_stamp
      in if difference > 3600 then Hours (rounded difference 3600)
         else if difference > 60 then Minutes (rounded difference 60)
         else if difference > 1 then Seconds difference
         else About_a_second)"

lemma rounded_close: "0 < unit \<Longrightarrow> 2 * \<bar>rounded n unit * unit - n\<bar> \<le> unit"
proof -
  assume unit: "0 < unit"
  define q where "q = (2 * n + unit) div (2 * unit)"
  have "q * (2 * unit) + (2 * n + unit) mod (2 * unit) = 2 * n + unit"
    unfolding q_def by (rule div_mult_mod_eq)
  moreover have "0 \<le> (2 * n + unit) mod (2 * unit)" "(2 * n + unit) mod (2 * unit) < 2 * unit"
    using unit by simp_all
  ultimately have "2 * (q * unit) \<le> 2 * n + unit" "2 * n < 2 * (q * unit) + unit"
    by linarith+
  moreover obtain p where "q * unit = p" by simp
  ultimately show ?thesis unfolding rounded_def q_def [symmetric] by (simp split: abs_split)
qed

text \<open>
  The duration on a card is right to half its unit and at least one of them: a number of hours from one
  hour on, of minutes from one minute on and at most sixty, and the exact number of seconds below, at least two.
\<close>
theorem calculate_duration_close:
  "let seconds = finish - start
   in case calculate_duration finish start of
        Hours h \<Rightarrow> 1 \<le> h \<and> 2 * \<bar>h * 3600 - seconds\<bar> \<le> 3600 \<and> 3600 < seconds
      | Minutes m \<Rightarrow> 1 \<le> m \<and> m \<le> 60 \<and> 2 * \<bar>m * 60 - seconds\<bar> \<le> 60 \<and> seconds \<le> 3600
      | Seconds s \<Rightarrow> s = seconds \<and> 2 \<le> s \<and> s \<le> 60
      | About_a_second \<Rightarrow> seconds \<le> 1"
proof -
  have "1 \<le> rounded n unit" if "unit < n" "0 < unit" for n unit :: int
    using that zdiv_mono1 [of "2 * unit" "2 * n + unit" "2 * unit"] by (simp add: rounded_def)
  moreover have "rounded n 60 \<le> 60" if "n \<le> 3600" for n :: int
    using that zdiv_mono1 [of "2 * n + 60" "7260" "120"] by (simp add: rounded_def)
  ultimately show ?thesis
    using rounded_close [of 3600 "finish - start"] rounded_close [of 60 "finish - start"]
    by (simp add: calculate_duration_def Let_def)
qed

section \<open>Assembly card\<close>

datatype assembly_button =
  Delete_assembly_button | Cancel_button | Show_logs_button | Install_modules_button | Rebuild_button

datatype assembly_attribute =
    Assembly_project string
  | Assembly_resource resource_identifier
  | Assembly_technology string
  | Assembled_artifacts "assembled_artifact list"
  | Expected_artifacts "artifact_configuration list"
  | Start_mark int
  | Failure_mark int | Completion_mark int | Cancellation_mark int
  | Duration_attribute duration

record assembly_card =
  ac_project :: project
  ac_given :: assembly_information
  ac_loaded :: "assembly option"
  ac_view :: "(assembly_button, assembly_attribute) card_view option"
  ac_created :: bool
  ac_mounted :: bool
  ac_spawned :: "card_dialog list"
  ac_deleting :: bool
  ac_cancelling :: bool

definition new_assembly_card :: "project \<Rightarrow> assembly_information \<Rightarrow> assembly_card" where
  "new_assembly_card project assembly =
     \<lparr>ac_project = project, ac_given = assembly, ac_loaded = None, ac_view = None,
      ac_created = True, ac_mounted = False, ac_spawned = [], ac_deleting = False, ac_cancelling = False\<rparr>"

definition assembly_card_key :: "assembly_card \<Rightarrow> int" where
  "assembly_card_key c = assembly_id (ac_given c)"

definition current_assembly :: "assembly_card \<Rightarrow> assembly_information" where
  "current_assembly c = (case ac_loaded c of None \<Rightarrow> ac_given c | Some a \<Rightarrow> assembly_information.truncate a)"

definition assembly_avatar :: "assembly_information \<Rightarrow> card_avatar" where
  "assembly_avatar a =
     (if assembly_state a \<in> {ASSEMBLY_STARTED_STATE, ASSEMBLY_RESTARTED_STATE} then Primary_progress
      else if assembly_state a \<in> {ASSEMBLY_STARTED_ON_RESOURCE_STATE, ASSEMBLY_BUILDING_STATE}
      then Progress_avatar (Green 800)
      else if assembly_state a = ASSEMBLY_FAILED_STATE then Failed_icon
      else if assembly_state a = ASSEMBLY_CANCELED_STATE then Canceled_icon
      else if assembly_state a = ASSEMBLY_DONE_STATE then Done_icon
      else Primary_progress)"

definition assembly_menu :: "assembly_information \<Rightarrow> assembly_button list" where
  "assembly_menu a =
     (if assembly_state a \<in> {ASSEMBLY_RESTARTED_STATE, ASSEMBLY_STARTED_STATE}
      then [Delete_assembly_button, Cancel_button]
      else if assembly_state a \<in> {ASSEMBLY_STARTED_ON_RESOURCE_STATE, ASSEMBLY_BUILDING_STATE}
      then [Delete_assembly_button, Show_logs_button, Cancel_button]
      else if assembly_state a = ASSEMBLY_DONE_STATE
      then [Delete_assembly_button, Install_modules_button, Show_logs_button, Rebuild_button]
      else if assembly_state a \<in> {ASSEMBLY_FAILED_STATE, ASSEMBLY_CANCELED_STATE}
      then [Delete_assembly_button, Show_logs_button, Rebuild_button]
      else [Delete_assembly_button])"

text \<open>
  The attributes read the artifacts and their configurations of the loaded assembly only; the marks are given
  when both time stamps are there, and the end in the three final states.
\<close>

definition assembly_attributes :: "assembly_card \<Rightarrow> assembly_attribute list" where
  "assembly_attributes c =
     (let a = current_assembly c; start = assembly_start_time_stamp a; finish = assembly_end_time_stamp a;
          took = [Duration_attribute (calculate_duration finish start)]
      in [Assembly_project (project_name (ac_project c)), Assembly_resource (assembly_resource_id a)] @
         (if assembly_technology a \<noteq> [] then [Assembly_technology (assembly_technology a)] else []) @
         (if is_not_empty_array (map_option assembly_artifacts (ac_loaded c))
          then [Assembled_artifacts (assembly_artifacts a)] else []) @
         (if is_not_empty_array (map_option assembly_artifact_configurations (ac_loaded c))
          then [Expected_artifacts (assembly_artifact_configurations (the (ac_loaded c)))] else []) @
         (if start = 0 \<or> finish = 0 then []
          else Start_mark start #
            (if assembly_state a = ASSEMBLY_FAILED_STATE then Failure_mark finish # took
             else if assembly_state a = ASSEMBLY_DONE_STATE then Completion_mark finish # took
             else if assembly_state a = ASSEMBLY_CANCELED_STATE then Cancellation_mark finish # took
             else [])))"

definition refresh_assembly_card :: "assembly_card \<Rightarrow> assembly_card \<times> card_effect list" where
  "refresh_assembly_card c =
     (let a = current_assembly c;
          (view, effects) = with_view (refresh_view (assembly_avatar a) (assembly_menu a)
            (Some (assembly_attributes c))) (ac_view c);
          loading = (if Logs_dialog \<in> set (ac_spawned c) then [Logs_loading (assembly_is_running (Some a))] else [])
      in (c\<lparr>ac_view := view\<rparr>, effects @ loading))"

definition set_assembly :: "assembly \<Rightarrow> assembly_card \<Rightarrow> assembly_card \<times> card_effect list" where
  "set_assembly a c =
     (if ac_loaded c = Some a then (c, []) else refresh_assembly_card (c\<lparr>ac_loaded := Some a\<rparr>))"

definition load_assembly :: "assembly_card \<Rightarrow> assembly_card \<times> card_effect list" where
  "load_assembly c =
     (if ac_loaded c \<noteq> None then (c, [])
      else (c, [Card_call (api_get_assembly (assembly_id (ac_given c)) (Entity_loaded None))]))"

text \<open>
  The card of a running assembly comes expanded and loads at once. The avatar depends on the theme in its shade
  only, so that a change of the theme shows nowhere here.
\<close>

definition mount_assembly_card :: "assembly_card \<Rightarrow> assembly_card \<times> card_effect list" where
  "mount_assembly_card c =
     (if ac_created c
      then
        let expanded = assembly_is_running (Some (ac_given c)); a = current_assembly c;
            (view, effects) = first_view (assembly_avatar a) (assembly_menu a) (Some (assembly_attributes c)) expanded;
            c' = c\<lparr>ac_created := False, ac_mounted := True, ac_view := view\<rparr>;
            (c'', loading) = (if expanded then load_assembly c' else (c', []))
        in (c'', effects @ loading)
      else (c\<lparr>ac_mounted := True\<rparr>, []))"

text \<open>Every change of the expansion loads, the collapse too.\<close>

definition expand_assembly_card :: "bool \<Rightarrow> assembly_card \<Rightarrow> assembly_card \<times> card_effect list" where
  "expand_assembly_card expanded c =
     (case ac_view c of
        None \<Rightarrow> (c, [])
      | Some v \<Rightarrow>
          if view_expanded v = expanded then (c, [])
          else load_assembly (c\<lparr>ac_view := Some (v\<lparr>view_expanded := expanded\<rparr>)\<rparr>))"

fun click_assembly_button :: "assembly_button \<Rightarrow> assembly_card \<Rightarrow> assembly_card \<times> card_effect list" where
  "click_assembly_button Delete_assembly_button c = (c\<lparr>ac_deleting := True\<rparr>, [])"
| "click_assembly_button Cancel_button c = (c\<lparr>ac_cancelling := True\<rparr>, [])"
| "click_assembly_button Show_logs_button c = (c\<lparr>ac_spawned := Logs_dialog # ac_spawned c\<rparr>, [Spawned Logs_dialog])"
| "click_assembly_button Install_modules_button c =
     (c\<lparr>ac_spawned := Modules_dialog # ac_spawned c\<rparr>, [Spawned Modules_dialog])"
| "click_assembly_button Rebuild_button c = (c, [Card_call (api_rebuild_project (assembly_id (ac_given c)))])"

definition approve_assembly_deletion :: "assembly_card \<Rightarrow> assembly_card \<times> card_effect list" where
  "approve_assembly_deletion c =
     (c, if ac_deleting c then [Card_call (api_delete_assembly (assembly_id (ac_given c)))] else [])"

definition approve_cancellation :: "assembly_card \<Rightarrow> assembly_card \<times> card_effect list" where
  "approve_cancellation c =
     (c, if ac_cancelling c then [Card_call (api_cancel_assembly (assembly_id (ac_given c)))] else [])"

datatype assembly_card_op =
    Mount_assembly | Unmount_assembly | Expand_assembly bool | Click_assembly assembly_button
  | Assembly_answer assembly | Assembly_update assembly | Close_assembly_dialog card_dialog
  | Approve_assembly_deletion | Close_assembly_deletion | Approve_cancellation | Close_cancellation

fun assembly_card_step :: "assembly_card_op \<Rightarrow> assembly_card \<Rightarrow> assembly_card \<times> card_effect list" where
  "assembly_card_step Mount_assembly c = mount_assembly_card c"
| "assembly_card_step Unmount_assembly c = (c\<lparr>ac_mounted := False\<rparr>, [])"
| "assembly_card_step (Expand_assembly b) c = (if ac_mounted c then expand_assembly_card b c else (c, []))"
| "assembly_card_step (Click_assembly b) c =
     (case ac_view c of
        None \<Rightarrow> (c, [])
      | Some v \<Rightarrow> if ac_mounted c \<and> b \<in> set (view_menu v) then click_assembly_button b c else (c, []))"
| "assembly_card_step (Assembly_answer a) c = set_assembly a c"
| "assembly_card_step (Assembly_update a) c = (if ac_mounted c then set_assembly a c else (c, []))"
| "assembly_card_step (Close_assembly_dialog d) c = (c\<lparr>ac_spawned := removeAll d (ac_spawned c)\<rparr>, [])"
| "assembly_card_step Approve_assembly_deletion c = approve_assembly_deletion c"
| "assembly_card_step Close_assembly_deletion c = (c\<lparr>ac_deleting := False\<rparr>, [])"
| "assembly_card_step Approve_cancellation c = approve_cancellation c"
| "assembly_card_step Close_cancellation c = (c\<lparr>ac_cancelling := False\<rparr>, [])"

section \<open>What an assembly card shows and allows\<close>

definition assembly_card_ok :: "assembly_card \<Rightarrow> bool" where
  "assembly_card_ok c \<longleftrightarrow>
     view_current (assembly_menu (current_assembly c)) (Some (assembly_attributes c)) (ac_view c) \<and>
     (ac_mounted c \<longrightarrow> ac_view c \<noteq> None) \<and> (ac_view c = None \<longleftrightarrow> ac_created c)"

lemma assembly_frame [simp]:
  "current_assembly (c\<lparr>ac_view := view\<rparr>) = current_assembly c"
  "current_assembly (c\<lparr>ac_created := b\<rparr>) = current_assembly c"
  "current_assembly (c\<lparr>ac_mounted := b\<rparr>) = current_assembly c"
  "current_assembly (c\<lparr>ac_spawned := ds\<rparr>) = current_assembly c"
  "current_assembly (c\<lparr>ac_deleting := b\<rparr>) = current_assembly c"
  "current_assembly (c\<lparr>ac_cancelling := b\<rparr>) = current_assembly c"
  "assembly_attributes (c\<lparr>ac_view := view\<rparr>) = assembly_attributes c"
  "assembly_attributes (c\<lparr>ac_created := b\<rparr>) = assembly_attributes c"
  "assembly_attributes (c\<lparr>ac_mounted := b\<rparr>) = assembly_attributes c"
  "assembly_attributes (c\<lparr>ac_spawned := ds\<rparr>) = assembly_attributes c"
  "assembly_attributes (c\<lparr>ac_deleting := b\<rparr>) = assembly_attributes c"
  "assembly_attributes (c\<lparr>ac_cancelling := b\<rparr>) = assembly_attributes c"
  by (simp_all add: current_assembly_def assembly_attributes_def split: option.split)

lemma refreshed_view:
  "fst (with_view (refresh_view avatar menu (Some attributes)) view) =
   map_option (\<lambda>v. v\<lparr>view_avatar := avatar, view_menu := menu, view_attributes := attributes\<rparr>) view"
  by (simp add: with_view_def refresh_view_def split: option.split)

lemma set_assembly_ok:
  assumes "assembly_card_ok c"
  shows "assembly_card_ok (fst (set_assembly a c))"
  using assms
  by (auto simp: assembly_card_ok_def set_assembly_def refresh_assembly_card_def Let_def split_beta refreshed_view
      view_current_def split: option.splits)

lemma load_assembly_same [simp]: "fst (load_assembly c) = c"
  by (simp add: load_assembly_def)

lemma assembly_card_step_ok:
  assumes ok: "assembly_card_ok c"
  shows "assembly_card_ok (fst (assembly_card_step op c))"
proof (cases op)
  case Mount_assembly
  with ok show ?thesis
    by (auto simp: assembly_card_ok_def mount_assembly_card_def Let_def split_beta first_view_def view_current_def
        split: option.splits)
next
  case (Expand_assembly b)
  with ok show ?thesis
    by (auto simp: assembly_card_ok_def expand_assembly_card_def view_current_def split: option.splits)
next
  case (Click_assembly b)
  have "assembly_card_ok (fst (click_assembly_button b c))"
    using ok by (cases b) (auto simp: assembly_card_ok_def)
  with Click_assembly ok show ?thesis by (auto split: option.split)
next
  case (Assembly_answer a)
  with set_assembly_ok [OF ok] show ?thesis by simp
next
  case (Assembly_update a)
  with ok set_assembly_ok [OF ok] show ?thesis by simp
qed (use ok in \<open>auto simp: assembly_card_ok_def approve_assembly_deletion_def approve_cancellation_def\<close>)

text \<open>What a card has heard of its assembly, from the operations alone: \<open>mounted\<close> and \<open>known\<close> tell how it is now.\<close>

fun heard_assembly :: "bool \<Rightarrow> assembly option \<Rightarrow> assembly_card_op list \<Rightarrow> assembly option" where
  "heard_assembly mounted known [] = known"
| "heard_assembly mounted known (op # ops) =
     (case op of
        Mount_assembly \<Rightarrow> heard_assembly True known ops
      | Unmount_assembly \<Rightarrow> heard_assembly False known ops
      | Assembly_answer a \<Rightarrow> heard_assembly mounted (Some a) ops
      | Assembly_update a \<Rightarrow> heard_assembly mounted (if mounted then Some a else known) ops
      | _ \<Rightarrow> heard_assembly mounted known ops)"

lemma set_assembly_knows [simp]:
  "ac_loaded (fst (set_assembly a c)) = Some a" "ac_mounted (fst (set_assembly a c)) = ac_mounted c"
  "ac_given (fst (set_assembly a c)) = ac_given c"
  by (simp_all add: set_assembly_def refresh_assembly_card_def Let_def split_beta)

lemma assembly_step_knows:
  "heard_assembly (ac_mounted c) (ac_loaded c) (op # ops) =
     heard_assembly (ac_mounted (fst (assembly_card_step op c))) (ac_loaded (fst (assembly_card_step op c))) ops \<and>
   ac_given (fst (assembly_card_step op c)) = ac_given c"
proof (cases op)
  case (Click_assembly b)
  then show ?thesis by (cases b) (simp_all split: option.split)
qed (simp_all add: mount_assembly_card_def expand_assembly_card_def approve_assembly_deletion_def
    approve_cancellation_def Let_def split_beta split: option.split)

lemma assembly_run_knows:
  "ac_loaded (fst (emit_run assembly_card_step ops c)) = heard_assembly (ac_mounted c) (ac_loaded c) ops \<and>
   ac_given (fst (emit_run assembly_card_step ops c)) = ac_given c"
proof (induction ops arbitrary: c)
  case (Cons op ops)
  then show ?case by (simp only: assembly_step_knows emit_run_cons)
qed simp

text \<open>
  C28. In any run of its life an assembly card follows the assembly: it knows the one that came last, by an answer
  or, while it is mounted, by the stream, and before any came the one that it was made with. On screen are the
  attributes of that assembly, and its menu: deleting is always offered, cancelling exactly while the assembly has been
  started and is not finished, rebuilding exactly when it is finished, installing its modules exactly when it is done,
  and the logs from the moment it runs on a resource.
\<close>
theorem assembly_card_follows_state:
  "let c = fst (emit_run assembly_card_step ops (new_assembly_card project given));
       known = heard_assembly False None ops;
       state = assembly_state (case known of None \<Rightarrow> given | Some a \<Rightarrow> assembly_information.truncate a)
   in ac_loaded c = known \<and>
      (case ac_view c of
         None \<Rightarrow> \<not> ac_mounted c
       | Some v \<Rightarrow> view_attributes v = assembly_attributes c \<and> distinct (view_menu v) \<and>
           Delete_assembly_button \<in> set (view_menu v) \<and>
           (Cancel_button \<in> set (view_menu v) \<longleftrightarrow> state \<in> {ASSEMBLY_STARTED_STATE, ASSEMBLY_RESTARTED_STATE,
              ASSEMBLY_STARTED_ON_RESOURCE_STATE, ASSEMBLY_BUILDING_STATE}) \<and>
           (Rebuild_button \<in> set (view_menu v) \<longleftrightarrow>
              state \<in> {ASSEMBLY_DONE_STATE, ASSEMBLY_FAILED_STATE, ASSEMBLY_CANCELED_STATE}) \<and>
           (Install_modules_button \<in> set (view_menu v) \<longleftrightarrow> state = ASSEMBLY_DONE_STATE) \<and>
           (Show_logs_button \<in> set (view_menu v) \<longleftrightarrow> state \<in> {ASSEMBLY_STARTED_ON_RESOURCE_STATE,
              ASSEMBLY_BUILDING_STATE, ASSEMBLY_DONE_STATE, ASSEMBLY_FAILED_STATE, ASSEMBLY_CANCELED_STATE}))"
proof -
  let ?c = "fst (emit_run assembly_card_step ops (new_assembly_card project given))"
  have "assembly_card_ok (new_assembly_card project given)"
    by (simp add: assembly_card_ok_def new_assembly_card_def)
  then have ok: "assembly_card_ok ?c"
    by (rule emit_run_invariant [of assembly_card_ok assembly_card_step, OF assembly_card_step_ok, rotated])
  have menu: "distinct (assembly_menu a)" "Delete_assembly_button \<in> set (assembly_menu a)"
    "Cancel_button \<in> set (assembly_menu a) \<longleftrightarrow> assembly_state a \<in> {ASSEMBLY_STARTED_STATE, ASSEMBLY_RESTARTED_STATE,
       ASSEMBLY_STARTED_ON_RESOURCE_STATE, ASSEMBLY_BUILDING_STATE}"
    "Rebuild_button \<in> set (assembly_menu a) \<longleftrightarrow>
       assembly_state a \<in> {ASSEMBLY_DONE_STATE, ASSEMBLY_FAILED_STATE, ASSEMBLY_CANCELED_STATE}"
    "Install_modules_button \<in> set (assembly_menu a) \<longleftrightarrow> assembly_state a = ASSEMBLY_DONE_STATE"
    "Show_logs_button \<in> set (assembly_menu a) \<longleftrightarrow> assembly_state a \<in> {ASSEMBLY_STARTED_ON_RESOURCE_STATE,
       ASSEMBLY_BUILDING_STATE, ASSEMBLY_DONE_STATE, ASSEMBLY_FAILED_STATE, ASSEMBLY_CANCELED_STATE}" for a
    by (simp_all add: assembly_menu_def states_defs)
  have knows: "ac_loaded ?c = heard_assembly False None ops" "ac_given ?c = given"
    using assembly_run_knows [of ops "new_assembly_card project given"] by (simp_all add: new_assembly_card_def)
  then have current: "current_assembly ?c =
      (case heard_assembly False None ops of None \<Rightarrow> given | Some a \<Rightarrow> assembly_information.truncate a)"
    by (simp only: current_assembly_def)
  from ok knows(1) show ?thesis
    unfolding Let_def
    by (cases "ac_view ?c")
      (simp_all only: assembly_card_ok_def view_current_def option.case menu current, simp_all)
qed

end
