(* ===== verification/Pages.thy ===== *)
theory Pages
  imports Grids Filters Entity_Cards
begin

text \<open>
  The listing pages, \<open>component/pages/module/ModulesPage.tsx\<close>, \<open>assemblies/AssembliesPage.tsx\<close> and
  \<open>configuration/ConfigurationsPage.tsx\<close>, with the tabs of \<open>framework/dsl/managed/ManagedTabs.tsx\<close> and the editor
  of \<open>component/embeddable/configuration/PreparedConfigurationEditor.tsx\<close>. A page asks for the listing that its
  filter describes and refreshes its grid of cards from the answer; requests and answers are separate operations,
  so that any number of them can be under way. The theme is taken not to change while a page is shown, so that
  each kind of the filter has one searcher.
\<close>

section \<open>Tabs\<close>

record 'c tabs =
  tabs_labels :: "string list"
  tabs_selected :: "(nat, 'c) property"

definition new_tabs :: "string list \<Rightarrow> string option \<Rightarrow> 'c tabs" where
  "new_tabs labels selected =
     \<lparr>tabs_labels = labels, tabs_selected = new_property (Some (index_or_first (\<lambda>label. Some label = selected) labels))\<rparr>"

definition tabs_index :: "'c tabs \<Rightarrow> nat" where
  "tabs_index t = (case property_value (tabs_selected t) of None \<Rightarrow> 0 | Some i \<Rightarrow> i)"

definition tabs_on_select :: "'c \<Rightarrow> 'c tabs \<Rightarrow> 'c tabs" where
  "tabs_on_select action t = t\<lparr>tabs_selected := fst (property_consume action (tabs_selected t))\<rparr>"

text \<open>A click on a tab; the consumers get the label at the index.\<close>

definition tabs_select :: "nat \<Rightarrow> 'c tabs \<Rightarrow> 'c tabs \<times> ('c \<times> string option) list" where
  "tabs_select i t =
     (let (p, calls) = property_set (=) (Some i) (tabs_selected t)
      in (t\<lparr>tabs_selected := p\<rparr>, map (\<lambda>action. (action, js_at (tabs_labels t) i)) (property_actions calls)))"

section \<open>Refreshing a grid of cards\<close>

text \<open>
  New cards are pushed, cards that are no longer listed are removed, and the rest stays as it is; then the cards
  are arranged in the order of the listing, unless the refresh is a silent one.
\<close>

definition push_missing ::
  "('e \<Rightarrow> int) \<Rightarrow> ('w \<Rightarrow> int) \<Rightarrow> ('e \<Rightarrow> 'w) \<Rightarrow> 'e list \<Rightarrow> (int, 'w, 'c) grid \<Rightarrow> (int, 'w, 'c) grid" where
  "push_missing id_of key_of new_card es g =
     fold (\<lambda>e g. if has_key (id_of e) g then g else fst (push_widget key_of (new_card e) g)) es g"

definition remove_absent :: "('e \<Rightarrow> int) \<Rightarrow> 'e list \<Rightarrow> (int, 'w, 'c) grid \<Rightarrow> (int, 'w, 'c) grid" where
  "remove_absent id_of es g =
     fold (\<lambda>key g. if list_ex (\<lambda>e. id_of e = key) es then g else fst (remove_key key g)) (keys_value g) g"

definition refresh_grid ::
  "('e \<Rightarrow> int) \<Rightarrow> ('w \<Rightarrow> int) \<Rightarrow> ('e \<Rightarrow> 'w) \<Rightarrow> bool \<Rightarrow> 'e list \<Rightarrow> (int, 'w, 'c) grid \<Rightarrow> (int, 'w, 'c) grid" where
  "refresh_grid id_of key_of new_card arrange es g =
     (let g' = remove_absent id_of es (push_missing id_of key_of new_card es g)
      in if arrange then fst (arrange_widgets key_of (map id_of es) g') else g')"

text \<open>What a refresh promises of the list of cards.\<close>

definition card_for :: "('e \<Rightarrow> int) \<Rightarrow> ('w \<Rightarrow> int) \<Rightarrow> ('e \<Rightarrow> 'w) \<Rightarrow> 'w list \<Rightarrow> 'e \<Rightarrow> 'w" where
  "card_for id_of key_of new_card cards e =
     (case find (\<lambda>w. key_of w = id_of e) cards of None \<Rightarrow> new_card e | Some w \<Rightarrow> w)"

definition refreshed_cards ::
  "('e \<Rightarrow> int) \<Rightarrow> ('w \<Rightarrow> int) \<Rightarrow> ('e \<Rightarrow> 'w) \<Rightarrow> bool \<Rightarrow> 'e list \<Rightarrow> 'w list \<Rightarrow> 'w list" where
  "refreshed_cards id_of key_of new_card arrange es cards =
     (if arrange then map (card_for id_of key_of new_card cards) es
      else filter (\<lambda>w. key_of w \<in> set (map id_of es)) cards @
        map new_card (filter (\<lambda>e. id_of e \<notin> set (map key_of cards)) es))"

text \<open>A grid of widgets under keys of their own, each key once.\<close>

definition cards_ok :: "('w \<Rightarrow> int) \<Rightarrow> (int, 'w, 'c) grid \<Rightarrow> bool" where
  "cards_ok key_of g \<longleftrightarrow>
     grid_ok g \<and> grid_items g = map (own_item key_of) (grid_widgets g) \<and> distinct (map key_of (grid_widgets g))"

lemma cards_ok_new [simp]: "cards_ok key_of new_grid"
  by (simp add: cards_ok_def grid_widgets_def) (simp add: new_grid_def)

lemma own_item_widget [simp]: "item_widget (own_item key_of w) = w" "item_widget \<circ> own_item key_of = (\<lambda>w. w)"
  by (auto simp: own_item_def)

lemma cards_keys: "cards_ok key_of g \<Longrightarrow> keys_value g = map key_of (grid_widgets g)"
  by (simp add: cards_ok_def keys_value_ok)

lemma without_first_filter:
  "distinct (map f xs) \<Longrightarrow> without_first (\<lambda>x. f x = k) xs = filter (\<lambda>x. f x \<noteq> k) xs"
  by (induction xs) (auto simp: image_iff intro!: filter_True [symmetric])

lemma without_first_map: "without_first test (map f xs) = map f (without_first (\<lambda>x. test (f x)) xs)"
  by (induction xs) auto

lemma find_key: "w \<in> set ws \<Longrightarrow> distinct (map key_of ws) \<Longrightarrow> find (\<lambda>x. key_of x = key_of w) ws = Some w"
  by (induction ws) (auto simp: image_iff)

locale listed_cards =
  fixes id_of :: "'e \<Rightarrow> int" and key_of :: "'w \<Rightarrow> int" and new_card :: "'e \<Rightarrow> 'w"
  assumes key_of_new [simp]: "key_of (new_card e) = id_of e"
begin

lemma push_card:
  assumes ok: "cards_ok key_of g" and new: "id_of e \<notin> set (map key_of (grid_widgets g))"
  shows "cards_ok key_of (fst (push_widget key_of (new_card e) g)) \<and>
    grid_widgets (fst (push_widget key_of (new_card e) g)) = grid_widgets g @ [new_card e]"
proof -
  have "grid_ok g" using ok by (simp add: cards_ok_def)
  moreover have "push_widget key_of (new_card e) g = push_item (own_item key_of (new_card e)) g"
    unfolding push_widget_def new_grid_item_own ..
  ultimately show ?thesis
    using grid_ops_refine(2) [of g "own_item key_of (new_card e)"] ok new
    by (auto simp: cards_ok_def grid_widgets_def)
qed

lemma remove_card:
  assumes ok: "cards_ok key_of g"
  shows "cards_ok key_of (fst (remove_key k g)) \<and>
    grid_widgets (fst (remove_key k g)) = filter (\<lambda>w. key_of w \<noteq> k) (grid_widgets g)"
proof -
  let ?g = "fst (remove_key k g)"
  have g: "grid_ok g" "grid_items g = map (own_item key_of) (grid_widgets g)" "distinct (map key_of (grid_widgets g))"
    using ok by (simp_all add: cards_ok_def)
  have items: "grid_items ?g = map (own_item key_of) (filter (\<lambda>w. key_of w \<noteq> k) (grid_widgets g))"
    using grid_remove_key [OF g(1), of k] without_first_filter [OF g(3), of k]
    by (simp add: g(2) without_first_map)
  then have "grid_widgets ?g = filter (\<lambda>w. key_of w \<noteq> k) (grid_widgets g)"
    by (simp add: grid_widgets_def [of ?g])
  with items grid_remove_key [OF g(1), of k] g(3) show ?thesis
    by (simp add: cards_ok_def distinct_map_filter)
qed

lemma push_missing_cards:
  "cards_ok key_of g \<Longrightarrow> distinct (map id_of es) \<Longrightarrow>
   cards_ok key_of (push_missing id_of key_of new_card es g) \<and>
   grid_widgets (push_missing id_of key_of new_card es g) =
     grid_widgets g @ map new_card (filter (\<lambda>e. id_of e \<notin> set (map key_of (grid_widgets g))) es)"
proof (induction es arbitrary: g)
  case (Cons e es)
  show ?case
  proof (cases "has_key (id_of e) g")
    case True
    with Cons.IH [OF Cons.prems(1)] Cons.prems show ?thesis
      by (simp add: push_missing_def has_key_def cards_keys)
  next
    case False
    let ?g = "fst (push_widget key_of (new_card e) g)"
    from False Cons.prems push_card [OF Cons.prems(1), of e] have g: "cards_ok key_of ?g" "grid_widgets ?g = grid_widgets g @ [new_card e]"
      by (simp_all add: has_key_def cards_keys)
    have "filter (\<lambda>x. id_of x \<notin> set (map key_of (grid_widgets ?g))) es =
        filter (\<lambda>x. id_of x \<notin> set (map key_of (grid_widgets g))) es"
      using Cons.prems(2) by (intro filter_cong) (auto simp: g image_iff)
    with Cons.IH [OF g(1)] Cons.prems(2) False g(2) show ?thesis
      by (simp add: push_missing_def has_key_def cards_keys [OF Cons.prems(1)])
  qed
qed (simp add: push_missing_def)

lemma remove_absent_cards:
  assumes ok: "cards_ok key_of g"
  shows "cards_ok key_of (remove_absent id_of es g) \<and>
    grid_widgets (remove_absent id_of es g) = filter (\<lambda>w. key_of w \<in> set (map id_of es)) (grid_widgets g)"
proof -
  let ?step = "\<lambda>key (g :: (int, 'w, 'c) grid). if list_ex (\<lambda>e. id_of e = key) es then g else fst (remove_key key g)"
  have run: "cards_ok key_of (fold ?step keys g) \<and> grid_widgets (fold ?step keys g) =
      filter (\<lambda>w. key_of w \<in> set (map id_of es) \<or> key_of w \<notin> set keys) (grid_widgets g)"
    if "cards_ok key_of g" for keys and g :: "(int, 'w, 'c) grid"
    using that
  proof (induction keys arbitrary: g)
    case (Cons key keys)
    show ?case
    proof (cases "list_ex (\<lambda>e. id_of e = key) es")
      case True
      then have "key \<in> set (map id_of es)" by (auto simp: list_ex_iff)
      with True Cons.IH [OF Cons.prems] show ?thesis by (auto intro: filter_cong)
    next
      case False
      then have absent: "key \<notin> set (map id_of es)" by (auto simp: list_ex_iff)
      from remove_card [OF Cons.prems, of key] have g: "cards_ok key_of (fst (remove_key key g))"
        "grid_widgets (fst (remove_key key g)) = filter (\<lambda>w. key_of w \<noteq> key) (grid_widgets g)" by simp_all
      have "filter (\<lambda>w. (key_of w \<in> set (map id_of es) \<or> key_of w \<notin> set keys) \<and> key_of w \<noteq> key) (grid_widgets g) =
          filter (\<lambda>w. key_of w \<in> set (map id_of es) \<or> key_of w \<notin> set (key # keys)) (grid_widgets g)"
        using absent by (intro filter_cong) auto
      with False Cons.IH [OF g(1)] g(2) show ?thesis by (simp add: conj_commute)
    qed
  qed simp
  have "filter (\<lambda>w. key_of w \<in> set (map id_of es) \<or> key_of w \<notin> set (keys_value g)) (grid_widgets g) =
      filter (\<lambda>w. key_of w \<in> set (map id_of es)) (grid_widgets g)"
    using cards_keys [OF ok] by (intro filter_cong) auto
  with run [OF ok, of "keys_value g"] show ?thesis by (simp add: remove_absent_def)
qed

lemma card_for_facts:
  fixes cards :: "'w list" and e :: 'e
  defines "w \<equiv> card_for id_of key_of new_card cards e"
  shows "key_of w = id_of e"
    and "w \<in> set cards \<or> id_of e \<notin> set (map key_of cards) \<and> w = new_card e"
  by (auto simp: w_def card_for_def find_None_iff find_Some_iff split: option.split)

lemma refresh_grid_cards:
  assumes ok: "cards_ok key_of g" and distinct: "distinct (map id_of es)"
  shows "cards_ok key_of (refresh_grid id_of key_of new_card arrange es g) \<and>
    grid_widgets (refresh_grid id_of key_of new_card arrange es g) =
      refreshed_cards id_of key_of new_card arrange es (grid_widgets g)"
proof -
  let ?cards = "grid_widgets g" and ?missing = "filter (\<lambda>e. id_of e \<notin> set (map key_of (grid_widgets g))) es"
  let ?g = "remove_absent id_of es (push_missing id_of key_of new_card es g)"
  let ?kept = "filter (\<lambda>w. key_of w \<in> set (map id_of es)) ?cards @ map new_card ?missing"
  have pushed: "cards_ok key_of (push_missing id_of key_of new_card es g)"
    "grid_widgets (push_missing id_of key_of new_card es g) = ?cards @ map new_card ?missing"
    using push_missing_cards [OF ok distinct] by simp_all
  have "filter (\<lambda>w. key_of w \<in> set (map id_of es)) (map new_card ?missing) = map new_card ?missing"
    by (auto intro: filter_True)
  then have g: "cards_ok key_of ?g" "grid_widgets ?g = ?kept"
    using remove_absent_cards [OF pushed(1), of es] pushed(2) by simp_all
  have find: "find (\<lambda>w. key_of w = id_of e) ?kept = Some (card_for id_of key_of new_card ?cards e)"
    if "e \<in> set es" for e
  proof -
    have "card_for id_of key_of new_card ?cards e \<in> set ?kept"
      using card_for_facts [of ?cards e] that by auto
    moreover have "distinct (map key_of ?kept)" using g by (simp add: cards_ok_def)
    ultimately have "find (\<lambda>w. key_of w = key_of (card_for id_of key_of new_card ?cards e)) ?kept =
        Some (card_for id_of key_of new_card ?cards e)" by (rule find_key)
    then show ?thesis by (simp only: card_for_facts(1))
  qed
  have arranged: "List.map_filter (\<lambda>k. find (\<lambda>w. key_of w = k) ?kept) (map id_of es) =
      map (card_for id_of key_of new_card ?cards) es"
    using find by (induction es) (auto simp: map_filter_def)
  show ?thesis
  proof (cases arrange)
    case True
    let ?a = "fst (arrange_widgets key_of (map id_of es) ?g)"
    have "grid_ok ?a \<and> grid_items ?a = map (own_item key_of) (map (card_for id_of key_of new_card ?cards) es)"
      using grid_step_refines [of ?g key_of "Arrange_widgets (map id_of es)"] g(1)
      by (simp only: grid_step.simps items_step.simps grid_widgets_def [symmetric] g(2) arranged cards_ok_def)
    then have a: "grid_ok ?a" "grid_widgets ?a = map (card_for id_of key_of new_card ?cards) es"
      "grid_items ?a = map (own_item key_of) (map (card_for id_of key_of new_card ?cards) es)"
      by (simp_all add: grid_widgets_def [of ?a])
    moreover have "map key_of (map (card_for id_of key_of new_card ?cards) es) = map id_of es"
      by (simp add: card_for_facts)
    ultimately have "cards_ok key_of ?a"
      using distinct by (simp only: cards_ok_def)
    with True a(2) show ?thesis by (simp add: refresh_grid_def Let_def refreshed_cards_def)
  next
    case False
    with g show ?thesis by (simp add: refresh_grid_def Let_def refreshed_cards_def)
  qed
qed

lemma refreshed_keys:
  "set (map key_of (refreshed_cards id_of key_of new_card arrange es cards)) = set (map id_of es)"
proof (cases arrange)
  case True
  then show ?thesis by (auto simp: refreshed_cards_def card_for_facts)
next
  case False
  have "id_of e \<in> key_of ` {w \<in> set cards. key_of w \<in> id_of ` set es} \<union>
      id_of ` {x \<in> set es. id_of x \<notin> key_of ` set cards}" if "e \<in> set es" for e
    using that by (cases "id_of e \<in> key_of ` set cards")
      (metis (mono_tags, lifting) UnI1 imageE image_eqI mem_Collect_eq, simp)
  then have "id_of ` set es \<subseteq> key_of ` {w \<in> set cards. key_of w \<in> id_of ` set es} \<union>
      id_of ` {x \<in> set es. id_of x \<notin> key_of ` set cards}" by blast
  moreover have "set (map key_of (refreshed_cards id_of key_of new_card arrange es cards)) =
      key_of ` {w \<in> set cards. key_of w \<in> id_of ` set es} \<union> id_of ` {x \<in> set es. id_of x \<notin> key_of ` set cards}"
    using False by (simp add: refreshed_cards_def image_Un image_image)
  ultimately show ?thesis by auto
qed

end

section \<open>The page of modules\<close>

text \<open>
  \<open>Filter_answer\<close> and \<open>Cards_answer\<close> are the two callbacks of the requests for modules; the second captures the
  project and whether the refresh is silent. \<open>Page_failed\<close> is the type error of a selected tab without a project.
\<close>

datatype page_callback = Filter_answer bool | Cards_answer project bool | Ids_answer

datatype page_effect =
    Page_call "page_callback api_call"
  | Tabs_redrawn
  | Page_paused | Page_continued
  | Page_failed
  | Of_card int card_effect

record module_page =
  mp_filtering :: bool
  mp_expanded :: "string \<Rightarrow> bool option"
  mp_modules :: "module_information list"
  mp_cards :: "(int, module_card, unit) grid"
  mp_filter :: "unit page_filter"
  mp_tabs :: "unit tabs option"

text \<open>The filter has the one action of the page, which filters loudly.\<close>

definition new_module_filter :: "unit page_filter" where
  "new_module_filter =
     (case settled_then (on_modules_filtered () (new_page_filter MODULE_FILTERABLE_STATES)) (\<lambda>(f, _).
        on_versions_filtered () (fst (on_states_filtered () f))) of
        Settled (f, _) \<Rightarrow> f
      | _ \<Rightarrow> new_page_filter MODULE_FILTERABLE_STATES)"

definition new_module_page :: "module_information list \<Rightarrow> module_page" where
  "new_module_page modules =
     \<lparr>mp_filtering = True, mp_expanded = (\<lambda>_. None), mp_modules = modules, mp_cards = new_grid,
      mp_filter = new_module_filter, mp_tabs = None\<rparr>"

text \<open>The tabs are made when they are first asked for, of the projects of that moment.\<close>

definition lazy_tabs :: "project list \<Rightarrow> unit tabs option \<Rightarrow> unit tabs" where
  "lazy_tabs projects t =
     (case t of None \<Rightarrow> tabs_on_select () (new_tabs (map project_name projects) None) | Some t \<Rightarrow> t)"

definition selected_project :: "project list \<Rightarrow> unit tabs \<Rightarrow> project option" where
  "selected_project projects t = js_at projects (tabs_index t)"

definition module_request :: "project \<Rightarrow> unit page_filter \<Rightarrow> module_filter_criteria" where
  "module_request project f =
     \<lparr>module_filter_criteria_project_ids = Some [project_id project],
      module_filter_criteria_states = Some (filtered_states f),
      module_filter_criteria_ids = Some (map mod_id (filtered_modules f)),
      module_filter_criteria_versions = Some (filtered_versions f),
      module_filter_criteria_sorted = True\<rparr>"

definition filter_modules :: "project list \<Rightarrow> bool \<Rightarrow> module_page \<Rightarrow> module_page \<times> page_effect list" where
  "filter_modules projects silent p =
     (let t = lazy_tabs projects (mp_tabs p); p1 = p\<lparr>mp_tabs := Some t\<rparr>
      in case selected_project projects t of
           None \<Rightarrow> (p1, [Page_failed])
         | Some project \<Rightarrow>
             let ask = Page_call (api_get_filtered_modules (module_request project (mp_filter p1))
               (Cards_answer project silent))
             in if silent then (p1, [ask]) else (p1\<lparr>mp_filtering := True\<rparr>, [Tabs_redrawn, ask]))"

text \<open>What the filter's actions do, after the part of the filter that calls them.\<close>

definition module_actions ::
  "project list \<Rightarrow> (unit page_filter \<times> unit list) settled \<Rightarrow> module_page \<Rightarrow> module_page \<times> page_effect list" where
  "module_actions projects r p =
     (case r of
        Settled (f, actions) \<Rightarrow> emit_run (\<lambda>_. filter_modules projects False) actions (p\<lparr>mp_filter := f\<rparr>)
      | _ \<Rightarrow> (p, [Page_failed]))"

definition update_module_filter :: "project list \<Rightarrow> bool \<Rightarrow> module_page \<Rightarrow> module_page \<times> page_effect list" where
  "update_module_filter projects silent p =
     (let t = lazy_tabs projects (mp_tabs p); p1 = p\<lparr>mp_tabs := Some t\<rparr>
      in case selected_project projects t of
           None \<Rightarrow> (p1, [Page_failed])
         | Some project \<Rightarrow>
             let (p2, effects) = module_actions projects (set_available_versions
                   (map version_version (project_versions project)) (mp_filter p1)) p1;
                 request = \<lparr>module_filter_criteria_project_ids = Some [project_id project],
                   module_filter_criteria_states = None, module_filter_criteria_ids = None,
                   module_filter_criteria_versions = None, module_filter_criteria_sorted = True\<rparr>
             in (p2, effects @ [Page_call (api_get_filtered_modules request (Filter_answer silent))]))"

definition module_filter_answered ::
  "project list \<Rightarrow> bool \<Rightarrow> module_information list \<Rightarrow> module_page \<Rightarrow> module_page \<times> page_effect list" where
  "module_filter_answered projects silent modules p =
     (let (p1, first) = module_actions projects (set_available_modules modules (mp_filter p)) p;
          p2 = p1\<lparr>mp_expanded := fold (\<lambda>m expanded. expanded(artifact_version (mod_artifact m) \<mapsto> True))
            (filter module_is_changing modules) (mp_expanded p1)\<rparr>;
          (p3, rest) = filter_modules projects silent p2
      in (p3, first @ rest))"

definition refresh_module_cards ::
  "module_information list \<Rightarrow> project \<Rightarrow> bool \<Rightarrow> module_page \<Rightarrow> module_page \<times> page_effect list" where
  "refresh_module_cards modules project silent p =
     (p\<lparr>mp_modules := modules,
        mp_cards := refresh_grid mod_id module_card_key
          (\<lambda>m. new_module_card project m (available_modules (mp_filter p))) (\<not> silent) modules (mp_cards p),
        mp_filtering := (if silent then mp_filtering p else False)\<rparr>, [Page_paused, Page_continued])"

text \<open>What is drawn once the loader is gone: a panel for every version of the project that a listed module has.\<close>

definition version_of :: "module_information \<Rightarrow> string" where
  "version_of m = artifact_version (mod_artifact m)"

definition page_versions :: "project \<Rightarrow> module_page \<Rightarrow> string list" where
  "page_versions project p =
     filter (\<lambda>version. list_ex (\<lambda>m. version_of m = version) (mp_modules p))
       (map version_version (project_versions project))"

definition cards_of_version :: "string \<Rightarrow> module_page \<Rightarrow> (int, module_card, unit) grid option" where
  "cards_of_version version p =
     filter_grid module_card_key
       (\<lambda>key. list_ex (\<lambda>m. mod_id m = key \<and> version_of m = version) (mp_modules p)) (mp_cards p)"

record version_panel =
  panel_label :: string
  panel_count :: nat
  panel_expanded :: "bool option"
  panel_cards :: "module_card list"

definition module_panels :: "project \<Rightarrow> module_page \<Rightarrow> version_panel list option" where
  "module_panels project p =
     those (map (\<lambda>version. map_option (\<lambda>g.
         \<lparr>panel_label = version, panel_count = length (filter (\<lambda>m. version_of m = version) (mp_modules p)),
          panel_expanded = mp_expanded p version, panel_cards = grid_widgets g\<rparr>)
       (cards_of_version version p)) (page_versions project p))"

definition update_version :: "string \<Rightarrow> module_page \<Rightarrow> page_effect list" where
  "update_version version p =
     map (\<lambda>m. Page_call (api_refresh_module_artifact (mod_id m)))
       (filter (\<lambda>m. mod_state m = MODULE_RUN_STATE \<and> version_of m = version) (mp_modules p))"

definition install_button_shown :: "project list \<Rightarrow> bool \<Rightarrow> bool" where
  "install_button_shown projects has_resources \<longleftrightarrow> projects \<noteq> [] \<and> has_resources"

text \<open>An operation of one of the cards; React mounts a card only when the loader is gone.\<close>

definition with_card ::
  "int \<Rightarrow> ('w \<Rightarrow> 'w) \<Rightarrow> (int, 'w, 'c) grid \<Rightarrow> (int, 'w, 'c) grid" where
  "with_card key f g =
     g\<lparr>grid_items := map (\<lambda>item. if item_key item = key then item\<lparr>item_widget := f (item_widget item)\<rparr> else item)
        (grid_items g)\<rparr>"

definition on_card ::
  "bool \<Rightarrow> int \<Rightarrow> module_card_op \<Rightarrow> module_page \<Rightarrow> module_page \<times> page_effect list" where
  "on_card bundled key op p =
     (case widget_by_key key (mp_cards p) of
        None \<Rightarrow> (p, [])
      | Some c \<Rightarrow>
          if mp_filtering p \<and> (case op of Mount_card _ \<Rightarrow> True | _ \<Rightarrow> False) then (p, [])
          else (p\<lparr>mp_cards := with_card key (\<lambda>c. fst (module_card_step bundled op c)) (mp_cards p)\<rparr>,
                map (Of_card key) (snd (module_card_step bundled op c))))"

definition unmount_cards :: "bool \<Rightarrow> module_page \<Rightarrow> module_page" where
  "unmount_cards bundled p =
     p\<lparr>mp_cards := (mp_cards p)\<lparr>grid_items := map (\<lambda>item.
        item\<lparr>item_widget := fst (module_card_step bundled Unmount_card (item_widget item))\<rparr>) (grid_items (mp_cards p))\<rparr>\<rparr>"

definition draw_module_page :: "bool \<Rightarrow> project list \<Rightarrow> module_page \<Rightarrow> module_page \<times> page_effect list" where
  "draw_module_page bundled projects p =
     (let (p1, effects) = module_actions projects (draw_filter
          \<lparr>filter_projects = False, filter_profiles = False, filter_versions = True, filter_names = False,
           filter_modules = True, filter_states = True\<rparr> 0 (mp_filter p)) p
      in (if mp_filtering p1 then unmount_cards bundled p1 else p1, effects))"

datatype module_page_op =
    Load_page | Draw_page | Select_tab nat | Choose_versions "string list" | Choose_modules "string list"
  | Check_state string bool | Module_added | Module_deleted
  | Filter_answered bool "module_information list"
  | Cards_answered "module_information list" project bool
  | Request_failed | Expand_version string bool | Update_version string
  | On_card int module_card_op

fun module_page_step ::
  "bool \<Rightarrow> project list \<Rightarrow> module_page_op \<Rightarrow> module_page \<Rightarrow> module_page \<times> page_effect list" where
  "module_page_step bundled projects Load_page p =
     (if projects = [] then (p, []) else update_module_filter projects False p)"
| "module_page_step bundled projects Draw_page p = draw_module_page bundled projects p"
| "module_page_step bundled projects (Select_tab i) p =
     (let (t, actions) = tabs_select i (lazy_tabs projects (mp_tabs p))
      in emit_run (\<lambda>_. update_module_filter projects False) actions (p\<lparr>mp_tabs := Some t\<rparr>))"
| "module_page_step bundled projects (Choose_versions suggestions) p =
     module_actions projects (on_versions (part_choose suggestions) (mp_filter p)) p"
| "module_page_step bundled projects (Choose_modules suggestions) p =
     module_actions projects (on_modules (part_choose suggestions) (mp_filter p)) p"
| "module_page_step bundled projects (Check_state state mark) p =
     module_actions projects (Settled (check_state state mark (mp_filter p))) p"
| "module_page_step bundled projects Module_added p = update_module_filter projects True p"
| "module_page_step bundled projects Module_deleted p = update_module_filter projects True p"
| "module_page_step bundled projects (Filter_answered silent modules) p =
     module_filter_answered projects silent modules p"
| "module_page_step bundled projects (Cards_answered modules project silent) p =
     refresh_module_cards modules project silent p"
| "module_page_step bundled projects Request_failed p = (p, [])"
| "module_page_step bundled projects (Expand_version version b) p =
     (p\<lparr>mp_expanded := (mp_expanded p)(version \<mapsto> b)\<rparr>, [])"
| "module_page_step bundled projects (Update_version version) p = (p, update_version version p)"
| "module_page_step bundled projects (On_card key op) p = on_card bundled key op p"

section \<open>What the page of modules shows\<close>

interpretation module_listing: listed_cards mod_id module_card_key "\<lambda>m. new_module_card project m modules"
  for project modules
  by unfold_locales (simp add: module_card_key_def new_module_card_def)

lemma module_card_step_given [simp]: "mc_given (fst (module_card_step bundled op c)) = mc_given c"
proof (cases op)
  case (Click_button b)
  have "mc_given (fst (click_module_button b c)) = mc_given c"
    by (cases b) (simp_all add: start_updating_def start_cloning_def spawn_dialog_def)
  with Click_button show ?thesis by (simp split: option.split)
qed (auto simp: mount_module_card_def module_theme_changed_def expand_module_card_def module_answered_def set_module_def
    refresh_module_card_def spawn_dialog_def approve_module_deletion_def Let_def split_beta split: option.split)

lemma changed_cards:
  assumes ok: "cards_ok key_of g" and h: "\<And>w. key_of (h w) = key_of w"
    and items: "items = map (own_item key_of) (map h (grid_widgets g))"
  shows "cards_ok key_of (g\<lparr>grid_items := items\<rparr>)" and "grid_widgets (g\<lparr>grid_items := items\<rparr>) = map h (grid_widgets g)"
proof -
  have g: "grid_ok g" "grid_items g = map (own_item key_of) (grid_widgets g)" "distinct (map key_of (grid_widgets g))"
    using ok by (simp_all add: cards_ok_def)
  show widgets: "grid_widgets (g\<lparr>grid_items := items\<rparr>) = map h (grid_widgets g)"
  proof -
    have "grid_widgets (g\<lparr>grid_items := items\<rparr>) = map item_widget items" by (simp add: grid_widgets_def)
    then show ?thesis unfolding items by (simp add: comp_assoc [symmetric])
  qed
  have keys: "map key_of (map h (grid_widgets g)) = map key_of (grid_widgets g)" by (simp add: h)
  have "map item_key items = map item_key (grid_items g)"
    unfolding items g(2) by (simp add: h)
  with g(1) have "grid_ok (g\<lparr>grid_items := items\<rparr>)" by (simp add: grid_ok_def)
  moreover have "distinct (map key_of (map h (grid_widgets g)))" unfolding keys by (rule g(3))
  ultimately show "cards_ok key_of (g\<lparr>grid_items := items\<rparr>)"
    unfolding cards_ok_def widgets by (simp add: items)
qed

lemma with_card_cards:
  assumes ok: "cards_ok key_of g" and f: "\<And>w. key_of (f w) = key_of w"
  shows "cards_ok key_of (with_card key f g)"
    and "grid_widgets (with_card key f g) = map (\<lambda>w. if key_of w = key then f w else w) (grid_widgets g)"
proof -
  let ?h = "\<lambda>w. if key_of w = key then f w else w"
  have "grid_items g = map (own_item key_of) (grid_widgets g)" using ok by (simp add: cards_ok_def)
  then have "map (\<lambda>item. if item_key item = key then item\<lparr>item_widget := f (item_widget item)\<rparr> else item) (grid_items g) =
      map (own_item key_of) (map ?h (grid_widgets g))"
    by (simp add: own_item_def f)
  from changed_cards [OF ok _ this] f
  show "cards_ok key_of (with_card key f g)" "grid_widgets (with_card key f g) = map ?h (grid_widgets g)"
    by (simp_all add: with_card_def)
qed

lemma unmounted_cards:
  assumes ok: "cards_ok module_card_key (mp_cards p)"
  shows "cards_ok module_card_key (mp_cards (unmount_cards bundled p))"
    and "grid_widgets (mp_cards (unmount_cards bundled p)) =
      map (\<lambda>c. c\<lparr>mc_mounted := False\<rparr>) (grid_widgets (mp_cards p))"
proof -
  have "grid_items (mp_cards p) = map (own_item module_card_key) (grid_widgets (mp_cards p))"
    using ok by (simp add: cards_ok_def)
  then have "map (\<lambda>item. item\<lparr>item_widget := fst (module_card_step bundled Unmount_card (item_widget item))\<rparr>)
        (grid_items (mp_cards p)) =
      map (own_item module_card_key) (map (\<lambda>c. c\<lparr>mc_mounted := False\<rparr>) (grid_widgets (mp_cards p)))"
    by (simp add: own_item_def module_card_key_def)
  from changed_cards [OF ok _ this]
  show "cards_ok module_card_key (mp_cards (unmount_cards bundled p))"
    "grid_widgets (mp_cards (unmount_cards bundled p)) =
      map (\<lambda>c. c\<lparr>mc_mounted := False\<rparr>) (grid_widgets (mp_cards p))"
    by (simp_all add: unmount_cards_def module_card_key_def)
qed

text \<open>Everything that filters leaves the cards, the listing and, but for setting it, the loader alone.\<close>

definition filter_frame :: "module_page \<Rightarrow> module_page \<Rightarrow> bool" where
  "filter_frame p p' \<longleftrightarrow>
     mp_cards p' = mp_cards p \<and> mp_modules p' = mp_modules p \<and> (mp_filtering p \<longrightarrow> mp_filtering p')"

lemma filter_frame_refl [simp]: "filter_frame p p"
  by (simp add: filter_frame_def)

lemma filter_frame_trans [trans]: "filter_frame p q \<Longrightarrow> filter_frame q r \<Longrightarrow> filter_frame p r"
  by (simp add: filter_frame_def)

lemma filter_modules_frame: "filter_frame p (fst (filter_modules projects silent p))"
  by (auto simp: filter_frame_def filter_modules_def Let_def split: option.split)

lemma filters_frame: "filter_frame p (fst (emit_run (\<lambda>_. filter_modules projects silent) actions p))"
  by (induction actions arbitrary: p) (auto intro: filter_frame_trans filter_modules_frame)

lemma module_actions_frame: "filter_frame p (fst (module_actions projects r p))"
proof (cases r)
  case (Settled fa)
  have "filter_frame p (p\<lparr>mp_filter := fst fa\<rparr>)" by (simp add: filter_frame_def)
  with Settled filters_frame [of "p\<lparr>mp_filter := fst fa\<rparr>"] show ?thesis
    by (auto simp: module_actions_def split_beta intro: filter_frame_trans)
qed (simp_all add: module_actions_def)

lemma update_module_filter_frame: "filter_frame p (fst (update_module_filter projects silent p))"
proof -
  let ?p = "p\<lparr>mp_tabs := Some (lazy_tabs projects (mp_tabs p))\<rparr>"
  have "filter_frame p ?p" by (simp add: filter_frame_def)
  then show ?thesis
    using module_actions_frame [of ?p projects]
    by (auto simp: update_module_filter_def Let_def split_beta intro: filter_frame_trans split: option.split)
qed

lemma updates_frame: "filter_frame p (fst (emit_run (\<lambda>_. update_module_filter projects silent) actions p))"
  by (induction actions arbitrary: p) (auto intro: filter_frame_trans update_module_filter_frame)

lemma module_filter_answered_frame: "filter_frame p (fst (module_filter_answered projects silent modules p))"
proof -
  let ?p1 = "fst (module_actions projects (set_available_modules modules (mp_filter p)) p)"
  let ?p2 = "?p1\<lparr>mp_expanded := fold (\<lambda>m expanded. expanded(artifact_version (mod_artifact m) \<mapsto> True))
            (filter module_is_changing modules) (mp_expanded ?p1)\<rparr>"
  have "filter_frame p ?p1" by (rule module_actions_frame)
  also have "filter_frame ?p1 ?p2" by (simp add: filter_frame_def)
  also have "filter_frame ?p2 (fst (filter_modules projects silent ?p2))" by (rule filter_modules_frame)
  finally show ?thesis by (simp add: module_filter_answered_def Let_def split_beta)
qed

definition distinct_answer :: "module_page_op \<Rightarrow> bool" where
  "distinct_answer op \<longleftrightarrow> (case op of Cards_answered modules _ _ \<Rightarrow> distinct (map mod_id modules) | _ \<Rightarrow> True)"

lemma on_card_ok:
  assumes "cards_ok module_card_key (mp_cards p)"
  shows "cards_ok module_card_key (mp_cards (fst (on_card bundled key op p)))"
  using assms by (auto simp: on_card_def module_card_key_def intro!: with_card_cards split: option.split)

lemma draw_module_page_ok:
  assumes "cards_ok module_card_key (mp_cards p)"
  shows "cards_ok module_card_key (mp_cards (fst (draw_module_page bundled projects p)))"
proof -
  have "filter_frame p (fst (module_actions projects r p))" for r by (rule module_actions_frame)
  then have "cards_ok module_card_key (mp_cards (fst (module_actions projects r p)))" for r
    using assms by (simp add: filter_frame_def)
  then show ?thesis by (simp add: draw_module_page_def split_beta Let_def unmounted_cards)
qed

lemma module_page_step_ok:
  assumes ok: "cards_ok module_card_key (mp_cards p)" and op: "distinct_answer op"
  shows "cards_ok module_card_key (mp_cards (fst (module_page_step bundled projects op p)))"
proof -
  have framed: "cards_ok module_card_key (mp_cards p')" if "filter_frame q p'" "mp_cards q = mp_cards p" for q p'
    using that ok by (simp add: filter_frame_def)
  show ?thesis
  proof (cases op)
    case Draw_page
    with draw_module_page_ok [OF ok] show ?thesis by simp
  next
    case (On_card key card_op)
    with on_card_ok [OF ok] show ?thesis by simp
  next
    case (Cards_answered modules project silent)
    with module_listing.refresh_grid_cards [OF ok] op show ?thesis
      by (simp add: refresh_module_cards_def distinct_answer_def)
  next
    case (Select_tab i)
    then show ?thesis by (auto simp: split_beta Let_def intro!: framed updates_frame)
  qed (use ok in \<open>auto intro!: framed module_actions_frame update_module_filter_frame module_filter_answered_frame\<close>)
qed

lemma module_page_run_ok:
  assumes "list_all distinct_answer ops"
  shows "cards_ok module_card_key (mp_cards (fst (emit_run (module_page_step bundled projects) ops (new_module_page initial))))"
proof -
  have "cards_ok module_card_key (mp_cards (fst (emit_run (module_page_step bundled projects) ops p)))"
    if "list_all distinct_answer ops" "cards_ok module_card_key (mp_cards p)" for ops p
    using that by (induction ops arbitrary: p) (simp_all add: module_page_step_ok)
  then show ?thesis using assms by (simp add: new_module_page_def)
qed

text \<open>
  C14. An answer with the listing refreshes the cards of the page to what the listing says, whatever happened on the
  page before: after a loud request the page has exactly one card for each listed module, in the order of the
  listing, and the loader goes; a silent one keeps the order of the cards that are still listed and puts the new
  ones behind them. A card that stays is the same card with everything it has loaded and opened, and the keys by
  which the grid finds its cards are theirs. Listings are taken to name each module once.
\<close>
theorem module_cards_follow_listing:
  assumes "list_all distinct_answer ops" and "distinct (map mod_id modules)"
  shows "let p = fst (emit_run (module_page_step bundled projects) ops (new_module_page initial));
      p' = fst (module_page_step bundled projects (Cards_answered modules project silent) p)
    in grid_widgets (mp_cards p') = refreshed_cards mod_id module_card_key
         (\<lambda>m. new_module_card project m (available_modules (mp_filter p))) (\<not> silent) modules (grid_widgets (mp_cards p)) \<and>
       keys_value (mp_cards p') = map module_card_key (grid_widgets (mp_cards p')) \<and>
       distinct (keys_value (mp_cards p')) \<and> set (keys_value (mp_cards p')) = set (map mod_id modules) \<and>
       (mp_filtering p' \<longleftrightarrow> silent \<and> mp_filtering p)"
proof -
  let ?p = "fst (emit_run (module_page_step bundled projects) ops (new_module_page initial))"
  let ?new = "\<lambda>m. new_module_card project m (available_modules (mp_filter ?p))"
  let ?g = "refresh_grid mod_id module_card_key ?new (\<not> silent) modules (mp_cards ?p)"
  have g: "cards_ok module_card_key ?g" "grid_widgets ?g = refreshed_cards mod_id module_card_key ?new (\<not> silent)
      modules (grid_widgets (mp_cards ?p))"
    using module_listing.refresh_grid_cards [OF module_page_run_ok [OF assms(1)] assms(2)] by simp_all
  have "set (map module_card_key (grid_widgets ?g)) = set (map mod_id modules)"
    unfolding g(2) by (rule module_listing.refreshed_keys)
  with g(1) cards_keys [OF g(1)] show ?thesis
    by (auto simp: Let_def refresh_module_cards_def g(2) cards_ok_def)
qed

definition sample_information :: "int \<Rightarrow> string \<Rightarrow> module_information" where
  "sample_information key version =
     (module_information.truncate (sample_module []))\<lparr>mod_id := key, mod_artifact := sample_artifact\<lparr>artifact_version := version\<rparr>\<rparr>"

theorem module_cards_follow_listing_witness:
  "let p = fst (emit_run (module_page_step True [sample_project])
        [Cards_answered [sample_information 1 ''a'', sample_information 2 ''b''] sample_project False]
        (new_module_page []));
      p' = fst (module_page_step True [sample_project]
        (Cards_answered [sample_information 3 ''a'', sample_information 2 ''b''] sample_project True) p)
    in grid_widgets (mp_cards p') = refreshed_cards mod_id module_card_key
         (\<lambda>m. new_module_card sample_project m (available_modules (mp_filter p))) (\<not> True)
         [sample_information 3 ''a'', sample_information 2 ''b''] (grid_widgets (mp_cards p)) \<and>
       keys_value (mp_cards p') = map module_card_key (grid_widgets (mp_cards p')) \<and>
       distinct (keys_value (mp_cards p')) \<and>
       set (keys_value (mp_cards p')) = set (map mod_id [sample_information 3 ''a'', sample_information 2 ''b'']) \<and>
       (mp_filtering p' \<longleftrightarrow> True \<and> mp_filtering p)"
  by (rule module_cards_follow_listing) (simp_all add: distinct_answer_def sample_information_def)

text \<open>The grid of the cards of some keys, which fails only if a key has no card.\<close>

lemma pushed_widgets:
  "grid_ok g \<Longrightarrow> grid_widgets (fst (push_widgets key_of ws g)) = grid_widgets g @ ws"
  using grid_ops_refine(5) [of g key_of ws] by (simp add: grid_widgets_def)

lemma filter_grid_cards:
  assumes ok: "cards_ok key_of g"
  shows "\<exists>g'. filter_grid key_of test g = Some g' \<and> grid_widgets g' = filter (\<lambda>w. test (key_of w)) (grid_widgets g)"
proof -
  have items: "grid_items g = map (own_item key_of) (grid_widgets g)" and dist: "distinct (map key_of (grid_widgets g))"
    using ok by (simp_all add: cards_ok_def)
  have found: "widget_by_key (key_of w) g = Some w" if "w \<in> set (grid_widgets g)" for w
  proof -
    have "find (\<lambda>item. item_key item = key_of w) (map (own_item key_of) ws) =
        map_option (own_item key_of) (find (\<lambda>x. key_of x = key_of w) ws)" for ws
      by (induction ws) simp_all
    moreover have "find (\<lambda>x. key_of x = key_of w) (grid_widgets g) = Some w"
      by (rule find_key [OF that dist])
    ultimately show ?thesis by (simp add: widget_by_key_def item_by_key_def items)
  qed
  have "those (map (\<lambda>k. widget_by_key k g) (filter test (map key_of ws))) = Some (filter (\<lambda>w. test (key_of w)) ws)"
    if "set ws \<subseteq> set (grid_widgets g)" for ws
    using that found by (induction ws) auto
  from this [of "grid_widgets g"] show ?thesis
    using pushed_widgets [of new_grid key_of] cards_keys [OF ok]
    by (auto simp: filter_grid_def) (simp add: grid_widgets_def new_grid_def)
qed

lemma those_map_Some: "(\<And>x. x \<in> set xs \<Longrightarrow> f x = Some (g x)) \<Longrightarrow> those (map f xs) = Some (map g xs)"
  by (induction xs) simp_all

text \<open>
  C15. After an answer to a loud request the drawing never fails, and shows a panel for every version of the
  project that a listed module has, in the order of the versions, with the number and the cards of its modules in
  the order of the listing: a listed module is on the page exactly if its version is one of the project's, and
  one whose version the project no longer has is counted and shown nowhere.
\<close>
theorem module_panels_by_version:
  assumes "list_all distinct_answer ops" and "distinct (map mod_id modules)"
  shows "let p = fst (emit_run (module_page_step bundled projects) ops (new_module_page initial));
      p' = fst (module_page_step bundled projects (Cards_answered modules project False) p);
      card = card_for mod_id module_card_key (\<lambda>m. new_module_card project m (available_modules (mp_filter p)))
        (grid_widgets (mp_cards p));
      panel = (\<lambda>version.
        let own = filter (\<lambda>m. version_of m = version) modules
        in \<lparr>panel_label = version, panel_count = length own, panel_expanded = mp_expanded p version,
            panel_cards = map card own\<rparr>)
    in module_panels project p' = Some (map panel
         (filter (\<lambda>version. list_ex (\<lambda>m. version_of m = version) modules)
           (map version_version (project_versions project))))"
proof -
  let ?p = "fst (emit_run (module_page_step bundled projects) ops (new_module_page initial))"
  let ?new = "\<lambda>m. new_module_card project m (available_modules (mp_filter ?p))"
  let ?p' = "fst (module_page_step bundled projects (Cards_answered modules project False) ?p)"
  let ?card = "card_for mod_id module_card_key ?new (grid_widgets (mp_cards ?p))"
  have g: "cards_ok module_card_key (mp_cards ?p')" "grid_widgets (mp_cards ?p') = map ?card modules"
    using module_listing.refresh_grid_cards [OF module_page_run_ok [OF assms(1)] assms(2), of _ _ True]
    by (simp_all add: refresh_module_cards_def refreshed_cards_def)
  have modules: "mp_modules ?p' = modules" "mp_expanded ?p' = mp_expanded ?p"
    by (simp_all add: refresh_module_cards_def)
  have own: "list_ex (\<lambda>x. mod_id x = mod_id m \<and> version_of x = version) modules \<longleftrightarrow> version_of m = version"
    if "m \<in> set modules" for m version
    using that assms(2) by (auto simp: list_ex_iff distinct_map inj_on_def)
  have kept: "filter (\<lambda>c. list_ex (\<lambda>m. mod_id m = module_card_key c \<and> version_of m = version) modules)
      (map ?card modules) = map ?card (filter (\<lambda>m. version_of m = version) modules)" for version
    unfolding filter_map comp_def module_listing.card_for_facts(1)
    using own by (intro arg_cong [where f = "map ?card"] filter_cong) simp_all
  have cards: "\<exists>g'. cards_of_version version ?p' = Some g' \<and>
       grid_widgets g' = map ?card (filter (\<lambda>m. version_of m = version) modules)" for version
  proof -
    let ?test = "\<lambda>key. list_ex (\<lambda>m. mod_id m = key \<and> version_of m = version) modules"
    obtain g' where "filter_grid module_card_key ?test (mp_cards ?p') = Some g'"
      "grid_widgets g' = filter (\<lambda>w. ?test (module_card_key w)) (grid_widgets (mp_cards ?p'))"
      using filter_grid_cards [OF g(1), of ?test] by blast
    then show ?thesis unfolding cards_of_version_def modules(1) g(2) kept by blast
  qed
  have "map_option (\<lambda>g. \<lparr>panel_label = version,
          panel_count = length (filter (\<lambda>m. version_of m = version) (mp_modules ?p')),
          panel_expanded = mp_expanded ?p' version, panel_cards = grid_widgets g\<rparr>) (cards_of_version version ?p') =
      Some (let own = filter (\<lambda>m. version_of m = version) modules
        in \<lparr>panel_label = version, panel_count = length own, panel_expanded = mp_expanded ?p version,
            panel_cards = map ?card own\<rparr>)" for version
    unfolding modules Let_def using cards [of version] by auto
  then have "module_panels project ?p' = Some (map (\<lambda>version.
        let own = filter (\<lambda>m. version_of m = version) modules
        in \<lparr>panel_label = version, panel_count = length own, panel_expanded = mp_expanded ?p version,
            panel_cards = map ?card own\<rparr>) (page_versions project ?p'))"
    unfolding module_panels_def by (intro those_map_Some)
  then show ?thesis by (simp only: Let_def page_versions_def modules)
qed

theorem module_panels_by_version_witness:
  "let modules = [sample_information 3 ''a'', sample_information 2 ''b''];
      p = fst (emit_run (module_page_step True [sample_project])
        [Cards_answered [sample_information 1 ''a''] sample_project False] (new_module_page []));
      p' = fst (module_page_step True [sample_project] (Cards_answered modules sample_project False) p);
      card = card_for mod_id module_card_key (\<lambda>m. new_module_card sample_project m (available_modules (mp_filter p)))
        (grid_widgets (mp_cards p));
      panel = (\<lambda>version.
        let own = filter (\<lambda>m. version_of m = version) modules
        in \<lparr>panel_label = version, panel_count = length own, panel_expanded = mp_expanded p version,
            panel_cards = map card own\<rparr>)
    in module_panels sample_project p' = Some (map panel
         (filter (\<lambda>version. list_ex (\<lambda>m. version_of m = version) modules)
           (map version_version (project_versions sample_project))))"
  using module_panels_by_version [of "[Cards_answered [sample_information 1 ''a''] sample_project False]"
      "[sample_information 3 ''a'', sample_information 2 ''b'']" True "[sample_project]" "[]" sample_project]
  by (simp add: distinct_answer_def sample_information_def Let_def del: emit_run_cons module_page_step.simps)

text \<open>
  A failed request is not noticed by the page: once it is filtering, and until the listing of some loud request
  arrives, the loader stays in the place of the cards through failures, silent refreshes, new modules and
  every operation of the user, although the cards are there and kept up to date.
\<close>
theorem failed_filter_keeps_loader:
  assumes "list_all (\<lambda>op. case op of Cards_answered _ _ silent \<Rightarrow> silent | _ \<Rightarrow> True) ops" and "mp_filtering p"
  shows "mp_filtering (fst (emit_run (module_page_step bundled projects) ops p))"
  using assms
proof (induction ops arbitrary: p)
  case (Cons op ops)
  have framed: "mp_filtering p'" if "filter_frame p p'" for p'
    using that Cons.prems(2) by (simp add: filter_frame_def)
  have tabs: "mp_filtering (fst (emit_run (\<lambda>_. update_module_filter projects False) actions (p\<lparr>mp_tabs := t\<rparr>)))" for actions t
    using updates_frame [of "p\<lparr>mp_tabs := t\<rparr>" projects False actions] Cons.prems(2) by (simp add: filter_frame_def)
  have "mp_filtering (fst (module_page_step bundled projects op p))"
    using Cons.prems
  proof (cases op)
    case Draw_page
    have "mp_filtering (fst (module_actions projects r p))" for r by (rule framed [OF module_actions_frame])
    with Draw_page show ?thesis by (simp add: draw_module_page_def Let_def split_beta unmount_cards_def)
  next
    case (Select_tab i)
    with tabs show ?thesis by (simp add: split_beta Let_def)
  qed (auto simp: on_card_def refresh_module_cards_def split: option.split
      intro!: framed module_actions_frame update_module_filter_frame module_filter_answered_frame)
  with Cons show ?case by simp
qed simp

theorem failed_filter_keeps_loader_witness:
  "mp_filtering (fst (emit_run (module_page_step True [sample_project])
     [Load_page, Request_failed, Module_added, Cards_answered [sample_information 1 ''a''] sample_project True]
     (new_module_page [])))"
  by (rule failed_filter_keeps_loader) (simp_all add: new_module_page_def)

lemma widget_by_key_cards:
  assumes "cards_ok key_of g"
  shows "widget_by_key k g = find (\<lambda>w. key_of w = k) (grid_widgets g)"
proof -
  have "map_option item_widget (find (\<lambda>item. item_key item = k) (map (own_item key_of) ws)) =
      find (\<lambda>w. key_of w = k) ws" for ws
    by (induction ws) simp_all
  moreover have "grid_items g = map (own_item key_of) (grid_widgets g)" using assms by (simp add: cards_ok_def)
  ultimately show ?thesis by (simp add: widget_by_key_def item_by_key_def)
qed

lemma find_map_key:
  "(\<And>w. key_of (h w) = key_of w) \<Longrightarrow>
   find (\<lambda>w. key_of w = k) (map h ws) = map_option h (find (\<lambda>w. key_of w = k) ws)"
  by (induction ws) simp_all

lemma on_card_shows:
  assumes ok: "cards_ok module_card_key (mp_cards p)" and c: "widget_by_key key (mp_cards p) = Some c"
    and allowed: "\<not> (mp_filtering p \<and> (case op of Mount_card _ \<Rightarrow> True | _ \<Rightarrow> False))"
  shows "widget_by_key key (mp_cards (fst (on_card bundled key op p))) = Some (fst (module_card_step bundled op c))"
proof -
  let ?f = "\<lambda>c. fst (module_card_step bundled op c)"
  have f: "module_card_key (?f c) = module_card_key c" for c by (simp add: module_card_key_def)
  note cards = with_card_cards [of module_card_key "mp_cards p" ?f key, OF ok f]
  have find: "find (\<lambda>w. module_card_key w = key) (grid_widgets (mp_cards p)) = Some c"
    using c by (simp add: widget_by_key_cards [OF ok])
  then have "module_card_key c = key" by (auto simp: find_Some_iff)
  with find have "find (\<lambda>w. module_card_key w = key)
      (map (\<lambda>w. if module_card_key w = key then ?f w else w) (grid_widgets (mp_cards p))) = Some (?f c)"
    by (subst find_map_key) (simp_all add: f)
  with allowed c show ?thesis
    by (auto simp: on_card_def widget_by_key_cards [OF cards(1)] cards(2))
qed

lemma drawing_unmounts:
  assumes ok: "cards_ok module_card_key (mp_cards p)" and c: "widget_by_key key (mp_cards p) = Some c"
    and filtering: "mp_filtering p"
  shows "let p' = fst (draw_module_page bundled projects p)
    in mp_filtering p' \<and> widget_by_key key (mp_cards p') = Some (c\<lparr>mc_mounted := False\<rparr>)"
proof -
  let ?r = "draw_filter \<lparr>filter_projects = False, filter_profiles = False, filter_versions = True,
    filter_names = False, filter_modules = True, filter_states = True\<rparr> 0 (mp_filter p)"
  let ?q = "fst (module_actions projects ?r p)"
  have q: "mp_cards ?q = mp_cards p" "mp_filtering ?q"
    using module_actions_frame [of p projects ?r] filtering by (simp_all add: filter_frame_def)
  have okq: "cards_ok module_card_key (mp_cards ?q)" using ok q by simp
  have "find (\<lambda>w. module_card_key w = key) (grid_widgets (mp_cards p)) = Some c"
    using c by (simp add: widget_by_key_cards [OF ok])
  then have "widget_by_key key (mp_cards (unmount_cards bundled ?q)) = Some (c\<lparr>mc_mounted := False\<rparr>)"
    by (simp add: widget_by_key_cards [OF unmounted_cards(1) [OF okq]] unmounted_cards(2) [OF okq] q(1))
      (subst find_map_key; simp add: module_card_key_def)
  with q show ?thesis by (simp add: draw_module_page_def Let_def split_beta unmount_cards_def)
qed

text \<open>
  C21. A page loses what happens during its own requests: while the loader stands in the place of the cards they are
  unmounted and hear no update, and the listing that arrives, although it has the fresh state, leaves the cards that
  are there as they are; the module keeps its old state on the page.
\<close>
theorem filtering_loses_updates:
  assumes run: "list_all distinct_answer ops" "p = fst (emit_run (module_page_step bundled projects) ops (new_module_page initial))"
    and card: "widget_by_key key (mp_cards p) = Some c" "mc_loaded c = Some stale" "mp_filtering p"
    and listing: "distinct (map mod_id modules)" "key \<in> set (map mod_id modules)"
  shows "let p' = fst (emit_run (module_page_step bundled projects)
      [Draw_page, On_card key (Module_update fresh), Cards_answered modules project False, On_card key (Mount_card theme)] p)
    in mp_modules p' = modules \<and> \<not> mp_filtering p' \<and>
       map_option current_module (widget_by_key key (mp_cards p')) = Some stale"
proof -
  let ?c = "c\<lparr>mc_mounted := False\<rparr>"
  have ok: "cards_ok module_card_key (mp_cards p)" unfolding run(2) by (rule module_page_run_ok [OF run(1)])
  define p1 where "p1 = fst (draw_module_page bundled projects p)"
  have p1: "cards_ok module_card_key (mp_cards p1)" "mp_filtering p1" "widget_by_key key (mp_cards p1) = Some ?c"
    using draw_module_page_ok [OF ok] drawing_unmounts [OF ok card(1,3), of bundled projects]
    by (simp_all add: p1_def Let_def)
  define p2 where "p2 = fst (on_card bundled key (Module_update fresh) p1)"
  have p2: "cards_ok module_card_key (mp_cards p2)" "widget_by_key key (mp_cards p2) = Some ?c"
    using on_card_ok [OF p1(1)] on_card_shows [OF p1(1,3), of "Module_update fresh" bundled] by (simp_all add: p2_def)
  define p3 where "p3 = fst (refresh_module_cards modules project False p2)"
  have p3: "cards_ok module_card_key (mp_cards p3)" "\<not> mp_filtering p3" "mp_modules p3 = modules"
    and cards: "grid_widgets (mp_cards p3) = map (card_for mod_id module_card_key
      (\<lambda>m. new_module_card project m (available_modules (mp_filter p2))) (grid_widgets (mp_cards p2))) modules"
    using module_listing.refresh_grid_cards [OF p2(1) listing(1), of _ _ True]
    by (simp_all add: p3_def refresh_module_cards_def refreshed_cards_def)
  have find: "find (\<lambda>w. module_card_key w = key) (grid_widgets (mp_cards p2)) = Some ?c"
    using p2 by (simp add: widget_by_key_cards)
  then have key: "module_card_key ?c = key" by (auto simp: find_Some_iff)
  obtain m where m: "m \<in> set modules" "mod_id m = key" using listing(2) by auto
  then have "card_for mod_id module_card_key
      (\<lambda>m. new_module_card project m (available_modules (mp_filter p2))) (grid_widgets (mp_cards p2)) m = ?c"
    by (simp add: card_for_def find)
  with m have "?c \<in> set (grid_widgets (mp_cards p3))"
    unfolding cards by (metis image_eqI list.set_map)
  then have "find (\<lambda>w. module_card_key w = module_card_key ?c) (grid_widgets (mp_cards p3)) = Some ?c"
    using p3(1) by (intro find_key) (simp_all add: cards_ok_def)
  then have shown: "widget_by_key key (mp_cards p3) = Some ?c"
    unfolding key by (simp add: widget_by_key_cards [OF p3(1)])
  have "widget_by_key key (mp_cards (fst (on_card bundled key (Mount_card theme) p3))) =
      Some (fst (module_card_step bundled (Mount_card theme) ?c))"
    by (rule on_card_shows [OF p3(1) shown]) (simp add: p3(2))
  moreover have "current_module (fst (module_card_step bundled (Mount_card theme) ?c)) = stale"
    using card(2) by (simp add: mount_module_card_def Let_def split_beta current_module_def)
  moreover have "mp_modules (fst (on_card bundled key (Mount_card theme) p3)) = modules"
    "\<not> mp_filtering (fst (on_card bundled key (Mount_card theme) p3))"
    using p3(2,3) shown by (simp_all add: on_card_def)
  moreover have "fst (emit_run (module_page_step bundled projects)
      [Draw_page, On_card key (Module_update fresh), Cards_answered modules project False, On_card key (Mount_card theme)] p) =
      fst (on_card bundled key (Mount_card theme) p3)"
    by (simp add: p1_def p2_def p3_def)
  ultimately show ?thesis by (simp del: emit_run_cons add: Let_def)
qed

theorem filtering_loses_updates_witness:
  "let p = fst (emit_run (module_page_step True [sample_project])
        [Cards_answered [sample_information 3 ''1.0''] sample_project True,
         On_card 3 (Module_answer None (sample_module []))] (new_module_page []));
      p' = fst (emit_run (module_page_step True [sample_project])
      [Draw_page, On_card 3 (Module_update ((sample_module [])\<lparr>mod_state := MODULE_STOPPED_STATE\<rparr>)),
       Cards_answered [(sample_information 3 ''1.0'')\<lparr>mod_state := MODULE_STOPPED_STATE\<rparr>] sample_project False,
       On_card 3 (Mount_card Dark)] p)
    in mp_modules p' = [(sample_information 3 ''1.0'')\<lparr>mod_state := MODULE_STOPPED_STATE\<rparr>] \<and> \<not> mp_filtering p' \<and>
       map_option current_module (widget_by_key 3 (mp_cards p')) = Some (sample_module [])"
proof -
  let ?m = "sample_information 3 ''1.0''"
  let ?ops = "[Cards_answered [?m] sample_project True, On_card 3 (Module_answer None (sample_module []))]"
  let ?p1 = "fst (refresh_module_cards [?m] sample_project True (new_module_page []))"
  let ?c = "new_module_card sample_project ?m (available_modules (mp_filter (new_module_page [])))"
  have key: "mod_id ?m = 3" by (simp add: sample_information_def)
  have "cards_ok module_card_key (mp_cards (new_module_page []))" by (simp add: new_module_page_def)
  from module_listing.refresh_grid_cards [OF this, of "[?m]" sample_project
      "available_modules (mp_filter (new_module_page []))" False]
  have p1: "cards_ok module_card_key (mp_cards ?p1)" "grid_widgets (mp_cards ?p1) = [?c]"
    by (simp_all add: refresh_module_cards_def refreshed_cards_def)
      (simp add: new_module_page_def grid_widgets_def new_grid_def)
  have "widget_by_key 3 (mp_cards ?p1) = Some ?c"
    by (simp add: widget_by_key_cards [OF p1(1)] p1(2) module_card_key_def new_module_card_def key)
  from on_card_shows [OF p1(1) this, of "Module_answer None (sample_module [])" True]
  have card: "widget_by_key 3 (mp_cards (fst (emit_run (module_page_step True [sample_project]) ?ops
      (new_module_page [])))) = Some (fst (module_card_step True (Module_answer None (sample_module [])) ?c))"
    by simp
  have loaded: "mc_loaded (fst (module_card_step True (Module_answer None (sample_module [])) ?c)) = Some (sample_module [])"
    by (simp add: module_answered_def set_module_def refresh_module_card_def new_module_card_def Let_def split_beta)
  have filtering: "mp_filtering (fst (emit_run (module_page_step True [sample_project]) ?ops (new_module_page [])))"
    by (simp add: on_card_def refresh_module_cards_def new_module_page_def split: option.split)
  show ?thesis
    unfolding Let_def
    by (rule filtering_loses_updates [OF _ refl card loaded filtering, unfolded Let_def])
      (simp_all add: distinct_answer_def sample_information_def)
qed

end
