(* ===== verification/Listing_Pages.thy ===== *)
theory Listing_Pages
  imports Pages
begin

text \<open>
  The pages of assemblies and of prepared configurations, \<open>component/pages/assemblies/AssembliesPage.tsx\<close> and
  \<open>component/pages/configuration/ConfigurationsPage.tsx\<close>, over the same refreshing of a grid as the page of
  modules, and the editor of one configuration,
  \<open>component/embeddable/configuration/PreparedConfigurationEditor.tsx\<close>.
\<close>

section \<open>The page of assemblies\<close>

record assembly_page =
  ap_filtering :: bool
  ap_assemblies :: "assembly_information list"
  ap_cards :: "(int, assembly_card, unit) grid"
  ap_filter :: "unit page_filter"
  ap_tabs :: "unit tabs option"

definition listening_filter :: "(unit page_filter \<times> unit list) settled \<Rightarrow> unit page_filter" where
  "listening_filter r = (case r of Settled (f, _) \<Rightarrow> f | _ \<Rightarrow> new_page_filter [])"

definition new_assembly_page :: "assembly_information list \<Rightarrow> assembly_page" where
  "new_assembly_page assemblies =
     \<lparr>ap_filtering = True, ap_assemblies = assemblies, ap_cards = new_grid,
      ap_filter = listening_filter (on_versions_filtered () (new_page_filter [])), ap_tabs = None\<rparr>"

definition assembly_request :: "project \<Rightarrow> unit page_filter \<Rightarrow> assembly_filter_criteria" where
  "assembly_request project f =
     \<lparr>assembly_filter_criteria_project_ids = Some [project_id project], assembly_filter_criteria_states = None,
      assembly_filter_criteria_versions = Some (filtered_versions f), assembly_filter_criteria_sorted = Some True,
      assembly_filter_criteria_count = MAX_ASSEMBLIES\<rparr>"

definition filter_assemblies :: "project list \<Rightarrow> bool \<Rightarrow> assembly_page \<Rightarrow> assembly_page \<times> page_effect list" where
  "filter_assemblies projects silent p =
     (let t = lazy_tabs projects (ap_tabs p); p1 = p\<lparr>ap_tabs := Some t\<rparr>
      in case selected_project projects t of
           None \<Rightarrow> (p1, [Page_failed])
         | Some project \<Rightarrow>
             let ask = Page_call (api_get_filtered_assemblies (assembly_request project (ap_filter p1))
               (Cards_answer project silent))
             in if silent then (p1, [ask]) else (p1\<lparr>ap_filtering := True\<rparr>, [Tabs_redrawn, ask]))"

definition assembly_actions ::
  "project list \<Rightarrow> (unit page_filter \<times> unit list) settled \<Rightarrow> assembly_page \<Rightarrow> assembly_page \<times> page_effect list" where
  "assembly_actions projects r p =
     (case r of
        Settled (f, actions) \<Rightarrow> emit_run (\<lambda>_. filter_assemblies projects False) actions (p\<lparr>ap_filter := f\<rparr>)
      | _ \<Rightarrow> (p, [Page_failed]))"

definition update_assembly_filter :: "project list \<Rightarrow> assembly_page \<Rightarrow> assembly_page \<times> page_effect list" where
  "update_assembly_filter projects p =
     (let t = lazy_tabs projects (ap_tabs p); p1 = p\<lparr>ap_tabs := Some t\<rparr>
      in case selected_project projects t of
           None \<Rightarrow> (p1, [Page_failed])
         | Some project \<Rightarrow>
             let (p2, first) = assembly_actions projects (set_available_versions
                   (map version_version (project_versions project)) (ap_filter p1)) p1;
                 (p3, rest) = filter_assemblies projects False p2
             in (p3, first @ rest))"

definition refresh_assembly_cards ::
  "assembly_information list \<Rightarrow> project \<Rightarrow> bool \<Rightarrow> assembly_page \<Rightarrow> assembly_page \<times> page_effect list" where
  "refresh_assembly_cards assemblies project silent p =
     (p\<lparr>ap_assemblies := assemblies,
        ap_cards := refresh_grid assembly_id assembly_card_key (new_assembly_card project) (\<not> silent) assemblies
          (ap_cards p),
        ap_filtering := (if silent then ap_filtering p else False)\<rparr>, [Page_paused, Page_continued])"

definition on_assembly_card :: "int \<Rightarrow> assembly_card_op \<Rightarrow> assembly_page \<Rightarrow> assembly_page \<times> page_effect list" where
  "on_assembly_card key op p =
     (case widget_by_key key (ap_cards p) of
        None \<Rightarrow> (p, [])
      | Some c \<Rightarrow>
          if ap_filtering p \<and> op = Mount_assembly then (p, [])
          else (p\<lparr>ap_cards := with_card key (\<lambda>c. fst (assembly_card_step op c)) (ap_cards p)\<rparr>,
                map (Of_card key) (snd (assembly_card_step op c))))"

text \<open>The filter is drawn with the page, in a style that does not change.\<close>

definition draw_assembly_page :: "project list \<Rightarrow> assembly_page \<Rightarrow> assembly_page \<times> page_effect list" where
  "draw_assembly_page projects p =
     assembly_actions projects (draw_filter
       \<lparr>filter_projects = False, filter_profiles = False, filter_versions = True, filter_names = False,
        filter_modules = False, filter_states = False\<rparr> 0 (ap_filter p)) p"

datatype assembly_page_op =
    Load_assemblies | Draw_assemblies | Select_assembly_tab nat | Choose_assembly_versions "string list"
  | Assembly_added | Assembly_updated | Assembly_deleted
  | Assemblies_answered "assembly_information list" project bool
  | On_assembly_card int assembly_card_op

fun assembly_page_step :: "project list \<Rightarrow> assembly_page_op \<Rightarrow> assembly_page \<Rightarrow> assembly_page \<times> page_effect list" where
  "assembly_page_step projects Load_assemblies p =
     (if projects = [] then (p, []) else update_assembly_filter projects p)"
| "assembly_page_step projects Draw_assemblies p = draw_assembly_page projects p"
| "assembly_page_step projects (Select_assembly_tab i) p =
     (let (t, actions) = tabs_select i (lazy_tabs projects (ap_tabs p))
      in emit_run (\<lambda>_. update_assembly_filter projects) actions (p\<lparr>ap_tabs := Some t\<rparr>))"
| "assembly_page_step projects (Choose_assembly_versions suggestions) p =
     assembly_actions projects (on_versions (part_choose suggestions) (ap_filter p)) p"
| "assembly_page_step projects Assembly_added p = filter_assemblies projects True p"
| "assembly_page_step projects Assembly_updated p = filter_assemblies projects True p"
| "assembly_page_step projects Assembly_deleted p = filter_assemblies projects True p"
| "assembly_page_step projects (Assemblies_answered assemblies project silent) p =
     refresh_assembly_cards assemblies project silent p"
| "assembly_page_step projects (On_assembly_card key op) p = on_assembly_card key op p"

interpretation assembly_listing: listed_cards assembly_id assembly_card_key "new_assembly_card project" for project
  by unfold_locales (simp add: assembly_card_key_def new_assembly_card_def)

lemma assembly_card_step_given [simp]: "ac_given (fst (assembly_card_step op c)) = ac_given c"
proof (cases op)
  case (Click_assembly b)
  have "ac_given (fst (click_assembly_button b c)) = ac_given c" by (cases b) simp_all
  with Click_assembly show ?thesis by (simp split: option.split)
qed (auto simp: mount_assembly_card_def expand_assembly_card_def set_assembly_def refresh_assembly_card_def
    approve_assembly_deletion_def approve_cancellation_def Let_def split_beta split: option.split)

lemma filter_assemblies_cards [simp]: "ap_cards (fst (filter_assemblies projects silent p)) = ap_cards p"
  by (simp add: filter_assemblies_def Let_def split: option.split)

lemma filters_assemblies_cards [simp]:
  "ap_cards (fst (emit_run (\<lambda>_. filter_assemblies projects silent) actions p)) = ap_cards p"
  by (induction actions arbitrary: p) simp_all

lemma assembly_actions_cards [simp]: "ap_cards (fst (assembly_actions projects r p)) = ap_cards p"
  by (cases r) (simp_all add: assembly_actions_def split_beta)

lemma update_assembly_filter_cards [simp]: "ap_cards (fst (update_assembly_filter projects p)) = ap_cards p"
  by (simp add: update_assembly_filter_def Let_def split_beta split: option.split)

lemma updates_assemblies_cards [simp]:
  "ap_cards (fst (emit_run (\<lambda>_. update_assembly_filter projects) actions p)) = ap_cards p"
  by (induction actions arbitrary: p) simp_all

definition distinct_assemblies :: "assembly_page_op \<Rightarrow> bool" where
  "distinct_assemblies op \<longleftrightarrow>
     (case op of Assemblies_answered assemblies _ _ \<Rightarrow> distinct (map assembly_id assemblies) | _ \<Rightarrow> True)"

lemma assembly_page_step_ok:
  assumes ok: "cards_ok assembly_card_key (ap_cards p)" and op: "distinct_assemblies op"
  shows "cards_ok assembly_card_key (ap_cards (fst (assembly_page_step projects op p)))"
proof (cases op)
  case (Assemblies_answered assemblies project silent)
  with assembly_listing.refresh_grid_cards [OF ok] op show ?thesis
    by (simp add: refresh_assembly_cards_def distinct_assemblies_def)
next
  case (On_assembly_card key card_op)
  with ok show ?thesis
    by (auto simp: on_assembly_card_def assembly_card_key_def intro!: with_card_cards split: option.split)
qed (use ok in \<open>simp_all add: draw_assembly_page_def Let_def split_beta\<close>)

text \<open>
  C29. The page of assemblies keeps one card for each listed assembly, in any run of its life in which no answer lists
  an assembly twice: after a loud answer the cards stand in the order of the listing; after a silent one the cards of
  the listed assemblies keep their places and the new ones stand behind them; and each card that stays is the very
  card that was there, with what it has loaded, while those of assemblies that are not listed any more are gone.
\<close>
theorem assembly_cards_follow_listing:
  assumes "list_all distinct_assemblies ops" and "distinct (map assembly_id assemblies)"
  shows "let p = fst (emit_run (assembly_page_step projects) ops (new_assembly_page initial));
      p' = fst (assembly_page_step projects (Assemblies_answered assemblies project silent) p)
    in grid_widgets (ap_cards p') = refreshed_cards assembly_id assembly_card_key (new_assembly_card project) (\<not> silent)
         assemblies (grid_widgets (ap_cards p)) \<and>
       distinct (keys_value (ap_cards p')) \<and> set (keys_value (ap_cards p')) = set (map assembly_id assemblies)"
proof -
  let ?p = "fst (emit_run (assembly_page_step projects) ops (new_assembly_page initial))"
  let ?g = "refresh_grid assembly_id assembly_card_key (new_assembly_card project) (\<not> silent) assemblies (ap_cards ?p)"
  have "cards_ok assembly_card_key (ap_cards (fst (emit_run (assembly_page_step projects) ops p)))"
    if "list_all distinct_assemblies ops" "cards_ok assembly_card_key (ap_cards p)" for ops p
    using that by (induction ops arbitrary: p) (simp_all add: assembly_page_step_ok)
  then have "cards_ok assembly_card_key (ap_cards ?p)" using assms(1) by (simp add: new_assembly_page_def)
  from assembly_listing.refresh_grid_cards [OF this assms(2)]
  have g: "cards_ok assembly_card_key ?g" "grid_widgets ?g = refreshed_cards assembly_id assembly_card_key
      (new_assembly_card project) (\<not> silent) assemblies (grid_widgets (ap_cards ?p))" by simp_all
  have "set (map assembly_card_key (grid_widgets ?g)) = set (map assembly_id assemblies)"
    unfolding g(2) by (rule assembly_listing.refreshed_keys)
  with g(1) cards_keys [OF g(1)] show ?thesis
    by (simp add: Let_def refresh_assembly_cards_def g(2) cards_ok_def)
qed

definition sample_assembly_information :: "int \<Rightarrow> assembly_information" where
  "sample_assembly_information key =
     \<lparr>assembly_id = key, assembly_project_id = 1, assembly_technology = GRADLE,
      assembly_version = \<lparr>version_reference = ''r'', version_version = ''1.0''\<rparr>,
      assembly_state = ASSEMBLY_STARTED_STATE, assembly_start_time_stamp = 10, assembly_end_time_stamp = 0,
      assembly_resource_id = sample_resource, assembly_log_id = 1, assembly_artifacts = []\<rparr>"

theorem assembly_cards_follow_listing_witness:
  "let p = fst (emit_run (assembly_page_step [sample_project])
        [Assemblies_answered [sample_assembly_information 1, sample_assembly_information 2] sample_project False]
        (new_assembly_page []));
      p' = fst (assembly_page_step [sample_project]
        (Assemblies_answered [sample_assembly_information 3, sample_assembly_information 2] sample_project True) p)
    in grid_widgets (ap_cards p') = refreshed_cards assembly_id assembly_card_key (new_assembly_card sample_project)
         (\<not> True) [sample_assembly_information 3, sample_assembly_information 2] (grid_widgets (ap_cards p)) \<and>
       distinct (keys_value (ap_cards p')) \<and>
       set (keys_value (ap_cards p')) =
         set (map assembly_id [sample_assembly_information 3, sample_assembly_information 2])"
  by (rule assembly_cards_follow_listing) (simp_all add: distinct_assemblies_def sample_assembly_information_def)

section \<open>The editor of a configuration\<close>

text \<open>
  The modules are those of the loader at the moment; the state of the two buttons and the chips of the modules
  are fixed when the editor is made, except that the save button follows the text.
\<close>

record configuration_editor =
  ce_id :: prepared_configuration_identifier
  ce_text :: "string option"
  ce_delete_disabled :: bool
  ce_save_disabled :: bool
  ce_chips :: "string list"
  ce_asking :: bool

datatype editor_callback = Configuration_received | Configuration_deleted | Configuration_saved

datatype editor_effect =
    Editor_call "editor_callback api_call"
  | Success_deleted | Success_saved
  | Deleted_event

definition used_by_modules :: "prepared_configuration_identifier \<Rightarrow> module_information list \<Rightarrow> module_information list" where
  "used_by_modules i modules =
     filter (\<lambda>m. case mod_prepared_configurations m of
         None \<Rightarrow> False
       | Some configurations \<Rightarrow> list_ex (\<lambda>c. pcid_id c = pcid_id i) configurations) modules"

definition new_configuration_editor ::
  "prepared_configuration_identifier \<Rightarrow> module_information list \<Rightarrow> configuration_editor" where
  "new_configuration_editor i modules =
     \<lparr>ce_id = i, ce_text = None, ce_delete_disabled = (used_by_modules i modules \<noteq> []), ce_save_disabled = True,
      ce_chips = map mod_name (used_by_modules i modules), ce_asking = False\<rparr>"

definition editor_key :: "configuration_editor \<Rightarrow> int" where
  "editor_key c = pcid_id (ce_id c)"

definition load_configuration :: "configuration_editor \<Rightarrow> configuration_editor \<times> editor_effect list" where
  "load_configuration c =
     (c, [Editor_call (api_get_prepared_configuration (pcid_id (ce_id c)) Configuration_received)])"

definition change_configuration_text :: "string \<Rightarrow> configuration_editor \<Rightarrow> configuration_editor" where
  "change_configuration_text text c = c\<lparr>ce_text := Some text, ce_save_disabled := (text = [])\<rparr>"

definition click_delete_configuration :: "configuration_editor \<Rightarrow> configuration_editor \<times> editor_effect list" where
  "click_delete_configuration c =
     (c, if ce_delete_disabled c then []
         else [Editor_call (api_delete_prepared_configuration (pcid_id (ce_id c)) Configuration_deleted)])"

definition configuration_deleted :: "configuration_editor \<Rightarrow> configuration_editor \<times> editor_effect list" where
  "configuration_deleted c = (c, [Success_deleted, Deleted_event])"

definition click_save_configuration :: "configuration_editor \<Rightarrow> configuration_editor \<times> editor_effect list" where
  "click_save_configuration c =
     (c, if ce_save_disabled c then []
         else [Editor_call (api_update_prepared_configuration
           \<lparr>prepared_id = pcid_id (ce_id c), prepared_project_id = pcid_project_id (ce_id c),
            prepared_profile = pcid_profile (ce_id c), prepared_name = pcid_name (ce_id c),
            prepared_configuration = the (ce_text c)\<rparr> Configuration_saved)])"

definition running_users :: "prepared_configuration_identifier \<Rightarrow> module_information list \<Rightarrow> module_information list" where
  "running_users i modules = filter (\<lambda>m. mod_state m = MODULE_RUN_STATE) (used_by_modules i modules)"

definition configuration_saved ::
  "module_information list \<Rightarrow> configuration_editor \<Rightarrow> configuration_editor \<times> editor_effect list" where
  "configuration_saved modules c =
     (c\<lparr>ce_asking := ce_asking c \<or> running_users (ce_id c) modules \<noteq> []\<rparr>, [Success_saved])"

definition click_update_modules ::
  "module_information list \<Rightarrow> configuration_editor \<Rightarrow> configuration_editor \<times> editor_effect list" where
  "click_update_modules modules c =
     (if ce_asking c
      then (c\<lparr>ce_asking := False\<rparr>,
            map (\<lambda>m. Editor_call (api_refresh_module_artifact (mod_id m))) (running_users (ce_id c) modules))
      else (c, []))"

definition click_later :: "configuration_editor \<Rightarrow> configuration_editor" where
  "click_later c = c\<lparr>ce_asking := False\<rparr>"

text \<open>The modules at each moment come with the operation.\<close>

datatype editor_op =
    Load_configuration | Change_text string | Click_delete | Deletion_answered | Click_save
  | Save_answered "module_information list" | Click_update_modules "module_information list" | Click_later

fun editor_step :: "editor_op \<Rightarrow> configuration_editor \<Rightarrow> configuration_editor \<times> editor_effect list" where
  "editor_step Load_configuration c = load_configuration c"
| "editor_step (Change_text text) c = (change_configuration_text text c, [])"
| "editor_step Click_delete c = click_delete_configuration c"
| "editor_step Deletion_answered c = configuration_deleted c"
| "editor_step Click_save c = click_save_configuration c"
| "editor_step (Save_answered modules) c = configuration_saved modules c"
| "editor_step (Click_update_modules modules) c = click_update_modules modules c"
| "editor_step Click_later c = (click_later c, [])"

definition editor_ok :: "bool \<Rightarrow> configuration_editor \<Rightarrow> bool" where
  "editor_ok used c \<longleftrightarrow> ce_save_disabled c = (ce_text c \<in> {None, Some []}) \<and> ce_delete_disabled c = used"

lemma editor_step_ok: "editor_ok used c \<Longrightarrow> editor_ok used (fst (editor_step op c))"
  by (cases op) (auto simp: editor_ok_def load_configuration_def change_configuration_text_def
      click_delete_configuration_def configuration_deleted_def click_save_configuration_def configuration_saved_def
      click_update_modules_def click_later_def)

lemma editor_step_id [simp]: "ce_id (fst (editor_step op c)) = ce_id c"
  by (cases op) (auto simp: load_configuration_def change_configuration_text_def
      click_delete_configuration_def configuration_deleted_def click_save_configuration_def configuration_saved_def
      click_update_modules_def click_later_def)

text \<open>
  C23. Whatever happens to an editor, a click on the save button never saves an empty text or one that was not
  loaded: it sends the text of the editor under the identifier, project, profile and name that the editor was made
  for, or nothing; a configuration that a module used when the editor was made cannot be deleted from it; and
  the modules that are updated with a saved configuration are running modules that use it.
\<close>
theorem configuration_editor_guarded:
  "let c = fst (emit_run editor_step ops (new_configuration_editor i modules))
   in snd (editor_step Click_save c) =
        (case ce_text c of
           None \<Rightarrow> []
         | Some text \<Rightarrow> if text = [] then []
             else [Editor_call (api_update_prepared_configuration
               \<lparr>prepared_id = pcid_id i, prepared_project_id = pcid_project_id i, prepared_profile = pcid_profile i,
                prepared_name = pcid_name i, prepared_configuration = text\<rparr> Configuration_saved)]) \<and>
      (if used_by_modules i modules = [] then True else snd (editor_step Click_delete c) = []) \<and>
      snd (editor_step (Click_update_modules now) c) =
        (if ce_asking c
         then map (\<lambda>m. Editor_call (api_refresh_module_artifact (mod_id m)))
           (filter (\<lambda>m. mod_state m = MODULE_RUN_STATE) (used_by_modules i now))
         else [])"
proof -
  let ?c = "fst (emit_run editor_step ops (new_configuration_editor i modules))"
  have "editor_ok (used_by_modules i modules \<noteq> []) (new_configuration_editor i modules)"
    by (simp add: editor_ok_def new_configuration_editor_def)
  then have "editor_ok (used_by_modules i modules \<noteq> []) ?c"
    by (rule emit_run_invariant [of "editor_ok (used_by_modules i modules \<noteq> [])" editor_step, OF editor_step_ok, rotated])
  moreover have "ce_id (new_configuration_editor i modules) = i" by (simp add: new_configuration_editor_def)
  then have "ce_id ?c = i"
    by (rule emit_run_invariant [of "\<lambda>c. ce_id c = i" editor_step, rotated]) simp
  ultimately show ?thesis
    by (auto simp: Let_def editor_ok_def click_save_configuration_def click_delete_configuration_def
        click_update_modules_def running_users_def split: option.split)
qed

section \<open>The page of configurations\<close>

record configuration_page =
  cp_filtering :: bool
  cp_ids :: "prepared_configuration_identifier list"
  cp_editors :: "(int, configuration_editor, unit) grid"
  cp_filter :: "unit page_filter"
  cp_tabs :: "unit tabs option"

definition new_configuration_page :: "prepared_configuration_identifier list \<Rightarrow> configuration_page" where
  "new_configuration_page ids =
     \<lparr>cp_filtering = True, cp_ids = ids, cp_editors = new_grid,
      cp_filter = listening_filter (settled_then (on_profiles_filtered () (new_page_filter []))
        (\<lambda>(f, _). on_names_filtered () f)), cp_tabs = None\<rparr>"

definition configuration_request :: "project \<Rightarrow> unit page_filter \<Rightarrow> prepared_configuration_filter_criteria" where
  "configuration_request project f =
     \<lparr>prepared_configuration_filter_criteria_project_ids = [project_id project],
      prepared_configuration_filter_criteria_profiles = filtered_profiles f,
      prepared_configuration_filter_criteria_names = filtered_names f\<rparr>"

definition update_configuration_filter :: "configuration_page \<Rightarrow> configuration_page \<times> page_effect list" where
  "update_configuration_filter p = (p, [Page_call (api_get_prepared_configuration_ids Ids_answer)])"

definition filter_configurations ::
  "project list \<Rightarrow> bool \<Rightarrow> configuration_page \<Rightarrow> configuration_page \<times> page_effect list" where
  "filter_configurations projects silent p =
     (let t = lazy_tabs projects (cp_tabs p); p1 = p\<lparr>cp_tabs := Some t\<rparr>
      in case selected_project projects t of
           None \<Rightarrow> (p1, [Page_failed])
         | Some project \<Rightarrow>
             let ask = Page_call (api_get_filtered_prepared_configurations
               (configuration_request project (cp_filter p1)) (Cards_answer project silent))
             in if silent then (p1, [ask]) else (p1\<lparr>cp_filtering := True\<rparr>, [Tabs_redrawn, ask]))"

definition configuration_actions ::
  "project list \<Rightarrow> (unit page_filter \<times> unit list) settled \<Rightarrow> configuration_page \<Rightarrow>
    configuration_page \<times> page_effect list" where
  "configuration_actions projects r p =
     (case r of
        Settled (f, actions) \<Rightarrow> emit_run (\<lambda>_. filter_configurations projects False) actions (p\<lparr>cp_filter := f\<rparr>)
      | _ \<Rightarrow> (p, [Page_failed]))"

text \<open>
  The names and the profiles of the selected project become available, each once; without a project the first
  identifier already fails.
\<close>

definition ids_answered ::
  "project list \<Rightarrow> prepared_configuration_identifier list \<Rightarrow> configuration_page \<Rightarrow>
    configuration_page \<times> page_effect list" where
  "ids_answered projects ids p =
     (let t = lazy_tabs projects (cp_tabs p); p1 = p\<lparr>cp_tabs := Some t\<rparr>; project = selected_project projects t
      in if project = None \<and> ids \<noteq> [] then (p1, [Page_failed])
         else
           let own = filter (\<lambda>i. Some (pcid_project_id i) = map_option project_id project) ids;
               (p2, first) = configuration_actions projects (set_available_names
                 (unique (\<lambda>name. name) (map pcid_name own)) (cp_filter p1)) p1;
               (p3, second) = configuration_actions projects (set_available_profiles
                 (unique (\<lambda>profile. profile) (map pcid_profile own)) (cp_filter p2)) p2;
               (p4, third) = filter_configurations projects False p3
           in (p4, first @ second @ third))"

text \<open>The editors are arranged whether the refresh is silent or not.\<close>

definition refresh_editors ::
  "module_information list \<Rightarrow> prepared_configuration_identifier list \<Rightarrow> bool \<Rightarrow> configuration_page \<Rightarrow>
    configuration_page \<times> page_effect list" where
  "refresh_editors modules ids silent p =
     (p\<lparr>cp_ids := ids,
        cp_editors := refresh_grid pcid_id editor_key (\<lambda>i. new_configuration_editor i modules) True ids (cp_editors p),
        cp_filtering := (if silent then cp_filtering p else False)\<rparr>, [Page_paused, Page_continued])"

definition shown_profiles :: "configuration_page \<Rightarrow> string list" where
  "shown_profiles p =
     (if filtered_profiles (cp_filter p) = [] then available_profiles (cp_filter p) else filtered_profiles (cp_filter p))"

text \<open>A column for each profile; an identifier without an editor is a type error.\<close>

definition configuration_columns :: "configuration_page \<Rightarrow> (string \<times> configuration_editor list) list option" where
  "configuration_columns p =
     those (map (\<lambda>profile. map_option (\<lambda>editors. (profile, editors))
         (those (map (\<lambda>i. widget_by_key (pcid_id i) (cp_editors p))
           (filter (\<lambda>i. pcid_profile i = profile) (cp_ids p)))))
       (filter (\<lambda>profile. filter (\<lambda>i. pcid_profile i = profile) (cp_ids p) \<noteq> []) (shown_profiles p)))"

definition on_editor :: "int \<Rightarrow> editor_op \<Rightarrow> configuration_page \<Rightarrow> configuration_page \<times> editor_effect list" where
  "on_editor key op p =
     (case widget_by_key key (cp_editors p) of
        None \<Rightarrow> (p, [])
      | Some c \<Rightarrow> (p\<lparr>cp_editors := with_card key (\<lambda>c. fst (editor_step op c)) (cp_editors p)\<rparr>, snd (editor_step op c)))"

text \<open>The filter is drawn with the page, in a style that does not change.\<close>

definition draw_configuration_page :: "project list \<Rightarrow> configuration_page \<Rightarrow> configuration_page \<times> page_effect list" where
  "draw_configuration_page projects p =
     configuration_actions projects (draw_filter
       \<lparr>filter_projects = False, filter_profiles = True, filter_versions = False, filter_names = True,
        filter_modules = False, filter_states = False\<rparr> 0 (cp_filter p)) p"

text \<open>A deletion that an editor reports updates the filter, as the close of the dialog of additions does.\<close>

datatype configuration_page_op =
    Load_configurations | Draw_configurations | Select_configuration_tab nat
  | Choose_names "string list" | Choose_profiles "string list" | Addition_closed
  | Ids_answered "prepared_configuration_identifier list"
  | Editors_answered "module_information list" "prepared_configuration_identifier list" bool
  | On_editor int editor_op

fun configuration_page_step ::
  "project list \<Rightarrow> configuration_page_op \<Rightarrow> configuration_page \<Rightarrow> configuration_page \<times> page_effect list" where
  "configuration_page_step projects Load_configurations p =
     (if projects = [] then (p, []) else update_configuration_filter p)"
| "configuration_page_step projects Draw_configurations p = draw_configuration_page projects p"
| "configuration_page_step projects (Select_configuration_tab i) p =
     (let (t, actions) = tabs_select i (lazy_tabs projects (cp_tabs p))
      in emit_run (\<lambda>_. update_configuration_filter) actions (p\<lparr>cp_tabs := Some t\<rparr>))"
| "configuration_page_step projects (Choose_names suggestions) p =
     configuration_actions projects (on_names (part_choose suggestions) (cp_filter p)) p"
| "configuration_page_step projects (Choose_profiles suggestions) p =
     configuration_actions projects (on_profiles (part_choose suggestions) (cp_filter p)) p"
| "configuration_page_step projects Addition_closed p = update_configuration_filter p"
| "configuration_page_step projects (Ids_answered ids) p = ids_answered projects ids p"
| "configuration_page_step projects (Editors_answered modules ids silent) p = refresh_editors modules ids silent p"
| "configuration_page_step projects (On_editor key op) p =
     (let (p', effects) = on_editor key op p
      in if Deleted_event \<in> set effects then update_configuration_filter p' else (p', []))"

interpretation editor_listing: listed_cards pcid_id editor_key "\<lambda>i. new_configuration_editor i modules" for modules
  by unfold_locales (simp add: editor_key_def new_configuration_editor_def)

lemma filter_configurations_editors [simp]:
  "cp_editors (fst (filter_configurations projects silent p)) = cp_editors p"
  "cp_ids (fst (filter_configurations projects silent p)) = cp_ids p"
  by (simp_all add: filter_configurations_def Let_def split: option.split)

lemma filters_configurations_editors [simp]:
  "cp_editors (fst (emit_run (\<lambda>_. filter_configurations projects silent) actions p)) = cp_editors p"
  "cp_ids (fst (emit_run (\<lambda>_. filter_configurations projects silent) actions p)) = cp_ids p"
  by (induction actions arbitrary: p) simp_all

lemma configuration_actions_editors [simp]:
  "cp_editors (fst (configuration_actions projects r p)) = cp_editors p"
  "cp_ids (fst (configuration_actions projects r p)) = cp_ids p"
  by (auto simp: configuration_actions_def split_beta split: settled.split)

lemma ids_answered_editors [simp]:
  "cp_editors (fst (ids_answered projects ids p)) = cp_editors p"
  "cp_ids (fst (ids_answered projects ids p)) = cp_ids p"
  by (simp_all add: ids_answered_def Let_def split_beta split: option.split)

lemma update_configuration_filter_page [simp]: "fst (update_configuration_filter p) = p"
  by (simp add: update_configuration_filter_def)

lemma updates_configurations [simp]: "fst (emit_run (\<lambda>_. update_configuration_filter) actions p) = p"
  by (induction actions arbitrary: p) simp_all

definition distinct_ids :: "configuration_page_op \<Rightarrow> bool" where
  "distinct_ids op \<longleftrightarrow> (case op of Editors_answered _ ids _ \<Rightarrow> distinct (map pcid_id ids) | _ \<Rightarrow> True)"

lemma configuration_page_step_ok:
  assumes ok: "cards_ok editor_key (cp_editors p)" and op: "distinct_ids op"
  shows "cards_ok editor_key (cp_editors (fst (configuration_page_step projects op p)))"
proof (cases op)
  case (Editors_answered modules ids silent)
  with editor_listing.refresh_grid_cards [OF ok] op show ?thesis
    by (simp add: refresh_editors_def distinct_ids_def)
next
  case (On_editor key eop)
  have "cards_ok editor_key (cp_editors (fst (on_editor key eop p)))"
    using ok by (auto simp: on_editor_def editor_key_def intro!: with_card_cards split: option.split)
  with On_editor show ?thesis by (simp add: Let_def split_beta)
qed (use ok in \<open>simp_all add: draw_configuration_page_def Let_def split_beta\<close>)

lemma those_map_option:
  "(\<And>x. x \<in> set xs \<Longrightarrow> map_option g (f x) = Some (h x)) \<Longrightarrow> map_option (map g) (those (map f xs)) = Some (map h xs)"
proof (induction xs)
  case (Cons x xs)
  from Cons.prems [of x] obtain y where "f x = Some y" "g y = h x" by auto
  moreover from Cons obtain ys where "those (map f xs) = Some ys" "map g ys = map h xs" by auto
  ultimately show ?case by simp
qed simp

text \<open>The page has an editor for every identifier it lists.\<close>

definition editors_of :: "prepared_configuration_identifier list \<Rightarrow> configuration_page \<Rightarrow> bool" where
  "editors_of ids p \<longleftrightarrow> cards_ok editor_key (cp_editors p) \<and> cp_ids p = ids \<and>
     set (map editor_key (grid_widgets (cp_editors p))) = set (map pcid_id ids)"

definition quiet_op :: "configuration_page_op \<Rightarrow> bool" where
  "quiet_op op \<longleftrightarrow> (case op of Editors_answered _ _ _ \<Rightarrow> False | _ \<Rightarrow> True)"

lemma on_editor_keeps:
  assumes "editors_of ids p"
  shows "editors_of ids (fst (on_editor key op p))"
proof (cases "widget_by_key key (cp_editors p)")
  case (Some c)
  have ok: "cards_ok editor_key (cp_editors p)" using assms by (simp add: editors_of_def)
  have f: "editor_key (fst (editor_step op w)) = editor_key w" for w by (simp add: editor_key_def)
  note cards = with_card_cards [of editor_key "cp_editors p" "\<lambda>w. fst (editor_step op w)" key, OF ok f]
  have "map editor_key (grid_widgets (with_card key (\<lambda>w. fst (editor_step op w)) (cp_editors p))) =
      map editor_key (grid_widgets (cp_editors p))"
    unfolding cards(2) by (simp add: f)
  then have "set (map editor_key (grid_widgets (with_card key (\<lambda>w. fst (editor_step op w)) (cp_editors p)))) =
      set (map pcid_id ids)"
    using assms by (simp only: editors_of_def)
  with assms Some cards(1) show ?thesis by (simp add: editors_of_def on_editor_def)
qed (use assms in \<open>simp add: on_editor_def\<close>)

lemma quiet_op_keeps:
  assumes "editors_of ids p" and "quiet_op op"
  shows "editors_of ids (fst (configuration_page_step projects op p))"
proof (cases op)
  case (On_editor key eop)
  with on_editor_keeps [OF assms(1)] show ?thesis by (simp add: Let_def split_beta)
next
  case (Editors_answered modules ids silent)
  with assms show ?thesis by (simp add: quiet_op_def)
qed (use assms(1) in \<open>simp_all add: editors_of_def draw_configuration_page_def Let_def split_beta\<close>)

lemma configuration_columns_keys:
  assumes "editors_of ids p"
  shows "map_option (map (\<lambda>(profile, editors). (profile, map editor_key editors))) (configuration_columns p) =
    Some (map (\<lambda>profile. (profile, map pcid_id (filter (\<lambda>i. pcid_profile i = profile) ids)))
      (filter (\<lambda>profile. filter (\<lambda>i. pcid_profile i = profile) ids \<noteq> []) (shown_profiles p)))"
proof -
  have ok: "cards_ok editor_key (cp_editors p)" and ids: "cp_ids p = ids"
    and keys: "set (map editor_key (grid_widgets (cp_editors p))) = set (map pcid_id ids)"
    using assms by (simp_all add: editors_of_def)
  have found: "\<exists>w. widget_by_key (pcid_id i) (cp_editors p) = Some w \<and> editor_key w = pcid_id i" if "i \<in> set ids" for i
  proof -
    have "pcid_id i \<in> set (map editor_key (grid_widgets (cp_editors p)))" unfolding keys using that by simp
    then obtain w where w: "w \<in> set (grid_widgets (cp_editors p))" and key: "pcid_id i = editor_key w"
      unfolding set_map by (rule imageE)
    have "find (\<lambda>x. editor_key x = editor_key w) (grid_widgets (cp_editors p)) = Some w"
      by (rule find_key [OF w]) (use ok in \<open>simp add: cards_ok_def\<close>)
    then show ?thesis unfolding key widget_by_key_cards [OF ok] by blast
  qed
  have column: "map_option (map editor_key) (those (map (\<lambda>i. widget_by_key (pcid_id i) (cp_editors p))
        (filter (\<lambda>i. pcid_profile i = profile) ids))) =
      Some (map pcid_id (filter (\<lambda>i. pcid_profile i = profile) ids))" for profile
  proof (rule those_map_option)
    fix i assume "i \<in> set (filter (\<lambda>i. pcid_profile i = profile) ids)"
    then have "i \<in> set ids" by simp
    from found [OF this] show "map_option editor_key (widget_by_key (pcid_id i) (cp_editors p)) = Some (pcid_id i)" by auto
  qed
  have pair: "map_option (\<lambda>(profile, editors). (profile, map editor_key editors)) (map_option (\<lambda>editors. (profile, editors)) X) =
      Some (profile, ks)" if "map_option (map editor_key) X = Some ks" for X ks and profile :: string
    using that by (cases X) simp_all
  show ?thesis
    unfolding configuration_columns_def ids
    by (rule those_map_option) (rule pair [OF column])
qed

text \<open>The filter of the page is offered every profile once, so it shows each of them once.\<close>

definition profiles_once :: "configuration_page \<Rightarrow> bool" where
  "profiles_once p \<longleftrightarrow> part_distinct (pf_profiles (cp_filter p))"

lemma filter_configurations_filter [simp]:
  "cp_filter (fst (filter_configurations projects silent p)) = cp_filter p"
  "cp_filter (fst (emit_run (\<lambda>_. filter_configurations projects silent) actions p)) = cp_filter p"
proof -
  show one: "cp_filter (fst (filter_configurations projects silent p)) = cp_filter p" for p
    by (simp add: filter_configurations_def Let_def split: option.split)
  show "cp_filter (fst (emit_run (\<lambda>_. filter_configurations projects silent) actions p)) = cp_filter p"
    by (induction actions arbitrary: p) (simp_all add: one)
qed

lemma configuration_actions_once:
  assumes "profiles_once p" and "\<And>f actions. r = Settled (f, actions) \<Longrightarrow> part_distinct (pf_profiles f)"
  shows "profiles_once (fst (configuration_actions projects r p))"
  using assms by (auto simp: configuration_actions_def profiles_once_def split: settled.split)

lemma on_names_profiles: "on_names g f = Settled (f', actions) \<Longrightarrow> pf_profiles f' = pf_profiles f"
  by (auto simp: on_names_def elim!: settled_thenE)

lemma on_profiles_part:
  "on_profiles g f = Settled (f', actions) \<Longrightarrow> \<exists>calls. g (pf_profiles f) = Settled (pf_profiles f', calls)"
  by (auto simp: on_profiles_def elim!: settled_thenE)

lemma draw_profiles_once:
  assumes "part_distinct (pf_profiles f)"
    and "draw_filter \<lparr>filter_projects = False, filter_profiles = True, filter_versions = False, filter_names = True,
        filter_modules = False, filter_states = False\<rparr> 0 f = Settled (f', actions)"
  shows "part_distinct (pf_profiles f')"
proof -
  from assms(2) obtain f1 first rest where f1: "on_names (part_draw (\<lambda>s. s) 0) f = Settled (f1, first)"
    "on_profiles (part_draw (\<lambda>s. s) 0) f1 = Settled (f', rest)"
    by (auto simp: draw_filter_def and_then_def elim!: settled_thenE)
  from on_profiles_part [OF f1(2)] on_names_profiles [OF f1(1)] part_draw_distinct assms(1) show ?thesis by metis
qed

lemma ids_answered_once:
  assumes "profiles_once p"
  shows "profiles_once (fst (ids_answered projects ids p))"
proof -
  have names: "profiles_once (fst (configuration_actions projects (set_available_names vs (cp_filter p)) p))"
    if "profiles_once p" for vs p
    by (rule configuration_actions_once [OF that])
      (use that in \<open>auto simp: set_available_names_def profiles_once_def dest: on_names_profiles\<close>)
  have profiles: "profiles_once (fst (configuration_actions projects (set_available_profiles vs (cp_filter p)) p))"
    if "profiles_once p" "distinct vs" for vs p
    by (rule configuration_actions_once [OF that(1)])
      (use that in \<open>auto simp: set_available_profiles_def profiles_once_def
        dest!: on_profiles_part intro: part_set_available_distinct\<close>)
  have unique: "distinct (unique (\<lambda>x. x) xs)" for xs :: "string list"
    using conjunct1 [OF unique_correct [of "\<lambda>x. x" xs]] by simp
  let ?t = "lazy_tabs projects (cp_tabs p)"
  let ?own = "filter (\<lambda>i. Some (pcid_project_id i) = map_option project_id (selected_project projects ?t)) ids"
  define p1 where "p1 = p\<lparr>cp_tabs := Some ?t\<rparr>"
  define p2 where "p2 = fst (configuration_actions projects
    (set_available_names (unique (\<lambda>name. name) (map pcid_name ?own)) (cp_filter p1)) p1)"
  define p3 where "p3 = fst (configuration_actions projects
    (set_available_profiles (unique (\<lambda>profile. profile) (map pcid_profile ?own)) (cp_filter p2)) p2)"
  have p1: "profiles_once p1" using assms by (simp add: p1_def profiles_once_def)
  then have p2: "profiles_once p2" unfolding p2_def by (rule names)
  then have "profiles_once p3" unfolding p3_def using unique by (rule profiles)
  moreover have "fst (ids_answered projects ids p) = p1 \<or>
      fst (ids_answered projects ids p) = fst (filter_configurations projects False p3)"
    unfolding ids_answered_def Let_def p1_def [symmetric] split_beta
    by (simp add: p2_def [symmetric] p3_def [symmetric])
  ultimately show ?thesis using p1 by (auto simp: profiles_once_def)
qed

lemma configuration_page_step_once:
  assumes once: "profiles_once p"
  shows "profiles_once (fst (configuration_page_step projects op p))"
proof (cases op)
  case Draw_configurations
  with once show ?thesis
    by (auto simp: draw_configuration_page_def profiles_once_def
        intro!: configuration_actions_once [unfolded profiles_once_def] elim: draw_profiles_once)
next
  case (Choose_names suggestions)
  with once show ?thesis
    by (auto simp: profiles_once_def intro!: configuration_actions_once [unfolded profiles_once_def] dest: on_names_profiles)
next
  case (Choose_profiles suggestions)
  with once show ?thesis
    by (auto simp: profiles_once_def intro!: configuration_actions_once [unfolded profiles_once_def]
        dest!: on_profiles_part intro: part_choose_distinct)
next
  case (Ids_answered ids)
  with ids_answered_once [OF once] show ?thesis by simp
next
  case (On_editor key eop)
  with once show ?thesis by (simp add: on_editor_def profiles_once_def Let_def split_beta split: option.split)
qed (use once in \<open>simp_all add: profiles_once_def refresh_editors_def Let_def split_beta\<close>)

lemma new_configuration_page_once: "profiles_once (new_configuration_page initial)"
  by (simp add: profiles_once_def new_configuration_page_def listening_filter_def on_profiles_filtered_def
      on_names_filtered_def on_profiles_def on_names_def part_distinct_def new_page_filter_def new_filter_part_def
      new_property_def part_on_filtered_def part_listen_def part_current_def)

lemma columns_of_profiles:
  assumes "distinct profiles" and "distinct (map pcid_id ids)"
  shows "distinct (concat (map (\<lambda>profile. map pcid_id (filter (\<lambda>i. pcid_profile i = profile) ids))
    (filter test profiles)))"
  using assms(1)
proof (induction profiles)
  case (Cons profile profiles)
  let ?of = "\<lambda>profile. map pcid_id (filter (\<lambda>i. pcid_profile i = profile) ids)"
  have same: "i = j" if "i \<in> set ids" "j \<in> set ids" "pcid_id i = pcid_id j" for i j
    using that assms(2) by (auto simp: distinct_map inj_on_def)
  have "k \<notin> set (concat (map ?of (filter test profiles)))" if "k \<in> set (?of profile)" for k
  proof
    assume "k \<in> set (concat (map ?of (filter test profiles)))"
    then obtain other j where "other \<in> set profiles" "j \<in> set ids" "pcid_profile j = other" "pcid_id j = k" by auto
    moreover from that obtain i where "i \<in> set ids" "pcid_profile i = profile" "pcid_id i = k" by auto
    ultimately show False using same [of i j] Cons.prems by simp
  qed
  then have "set (?of profile) \<inter> set (concat (map ?of (filter test profiles))) = {}" by blast
  moreover have "distinct (?of profile)" using assms(2) by (rule distinct_map_filter)
  ultimately show ?case using Cons by (cases "test profile") (simp_all only: filter.simps list.map concat.simps distinct_append
      distinct.simps if_True if_False simp_thms)
qed simp

text \<open>
  C22. The columns of the page are always drawn: after an answer with the identifiers, and whatever was drawn, edited
  and filtered since, there is a column for each shown profile (the chosen ones, or all on offer if none is chosen) that
  has a configuration, and in it exactly the editors of the configurations of the profile in the order of the answer.
  No profile has two columns, and no configuration is shown twice.
\<close>
theorem configuration_columns_complete:
  assumes "list_all distinct_ids ops" and "distinct (map pcid_id ids)"
    and quiet: "list_all quiet_op later"
  shows "let p = fst (emit_run (configuration_page_step projects) (ops @ [Editors_answered modules ids silent] @ later)
        (new_configuration_page initial));
      of_profile = (\<lambda>profile. filter (\<lambda>i. pcid_profile i = profile) ids);
      chosen = filtered_profiles (cp_filter p)
    in \<exists>columns. configuration_columns p = Some columns \<and>
         map (\<lambda>(profile, editors). (profile, map editor_key editors)) columns =
           map (\<lambda>profile. (profile, map pcid_id (of_profile profile)))
             (filter (\<lambda>profile. of_profile profile \<noteq> [])
               (if chosen = [] then available_profiles (cp_filter p) else chosen)) \<and>
         distinct (map fst columns) \<and> distinct (map editor_key (concat (map snd columns)))"
proof -
  let ?run = "\<lambda>ops. fst (emit_run (configuration_page_step projects) ops (new_configuration_page initial))"
  let ?p = "?run ops" and ?q = "?run (ops @ [Editors_answered modules ids silent] @ later)"
  have "cards_ok editor_key (cp_editors (fst (emit_run (configuration_page_step projects) ops p)))"
    if "list_all distinct_ids ops" "cards_ok editor_key (cp_editors p)" for ops p
    using that by (induction ops arbitrary: p) (simp_all add: configuration_page_step_ok)
  then have "cards_ok editor_key (cp_editors ?p)" using assms(1) by (simp add: new_configuration_page_def)
  from editor_listing.refresh_grid_cards [OF this assms(2), of modules True]
  have "editors_of ids (fst (refresh_editors modules ids silent ?p))"
    unfolding editors_of_def refresh_editors_def
    by (simp add: editor_listing.refreshed_keys [unfolded set_map])
  moreover have "editors_of ids (fst (emit_run (configuration_page_step projects) later p))" if "editors_of ids p" for p
    using that quiet by (induction later arbitrary: p) (simp_all add: quiet_op_keeps)
  ultimately have "editors_of ids ?q" by simp
  from configuration_columns_keys [OF this] obtain columns where
    columns: "configuration_columns ?q = Some columns"
      "map (\<lambda>(profile, editors). (profile, map editor_key editors)) columns =
        map (\<lambda>profile. (profile, map pcid_id (filter (\<lambda>i. pcid_profile i = profile) ids)))
          (filter (\<lambda>profile. filter (\<lambda>i. pcid_profile i = profile) ids \<noteq> []) (shown_profiles ?q))"
    by auto
  have "profiles_once ?q"
    by (rule emit_run_invariant [of profiles_once, OF configuration_page_step_once new_configuration_page_once])
  then have once: "distinct (shown_profiles ?q)"
    unfolding profiles_once_def shown_profiles_def filtered_profiles_def available_profiles_def
    using part_distinct_lists by auto
  have "map fst columns = filter (\<lambda>profile. filter (\<lambda>i. pcid_profile i = profile) ids \<noteq> []) (shown_profiles ?q)"
    using arg_cong [OF columns(2), of "map fst"] by (simp add: comp_def split_beta)
  moreover have "map editor_key (concat (map snd columns)) =
      concat (map (\<lambda>profile. map pcid_id (filter (\<lambda>i. pcid_profile i = profile) ids))
        (filter (\<lambda>profile. filter (\<lambda>i. pcid_profile i = profile) ids \<noteq> []) (shown_profiles ?q)))"
    using arg_cong [OF columns(2), of "\<lambda>cs. concat (map snd cs)"] by (simp add: map_concat comp_def split_beta)
  moreover note columns_of_profiles [OF once assms(2)]
  ultimately show ?thesis unfolding Let_def
    using columns once by (intro exI [of _ columns]) (simp add: shown_profiles_def)
qed

definition sample_configuration_id :: "int \<Rightarrow> string \<Rightarrow> prepared_configuration_identifier" where
  "sample_configuration_id key profile =
     \<lparr>pcid_id = key, pcid_project_id = 1, pcid_profile = profile, pcid_name = ''application.yml''\<rparr>"

definition sample_configuration_ids :: "prepared_configuration_identifier list" where
  "sample_configuration_ids =
     [sample_configuration_id 1 ''dev'', sample_configuration_id 2 ''test'', sample_configuration_id 3 ''dev'']"

definition sample_configuration_page :: configuration_page where
  "sample_configuration_page = fst (emit_run (configuration_page_step [sample_project])
     ([Draw_configurations] @ [Editors_answered [] sample_configuration_ids False] @
      [On_editor 1 Click_delete, Ids_answered sample_configuration_ids]) (new_configuration_page []))"

lemma sample_columns_shown:
  "filtered_profiles (cp_filter sample_configuration_page) = []"
  "available_profiles (cp_filter sample_configuration_page) = [''dev'', ''test'']"
  by code_simp+

theorem configuration_columns_complete_witness:
  "\<exists>columns. configuration_columns sample_configuration_page = Some columns \<and>
     map (\<lambda>(profile, editors). (profile, map editor_key editors)) columns = [(''dev'', [1, 3]), (''test'', [2])]"
proof -
  have "list_all distinct_ids [Draw_configurations]" "distinct (map pcid_id sample_configuration_ids)"
    "list_all quiet_op [On_editor 1 Click_delete, Ids_answered sample_configuration_ids]"
    by (simp_all add: distinct_ids_def quiet_op_def sample_configuration_ids_def sample_configuration_id_def)
  from configuration_columns_complete [OF this, of "[sample_project]" "[]" False "[]", unfolded Let_def,
      folded sample_configuration_page_def, unfolded sample_columns_shown]
  obtain columns where columns: "configuration_columns sample_configuration_page = Some columns"
    "map (\<lambda>(profile, editors). (profile, map editor_key editors)) columns =
      map (\<lambda>profile. (profile, map pcid_id (filter (\<lambda>i. pcid_profile i = profile) sample_configuration_ids)))
        (filter (\<lambda>profile. filter (\<lambda>i. pcid_profile i = profile) sample_configuration_ids \<noteq> [])
          (if [] = ([] :: string list) then [''dev'', ''test''] else []))"
    by (elim exE conjE) (rule that)
  moreover have "map (\<lambda>profile. (profile, map pcid_id (filter (\<lambda>i. pcid_profile i = profile) sample_configuration_ids)))
        (filter (\<lambda>profile. filter (\<lambda>i. pcid_profile i = profile) sample_configuration_ids \<noteq> [])
          (if [] = ([] :: string list) then [''dev'', ''test''] else [])) = [(''dev'', [1, 3]), (''test'', [2])]"
    by (simp add: sample_configuration_ids_def sample_configuration_id_def)
  ultimately show ?thesis by metis
qed

end
