(* ===== verification/Managed_Panels.thy ===== *)
theory Managed_Panels
  imports Text_Fields
begin

text \<open>
  Managed widgets that open and close: the check boxes, radio buttons and switches of
  \<open>framework/dsl/managed/ManagedCheckbox.tsx\<close>, \<open>ManagedRadio.tsx\<close> and \<open>ManagedSwitch.tsx\<close>, the panel of
  \<open>ManagedPanel.tsx\<close>, and the dialogs of \<open>ManagedDialog.tsx\<close>. As in the text fields, consumers are tokens and the
  trigger of the configuration is left out.
\<close>

section \<open>Check boxes\<close>

record 'u toggle =
  toggle_disabled :: "(bool, 'u) property"
  toggle_checked :: "(bool, 'u) property"

definition new_toggle :: "bool \<Rightarrow> bool \<Rightarrow> 'u toggle" where
  "new_toggle disabled checked =
     \<lparr>toggle_disabled = new_property (Some disabled), toggle_checked = new_property (Some checked)\<rparr>"

definition toggle_set_checked :: "bool \<Rightarrow> 'u toggle \<Rightarrow> 'u toggle \<times> (bool, 'u) property_call list" where
  "toggle_set_checked b t =
     (let (p, calls) = property_set (=) (Some b) (toggle_checked t) in (t\<lparr>toggle_checked := p\<rparr>, calls))"

definition toggle_set_disabled :: "bool \<Rightarrow> 'u toggle \<Rightarrow> 'u toggle \<times> (bool, 'u) property_call list" where
  "toggle_set_disabled b t =
     (let (p, calls) = property_set (=) (Some b) (toggle_disabled t) in (t\<lparr>toggle_disabled := p\<rparr>, calls))"

definition toggle_on_check :: "'u \<Rightarrow> 'u toggle \<Rightarrow> 'u toggle \<times> (bool, 'u) property_call list" where
  "toggle_on_check action t =
     (let (p, calls) = property_consume action (toggle_checked t) in (t\<lparr>toggle_checked := p\<rparr>, calls))"

definition toggle_is_checked :: "'u toggle \<Rightarrow> bool" where
  "toggle_is_checked t \<longleftrightarrow> property_value (toggle_checked t) = Some True"

definition toggle_is_disabled :: "'u toggle \<Rightarrow> bool" where
  "toggle_is_disabled t \<longleftrightarrow> property_value (toggle_disabled t) = Some True"

text \<open>A click on the label: it does not look at \<open>disabled\<close>, which only the box itself does.\<close>

definition toggle_click_label :: "'u toggle \<Rightarrow> 'u toggle \<times> (bool, 'u) property_call list" where
  "toggle_click_label t = toggle_set_checked (\<not> toggle_is_checked t) t"

definition toggle_click_box :: "'u toggle \<Rightarrow> 'u toggle \<times> (bool, 'u) property_call list" where
  "toggle_click_box t = (if toggle_is_disabled t then (t, []) else toggle_set_checked (\<not> toggle_is_checked t) t)"

section \<open>Panels\<close>

text \<open>
  The property \<open>checked\<close> passes its value to \<open>expanded\<close> before its other consumers: \<open>Pass_expanded\<close>. \<open>panel_loaded\<close>
  is the reference that each mounted instance keeps.
\<close>

datatype 'u check_consumer = Pass_expanded | Check_action 'u

datatype panel_kind = Plain_panel | Radio_panel | Checkbox_panel

record 'u panel =
  panel_kind :: panel_kind
  panel_reacts :: bool
  panel_expanded_property :: "(bool, 'u) property"
  panel_checked_property :: "(bool, 'u check_consumer) property"
  panel_click :: "'u list"
  panel_loaded :: bool

datatype 'u panel_effect =
    Expansion_call "(bool, 'u) property_call"
  | Check_call 'u "bool option"
  | Click_call 'u

text \<open>\<open>this.defaultProperties.checked || this.defaultProperties.expanded\<close>\<close>

definition js_or :: "bool option \<Rightarrow> bool option \<Rightarrow> bool option" where
  "js_or a b = (if a = Some True then a else b)"

definition new_panel :: "panel_kind \<Rightarrow> bool \<Rightarrow> bool option \<Rightarrow> bool option \<Rightarrow> 'u panel" where
  "new_panel kind reacts checked expanded =
     \<lparr>panel_kind = kind, panel_reacts = reacts, panel_expanded_property = new_property (js_or checked expanded),
      panel_checked_property = fst (property_consume Pass_expanded (new_property checked)),
      panel_click = [], panel_loaded = False\<rparr>"

definition panel_set_expanded_option ::
  "bool option \<Rightarrow> 'u panel \<Rightarrow> 'u panel \<times> 'u panel_effect list" where
  "panel_set_expanded_option b p =
     (let (e, calls) = property_set (=) b (panel_expanded_property p)
      in (p\<lparr>panel_expanded_property := e\<rparr>, map Expansion_call calls))"

abbreviation panel_set_expanded :: "bool \<Rightarrow> 'u panel \<Rightarrow> 'u panel \<times> 'u panel_effect list" where
  "panel_set_expanded b \<equiv> panel_set_expanded_option (Some b)"

fun checked_calls ::
  "(bool, 'u check_consumer) property_call list \<Rightarrow> 'u panel \<Rightarrow> 'u panel \<times> 'u panel_effect list" where
  "checked_calls [] p = (p, [])"
| "checked_calls (Updated Pass_expanded b # calls) p =
     (let (p1, first) = panel_set_expanded_option b p; (p2, rest) = checked_calls calls p1 in (p2, first @ rest))"
| "checked_calls (Updated (Check_action u) b # calls) p =
     (let (p1, rest) = checked_calls calls p in (p1, Check_call u b # rest))"
| "checked_calls (Cleared c # calls) p = checked_calls calls p"

definition panel_set_checked :: "bool \<Rightarrow> 'u panel \<Rightarrow> 'u panel \<times> 'u panel_effect list" where
  "panel_set_checked b p =
     (let (c, calls) = property_set (=) (Some b) (panel_checked_property p)
      in checked_calls calls (p\<lparr>panel_checked_property := c\<rparr>))"

definition panel_expanded :: "'u panel \<Rightarrow> bool" where
  "panel_expanded p \<longleftrightarrow> property_value (panel_expanded_property p) = Some True"

definition panel_checked :: "'u panel \<Rightarrow> bool" where
  "panel_checked p \<longleftrightarrow> property_value (panel_checked_property p) = Some True"

definition panel_on_expansion_changed :: "'u \<Rightarrow> 'u panel \<Rightarrow> 'u panel \<times> 'u panel_effect list" where
  "panel_on_expansion_changed action p =
     (let (e, calls) = property_consume action (panel_expanded_property p)
      in (p\<lparr>panel_expanded_property := e\<rparr>, map Expansion_call calls))"

definition panel_on_check :: "'u \<Rightarrow> 'u panel \<Rightarrow> 'u panel \<times> 'u panel_effect list" where
  "panel_on_check action p =
     (let (c, calls) = property_consume (Check_action action) (panel_checked_property p)
      in checked_calls calls (p\<lparr>panel_checked_property := c\<rparr>))"

definition panel_on_click :: "'u \<Rightarrow> 'u panel \<Rightarrow> 'u panel" where
  "panel_on_click action p = p\<lparr>panel_click := event_handle (panel_click p) action\<rparr>"

text \<open>
  A click on the summary. The action that the constructor registers for panels that can be checked comes first; the
  accordion of a plain panel toggles it through \<open>onChange\<close>.
\<close>

definition panel_clicked :: "'u panel \<Rightarrow> 'u panel \<times> 'u panel_effect list" where
  "panel_clicked p =
     (let (p', effects) =
        (if panel_kind p = Plain_panel then (p, [])
         else
           let expanded = panel_expanded p;
               (p1, first) = panel_set_checked True p;
               (p2, rest) = panel_set_expanded (\<not> expanded) p1
           in (p2, first @ rest))
      in (p', effects @ map (\<lambda>(action, _). Click_call action) (event_execute (panel_click p) ())))"

definition accordion_changed :: "bool \<Rightarrow> 'u panel \<Rightarrow> 'u panel \<times> 'u panel_effect list" where
  "accordion_changed expanded p =
     (if panel_kind p = Plain_panel then panel_set_expanded expanded p else (p, []))"

text \<open>The cursor enters (or a touch starts) and leaves.\<close>

definition cursor_moved :: "bool \<Rightarrow> 'u panel \<Rightarrow> 'u panel \<times> 'u panel_effect list" where
  "cursor_moved enters p =
     (if panel_kind p = Plain_panel \<and> panel_reacts p then panel_set_expanded enters p else (p, []))"

text \<open>The drawing: the content from the first expansion on, a loader before.\<close>

datatype panel_details = Drawn_content | Drawn_loader

definition draw_panel :: "'u panel \<Rightarrow> 'u panel \<times> panel_details" where
  "draw_panel p =
     (if panel_loaded p then (p, Drawn_content)
      else if panel_expanded p then (p\<lparr>panel_loaded := True\<rparr>, Drawn_content)
      else (p, Drawn_loader))"

definition mount_panel :: "'u panel \<Rightarrow> 'u panel" where
  "mount_panel p = p\<lparr>panel_loaded := False\<rparr>"

datatype 'u panel_op =
    Click_summary | Check_box bool | Change_accordion bool | Move_cursor bool
  | Draw_panel | Mount_panel | On_check 'u | On_expansion 'u | On_click 'u

fun panel_step :: "'u panel_op \<Rightarrow> 'u panel \<Rightarrow> 'u panel \<times> 'u panel_effect list" where
  "panel_step Click_summary p = panel_clicked p"
| "panel_step (Check_box b) p = panel_set_checked b p"
| "panel_step (Change_accordion b) p = accordion_changed b p"
| "panel_step (Move_cursor enters) p = cursor_moved enters p"
| "panel_step Draw_panel p = (fst (draw_panel p), [])"
| "panel_step Mount_panel p = (mount_panel p, [])"
| "panel_step (On_check u) p = panel_on_check u p"
| "panel_step (On_expansion u) p = panel_on_expansion_changed u p"
| "panel_step (On_click u) p = (panel_on_click u p, [])"

section \<open>What a panel shows\<close>

text \<open>Nobody prevents the two properties, and the first consumer of \<open>checked\<close> is the one of the panel.\<close>

definition panel_ok :: "'u panel \<Rightarrow> bool" where
  "panel_ok p \<longleftrightarrow>
     before_update_consumers (panel_expanded_property p) = [] \<and>
     before_update_consumers (panel_checked_property p) = [] \<and>
     take 1 (after_update_consumers (panel_checked_property p)) = [Pass_expanded] \<and>
     Pass_expanded \<notin> set (drop 1 (after_update_consumers (panel_checked_property p))) \<and>
     property_wf (panel_checked_property p)"

lemma property_set_free_value:
  "before_update_consumers p = [] \<Longrightarrow> property_value (fst (property_set (=) v p)) = v"
  by (auto simp: property_set_def prevented_def split: option.split)

lemma property_set_consumers [simp]:
  "after_update_consumers (fst (property_set eq v p)) = after_update_consumers p"
  by (simp add: property_set_def split: option.split)

lemma panel_set_expanded_frame [simp]:
  "panel_kind (fst (panel_set_expanded_option b p)) = panel_kind p"
  "panel_reacts (fst (panel_set_expanded_option b p)) = panel_reacts p"
  "panel_checked_property (fst (panel_set_expanded_option b p)) = panel_checked_property p"
  "panel_click (fst (panel_set_expanded_option b p)) = panel_click p"
  "panel_loaded (fst (panel_set_expanded_option b p)) = panel_loaded p"
  "panel_checked (fst (panel_set_expanded_option b p)) = panel_checked p"
  "panel_ok p \<Longrightarrow> panel_ok (fst (panel_set_expanded_option b p))"
  by (simp_all add: panel_set_expanded_option_def split_beta panel_checked_def panel_ok_def)

lemma panel_set_expanded_value [simp]:
  "panel_ok p \<Longrightarrow> panel_expanded (fst (panel_set_expanded_option b p)) \<longleftrightarrow> b = Some True"
  by (simp add: panel_set_expanded_option_def split_beta panel_expanded_def panel_ok_def property_set_free_value)

lemma action_calls_keep:
  "Pass_expanded \<notin> set cs \<Longrightarrow> fst (checked_calls (map (\<lambda>c. Updated c v) cs) p) = p"
proof (induction cs)
  case (Cons c cs)
  then show ?case by (cases c) (simp_all add: split_beta Let_def)
qed simp

lemma checked_calls_pass:
  assumes "take 1 cs = [Pass_expanded]" and "Pass_expanded \<notin> set (drop 1 cs)"
  shows "fst (checked_calls (map (\<lambda>c. Updated c v) cs) p) = fst (panel_set_expanded_option v p)"
proof -
  from assms(1) obtain rest where "cs = Pass_expanded # rest" by (cases cs) auto
  with assms(2) show ?thesis by (simp add: split_beta Let_def action_calls_keep)
qed

text \<open>What setting \<open>checked\<close> does: nothing if it has the value, else both properties take it.\<close>

lemma panel_set_checked_result:
  assumes "panel_ok p"
  shows "panel_ok (fst (panel_set_checked b p))"
    and "panel_checked (fst (panel_set_checked b p)) = b"
    and "panel_expanded (fst (panel_set_checked b p)) =
      (if property_value (panel_checked_property p) = Some b then panel_expanded p else b)"
    and "panel_kind (fst (panel_set_checked b p)) = panel_kind p"
    and "panel_loaded (fst (panel_set_checked b p)) = panel_loaded p"
proof -
  let ?c = "fst (property_set (=) (Some b) (panel_checked_property p))"
  let ?p = "p\<lparr>panel_checked_property := ?c\<rparr>"
  have free: "before_update_consumers (panel_checked_property p) = []" using assms by (simp add: panel_ok_def)
  have ok: "panel_ok ?p" using assms by (simp add: panel_ok_def property_wf_set)
  have same: "fst (panel_set_checked b p) = ?p" if "property_value (panel_checked_property p) = Some b"
    using that by (simp add: panel_set_checked_def split_beta)
  have calls: "snd (property_set (=) (Some b) (panel_checked_property p)) =
      map (\<lambda>c. Updated c (Some b)) (after_update_consumers (panel_checked_property p))"
    if "property_value (panel_checked_property p) \<noteq> Some b"
    using that free
    by (auto simp: property_set_def prevented_def notify_updated_def split: option.split)
  have changed: "fst (panel_set_checked b p) = fst (panel_set_expanded b ?p)"
    if "property_value (panel_checked_property p) \<noteq> Some b"
    using assms by (simp add: panel_set_checked_def split_beta calls [OF that] checked_calls_pass panel_ok_def)
  have now: "panel_checked ?p = b" using free by (simp add: panel_checked_def)
  have kept: "panel_expanded ?p = panel_expanded p" by (simp add: panel_expanded_def)
  show "panel_ok (fst (panel_set_checked b p))" "panel_checked (fst (panel_set_checked b p)) = b"
    "panel_expanded (fst (panel_set_checked b p)) =
      (if property_value (panel_checked_property p) = Some b then panel_expanded p else b)"
    "panel_kind (fst (panel_set_checked b p)) = panel_kind p"
    "panel_loaded (fst (panel_set_checked b p)) = panel_loaded p"
    using same changed ok now kept by (cases "property_value (panel_checked_property p) = Some b"; simp)+
qed

lemma checked_calls_action:
  "fst (checked_calls (map (\<lambda>c. Updated (Check_action c) v) us) p) = p"
  by (induction us) (simp_all add: split_beta Let_def)

lemma panel_on_check_result:
  assumes "panel_ok p"
  shows "panel_ok (fst (panel_on_check u p))"
    and "panel_checked (fst (panel_on_check u p)) = panel_checked p"
    and "panel_expanded (fst (panel_on_check u p)) = panel_expanded p"
    and "panel_kind (fst (panel_on_check u p)) = panel_kind p"
proof -
  have "fst (panel_on_check u p) =
      p\<lparr>panel_checked_property := fst (property_consume (Check_action u) (panel_checked_property p))\<rparr>"
    using checked_calls_action [of _ "[u]"]
    by (auto simp: panel_on_check_def property_consume_def)
  moreover obtain rest where "after_update_consumers (panel_checked_property p) = Pass_expanded # rest"
    using assms by (cases "after_update_consumers (panel_checked_property p)") (auto simp: panel_ok_def)
  ultimately show "panel_ok (fst (panel_on_check u p))"
    "panel_checked (fst (panel_on_check u p)) = panel_checked p"
    "panel_expanded (fst (panel_on_check u p)) = panel_expanded p"
    "panel_kind (fst (panel_on_check u p)) = panel_kind p"
    using assms
    by (simp_all add: panel_ok_def panel_checked_def panel_expanded_def property_consume_def property_wf_def)
qed

lemma panel_on_expansion_result:
  assumes "panel_ok p"
  shows "panel_ok (fst (panel_on_expansion_changed u p))"
    and "panel_checked (fst (panel_on_expansion_changed u p)) = panel_checked p"
    and "panel_expanded (fst (panel_on_expansion_changed u p)) = panel_expanded p"
    and "panel_kind (fst (panel_on_expansion_changed u p)) = panel_kind p"
  using assms
  by (simp_all add: panel_on_expansion_changed_def panel_ok_def panel_checked_def panel_expanded_def
      property_consume_def)

definition shut_unless_checked :: "'u panel \<Rightarrow> bool" where
  "shut_unless_checked p \<longleftrightarrow>
     panel_ok p \<and> panel_kind p \<noteq> Plain_panel \<and> (panel_expanded p \<longrightarrow> panel_checked p)"

lemma panel_clicked_result:
  assumes "panel_ok p" and "panel_kind p \<noteq> Plain_panel"
  shows "panel_ok (fst (panel_clicked p))"
    and "panel_checked (fst (panel_clicked p))"
    and "panel_expanded (fst (panel_clicked p)) \<longleftrightarrow> \<not> panel_expanded p"
    and "panel_kind (fst (panel_clicked p)) = panel_kind p"
  using assms panel_set_checked_result [OF assms(1), of True]
  by (simp_all add: panel_clicked_def split_beta Let_def)

lemma panel_step_shut: "shut_unless_checked p \<Longrightarrow> shut_unless_checked (fst (panel_step op p))"
proof (cases op)
  case Click_summary
  assume "shut_unless_checked p"
  with Click_summary show ?thesis by (simp add: shut_unless_checked_def panel_clicked_result)
next
  case (Check_box b)
  assume "shut_unless_checked p"
  with Check_box show ?thesis
    using panel_set_checked_result [of p b] by (auto simp: shut_unless_checked_def panel_checked_def)
next
  case Draw_panel
  assume "shut_unless_checked p"
  with Draw_panel show ?thesis
    by (simp add: shut_unless_checked_def draw_panel_def panel_ok_def panel_expanded_def panel_checked_def)
qed (simp_all add: shut_unless_checked_def accordion_changed_def cursor_moved_def mount_panel_def panel_on_click_def
    panel_on_check_result panel_on_expansion_result, simp_all add: panel_ok_def panel_expanded_def panel_checked_def)

lemma new_panel_ok: "panel_ok (new_panel kind reacts checked expanded)"
  by (simp add: panel_ok_def new_panel_def property_consume_def property_wf_def new_property_def)

text \<open>
  C39. A panel with a check box (or a radio button) never shows its content unless it is checked, whatever is clicked,
  checked, drawn and registered; a click on it always leaves it checked and turns it, and taking the check away
  closes it.
\<close>
theorem checked_panel_follows_check:
  assumes "kind \<noteq> Plain_panel"
  shows "let p = fst (emit_run panel_step ops (new_panel kind reacts checked None))
    in (panel_expanded p \<longrightarrow> panel_checked p) \<and>
       panel_checked (fst (panel_clicked p)) \<and> panel_expanded (fst (panel_clicked p)) = (\<not> panel_expanded p) \<and>
       \<not> panel_expanded (fst (panel_set_checked False p))"
proof -
  have "panel_expanded (new_panel kind reacts checked None) \<longrightarrow> panel_checked (new_panel kind reacts checked None)"
    by (simp add: new_panel_def panel_expanded_def panel_checked_def js_or_def property_consume_def new_property_def)
  then have "shut_unless_checked (new_panel kind reacts checked None)"
    using assms by (simp add: shut_unless_checked_def new_panel_ok) (simp add: new_panel_def)
  then have "shut_unless_checked (fst (emit_run panel_step ops (new_panel kind reacts checked None)))"
    (is "shut_unless_checked ?p")
    by (rule emit_run_invariant [of shut_unless_checked panel_step, OF panel_step_shut, rotated])
  then have p: "panel_ok ?p" "panel_kind ?p \<noteq> Plain_panel" "panel_expanded ?p \<longrightarrow> panel_checked ?p"
    by (simp_all add: shut_unless_checked_def)
  have "\<not> panel_expanded (fst (panel_set_checked False ?p))"
    using p(3) panel_set_checked_result(3) [OF p(1), of False] by (auto simp: panel_checked_def)
  with p(3) panel_clicked_result(2,3) [OF p(1,2)] show ?thesis by (simp add: Let_def)
qed

theorem checked_panel_follows_check_witness:
  "let p = fst (emit_run panel_step [Click_summary, Draw_panel, Click_summary, Check_box False]
         (new_panel Checkbox_panel False (Some False) None :: nat panel))
    in (panel_expanded p \<longrightarrow> panel_checked p) \<and>
       panel_checked (fst (panel_clicked p)) \<and> panel_expanded (fst (panel_clicked p)) = (\<not> panel_expanded p) \<and>
       \<not> panel_expanded (fst (panel_set_checked False p))"
  by (rule checked_panel_follows_check) simp

section \<open>Dialogs\<close>

text \<open>The consumers of \<open>visible\<close> are those of \<open>onClose\<close> and \<open>onOpen\<close>, which look at the value.\<close>

datatype 'u dialog_consumer = On_close 'u | On_open 'u

record 'u dialog =
  dialog_visible :: "(bool, 'u dialog_consumer) property"
  dialog_has_widget :: bool

definition new_dialog :: "bool \<Rightarrow> bool \<Rightarrow> 'u dialog" where
  "new_dialog visible has_widget = \<lparr>dialog_visible = new_property (Some visible), dialog_has_widget = has_widget\<rparr>"

fun dialog_call :: "(bool, 'u dialog_consumer) property_call \<Rightarrow> 'u list" where
  "dialog_call (Updated (On_close u) v) = (if v = Some True then [] else [u])"
| "dialog_call (Updated (On_open u) v) = (if v = Some True then [u] else [])"
| "dialog_call (Cleared c) = []"

definition dialog_set_visible :: "bool \<Rightarrow> 'u dialog \<Rightarrow> 'u dialog \<times> 'u list" where
  "dialog_set_visible b d =
     (let (p, calls) = property_set (=) (Some b) (dialog_visible d)
      in (d\<lparr>dialog_visible := p\<rparr>, List.concat (map dialog_call calls)))"

abbreviation open_dialog :: "'u dialog \<Rightarrow> 'u dialog \<times> 'u list" where
  "open_dialog \<equiv> dialog_set_visible True"

abbreviation close_dialog :: "'u dialog \<Rightarrow> 'u dialog \<times> 'u list" where
  "close_dialog \<equiv> dialog_set_visible False"

definition dialog_on_close :: "'u \<Rightarrow> 'u dialog \<Rightarrow> 'u dialog \<times> 'u list" where
  "dialog_on_close action d =
     (let (p, calls) = property_consume (On_close action) (dialog_visible d)
      in (d\<lparr>dialog_visible := p\<rparr>, List.concat (map dialog_call calls)))"

definition dialog_on_open :: "'u \<Rightarrow> 'u dialog \<Rightarrow> 'u dialog \<times> 'u list" where
  "dialog_on_open action d =
     (let (p, calls) = property_consume (On_open action) (dialog_visible d)
      in (d\<lparr>dialog_visible := p\<rparr>, List.concat (map dialog_call calls)))"

definition dialog_shown :: "'u dialog \<Rightarrow> bool" where
  "dialog_shown d \<longleftrightarrow> property_value (dialog_visible d) = Some True"

text \<open>\<open>visible()\<close> asks for the property, an object, in place of its value: it is always true.\<close>

definition dialog_visible_reading :: "'u dialog \<Rightarrow> bool" where
  "dialog_visible_reading d = True"

definition click_close_icon :: "'u dialog \<Rightarrow> 'u dialog \<times> 'u list" where
  "click_close_icon d = (if dialog_shown d \<and> dialog_has_widget d then close_dialog d else (d, []))"

section \<open>Warnings\<close>

text \<open>
  A question with two buttons. \<open>handleEnter\<close> starts a timer for every key press that reaches it: the dialog's own
  handler hears the presses of the whole dialog, and a question without an explaining text has a second one
  around its buttons.
\<close>

record 'u warning_dialog =
  warning_dialog_of :: "'u dialog"
  warning_explained :: bool
  warning_timers :: nat

datatype 'u warning_effect = Approved | Cancelled | Dialog_action 'u

definition new_warning :: "bool \<Rightarrow> 'u warning_dialog" where
  "new_warning explained =
     \<lparr>warning_dialog_of = new_dialog False explained, warning_explained = explained, warning_timers = 0\<rparr>"

definition on_warning_dialog ::
  "('u dialog \<Rightarrow> 'u dialog \<times> 'u list) \<Rightarrow> 'u warning_dialog \<Rightarrow> 'u warning_dialog \<times> 'u warning_effect list" where
  "on_warning_dialog f w =
     (let (d, actions) = f (warning_dialog_of w) in (w\<lparr>warning_dialog_of := d\<rparr>, map Dialog_action actions))"

definition approve_warning :: "'u warning_dialog \<Rightarrow> 'u warning_dialog \<times> 'u warning_effect list" where
  "approve_warning w = (let (w', effects) = on_warning_dialog close_dialog w in (w', effects @ [Approved]))"

definition cancel_warning :: "'u warning_dialog \<Rightarrow> 'u warning_dialog \<times> 'u warning_effect list" where
  "cancel_warning w = (let (w', effects) = on_warning_dialog close_dialog w in (w', effects @ [Cancelled]))"

text \<open>The handlers that a press of the key reaches, which depends on whether a button has the focus.\<close>

definition enter_handlers :: "bool \<Rightarrow> 'u warning_dialog \<Rightarrow> nat" where
  "enter_handlers on_button w = (if on_button \<and> \<not> warning_explained w then 2 else 1)"

datatype warning_op = Open_warning | Dismiss_warning | Click_approve | Click_cancel | Press_enter bool | Timer_ends

fun warning_step :: "warning_op \<Rightarrow> 'u warning_dialog \<Rightarrow> 'u warning_dialog \<times> 'u warning_effect list" where
  "warning_step Open_warning w = on_warning_dialog open_dialog w"
| "warning_step Dismiss_warning w =
     (if dialog_shown (warning_dialog_of w) then on_warning_dialog close_dialog w else (w, []))"
| "warning_step Click_approve w = (if dialog_shown (warning_dialog_of w) then approve_warning w else (w, []))"
| "warning_step Click_cancel w = (if dialog_shown (warning_dialog_of w) then cancel_warning w else (w, []))"
| "warning_step (Press_enter on_button) w =
     (if dialog_shown (warning_dialog_of w)
      then (w\<lparr>warning_timers := warning_timers w + enter_handlers on_button w\<rparr>, []) else (w, []))"
| "warning_step Timer_ends w =
     (if warning_timers w = 0 then (w, []) else approve_warning (w\<lparr>warning_timers := warning_timers w - 1\<rparr>))"

definition answers :: "'u warning_effect list \<Rightarrow> nat" where
  "answers effects = length (filter (\<lambda>e. e = Approved \<or> e = Cancelled) effects)"

lemma answers_simps [simp]:
  "answers (xs @ ys) = answers xs + answers ys"
  "answers (map Dialog_action us) = 0"
  "answers [] = 0" "answers [Approved] = 1" "answers [Cancelled] = 1"
  by (simp_all add: answers_def comp_def)

text \<open>Nobody prevents \<open>visible\<close>.\<close>

definition dialog_free :: "'u warning_dialog \<Rightarrow> bool" where
  "dialog_free w \<longleftrightarrow> before_update_consumers (dialog_visible (warning_dialog_of w)) = []"

lemma dialog_set_visible_result:
  "dialog_free w \<Longrightarrow> dialog_free (fst (on_warning_dialog (dialog_set_visible b) w))"
  "dialog_free w \<Longrightarrow> dialog_shown (warning_dialog_of (fst (on_warning_dialog (dialog_set_visible b) w))) = b"
  "warning_timers (fst (on_warning_dialog f w)) = warning_timers w"
  "answers (snd (on_warning_dialog f w)) = 0"
  by (simp_all add: on_warning_dialog_def dialog_set_visible_def split_beta dialog_free_def dialog_shown_def)

definition openings_left :: "'u warning_dialog \<Rightarrow> nat" where
  "openings_left w = (if dialog_shown (warning_dialog_of w) then 1 else 0)"

lemma warning_step_answers:
  assumes "dialog_free w" and "warning_timers w = 0" and "op \<notin> range Press_enter"
  shows "dialog_free (fst (warning_step op w))" and "warning_timers (fst (warning_step op w)) = 0"
    and "answers (snd (warning_step op w)) + openings_left (fst (warning_step op w)) \<le>
      openings_left w + (if op = Open_warning then 1 else 0)"
  using assms
  by (cases op; simp add: approve_warning_def cancel_warning_def split_beta openings_left_def dialog_set_visible_result)+

text \<open>
  C40. A question that is answered with the mouse is answered at most once for each time it is opened: a deletion that
  was confirmed once is requested once.
\<close>
theorem warning_answered_once:
  assumes "list_all (\<lambda>op. op \<notin> range Press_enter) ops"
  shows "answers (snd (emit_run warning_step ops (new_warning explained :: 'u warning_dialog))) \<le>
    count_list ops Open_warning"
proof -
  have "answers (snd (emit_run warning_step ops w)) \<le> openings_left w + count_list ops Open_warning"
    if "dialog_free w" "warning_timers w = 0" for w :: "'u warning_dialog"
    using assms that
  proof (induction ops arbitrary: w)
    case (Cons op ops)
    note step = warning_step_answers [OF Cons.prems(2,3), of op]
    from Cons step(1,2) have "answers (snd (emit_run warning_step ops (fst (warning_step op w)))) \<le>
        openings_left (fst (warning_step op w)) + count_list ops Open_warning" by simp
    with step(3) Cons.prems(1) show ?case by (simp split: if_splits)
  qed simp
  from this [of "new_warning explained"] show ?thesis
    by (simp add: new_warning_def dialog_free_def new_dialog_def openings_left_def dialog_shown_def new_property_def)
qed

theorem warning_answered_once_witness:
  "answers (snd (emit_run warning_step [Open_warning, Click_approve, Open_warning, Click_cancel, Click_approve]
     (new_warning False :: nat warning_dialog))) \<le>
   count_list [Open_warning, Click_approve, Open_warning, Click_cancel, Click_approve] Open_warning"
  by (rule warning_answered_once) auto

text \<open>
  The keyboard answers twice: a press of the enter key while a button of a question without an explaining text
  has the focus approves it two times (two requests to delete the same entity), and a press that also activates
  the focused cancel button first cancels and then approves.
\<close>
theorem enter_answers_twice:
  "snd (emit_run warning_step [Open_warning, Press_enter True, Timer_ends, Timer_ends] (new_warning False)) =
     [Approved, Approved] \<and>
   snd (emit_run warning_step [Open_warning, Press_enter True, Click_cancel, Timer_ends] (new_warning explained)) =
     [Cancelled, Approved]"
  by (simp_all add: new_warning_def new_dialog_def new_property_def on_warning_dialog_def dialog_set_visible_def
      property_set_def prevented_def notify_updated_def dialog_shown_def enter_handlers_def approve_warning_def
      cancel_warning_def)

end
