(* ===== verification/File_Loaders.thy ===== *)
theory File_Loaders
  imports Reactive Model
begin

text \<open>
  The loader of files, \<open>framework/dsl/managed/ManagedFileLoader.tsx\<close>, over the third-party widget that collects them. The
  loader keeps the files it shows and, beside them, the files with their content that a form sends; the content
  comes from readers that end in any order. A file is a record with the number of the object, so that equality is
  identity; one that comes from the server has no content to read. The widget's calls and the ends of the readers
  are operations.
\<close>

section \<open>Files and readers\<close>

record loader_file =
  lf_object :: nat
  lf_name :: string
  lf_size :: "int option"
  lf_content :: "bytes option"

record 'c file_loader =
  fl_initial :: "loader_file list"
  fl_ready :: bool
  fl_counted :: nat
  fl_loaded :: "loader_file list"
  fl_current :: "(module_file list, 'c) property"
  fl_readers :: "loader_file list"
  fl_max_size :: int

datatype 'c file_loader_effect =
    Loading_failed | Loading_failed_with | Loading_file_failed string
  | File_too_large string | File_empty string
  | Loader_redrawn | Loader_paused | Loader_continued
  | Files_call "(module_file list, 'c) property_call"

text \<open>Nothing is read of a file that the form was opened with.\<close>

definition local_file :: "string \<Rightarrow> loader_file" where
  "local_file name = \<lparr>lf_object = 0, lf_name = name, lf_size = None, lf_content = None\<rparr>"

definition without_bytes :: "loader_file \<Rightarrow> module_file" where
  "without_bytes f = \<lparr>module_file_name = lf_name f, module_file_bytes = []\<rparr>"

definition new_file_loader :: "string list option \<Rightarrow> int \<Rightarrow> 'c file_loader" where
  "new_file_loader names max_size =
     (let files = (case names of None \<Rightarrow> [] | Some ns \<Rightarrow> map local_file ns)
      in \<lparr>fl_initial = files, fl_ready = (files = []), fl_counted = 0, fl_loaded = files,
          fl_current = new_property (Some (map without_bytes files)), fl_readers = [], fl_max_size = max_size\<rparr>)"

definition loader_files :: "'c file_loader \<Rightarrow> module_file list" where
  "loader_files l = (case property_value (fl_current l) of None \<Rightarrow> [] | Some files \<Rightarrow> files)"

definition set_current_files :: "module_file list \<Rightarrow> 'c file_loader \<Rightarrow> 'c file_loader \<times> 'c file_loader_effect list" where
  "set_current_files files l =
     (let (p, calls) = property_set (=) (Some files) (fl_current l) in (l\<lparr>fl_current := p\<rparr>, map Files_call calls))"

text \<open>\<open>#updateFiles\<close>: every content is forgotten, and a reader is started for each file that has one.\<close>

definition update_files :: "'c file_loader \<Rightarrow> 'c file_loader \<times> 'c file_loader_effect list" where
  "update_files l =
     (if fl_loaded l = [] then set_current_files [] l
      else
        let (l', calls) = set_current_files (map without_bytes (fl_loaded l)) l
        in (l'\<lparr>fl_readers := fl_readers l' @ filter (\<lambda>f. lf_content f \<noteq> None) (fl_loaded l')\<rparr>, calls))"

text \<open>\<open>#addFile\<close>: the content takes the place of the file of the same name, or is added at the end.\<close>

definition add_file :: "module_file \<Rightarrow> 'c file_loader \<Rightarrow> 'c file_loader \<times> 'c file_loader_effect list" where
  "add_file file l =
     (if fl_loaded l = [] then set_current_files [file] l
      else
        let i = js_find_index (\<lambda>current. module_file_name current = module_file_name file) (loader_files l)
        in if i = -1 then set_current_files (loader_files l @ [file]) l
           else set_current_files ((loader_files l)[nat i := file]) l)"

text \<open>
  The end of a reader; without a result the construction of the buffer throws, and nothing more happens. A file that
  turns out to be empty is dropped together with the content of all others.
\<close>

definition reader_ended :: "loader_file \<Rightarrow> bytes option \<Rightarrow> 'c file_loader \<Rightarrow> 'c file_loader \<times> 'c file_loader_effect list" where
  "reader_ended f outcome l =
     (case outcome of
        None \<Rightarrow> (l, [])
      | Some bytes \<Rightarrow>
          if bytes = [] then
            let l1 = l\<lparr>fl_loaded := filter (\<lambda>current. lf_name current \<noteq> lf_name f) (fl_loaded l)\<rparr>
            in if fl_loaded l1 = [] then set_current_files [] l1
               else
                 let (l2, calls) = set_current_files (map without_bytes (fl_loaded l1)) l1
                 in (l2, calls @ [Loader_redrawn])
          else add_file \<lparr>module_file_name = lf_name f, module_file_bytes = bytes\<rparr> l)"

section \<open>The widget's calls\<close>

definition attach_file ::
  "loader_file option \<Rightarrow> bool \<Rightarrow> 'c file_loader \<Rightarrow> 'c file_loader \<times> 'c file_loader_effect list" where
  "attach_file file error l =
     (case file of
        None \<Rightarrow> (l, [if error then Loading_failed_with else Loading_failed, Loader_redrawn])
      | Some f \<Rightarrow>
          let others = l\<lparr>fl_loaded := filter (\<lambda>current. current \<noteq> f) (fl_loaded l)\<rparr>
          in if error then (l, [Loading_file_failed (lf_name f), Loader_redrawn])
             else if (case lf_size f of None \<Rightarrow> False | Some n \<Rightarrow> n > fl_max_size l)
             then (others, [File_too_large (lf_name f), Loader_redrawn])
             else if lf_size f = Some 0 then (others, [File_empty (lf_name f), Loader_redrawn])
             else
               let i = js_find_index (\<lambda>current. lf_name current = lf_name f) (fl_loaded l);
                   (l', calls) = update_files (l\<lparr>fl_loaded :=
                     if i = -1 then fl_loaded l @ [f] else (fl_loaded l)[nat i := f]\<rparr>)
               in (l', calls @ [Loader_redrawn]))"

text \<open>\<open>#onNewFile\<close>: the files that the form was opened with are counted, and only the last of them attached.\<close>

definition on_new_file ::
  "loader_file option \<Rightarrow> bool \<Rightarrow> 'c file_loader \<Rightarrow> 'c file_loader \<times> 'c file_loader_effect list" where
  "on_new_file file error l =
     (if fl_ready l then attach_file file error l
      else
        let l1 = l\<lparr>fl_counted := fl_counted l + 1\<rparr>
        in if fl_counted l1 = length (fl_initial l1) then attach_file file error (l1\<lparr>fl_ready := True\<rparr>)
           else (l1, []))"

definition before_remove_file ::
  "loader_file option \<Rightarrow> 'c file_loader \<Rightarrow> 'c file_loader \<times> 'c file_loader_effect list" where
  "before_remove_file file l =
     (case file of
        None \<Rightarrow> (l, [])
      | Some f \<Rightarrow>
          let (l', calls) = update_files (l\<lparr>fl_loaded := filter (\<lambda>current. lf_name current \<noteq> lf_name f) (fl_loaded l)\<rparr>)
          in (l', calls @ [Loader_redrawn]))"

definition clear_files :: "'c file_loader \<Rightarrow> 'c file_loader \<times> 'c file_loader_effect list" where
  "clear_files l =
     (let (l', calls) = set_current_files [] (l\<lparr>fl_loaded := []\<rparr>) in (l', Loader_paused # calls @ [Loader_continued]))"

definition on_files_changed :: "'c \<Rightarrow> 'c file_loader \<Rightarrow> 'c file_loader \<times> 'c file_loader_effect list" where
  "on_files_changed action l =
     (let (p, calls) = property_consume action (fl_current l) in (l\<lparr>fl_current := p\<rparr>, map Files_call calls))"

datatype 'c loader_op =
    New_file "loader_file option" bool | Remove_file "loader_file option" | Clear_files
  | Read_ended nat "bytes option" | On_files 'c

definition without_reader :: "nat \<Rightarrow> 'c file_loader \<Rightarrow> 'c file_loader" where
  "without_reader i l = l\<lparr>fl_readers := take i (fl_readers l) @ drop (Suc i) (fl_readers l)\<rparr>"

fun loader_step :: "'c loader_op \<Rightarrow> 'c file_loader \<Rightarrow> 'c file_loader \<times> 'c file_loader_effect list" where
  "loader_step (New_file file error) l = on_new_file file error l"
| "loader_step (Remove_file file) l = before_remove_file file l"
| "loader_step Clear_files l = clear_files l"
| "loader_step (Read_ended i outcome) l =
     (case js_at (fl_readers l) i of
        None \<Rightarrow> (l, [])
      | Some f \<Rightarrow> reader_ended f outcome (without_reader i l))"
| "loader_step (On_files action) l = on_files_changed action l"

section \<open>Contents arrive\<close>

lemma replace_at_key:
  assumes "distinct (map k xs)" and "js_find_index (\<lambda>x. k x = key) xs \<noteq> -1"
  shows "xs[nat (js_find_index (\<lambda>x. k x = key) xs) := y] = map (\<lambda>x. if k x = key then y else x) xs"
  using assms
proof (induction xs)
  case (Cons x xs)
  have ge: "- 1 \<le> js_find_index (\<lambda>x. k x = key) xs" by (rule js_find_index_ge)
  show ?case
  proof (cases "k x = key")
    case True
    with Cons.prems(1) have "map (\<lambda>x. if k x = key then y else x) xs = xs"
      by (intro map_idI) (auto simp: image_iff)
    with True show ?thesis by simp
  next
    case False
    with Cons.prems(2) have found: "js_find_index (\<lambda>x. k x = key) xs \<noteq> - 1" by (auto simp: Let_def)
    with ge have "nat (js_find_index (\<lambda>x. k x = key) xs + 1) = Suc (nat (js_find_index (\<lambda>x. k x = key) xs))" by linarith
    with False found Cons show ?thesis by (simp add: Let_def)
  qed
qed simp

definition contents :: "loader_file \<Rightarrow> bytes" where
  "contents f = (case lf_content f of None \<Rightarrow> [] | Some bytes \<Rightarrow> bytes)"

text \<open>Each file has its content already, or a reader of it is under way; only files that are there are read.\<close>

definition arriving :: "loader_file list \<Rightarrow> loader_file \<Rightarrow> module_file \<Rightarrow> bool" where
  "arriving readers f m \<longleftrightarrow>
     module_file_name m = lf_name f \<and> (f \<in> set readers \<or> module_file_bytes m = contents f)"

definition loaded_ok :: "'c file_loader \<Rightarrow> bool" where
  "loaded_ok l \<longleftrightarrow>
     before_update_consumers (fl_current l) = [] \<and> distinct (map lf_name (fl_loaded l)) \<and>
     list_all (\<lambda>f. lf_content f \<noteq> Some []) (fl_loaded l) \<and>
     set (fl_readers l) \<subseteq> {f \<in> set (fl_loaded l). lf_content f \<noteq> None}"

definition loader_ok :: "'c file_loader \<Rightarrow> bool" where
  "loader_ok l \<longleftrightarrow>
     loaded_ok l \<and> (\<exists>files. property_value (fl_current l) = Some files \<and>
       list_all2 (arriving (fl_readers l)) (fl_loaded l) files)"

lemma set_current_files_result [simp]:
  "fl_loaded (fst (set_current_files files l)) = fl_loaded l"
  "fl_readers (fst (set_current_files files l)) = fl_readers l"
  "before_update_consumers (fl_current (fst (set_current_files files l))) = before_update_consumers (fl_current l)"
  "before_update_consumers (fl_current l) = [] \<Longrightarrow> property_value (fl_current (fst (set_current_files files l))) = Some files"
  by (auto simp: set_current_files_def split_beta property_set_def prevented_def split: option.split)

lemma update_files_ok: "loaded_ok l \<Longrightarrow> loader_ok (fst (update_files l))"
proof -
  assume ok: "loaded_ok l"
  have "list_all2 (arriving (readers @ filter (\<lambda>f. lf_content f \<noteq> None) fs)) gs (map without_bytes gs)"
    if "set gs \<subseteq> set fs" for readers fs gs
    using that by (induction gs) (auto simp: arriving_def without_bytes_def contents_def split: option.split)
  with ok show ?thesis
    by (auto simp: loader_ok_def loaded_ok_def update_files_def split_beta)
qed

lemma list_all2_replace:
  assumes "list_all2 P xs ms" and "\<And>x m. x \<in> set xs \<Longrightarrow> P x m \<Longrightarrow> Q x (h m)"
  shows "list_all2 Q xs (map h ms)"
  using assms by (induction xs ms rule: list_all2_induct) auto

lemma remaining_readers:
  "g \<in> set xs \<Longrightarrow> i < length xs \<Longrightarrow> g \<noteq> xs ! i \<Longrightarrow> g \<in> set (take i xs @ drop (Suc i) xs)"
  by (metis Un_iff id_take_nth_drop set_ConsD set_append Cons_eq_appendI UnE UnI1 UnI2)

lemma reader_ended_ok:
  assumes ok: "loader_ok l" and i: "i < length (fl_readers l)" "f = fl_readers l ! i"
  shows "loader_ok (fst (reader_ended f (lf_content f) (without_reader i l)))"
proof -
  let ?l = "without_reader i l" and ?readers = "take i (fl_readers l) @ drop (Suc i) (fl_readers l)"
  have "f \<in> set (fl_readers l)" using i by simp
  moreover have "set (fl_readers l) \<subseteq> {f \<in> set (fl_loaded l). lf_content f \<noteq> None}"
    using ok by (simp only: loader_ok_def loaded_ok_def)
  ultimately have f: "f \<in> set (fl_loaded l)" "lf_content f \<noteq> None" by blast+
  then obtain bytes where bytes: "lf_content f = Some bytes" "bytes \<noteq> []" "contents f = bytes"
    using ok by (auto simp: loader_ok_def loaded_ok_def list_all_iff contents_def)
  let ?new = "\<lparr>module_file_name = lf_name f, module_file_bytes = bytes\<rparr>"
  obtain files where files: "property_value (fl_current l) = Some files"
      "list_all2 (arriving (fl_readers l)) (fl_loaded l) files"
    using ok by (auto simp: loader_ok_def)
  have names: "map module_file_name files = map lf_name (fl_loaded l)"
    using files(2) by (induction rule: list_all2_induct) (simp_all add: arriving_def)
  have dist: "distinct (map lf_name (fl_loaded l))" using ok by (simp add: loader_ok_def loaded_ok_def)
  let ?i = "js_find_index (\<lambda>current. module_file_name current = lf_name f) files"
  have "lf_name f \<in> set (map module_file_name files)" unfolding names using f(1) by simp
  then have found: "?i \<noteq> -1" by (auto simp: js_find_index_none)
  have "add_file ?new ?l = set_current_files (map (\<lambda>m. if module_file_name m = lf_name f then ?new else m) files) ?l"
    using found f(1) dist
    by (auto simp: add_file_def without_reader_def loader_files_def files(1) replace_at_key [of module_file_name] names)
  moreover have "list_all2 (arriving ?readers) (fl_loaded l)
      (map (\<lambda>m. if module_file_name m = lf_name f then ?new else m) files)"
  proof (rule list_all2_replace [OF files(2)])
    fix g m assume g: "g \<in> set (fl_loaded l)" and m: "arriving (fl_readers l) g m"
    show "arriving ?readers g (if module_file_name m = lf_name f then ?new else m)"
    proof (cases "g = f")
      case True
      with m bytes(3) show ?thesis by (simp add: arriving_def)
    next
      case False
      with g f(1) dist have "lf_name g \<noteq> lf_name f" by (auto simp: distinct_map inj_on_def)
      with m False i show ?thesis using remaining_readers [of g "fl_readers l" i] by (auto simp: arriving_def)
    qed
  qed
  moreover have "set ?readers \<subseteq> set (fl_readers l)" by (auto dest: in_set_takeD in_set_dropD)
  ultimately show ?thesis
    using ok bytes by (auto simp: loader_ok_def loaded_ok_def reader_ended_def without_reader_def)
qed

text \<open>
  A calm operation: a file is put in once and is not empty, nothing is removed or replaced while its reader is under
  way, and readers give the content of their file.
\<close>

fun calm :: "'c loader_op \<Rightarrow> 'c file_loader \<Rightarrow> bool" where
  "calm (New_file None error) l = True"
| "calm (New_file (Some f) error) l =
     (f \<notin> set (fl_loaded l) \<and> lf_content f \<noteq> Some [] \<and> lf_name f \<notin> lf_name ` set (fl_readers l))"
| "calm (Remove_file None) l = True"
| "calm (Remove_file (Some f)) l = (lf_name f \<notin> lf_name ` set (fl_readers l))"
| "calm Clear_files l = (fl_readers l = [])"
| "calm (Read_ended i outcome) l = (case js_at (fl_readers l) i of None \<Rightarrow> True | Some f \<Rightarrow> outcome = lf_content f)"
| "calm (On_files action) l = True"

fun calm_run :: "'c loader_op list \<Rightarrow> 'c file_loader \<Rightarrow> bool" where
  "calm_run [] l = True"
| "calm_run (op # ops) l = (calm op l \<and> calm_run ops (fst (loader_step op l)))"

lemma replaced_names:
  fixes f :: loader_file
  assumes "distinct (map lf_name fs)"
  defines "i \<equiv> js_find_index (\<lambda>current. lf_name current = lf_name f) fs"
  shows "distinct (map lf_name (if i = -1 then fs @ [f] else fs[nat i := f]))"
    and "g \<in> set fs \<Longrightarrow> lf_name g \<noteq> lf_name f \<Longrightarrow> g \<in> set (if i = -1 then fs @ [f] else fs[nat i := f])"
    and "set (if i = -1 then fs @ [f] else fs[nat i := f]) \<subseteq> insert f (set fs)"
proof -
  have at: "fs[nat i := f] = map (\<lambda>x. if lf_name x = lf_name f then f else x) fs" if "i \<noteq> -1"
    using replace_at_key [of lf_name fs "lf_name f" f] assms that by simp
  have "map lf_name (fs[nat i := f]) = map lf_name fs" if "i \<noteq> -1"
    by (simp add: at [OF that])
  moreover have "lf_name f \<notin> set (map lf_name fs)" if "i = -1"
    using that by (auto simp: i_def js_find_index_none)
  ultimately show "distinct (map lf_name (if i = -1 then fs @ [f] else fs[nat i := f]))"
    using assms(1) by simp
  show "g \<in> set (if i = -1 then fs @ [f] else fs[nat i := f])" if "g \<in> set fs" "lf_name g \<noteq> lf_name f"
    using that by (cases "i = -1") (auto simp: at image_iff)
  show "set (if i = -1 then fs @ [f] else fs[nat i := f]) \<subseteq> insert f (set fs)"
    by (cases "i = -1") (auto simp: at)
qed

lemma loaded_ok_change:
  "loaded_ok l \<Longrightarrow> distinct (map lf_name fs) \<Longrightarrow> list_all (\<lambda>g. lf_content g \<noteq> Some []) fs \<Longrightarrow>
   set (fl_readers l) \<subseteq> {g \<in> set fs. lf_content g \<noteq> None} \<Longrightarrow> loaded_ok (l\<lparr>fl_loaded := fs\<rparr>)"
  by (simp add: loaded_ok_def)

lemma attach_file_ok:
  assumes ok: "loader_ok l" and f: "f \<notin> set (fl_loaded l)" "lf_content f \<noteq> Some []" "lf_name f \<notin> lf_name ` set (fl_readers l)"
  shows "loader_ok (fst (attach_file (Some f) error l))"
proof -
  have same: "filter (\<lambda>current. current \<noteq> f) (fl_loaded l) = fl_loaded l"
    using f(1) by (intro filter_True) auto
  let ?i = "js_find_index (\<lambda>current. lf_name current = lf_name f) (fl_loaded l)"
  let ?fs = "if ?i = -1 then fl_loaded l @ [f] else (fl_loaded l)[nat ?i := f]"
  have l: "loaded_ok l" using ok by (simp add: loader_ok_def)
  then have dist: "distinct (map lf_name (fl_loaded l))" by (simp add: loaded_ok_def)
  note names = replaced_names [OF dist, where f = f]
  have "set (fl_readers l) \<subseteq> {g \<in> set ?fs. lf_content g \<noteq> None}"
  proof
    fix g assume g: "g \<in> set (fl_readers l)"
    then have "g \<in> set (fl_loaded l)" "lf_content g \<noteq> None" using l by (auto simp: loaded_ok_def)
    moreover have "lf_name g \<noteq> lf_name f" using imageI [OF g, of lf_name] f(3) by auto
    ultimately show "g \<in> {g \<in> set ?fs. lf_content g \<noteq> None}" using names(2) by blast
  qed
  moreover have "list_all (\<lambda>g. lf_content g \<noteq> Some []) ?fs"
    using names(3) l f(2) unfolding loaded_ok_def list_all_iff by blast
  ultimately have "loaded_ok (l\<lparr>fl_loaded := ?fs\<rparr>)"
    by (rule loaded_ok_change [OF l names(1) _ _, rotated])
  from update_files_ok [OF this] ok show ?thesis by (simp add: attach_file_def same Let_def split_beta)
qed

lemma before_remove_file_ok:
  assumes ok: "loader_ok l" and f: "lf_name f \<notin> lf_name ` set (fl_readers l)"
  shows "loader_ok (fst (before_remove_file (Some f) l))"
proof -
  have "lf_name g \<noteq> lf_name f" if "g \<in> set (fl_readers l)" for g using imageI [OF that, of lf_name] f by auto
  with ok have "loaded_ok (l\<lparr>fl_loaded := filter (\<lambda>current. lf_name current \<noteq> lf_name f) (fl_loaded l)\<rparr>)"
    by (auto simp: loader_ok_def loaded_ok_def distinct_map_filter list_all_iff)
  from update_files_ok [OF this] show ?thesis by (simp add: before_remove_file_def split_beta)
qed

lemma loader_step_ok: "loader_ok l \<Longrightarrow> calm op l \<Longrightarrow> loader_ok (fst (loader_step op l))"
proof (induction op l rule: calm.induct)
  case (1 error l)
  then show ?case by (simp add: on_new_file_def attach_file_def Let_def loader_ok_def loaded_ok_def)
next
  case (2 f error l)
  let ?l = "l\<lparr>fl_counted := fl_counted l + 1\<rparr>"
  have "loader_ok (fst (attach_file (Some f) error (l\<lparr>fl_counted := n, fl_ready := True\<rparr>)))" for n
    using 2 by (intro attach_file_ok) (simp_all add: loader_ok_def loaded_ok_def)
  moreover have "loader_ok ?l" using 2 by (simp add: loader_ok_def loaded_ok_def)
  ultimately show ?case using 2 attach_file_ok [of l f error] by (simp add: on_new_file_def Let_def)
next
  case (4 f l)
  then show ?case by (simp add: before_remove_file_ok)
next
  case (5 l)
  then show ?case by (simp add: clear_files_def split_beta loader_ok_def loaded_ok_def)
next
  case (6 i outcome l)
  then show ?case using reader_ended_ok [of l i "fl_readers l ! i"] by (auto simp: js_at_def)
next
  case (7 action l)
  then show ?case
    by (simp add: on_files_changed_def split_beta loader_ok_def loaded_ok_def property_consume_def)
qed (simp_all add: before_remove_file_def)

text \<open>
  C38. Files arrive whole, in whatever order their readers end: once no reader is under way, the form has exactly
  the files that are shown, each with its content (the files that the form was opened with have none, which asks to
  keep them). This holds in a calm run: the form was opened with distinct names; a file that is put in is not one that
  is shown already (the same object), is not empty, and has not the name of a file that is being read; no file is removed while a
  file of that name is read, nor are all cleared while any is read; and every reader succeeds, with the content of its
  file. Outside of it files do lose their content, or come back.
\<close>
theorem files_arrive:
  assumes names: "distinct (case defaults of None \<Rightarrow> [] | Some ns \<Rightarrow> ns)"
    and run: "calm_run ops (new_file_loader defaults max_size)"
    and rest: "fl_readers (fst (emit_run loader_step ops (new_file_loader defaults max_size))) = []"
  shows "let l = fst (emit_run loader_step ops (new_file_loader defaults max_size))
    in loader_files l = map (\<lambda>f. \<lparr>module_file_name = lf_name f, module_file_bytes = contents f\<rparr>) (fl_loaded l)"
proof -
  have step: "loader_ok (fst (emit_run loader_step ops l))" if "loader_ok l" "calm_run ops l" for l
    using that by (induction ops arbitrary: l) (simp_all add: loader_step_ok)
  have "list_all2 (arriving []) (map local_file ns) (map without_bytes (map local_file ns))" for ns
    by (induction ns) (simp_all add: arriving_def without_bytes_def local_file_def contents_def)
  then have "loader_ok (new_file_loader defaults max_size)"
    using names
    by (auto simp: loader_ok_def loaded_ok_def new_file_loader_def Let_def new_property_def list_all_iff
        local_file_def comp_def split: option.splits)
  from step [OF this run] rest show ?thesis
    by (auto simp: loader_ok_def Let_def loader_files_def arriving_def list_all2_conv_all_nth intro!: nth_equalityI)
qed

theorem files_arrive_witness:
  "let ops = [New_file (Some \<lparr>lf_object = 1, lf_name = ''a'', lf_size = Some 2, lf_content = Some [1, 2]\<rparr>) False,
        New_file (Some \<lparr>lf_object = 2, lf_name = ''b'', lf_size = Some 1, lf_content = Some [3]\<rparr>) False,
        Read_ended 2 (Some [3]), Read_ended 1 (Some [1, 2]), Read_ended 0 (Some [1, 2])];
      l = fst (emit_run loader_step ops (new_file_loader None 100 :: nat file_loader))
    in loader_files l = map (\<lambda>f. \<lparr>module_file_name = lf_name f, module_file_bytes = contents f\<rparr>) (fl_loaded l) \<and>
       fl_loaded l \<noteq> []"
proof -
  let ?a = "\<lparr>lf_object = 1, lf_name = ''a'', lf_size = Some 2, lf_content = Some [1, 2]\<rparr>"
  let ?b = "\<lparr>lf_object = 2, lf_name = ''b'', lf_size = Some 1, lf_content = Some [3]\<rparr>"
  let ?ops = "[New_file (Some ?a) False, New_file (Some ?b) False,
        Read_ended 2 (Some [3]), Read_ended 1 (Some [1, 2]), Read_ended 0 (Some [1, 2])]"
  note defs = new_file_loader_def on_new_file_def attach_file_def update_files_def set_current_files_def new_property_def
    property_set_def prevented_def notify_updated_def without_bytes_def js_at_def reader_ended_def without_reader_def
    add_file_def loader_files_def
  have run: "calm_run ?ops (new_file_loader None 100 :: nat file_loader)"
    and rest: "fl_readers (fst (emit_run loader_step ?ops (new_file_loader None 100 :: nat file_loader))) = []"
    and files: "fl_loaded (fst (emit_run loader_step ?ops (new_file_loader None 100 :: nat file_loader))) = [?a, ?b]"
    by (simp_all add: defs)
  from files_arrive [OF _ run rest] show ?thesis unfolding Let_def files by (simp only: option.case distinct.simps) simp
qed

lemma update_files_reads:
  assumes "before_update_consumers (fl_current l) = []"
  shows "loader_files (fst (update_files l)) = map without_bytes (fl_loaded l)"
    and "fl_loaded (fst (update_files l)) = fl_loaded l"
    and "\<exists>more_readers. fl_readers (fst (update_files l)) = fl_readers l @ more_readers"
    and "before_update_consumers (fl_current (fst (update_files l))) = []"
  using assms by (simp_all add: update_files_def split_beta loader_files_def)

text \<open>
  A file that is removed while it is read comes back: its reader is not stopped, and when it ends the form sends a
  file that it does not show.
\<close>
theorem removed_file_returns:
  assumes reader: "js_at (fl_readers l) i = Some f" and bytes: "bytes \<noteq> []"
    and free: "before_update_consumers (fl_current l) = []"
  shows "let l' = fst (emit_run loader_step [Remove_file (Some f), Read_ended i (Some bytes)] l)
    in \<lparr>module_file_name = lf_name f, module_file_bytes = bytes\<rparr> \<in> set (loader_files l') \<and>
       lf_name f \<notin> lf_name ` set (fl_loaded l')"
proof -
  let ?l = "l\<lparr>fl_loaded := filter (\<lambda>current. lf_name current \<noteq> lf_name f) (fl_loaded l)\<rparr>"
  let ?l1 = "fst (before_remove_file (Some f) l)"
  have free1: "before_update_consumers (fl_current ?l) = []" using free by simp
  have l1: "?l1 = fst (update_files ?l)" by (simp add: before_remove_file_def split_beta)
  note reads = update_files_reads [OF free1, folded l1]
  have "js_at (fl_readers ?l1) i = Some f"
    using reads(3) reader by (auto simp: js_at_def nth_append split: if_splits)
  then have run: "fst (emit_run loader_step [Remove_file (Some f), Read_ended i (Some bytes)] l) =
      fst (add_file \<lparr>module_file_name = lf_name f, module_file_bytes = bytes\<rparr> (without_reader i ?l1))"
    using bytes by (simp add: reader_ended_def)
  have "js_find_index (\<lambda>current. module_file_name current = lf_name f) (loader_files ?l1) = -1"
    unfolding reads(1) js_find_index_none by (auto simp: without_bytes_def)
  moreover have "loader_files (without_reader i ?l1) = loader_files ?l1"
    by (simp add: loader_files_def without_reader_def)
  moreover have "lf_name f \<notin> lf_name ` set (fl_loaded ?l1)" unfolding reads(2) by auto
  ultimately show ?thesis
    unfolding run Let_def using reads(4)
    by (simp add: add_file_def loader_files_def without_reader_def)
qed

theorem removed_file_returns_witness:
  "let f = \<lparr>lf_object = 1, lf_name = ''a'', lf_size = Some 2, lf_content = Some [1, 2]\<rparr>;
      l = fst (emit_run loader_step [New_file (Some f) False] (new_file_loader None 100 :: nat file_loader));
      l' = fst (emit_run loader_step [Remove_file (Some f), Read_ended 0 (Some [1, 2])] l)
    in \<lparr>module_file_name = lf_name f, module_file_bytes = [1, 2]\<rparr> \<in> set (loader_files l') \<and>
       lf_name f \<notin> lf_name ` set (fl_loaded l')"
  unfolding Let_def
  by (rule removed_file_returns [unfolded Let_def])
    (simp_all add: new_file_loader_def on_new_file_def attach_file_def update_files_def set_current_files_def
      new_property_def property_set_def prevented_def js_at_def)

text \<open>
  A file that takes the place of one of the same name may lose its content to it: the content of the reader that
  ends last stays, also when it is the reader of the file that was replaced.
\<close>
theorem replaced_content_returns:
  "let old = \<lparr>lf_object = 1, lf_name = ''a'', lf_size = Some 1, lf_content = Some [1]\<rparr>;
      new = \<lparr>lf_object = 2, lf_name = ''a'', lf_size = Some 1, lf_content = Some [2]\<rparr>;
      l = fst (emit_run loader_step [New_file (Some old) False, New_file (Some new) False,
        Read_ended 1 (Some [2]), Read_ended 0 (Some [1])] (new_file_loader None 100 :: nat file_loader))
    in fl_loaded l = [new] \<and> fl_readers l = [] \<and>
       loader_files l = [\<lparr>module_file_name = ''a'', module_file_bytes = [1]\<rparr>]"
  by code_simp

end
