(* ===== verification/Item_Readings.thy ===== *)
theory Item_Readings
  imports Platform_Collections
begin

text \<open>
  What the items of a managed collection say, through everything that the collection does to them: locking, marking
  doubles and validating change how an item looks, never what is read from it.
\<close>

locale item_reading =
  fixes k :: "('w, 'v) item_functions" and reading :: "'w \<Rightarrow> 'r"
  assumes reading_disable: "reading (disable_handler k b w) = reading w"
    and reading_duplicate: "reading (duplicate_handler k b w) = reading w"
begin

definition readings :: "('w, 'u) collection \<Rightarrow> (int \<times> 'r) list" where
  "readings c = map (\<lambda>(i, w). (i, reading w)) (collection_items c)"

lemma readings_update:
  "(\<And>w. (i, w) \<in> set (collection_items c) \<Longrightarrow> reading (f w) = reading w) \<Longrightarrow> readings (update_item i f c) = readings c"
  by (auto simp: readings_def split_beta)

lemma readings_addition [simp]: "readings (fst (set_addition_disabled b c)) = readings c"
  by (simp add: readings_def)

lemma readings_handlers [simp]: "readings (run_disable_handlers k d c) = readings c"
proof -
  have "readings (fold (\<lambda>i. update_item i (disable_handler k (d i))) hs c) = readings c" for hs
    by (induction hs arbitrary: c) (simp_all add: readings_update reading_disable reading_duplicate)
  then show ?thesis by (simp add: run_disable_handlers_def)
qed

lemma readings_editing [simp]:
  "readings (fst (disable_editing_except k e c)) = readings c"
  "readings (fst (enable_editing k c)) = readings c"
proof -
  have "readings (c\<lparr>editing_disabled := p\<rparr>) = readings c" for p by (simp add: readings_def)
  then show "readings (fst (disable_editing_except k e c)) = readings c"
    "readings (fst (enable_editing k c)) = readings c"
    by (simp_all add: disable_editing_except_def enable_editing_def Let_def split_beta)
qed

lemma readings_lock [simp]: "readings (fst (lock_except k e c)) = readings c"
  by (simp add: lock_except_def split_beta)

lemma readings_validate [simp]: "readings (fst (validate_items_except k e c)) = readings c"
  by (simp add: validate_items_except_def Let_def split_beta readings_update reading_disable reading_duplicate split: option.split scan.split)

lemma readings_add:
  fixes c :: "('w, 'u) collection"
  shows "readings (fst (add_item k i w c)) = readings c @ [(i, reading w)]"
proof -
  have "readings (c\<lparr>collection_items := collection_items c @ [(i, w)], last_item := l\<rparr>) = readings c @ [(i, reading w)]" for l
    by (simp add: readings_def)
  moreover have "readings (c\<lparr>editing_handlers := hs\<rparr>) = readings c" for c :: "('w, 'u) collection" and hs
    by (simp add: readings_def)
  ultimately show ?thesis
    by (simp add: add_item_def Let_def split_beta readings_update reading_disable reading_duplicate split: option.split)
qed

lemma readings_add_new:
  "readings (fst (add_new_item k factory c)) = readings c @ [(item_sequence c, reading (factory (item_sequence c)))]"
proof -
  have "readings (c\<lparr>item_sequence := n\<rparr>) = readings c" for n by (simp add: readings_def)
  then show ?thesis by (simp add: add_new_item_def readings_add Let_def)
qed

lemma readings_delete:
  fixes c :: "('w, 'u) collection"
  shows "readings (fst (delete_item k i c)) = filter (\<lambda>(j, r). j \<noteq> i) (readings c)"
proof -
  let ?c = "fst (if editing_exclusion (fst (set_addition_disabled False c)) = Some i
      then enable_editing k (fst (set_addition_disabled False c)) else (fst (set_addition_disabled False c), []))"
  have same: "readings ?c = readings c" by simp
  show ?thesis
  proof (cases "find_item i ?c")
    case None
    then have "i \<notin> fst ` set (readings c)"
      unfolding same [symmetric] by (auto simp: find_item_def readings_def map_of_eq_None_iff image_iff)
    then have "filter (\<lambda>(j, r). j \<noteq> i) (readings c) = readings c" by (intro filter_True) (auto simp: image_iff)
    with None same show ?thesis by (simp add: delete_item_def Let_def split_beta)
  next
    case (Some w)
    have "map (\<lambda>(i, w). (i, reading w)) (filter (\<lambda>(j, w). j \<noteq> i) xs) =
        filter (\<lambda>(j, r). j \<noteq> i) (map (\<lambda>(i, w). (i, reading w)) xs)" for xs
      by (induction xs) auto
    then have "readings (d\<lparr>collection_items := filter (\<lambda>(j, w). j \<noteq> i) (collection_items d), last_item := l\<rparr>) =
        filter (\<lambda>(j, r). j \<noteq> i) (readings d)" for d :: "('w, 'u) collection" and l
      by (simp add: readings_def)
    with Some same show ?thesis by (simp add: delete_item_def Let_def split_beta)
  qed
qed

lemma readings_change:
  assumes "find_item i c = Some w" and "\<And>v. (i, v) \<in> set (collection_items c) \<Longrightarrow> reading (fst (edit v)) = reading v"
  shows "readings (fst (change_item k i edit c)) = readings c"
  using assms by (simp add: change_item_def Let_def readings_update reading_disable reading_duplicate)

lemma readings_new:
  "readings (new_collection k factory ids :: ('w, 'u) collection) = map (\<lambda>i. (i, reading (factory i))) ids"
proof -
  have "readings (fold (\<lambda>i c. fst (add_item k i (factory i) c)) ids c) = readings c @ map (\<lambda>i. (i, reading (factory i))) ids"
    for c :: "('w, 'u) collection"
    by (induction ids arbitrary: c) (simp_all add: readings_add)
  from this [of "empty_collection ids"] show ?thesis
    by (simp add: new_collection_def) (simp add: readings_def empty_collection_def)
qed

lemma readings_widgets: "map snd (readings c) = map reading (collection_widgets c)"
  by (simp add: readings_def collection_widgets_def split_beta)

lemma widgets_read: "readings c = readings c' \<Longrightarrow> map reading (collection_widgets c) = map reading (collection_widgets c')"
  by (metis readings_widgets)

end

text \<open>
  Read as nothing, the items are their identifiers. They stay distinct: those that come are new.
\<close>

interpretation item_ids: item_reading k "\<lambda>_. ()" for k
  by unfold_locales simp_all

definition ids_ok :: "('w, 'u) collection \<Rightarrow> bool" where
  "ids_ok c \<longleftrightarrow>
     distinct (map fst (collection_items c)) \<and> list_all (\<lambda>i. i < item_sequence c) (map fst (collection_items c))"

lemma ids_okI:
  "map fst (collection_items c) = ids \<Longrightarrow> item_sequence c = n \<Longrightarrow> distinct ids \<Longrightarrow> list_all (\<lambda>i. i < n) ids \<Longrightarrow>
   ids_ok c"
  by (simp add: ids_ok_def)

lemma ids_okD: "ids_ok c \<Longrightarrow> list_all (\<lambda>i. i < item_sequence c) (map fst (collection_items c))"
  "ids_ok c \<Longrightarrow> distinct (map fst (collection_items c))"
  by (simp_all add: ids_ok_def)

lemma ids_read: "map fst (collection_items c) = map fst (item_reading.readings (\<lambda>_. ()) c)"
  by (simp add: item_ids.readings_def split_beta comp_def)

lemma sequence_handlers [simp]: "item_sequence (run_disable_handlers k d c) = item_sequence c"
proof -
  have "item_sequence (fold (\<lambda>i. update_item i (disable_handler k (d i))) hs c) = item_sequence c" for hs
    by (induction hs arbitrary: c) simp_all
  then show ?thesis by (simp add: run_disable_handlers_def)
qed

lemma sequence_lock [simp]: "item_sequence (fst (lock_except k e c)) = item_sequence c"
  by (simp add: lock_except_def disable_editing_except_def Let_def split_beta)

lemma sequence_validate [simp]: "item_sequence (fst (validate_items_except k e c)) = item_sequence c"
  by (simp add: validate_items_except_state split: option.split scan.split)

lemma sequence_steps [simp]:
  fixes c :: "('w, 'u) collection"
  shows "item_sequence (fst (add_item k i w c)) = item_sequence c"
    and "item_sequence (fst (delete_item k i c)) = item_sequence c"
    and "item_sequence (fst (change_item k i edit c)) = item_sequence c"
    and "item_sequence (fst (clear_collection k c)) = item_sequence c"
  by (simp_all add: add_item_def delete_item_def change_item_def clear_collection_def Let_def split_beta
      split: option.split)

lemma ids_ok_act:
  fixes c :: "('w, 'u) collection"
  assumes ok: "ids_ok c"
  shows "ids_ok (collection_act k factory disabled edit act c)"
proof (cases act)
  case Press_add
  have sequence: "item_sequence (fst (add_new_item k factory c)) = item_sequence c + 1"
    by (simp add: add_new_item_def Let_def)
  have ids: "map fst (collection_items (fst (add_new_item k factory c))) =
      map fst (collection_items c) @ [item_sequence c]"
    by (simp add: ids_read item_ids.readings_add_new)
  have "ids_ok (fst (add_new_item k factory c))"
    using ids sequence by (rule ids_okI) (use ids_okD [OF ok] in \<open>auto simp: list_all_iff\<close>)
  with Press_add ok show ?thesis by simp
next
  case (Press_delete i)
  have "map fst (filter (\<lambda>(j, r). j \<noteq> i) xs) = filter (\<lambda>j. j \<noteq> i) (map fst xs)" for xs :: "(int \<times> unit) list"
    by (induction xs) auto
  then have "map fst (collection_items (fst (delete_item k i c))) = filter (\<lambda>j. j \<noteq> i) (map fst (collection_items c))"
    by (simp add: ids_read item_ids.readings_delete)
  then have "ids_ok (fst (delete_item k i c))"
    by (rule ids_okI [OF _ sequence_steps(2)]) (use ids_okD [OF ok] in \<open>auto simp: list_all_iff\<close>)
  with Press_delete ok show ?thesis by simp
next
  case (Edit_item i e)
  have "map fst (collection_items (fst (change_item k i (edit e) c))) = map fst (collection_items c)"
    by (cases "find_item i c") (simp_all add: ids_read item_ids.readings_change, simp add: change_item_def)
  then have "ids_ok (fst (change_item k i (edit e) c))"
    by (rule ids_okI [OF _ sequence_steps(3) ids_okD(2) [OF ok] ids_okD(1) [OF ok]])
  with Edit_item ok show ?thesis by (simp split: option.split)
next
  case Clear_items
  then show ?thesis using ok by (simp add: ids_ok_def) (simp add: clear_collection_def Let_def split_beta)
qed

lemma ids_ok_new:
  assumes "distinct ids" and "\<And>i. i \<in> set ids \<Longrightarrow> i < first_free_id ids"
  shows "ids_ok (new_collection k factory ids :: ('w, 'u) collection)"
proof -
  have "item_sequence (fold (\<lambda>i c. fst (add_item k i (factory i) c)) is c) = item_sequence c"
    for c :: "('w, 'u) collection" and "is"
    by (induction "is" arbitrary: c) simp_all
  then have "item_sequence (new_collection k factory ids :: ('w, 'u) collection) = first_free_id ids"
    by (simp add: new_collection_def empty_collection_def)
  moreover have "map fst (collection_items (new_collection k factory ids :: ('w, 'u) collection)) = ids"
    by (simp add: ids_read item_ids.readings_new comp_def)
  ultimately show ?thesis using assms by (simp add: ids_ok_def list_all_iff)
qed

text \<open>
  What an action tells is read: unless an item comes or goes or an edit changes what it says, everything reads
  as before.
\<close>

definition act_changes ::
  "('w \<Rightarrow> bool) \<Rightarrow> ('e \<Rightarrow> 'w \<Rightarrow> bool) \<Rightarrow> 'e item_action \<Rightarrow> ('w, 'u) collection \<Rightarrow> bool" where
  "act_changes disabled edits act c \<longleftrightarrow>
     (case act of
        Press_add \<Rightarrow> \<not> is_addition_disabled c
      | Press_delete i \<Rightarrow> \<not> delete_icon_disabled i c \<and> find_item i c \<noteq> None
      | Edit_item i e \<Rightarrow> (case find_item i c of None \<Rightarrow> False | Some w \<Rightarrow> \<not> disabled w \<and> edits e w)
      | Clear_items \<Rightarrow> True)"

context item_reading begin

lemma act_silent:
  fixes c :: "('w, 'u) collection"
  assumes ok: "ids_ok c" and silent: "\<not> act_changes disabled edits act c"
    and edits: "\<And>e w. \<not> edits e w \<Longrightarrow> reading (fst (edit e w)) = reading w"
  shows "readings (collection_act k factory disabled edit act c) = readings c"
proof (cases act)
  case (Press_delete i)
  have "readings (fst (delete_item k i c)) = readings c" if "find_item i c = None"
  proof -
    have "i \<notin> fst ` set (readings c)"
      using that by (auto simp: find_item_def readings_def map_of_eq_None_iff image_iff)
    then have "filter (\<lambda>(j, r). j \<noteq> i) (readings c) = readings c" by (intro filter_True) (auto simp: image_iff)
    then show ?thesis by (simp add: readings_delete)
  qed
  with Press_delete silent show ?thesis by (auto simp: act_changes_def)
next
  case (Edit_item i e)
  show ?thesis
  proof (cases "find_item i c")
    case (Some w)
    have "v = w" if "(i, v) \<in> set (collection_items c)" for v
      using that Some ok by (simp add: ids_ok_def find_item_def)
    with Some Edit_item silent edits [of e w] show ?thesis
      by (auto simp: act_changes_def intro!: readings_change)
  qed (use Edit_item in simp)
qed (use silent in \<open>simp_all add: act_changes_def\<close>)

end

text \<open>The number or text of a port, and the name and text of a file.\<close>

definition port_reading :: "'u port_item \<Rightarrow> int option \<times> string option" where
  "port_reading p = (port_number p, property_value (field_text (port_field p)))"

definition file_reading :: "'u file_item \<Rightarrow> string option \<times> string option" where
  "file_reading p = (property_value (field_text (file_name p)), property_value (editor_text (file_content p)))"

interpretation port_readings: item_reading "port_functions message" port_reading for message
  by unfold_locales (simp_all add: port_functions_def port_reading_def)

interpretation file_readings: item_reading "file_functions message" file_reading for message
  by unfold_locales (simp_all add: file_functions_def file_reading_def editor_set_read_only_def)

end
