(* ===== verification/Module_Configurators.thy ===== *)
theory Module_Configurators
  imports Managed_Panels File_Loaders Item_Readings Selectors Grids Services Validators
begin

text \<open>
  The configurator of a module, \<open>component/embeddable/module/configurator/ModuleConfigurator.ts\<close> and its parts
  \<open>Module{Name,Resource,Count,Parameters,Ports,Url,ConfigurationFiles,AdditionalFiles}Configurator\<close> and
  \<open>ProbeConfigurator\<close>, with \<open>component/embeddable/module/application/ModuleApplicationsCollection.tsx\<close>: the widgets
  that a user edits, and the configuration that they make up. The panels, fields, collections and the loader of files
  are those of their own theories. An operation returns the configurator and whether it calls the action registered
  by \<open>onChange\<close>; where it calls the action more than once, the last call is made when everything else is done, but for
  the deletion of an application, which calls it before the card goes.
\<close>

section \<open>Texts\<close>

text \<open>\<open>toString\<close> of a number and \<open>Number\<close> of a text of digits.\<close>

fun digits_of :: "nat \<Rightarrow> string" where
  "digits_of n = (if n < 10 then [char_of (48 + n)] else digits_of (n div 10) @ [char_of (48 + n mod 10)])"

declare digits_of.simps [simp del]

definition number_text :: "int \<Rightarrow> string" where
  "number_text n = digits_of (nat n)"

definition text_number :: "string \<Rightarrow> int" where
  "text_number s = int (decimal (codes s))"

definition lower_char :: "char \<Rightarrow> char" where
  "lower_char c =
     (let n = (of_char c :: nat)
      in if 65 \<le> n \<and> n \<le> 90 \<or> 192 \<le> n \<and> n \<le> 222 \<and> n \<noteq> 215 then char_of (n + 32) else c)"

definition to_lower_case :: "string \<Rightarrow> string" where
  "to_lower_case s = map lower_char s"

section \<open>The configurator\<close>

datatype part = Parameters_part | Ports_part | Url_part | Probe_part | Files_part | Additional_part

record module_configurator =
  cf_artifact :: assembled_artifact
  cf_base_name :: "string option"
  cf_module_names :: "string list"
  cf_available :: "prepared_configuration_identifier list"
  cf_name :: "unit text_field option"
  cf_resource :: "(resource_identifier, unit) selector"
  cf_count :: "unit text_field"
  cf_parameters :: "unit text_field"
  cf_ports :: "(unit port_item, unit) collection"
  cf_url :: "unit text_field"
  cf_port :: "unit text_field"
  cf_path :: "unit text_field"
  cf_liveness :: "unit toggle"
  cf_readiness :: "unit toggle"
  cf_prepared :: "(int, prepared_configuration_identifier, unit) grid"
  cf_manual :: "(unit file_item, unit) collection"
  cf_additional :: "unit file_loader"
  cf_applications :: "(string, module_application, unit) grid"
  cf_panels :: "part \<Rightarrow> unit panel"

text \<open>The error messages, Russian texts, are left out.\<close>

definition ports_of :: "int list \<Rightarrow> (unit port_item, unit) collection" where
  "ports_of ports = ports_collection [] ports"

definition manual_of :: "(string \<times> string) list \<Rightarrow> (unit file_item, unit) collection" where
  "manual_of files =
     file_collection [] (map_option matches (CONFIG_FILE_NAME_REGEX CONFIGURATION_FILE_FORMATS)) None (Some []) None None files"

definition resource_item :: "resource_identifier \<Rightarrow> resource_identifier selector_item" where
  "resource_item i = \<lparr>item_value = i, item_suggestion = rid_name i\<rparr>"

definition default_name :: "assembled_artifact \<Rightarrow> string" where
  "default_name a = artifact_name a @ ''-'' @ artifact_version a"

definition name_or :: "string option \<Rightarrow> string \<Rightarrow> string" where
  "name_or name other = (case name of None \<Rightarrow> other | Some n \<Rightarrow> if n = [] then other else n)"

text \<open>\<open>#validate\<close> of the name: a name that another module has is an error, beside the field's own.\<close>

definition validate_name :: "string list \<Rightarrow> string \<Rightarrow> 'u text_field \<Rightarrow> 'u text_field" where
  "validate_name names name f =
     (if name \<in> set names then fst (field_set_error \<lparr>error_shown = True, error_text = Some []\<rparr> f) else f)"

definition plain_text :: "string option \<Rightarrow> (string \<Rightarrow> bool) option \<Rightarrow> (string \<Rightarrow> bool) option \<Rightarrow> 'u text_field" where
  "plain_text v regexp masking = new_text_field v False False regexp masking None None"

definition name_field :: "string list \<Rightarrow> string \<Rightarrow> 'u text_field" where
  "name_field names name = validate_name names name (plain_text (Some name) None None)"

definition count_field :: "int option \<Rightarrow> 'u text_field" where
  "count_field initial =
     field_prevent no_leading_zero (plain_text
       (Some (number_text (case initial of None \<Rightarrow> MODULE_MIN_COUNT | Some n \<Rightarrow> n)))
       (Some (matches POSITIVE_NUMBER_REGEX)) (Some (matches POSITIVE_NUMBER_REGEX)))"

definition url_port_field :: "int option \<Rightarrow> 'u text_field" where
  "url_port_field port =
     field_prevent no_leading_zero (plain_text
       (Some (case port of None \<Rightarrow> DEFAULT_PORT | Some n \<Rightarrow> if n = 0 then DEFAULT_PORT else number_text n))
       (Some (matches PORT_REGEX)) (Some (matches PORT_REGEX)))"

definition url_text :: "module_url option \<Rightarrow> string option" where
  "url_text url = Option.bind url url_url"

definition probe_text :: "probe_configuration option \<Rightarrow> string option" where
  "probe_text probe = Option.bind probe probe_path"

definition checked_panel :: "bool \<Rightarrow> unit panel" where
  "checked_panel checked = fst (panel_on_check () (new_panel Checkbox_panel False (Some checked) None))"

definition truthy_array :: "'a list option \<Rightarrow> bool" where
  "truthy_array xs \<longleftrightarrow> (case xs of None \<Rightarrow> False | Some ys \<Rightarrow> ys \<noteq> [])"

fun new_panels :: "module_full option \<Rightarrow> probe_configuration option \<Rightarrow> part \<Rightarrow> unit panel" where
  "new_panels base probe Parameters_part =
     checked_panel (truthy_string (Option.bind base mod_parameters))"
| "new_panels base probe Ports_part = checked_panel (truthy_array (Option.bind base mod_ports))"
| "new_panels base probe Url_part = checked_panel (truthy_string (url_text (Option.bind base mod_url)))"
| "new_panels base probe Probe_part = checked_panel (truthy_string (probe_text probe))"
| "new_panels base probe Files_part =
     checked_panel (truthy_array (Option.bind base mod_manual_configurations) \<or>
       truthy_array (Option.bind base mod_prepared_configurations))"
| "new_panels base probe Additional_part = checked_panel (truthy_array (Option.bind base mod_additional_files))"

definition or_empty :: "'a list option \<Rightarrow> 'a list" where
  "or_empty xs = (case xs of None \<Rightarrow> [] | Some ys \<Rightarrow> ys)"

text \<open>
  The selector of resources cannot be made without resources. The applications of the base module are added later,
  by \<open>asynchronous\<close>.
\<close>

definition new_module_configurator ::
  "bool \<Rightarrow> module_full option \<Rightarrow> assembled_artifact \<Rightarrow> resource_identifier list \<Rightarrow> string list \<Rightarrow>
    prepared_configuration_identifier list \<Rightarrow> probe_configuration option \<Rightarrow> module_configurator option" where
  "new_module_configurator disable_name base artifact executors names available probe =
     map_option (\<lambda>resource.
       \<lparr>cf_artifact = artifact, cf_base_name = map_option mod_name base, cf_module_names = names,
        cf_available = available,
        cf_name = (if disable_name then None
          else Some (name_field names (name_or (map_option mod_name base) (default_name artifact)))),
        cf_resource = fst (selector_on_select () resource),
        cf_count = count_field (map_option mod_count base),
        cf_parameters = plain_text (Option.bind base mod_parameters) None None,
        cf_ports = ports_of (or_empty (Option.bind base mod_ports)),
        cf_url = plain_text (url_text (Option.bind base mod_url)) (Some (matches URL_REGEX)) None,
        cf_port = url_port_field (Option.bind (Option.bind base mod_url) url_port),
        cf_path = plain_text (probe_text probe) (Some (matches PATH_REGEX)) None,
        cf_liveness = new_toggle False (Option.bind probe probe_liveness_probe = Some True),
        cf_readiness = new_toggle False (Option.bind probe probe_readiness_probe = Some True),
        cf_prepared = fst (push_widgets pcid_id (or_empty (Option.bind base mod_prepared_configurations)) new_grid),
        cf_manual = manual_of (map (\<lambda>f. (string_file_name f, string_file_content f))
          (or_empty (Option.bind base mod_manual_configurations))),
        cf_additional = new_file_loader (map_option (map fid_name) (Option.bind base mod_additional_files))
          MAX_MODULES_FILE_SIZE_BYTES,
        cf_applications = new_grid, cf_panels = new_panels base probe\<rparr>)
       (new_selector (\<lambda>_. True) resource_item executors (Option.bind base mod_resource_id) False)"

section \<open>The configuration\<close>

definition port_number_of :: "'u port_item \<Rightarrow> int" where
  "port_number_of p = (case port_number p of Some n \<Rightarrow> n | None \<Rightarrow> text_number (text_of (port_field p)))"

definition configure_name :: "module_configurator \<Rightarrow> string" where
  "configure_name c =
     name_or (map_option text_of (cf_name c)) (name_or (cf_base_name c) (default_name (cf_artifact c)))"

definition configure_count :: "module_configurator \<Rightarrow> int" where
  "configure_count c =
     (let n = text_number (text_of (cf_count c)) in if n = 0 then MODULE_MIN_COUNT else n)"

definition configure_ports :: "module_configurator \<Rightarrow> int list" where
  "configure_ports c = map port_number_of (collection_widgets (cf_ports c))"

definition configure_url :: "module_configurator \<Rightarrow> module_url" where
  "configure_url c =
     \<lparr>url_url = Some (to_lower_case (text_of (cf_url c))), url_port = Some (text_number (text_of (cf_port c)))\<rparr>"

definition configure_manual :: "module_configurator \<Rightarrow> string_file list" where
  "configure_manual c =
     map (\<lambda>item. \<lparr>string_file_name = text_of (file_name item),
         string_file_content = (case property_value (editor_text (file_content item)) of None \<Rightarrow> [] | Some t \<Rightarrow> t)\<rparr>)
       (collection_widgets (cf_manual c))"

definition configure_prepared :: "module_configurator \<Rightarrow> prepared_configuration_identifier list" where
  "configure_prepared c =
     List.map_filter (\<lambda>key. find (\<lambda>i. pcid_id i = key) (cf_available c)) (keys_value (cf_prepared c))"

definition configure_probe :: "module_configurator \<Rightarrow> probe_configuration" where
  "configure_probe c =
     \<lparr>probe_path = Some (text_of (cf_path c)), probe_liveness_probe = Some (toggle_is_checked (cf_liveness c)),
      probe_readiness_probe = Some (toggle_is_checked (cf_readiness c))\<rparr>"

definition part_checked :: "part \<Rightarrow> module_configurator \<Rightarrow> bool" where
  "part_checked part c = panel_checked (cf_panels c part)"

definition configure :: "module_configurator \<Rightarrow> module_configuration_draft" where
  "configure c =
     \<lparr>draft_resource_id = the (selector_value (cf_resource c)), draft_artifact = cf_artifact c,
      draft_name = Some (configure_name c), draft_url = Some (configure_url c),
      draft_parameters = Some (text_of (cf_parameters c)), draft_count = configure_count c,
      draft_ports = Some (configure_ports c), draft_prepared_configurations = Some (configure_prepared c),
      draft_manual_configurations = Some (configure_manual c),
      draft_additional_files = Some (loader_files (cf_additional c)),
      draft_applications = Some (grid_widgets (cf_applications c)),
      draft_has_parameters = Some (part_checked Parameters_part c), draft_has_url = Some (part_checked Url_part c),
      draft_has_ports = Some (part_checked Ports_part c),
      draft_has_string_configurations = Some (part_checked Files_part c),
      draft_has_probe = Some (part_checked Probe_part c),
      draft_probes_configuration = Some (configure_probe c)\<rparr>"

section \<open>Operations\<close>

text \<open>The values that the panel gives to the actions of \<open>onCheck\<close>.\<close>

definition check_values :: "'u panel_effect list \<Rightarrow> bool option list" where
  "check_values effects = List.map_filter (\<lambda>e. case e of Check_call _ v \<Rightarrow> Some v | _ \<Rightarrow> None) effects"

definition clear_field :: "'u text_field \<Rightarrow> 'u text_field" where
  "clear_field f = fst (field_clear f)"

text \<open>What a part does when its check is taken away; the port of the URL returns to its default.\<close>

fun clear_part :: "part \<Rightarrow> module_configurator \<Rightarrow> module_configurator" where
  "clear_part Parameters_part c = c\<lparr>cf_parameters := clear_field (cf_parameters c)\<rparr>"
| "clear_part Ports_part c = c\<lparr>cf_ports := fst (clear_collection (port_functions []) (cf_ports c))\<rparr>"
| "clear_part Url_part c =
     c\<lparr>cf_url := clear_field (cf_url c), cf_port := fst (field_set_text DEFAULT_PORT (cf_port c))\<rparr>"
| "clear_part Probe_part c =
     c\<lparr>cf_path := clear_field (cf_path c), cf_liveness := fst (toggle_set_checked False (cf_liveness c)),
       cf_readiness := fst (toggle_set_checked False (cf_readiness c))\<rparr>"
| "clear_part Files_part c =
     c\<lparr>cf_manual := fst (clear_collection (file_functions []) (cf_manual c)),
       cf_prepared := fst (clear_grid (cf_prepared c))\<rparr>"
| "clear_part Additional_part c = c\<lparr>cf_additional := fst (clear_files (cf_additional c))\<rparr>"

definition on_part ::
  "part \<Rightarrow> unit panel_op \<Rightarrow> module_configurator \<Rightarrow> module_configurator \<times> bool" where
  "on_part part op c =
     (let (panel, effects) = panel_step op (cf_panels c part);
          checks = check_values effects;
          c1 = c\<lparr>cf_panels := (cf_panels c)(part := panel)\<rparr>
      in (if list_all (\<lambda>v. v = Some True) checks then c1 else clear_part part c1, checks \<noteq> []))"

text \<open>An edited text calls the action when it has changed.\<close>

definition type_name :: "string \<Rightarrow> module_configurator \<Rightarrow> module_configurator \<times> bool" where
  "type_name v c =
     (case cf_name c of
        None \<Rightarrow> (c, False)
      | Some f \<Rightarrow>
          let (f', changed) = edit_field v f
          in (c\<lparr>cf_name := Some (if changed then validate_name (cf_module_names c) v f' else f')\<rparr>, changed))"

definition select_resource :: "string \<Rightarrow> module_configurator \<Rightarrow> module_configurator \<times> bool" where
  "select_resource suggestion c =
     (case selector_select_item suggestion (cf_resource c) of
        Settled (s, calls) \<Rightarrow> (c\<lparr>cf_resource := s\<rparr>, values_reported calls \<noteq> [])
      | _ \<Rightarrow> (c, False))"

definition type_count :: "string \<Rightarrow> module_configurator \<Rightarrow> module_configurator \<times> bool" where
  "type_count v c = (let (f, changed) = edit_field v (cf_count c) in (c\<lparr>cf_count := f\<rparr>, changed))"

definition type_parameters :: "string \<Rightarrow> module_configurator \<Rightarrow> module_configurator \<times> bool" where
  "type_parameters v c = (let (f, changed) = edit_field v (cf_parameters c) in (c\<lparr>cf_parameters := f\<rparr>, changed))"

definition type_url :: "string \<Rightarrow> module_configurator \<Rightarrow> module_configurator \<times> bool" where
  "type_url v c = (let (f, changed) = edit_field v (cf_url c) in (c\<lparr>cf_url := f\<rparr>, changed))"

definition type_port :: "string \<Rightarrow> module_configurator \<Rightarrow> module_configurator \<times> bool" where
  "type_port v c = (let (f, changed) = edit_field v (cf_port c) in (c\<lparr>cf_port := f\<rparr>, changed))"

definition type_path :: "string \<Rightarrow> module_configurator \<Rightarrow> module_configurator \<times> bool" where
  "type_path v c = (let (f, changed) = edit_field v (cf_path c) in (c\<lparr>cf_path := f\<rparr>, changed))"

text \<open>The two check boxes of the probes call nothing.\<close>

definition check_liveness :: "bool \<Rightarrow> module_configurator \<Rightarrow> module_configurator \<times> bool" where
  "check_liveness b c = (c\<lparr>cf_liveness := fst (toggle_set_checked b (cf_liveness c))\<rparr>, False)"

definition check_readiness :: "bool \<Rightarrow> module_configurator \<Rightarrow> module_configurator \<times> bool" where
  "check_readiness b c = (c\<lparr>cf_readiness := fst (toggle_set_checked b (cf_readiness c))\<rparr>, False)"

text \<open>The collections call the action for items that come and go, and their items for what is typed in them.\<close>

definition act_on_ports :: "string item_action \<Rightarrow> module_configurator \<Rightarrow> module_configurator \<times> bool" where
  "act_on_ports act c =
     (if act = Clear_items then (c, False)
      else
        (c\<lparr>cf_ports := collection_act (port_functions []) (port_item []) (\<lambda>p. disabled_of (port_field p)) edit_port act
             (cf_ports c)\<rparr>,
         act_changes (\<lambda>p. disabled_of (port_field p)) (\<lambda>v p. snd (edit_port v p)) act (cf_ports c)))"

text \<open>A file whose name a chosen prepared configuration has is in error.\<close>

definition edit_manual :: "string list \<Rightarrow> pair_edit \<Rightarrow> 'u file_item \<Rightarrow> 'u file_item \<times> bool" where
  "edit_manual prepared_names e p =
     (let (p', changed) = edit_file e p
      in (case e of
            Edit_name v \<Rightarrow> if changed then p'\<lparr>file_name := validate_name prepared_names v (file_name p')\<rparr> else p'
          | Edit_content v \<Rightarrow> p', changed))"

definition manual_edits :: "pair_edit \<Rightarrow> 'u file_item \<Rightarrow> bool" where
  "manual_edits e p =
     (case e of
        Edit_name v \<Rightarrow> snd (edit_file e p)
      | Edit_content v \<Rightarrow> property_value (editor_text (file_content p)) \<noteq> Some v)"

definition act_on_manual :: "pair_edit item_action \<Rightarrow> module_configurator \<Rightarrow> module_configurator \<times> bool" where
  "act_on_manual act c =
     (if act = Clear_items then (c, False)
      else
        (c\<lparr>cf_manual := collection_act (file_functions [])
             (file_item_of (map_option matches (CONFIG_FILE_NAME_REGEX CONFIGURATION_FILE_FORMATS)) None (Some []) None None [])
             (\<lambda>p. disabled_of (file_name p)) (edit_manual (map pcid_name (configure_prepared c))) act (cf_manual c)\<rparr>,
         act_changes (\<lambda>p. disabled_of (file_name p)) manual_edits act (cf_manual c)))"

text \<open>The configurations that may be added: those whose names are not in use here, of the project.\<close>

definition addable_prepared :: "int \<Rightarrow> module_configurator \<Rightarrow> prepared_configuration_identifier list" where
  "addable_prepared project c =
     filter (\<lambda>i. pcid_project_id i = project)
       (filter (\<lambda>i. \<not> list_ex (\<lambda>f. string_file_name f = pcid_name i) (configure_manual c))
         (filter (\<lambda>i. \<not> list_ex (\<lambda>p. pcid_name p = pcid_name i) (configure_prepared c)) (cf_available c)))"

definition add_prepared ::
  "prepared_configuration_identifier \<Rightarrow> module_configurator \<Rightarrow> module_configurator \<times> bool" where
  "add_prepared i c = (c\<lparr>cf_prepared := fst (push_widget pcid_id i (cf_prepared c))\<rparr>, True)"

definition remove_prepared :: "int \<Rightarrow> module_configurator \<Rightarrow> module_configurator \<times> bool" where
  "remove_prepared key c = (c\<lparr>cf_prepared := fst (remove_key key (cf_prepared c))\<rparr>, True)"

text \<open>The loader of files calls the action when its files change.\<close>

definition on_loader :: "unit loader_op \<Rightarrow> module_configurator \<Rightarrow> module_configurator \<times> bool" where
  "on_loader op c =
     (let l = fst (loader_step op (cf_additional c))
      in (c\<lparr>cf_additional := l\<rparr>, loader_files l \<noteq> loader_files (cf_additional c)))"

definition application_type :: "module_application \<Rightarrow> string" where
  "application_type a = aid_type (module_application_application_id a)"

definition add_application :: "module_application \<Rightarrow> module_configurator \<Rightarrow> module_configurator \<times> bool" where
  "add_application a c = (c\<lparr>cf_applications := fst (push_widget application_type a (cf_applications c))\<rparr>, True)"

definition applications_arrive :: "module_application list \<Rightarrow> module_configurator \<Rightarrow> module_configurator \<times> bool" where
  "applications_arrive apps c =
     (c\<lparr>cf_applications := fold (\<lambda>a g. fst (push_widget application_type a g)) apps (cf_applications c)\<rparr>, False)"

definition edit_application :: "module_application \<Rightarrow> module_configurator \<Rightarrow> module_configurator \<times> bool" where
  "edit_application a c =
     (c\<lparr>cf_applications := (cf_applications c)\<lparr>grid_items := map (\<lambda>item.
          if item_key item = application_type a then item\<lparr>item_widget := a\<rparr> else item) (grid_items (cf_applications c))\<rparr>\<rparr>,
      True)"

definition delete_application :: "string \<Rightarrow> module_configurator \<Rightarrow> module_configurator \<times> bool" where
  "delete_application key c = (c\<lparr>cf_applications := fst (remove_key key (cf_applications c))\<rparr>, True)"

datatype configurator_op =
    Type_name string | Select_resource string | Type_count string | Type_parameters string | Type_url string
  | Type_port string | Type_path string | Check_liveness bool | Check_readiness bool | On_part part "unit panel_op"
  | Act_on_ports "string item_action" | Act_on_manual "pair_edit item_action"
  | Add_prepared prepared_configuration_identifier | Remove_prepared int | On_loader "unit loader_op"
  | Add_application module_application | Edit_application module_application | Delete_application string
  | Applications_arrive "module_application list"

fun configurator_step :: "configurator_op \<Rightarrow> module_configurator \<Rightarrow> module_configurator \<times> bool" where
  "configurator_step (Type_name v) c = type_name v c"
| "configurator_step (Select_resource v) c = select_resource v c"
| "configurator_step (Type_count v) c = type_count v c"
| "configurator_step (Type_parameters v) c = type_parameters v c"
| "configurator_step (Type_url v) c = type_url v c"
| "configurator_step (Type_port v) c = type_port v c"
| "configurator_step (Type_path v) c = type_path v c"
| "configurator_step (Check_liveness b) c = check_liveness b c"
| "configurator_step (Check_readiness b) c = check_readiness b c"
| "configurator_step (On_part part op) c = on_part part op c"
| "configurator_step (Act_on_ports act) c = act_on_ports act c"
| "configurator_step (Act_on_manual act) c = act_on_manual act c"
| "configurator_step (Add_prepared i) c = add_prepared i c"
| "configurator_step (Remove_prepared key) c = remove_prepared key c"
| "configurator_step (On_loader op) c = on_loader op c"
| "configurator_step (Add_application a) c = add_application a c"
| "configurator_step (Edit_application a) c = edit_application a c"
| "configurator_step (Delete_application key) c = delete_application key c"
| "configurator_step (Applications_arrive apps) c = applications_arrive apps c"

section \<open>Nothing changes in silence\<close>

text \<open>A panel with an action: without a call of the action, the check is as it was.\<close>

definition panel_listens :: "unit panel \<Rightarrow> bool" where
  "panel_listens p \<longleftrightarrow> panel_ok p \<and> Check_action () \<in> set (after_update_consumers (panel_checked_property p))"

lemma property_call_calls_induct:
  assumes "P []" and "\<And>b calls. P calls \<Longrightarrow> P (Updated Pass_expanded b # calls)"
    and "\<And>u b calls. P calls \<Longrightarrow> P (Updated (Check_action u) b # calls)"
    and "\<And>c calls. P calls \<Longrightarrow> P (Cleared c # calls)"
  shows "P (calls :: (bool, 'u check_consumer) property_call list)"
proof (induction calls)
  case (Cons call calls)
  then show ?case
  proof (cases call)
    case (Updated c b)
    with Cons assms(2,3) show ?thesis by (cases c) simp_all
  qed (use assms(4) in simp)
qed (rule assms(1))

lemma panel_set_checked_consumers [simp]:
  "after_update_consumers (panel_checked_property (fst (panel_set_checked b p))) =
     after_update_consumers (panel_checked_property p)"
proof -
  have "panel_checked_property (fst (checked_calls calls q)) = panel_checked_property q"
    for calls and q :: "'a panel"
    by (induction calls arbitrary: q rule: property_call_calls_induct) (simp_all add: split_beta Let_def)
  then show ?thesis by (simp add: panel_set_checked_def split_beta)
qed

lemma panel_step_listens: "panel_listens p \<Longrightarrow> panel_listens (fst (panel_step op p))"
proof (cases op)
  case Click_summary
  assume "panel_listens p"
  with Click_summary panel_set_checked_result(1) [of p True] show ?thesis
    by (simp add: panel_listens_def panel_clicked_def split_beta Let_def)
next
  case (Check_box b)
  assume "panel_listens p"
  with Check_box panel_set_checked_result(1) [of p b] show ?thesis by (simp add: panel_listens_def)
next
  case (On_check u)
  assume p: "panel_listens p"
  have "after_update_consumers (panel_checked_property (fst (panel_on_check u p))) =
      after_update_consumers (panel_checked_property p) @ [Check_action u]"
    by (auto simp: panel_on_check_def property_consume_def split_beta Let_def)
  with On_check p panel_on_check_result(1) [of p u] show ?thesis by (simp add: panel_listens_def)
next
  case (On_expansion u)
  assume p: "panel_listens p"
  with On_expansion panel_on_expansion_result(1) [of p u] show ?thesis
    by (simp add: panel_listens_def) (simp add: panel_on_expansion_changed_def split_beta)
qed (simp_all add: panel_listens_def accordion_changed_def cursor_moved_def mount_panel_def panel_on_click_def
    draw_panel_def, simp_all add: panel_ok_def)

lemma check_values_simps [simp]:
  "check_values [] = []"
  "check_values (xs @ ys) = check_values xs @ check_values ys"
  "check_values (map Expansion_call calls) = []"
  "check_values (Check_call u b # xs) = b # check_values xs"
  by (simp_all add: check_values_def List.map_filter_def comp_def)

lemma checks_of_calls:
  "check_values (snd (checked_calls (map (\<lambda>c. Updated c v) cs) p)) =
     map (\<lambda>_. v) (filter (\<lambda>c. c \<noteq> Pass_expanded) cs)"
proof (induction cs arbitrary: p)
  case (Cons c cs)
  then show ?case
    by (cases c) (simp_all add: split_beta Let_def panel_set_expanded_option_def)
qed simp

lemma panel_set_checked_silent:
  assumes p: "panel_listens p" and silent: "check_values (snd (panel_set_checked b p)) = []"
  shows "panel_checked (fst (panel_set_checked b p)) = panel_checked p"
proof (cases "property_value (panel_checked_property p) = Some b")
  case True
  then show ?thesis by (simp add: panel_set_checked_def split_beta panel_checked_def property_set_def)
next
  case False
  have "before_update_consumers (panel_checked_property p) = []" using p by (simp add: panel_listens_def panel_ok_def)
  with False have "snd (property_set (=) (Some b) (panel_checked_property p)) =
      map (\<lambda>c. Updated c (Some b)) (after_update_consumers (panel_checked_property p))"
    by (auto simp: property_set_def prevented_def notify_updated_def split: option.split)
  with silent have "filter (\<lambda>c. c \<noteq> Pass_expanded) (after_update_consumers (panel_checked_property p)) = []"
    by (simp add: panel_set_checked_def split_beta checks_of_calls del: filter_empty_conv)
  with p show ?thesis by (auto simp: panel_listens_def filter_empty_conv)
qed

lemma panel_step_silent:
  assumes p: "panel_listens p" and silent: "check_values (snd (panel_step op p)) = []"
  shows "panel_checked (fst (panel_step op p)) = panel_checked p"
proof (cases op)
  case Click_summary
  with silent panel_set_checked_silent [OF p, of True] show ?thesis
    by (auto simp: panel_clicked_def split_beta Let_def split: if_splits)
next
  case (On_check u)
  with p panel_on_check_result(2) [of p u] show ?thesis by (simp add: panel_listens_def)
next
  case (On_expansion u)
  with p panel_on_expansion_result(2) [of p u] show ?thesis by (simp add: panel_listens_def)
qed (use silent panel_set_checked_silent [OF p] in \<open>simp_all add: accordion_changed_def cursor_moved_def mount_panel_def
    panel_on_click_def draw_panel_def\<close>, simp_all add: panel_checked_def)

definition configurator_ok :: "module_configurator \<Rightarrow> bool" where
  "configurator_ok c \<longleftrightarrow> (\<forall>part. panel_listens (cf_panels c part)) \<and> ids_ok (cf_ports c) \<and> ids_ok (cf_manual c)"

lemma checked_panel_listens: "panel_listens (checked_panel b)"
proof -
  have "after_update_consumers (panel_checked_property (checked_panel b)) = [Pass_expanded, Check_action ()]"
    by (simp add: checked_panel_def panel_on_check_def property_consume_def new_panel_def new_property_def)
  then show ?thesis
    by (simp add: panel_listens_def checked_panel_def panel_on_check_result(1) new_panel_ok)
qed

lemma new_configurator_ok:
  assumes "new_module_configurator disable_name base artifact executors names available probe = Some c"
  shows "configurator_ok c"
proof -
  have "ids_ok (ports_of ports)" "ids_ok (manual_of files)" for ports files
    by (simp_all add: ports_of_def manual_of_def ports_collection_def file_collection_def ids_ok_new first_free_id_bound)
  moreover have "panel_listens (new_panels base probe part)" for part
    by (cases part) (simp_all add: checked_panel_listens)
  ultimately show ?thesis using assms by (auto simp: configurator_ok_def new_module_configurator_def)
qed

lemma ids_ok_clear: "ids_ok c \<Longrightarrow> ids_ok (fst (clear_collection k c))"
  using ids_ok_act [of c k _ _ _ Clear_items] by simp

lemma clear_part_ok: "configurator_ok c \<Longrightarrow> configurator_ok (clear_part part c)"
  by (cases part) (simp_all add: configurator_ok_def ids_ok_clear)

lemma configurator_step_ok: "configurator_ok c \<Longrightarrow> configurator_ok (fst (configurator_step op c))"
proof (cases op)
  case (On_part part panel_op)
  assume "configurator_ok c"
  then have "configurator_ok (c\<lparr>cf_panels := (cf_panels c)(part := fst (panel_step panel_op (cf_panels c part)))\<rparr>)"
    by (simp add: configurator_ok_def panel_step_listens)
  with On_part show ?thesis by (simp add: on_part_def Let_def split_beta clear_part_ok)
qed (auto simp: configurator_ok_def type_name_def select_resource_def type_count_def type_parameters_def type_url_def
    type_port_def type_path_def check_liveness_def check_readiness_def act_on_ports_def act_on_manual_def
    add_prepared_def remove_prepared_def on_loader_def add_application_def edit_application_def delete_application_def
    applications_arrive_def Let_def split_beta ids_ok_act split: option.split settled.split)

text \<open>What the validation of a configuration reads of the configurator.\<close>

definition validated ::
  "module_configurator \<Rightarrow> string \<times> string \<times> (part \<Rightarrow> bool) \<times> int list \<times> module_url \<times> string_file list \<times>
    prepared_configuration_identifier list" where
  "validated c =
     (configure_name c, text_of (cf_parameters c), \<lambda>part. part_checked part c, configure_ports c, configure_url c,
      configure_manual c, configure_prepared c)"

lemma configure_name_nonempty: "configure_name c \<noteq> []"
  by (auto simp: configure_name_def name_or_def default_name_def split: option.split)

lemma validation_reads:
  assumes "validated c = validated c'"
  shows "validate_module_configuration ((configure c)\<lparr>draft_artifact := a\<rparr>) project modules \<longleftrightarrow>
    validate_module_configuration (configure c') project modules"
proof -
  have "(\<lambda>part. part_checked part c) = (\<lambda>part. part_checked part c')" using assms by (simp add: validated_def)
  from fun_cong [OF this] have "part_checked part c = part_checked part c'" for part .
  with assms configure_name_nonempty [of c'] show ?thesis
    by (simp add: validated_def validate_module_configuration_def configure_def module_ports_ok_def module_url_ok_def
        module_files_ok_def create_module_name_def truthy_string_def)
qed

text \<open>The two collections tell all that they read.\<close>

definition read_port :: "int option \<times> string option \<Rightarrow> int" where
  "read_port r = (case fst r of Some n \<Rightarrow> n | None \<Rightarrow> text_number (case snd r of None \<Rightarrow> [] | Some t \<Rightarrow> t))"

definition read_file :: "string option \<times> string option \<Rightarrow> string_file" where
  "read_file r =
     \<lparr>string_file_name = (case fst r of None \<Rightarrow> [] | Some t \<Rightarrow> t),
      string_file_content = (case snd r of None \<Rightarrow> [] | Some t \<Rightarrow> t)\<rparr>"

lemma configure_ports_read: "configure_ports c = map read_port (map port_reading (collection_widgets (cf_ports c)))"
  by (auto simp: configure_ports_def port_number_of_def read_port_def port_reading_def text_of_def split: option.split)

lemma configure_manual_read: "configure_manual c = map read_file (map file_reading (collection_widgets (cf_manual c)))"
  by (auto simp: configure_manual_def read_file_def file_reading_def text_of_def split: option.split)

lemma edit_port_reading: "\<not> snd (edit_port v p) \<Longrightarrow> port_reading (fst (edit_port v p)) = port_reading p"
  by (auto simp: edit_port_def port_reading_def split_beta)

lemma validate_name_text [simp]: "field_text (validate_name names name f) = field_text f"
  by (simp add: validate_name_def field_set_error_def Let_def split_beta)

lemma edit_manual_reading: "\<not> manual_edits e p \<Longrightarrow> file_reading (fst (edit_manual names e p)) = file_reading p"
  by (cases e) (auto simp: edit_manual_def manual_edits_def file_reading_def split_beta editor_set_text_def property_set_def)

lemma act_on_ports_silent:
  assumes "ids_ok (cf_ports c)" and "\<not> snd (act_on_ports act c)"
  shows "configure_ports (fst (act_on_ports act c)) = configure_ports c"
proof (cases "act = Clear_items")
  case False
  note silent = port_readings.act_silent [OF assms(1), of "\<lambda>p. disabled_of (port_field p)" "\<lambda>v p. snd (edit_port v p)" act
    edit_port, OF _ edit_port_reading]
  from False assms(2) show ?thesis
    unfolding configure_ports_read
    by (simp add: act_on_ports_def port_readings.widgets_read [OF silent])
qed (simp add: act_on_ports_def)

lemma act_on_manual_silent:
  assumes "ids_ok (cf_manual c)" and "\<not> snd (act_on_manual act c)"
  shows "configure_manual (fst (act_on_manual act c)) = configure_manual c"
proof (cases "act = Clear_items")
  case False
  note silent = file_readings.act_silent [OF assms(1), of "\<lambda>p. disabled_of (file_name p)" manual_edits act
    "edit_manual (map pcid_name (configure_prepared c))", OF _ edit_manual_reading]
  from False assms(2) show ?thesis
    unfolding configure_manual_read
    by (simp add: act_on_manual_def file_readings.widgets_read [OF silent])
qed (simp add: act_on_manual_def)

lemmas configure_defs =
  configure_name_def part_checked_def configure_ports_def configure_url_def configure_manual_def configure_prepared_def

lemma silent_keeps_validated:
  assumes ok: "configurator_ok c" and silent: "\<not> snd (configurator_step op c)"
  shows "validated (fst (configurator_step op c)) = validated c"
proof (cases op)
  case (On_part part panel_op)
  with silent have "check_values (snd (panel_step panel_op (cf_panels c part))) = []"
    by (simp add: on_part_def Let_def split_beta)
  moreover from this ok have "panel_checked (fst (panel_step panel_op (cf_panels c part))) = panel_checked (cf_panels c part)"
    by (simp add: configurator_ok_def panel_step_silent)
  ultimately show ?thesis using On_part
    by (auto simp: on_part_def Let_def split_beta validated_def configure_defs)
next
  case (Act_on_ports act)
  with silent act_on_ports_silent [of c act] ok show ?thesis
    by (auto simp: configurator_ok_def validated_def) (auto simp: act_on_ports_def configure_defs)
next
  case (Act_on_manual act)
  with silent act_on_manual_silent [of c act] ok show ?thesis
    by (auto simp: configurator_ok_def validated_def) (auto simp: act_on_manual_def configure_defs)
next
  case (Type_name v)
  with silent show ?thesis
    by (auto simp: type_name_def split_beta validated_def configure_defs text_of_def split: option.splits)
next
  case (Select_resource v)
  then show ?thesis
    by (auto simp: select_resource_def validated_def configure_defs split: settled.splits)
qed (use silent in \<open>auto simp: type_count_def type_parameters_def type_url_def
    type_port_def type_path_def check_liveness_def check_readiness_def 
    add_prepared_def remove_prepared_def on_loader_def add_application_def edit_application_def delete_application_def
    applications_arrive_def Let_def split_beta validated_def configure_defs text_of_def\<close>)

end
