(* ===== verification/Module_Dialogs.thy ===== *)
theory Module_Dialogs
  imports Module_Configurators
begin

text \<open>
  The three dialogs around the configurator of a module: \<open>component/embeddable/module/ModuleCloningDialog.ts\<close>,
  \<open>ModuleUpdatingDialog.ts\<close> and \<open>ModulesInstallationDialog.tsx\<close>. An operation returns what the services are asked to do.
  The properties of a dialog do not change while it is shown, and the answer with the artifacts is an operation.
\<close>

section \<open>The dialogs of one module\<close>

text \<open>The actions on the button: the two of the dialog, and those that its user registered.\<close>

datatype dialog_action = Send_configuration | Close_dialog | Tell_user

datatype module_dialog_effect =
    Clone_module int module_full module_configuration_draft
  | Update_module int module_full module_configuration_draft
  | User_told
  | Selector_missing

record module_dialog =
  md_base :: module_full
  md_modules :: "module_information list"
  md_artifacts :: "assembled_artifact list option"
  md_selector :: "(assembled_artifact, unit) selector option"
  md_configurator :: module_configurator
  md_button :: "dialog_action button"
  md_shown :: "unit dialog"

text \<open>\<open>assembledArtifactSelector\<close> shows an artifact by its external identifier.\<close>

definition artifact_item :: "assembled_artifact \<Rightarrow> assembled_artifact selector_item" where
  "artifact_item a = \<lparr>item_value = a, item_suggestion = eid_id (artifact_external_id a)\<rparr>"

definition new_artifact_selector ::
  "assembled_artifact list \<Rightarrow> assembled_artifact \<Rightarrow> (assembled_artifact, unit) selector option" where
  "new_artifact_selector artifacts selected = new_selector (\<lambda>_. True) artifact_item artifacts (Some selected) False"

definition sending_button :: "bool \<Rightarrow> dialog_action button" where
  "sending_button disabled = button_on_click Close_dialog (button_on_click Send_configuration (new_button disabled))"

definition new_cloning_dialog ::
  "module_full \<Rightarrow> resource_identifier list \<Rightarrow> module_information list \<Rightarrow> prepared_configuration_identifier list \<Rightarrow>
    module_dialog option" where
  "new_cloning_dialog base resources modules available =
     map_option (\<lambda>c.
       \<lparr>md_base = base, md_modules = modules, md_artifacts = Some [], md_selector = None, md_configurator = c,
        md_button = sending_button True, md_shown = new_dialog True True\<rparr>)
       (new_module_configurator False (Some base) (mod_artifact base) resources (map mod_name modules) available
         (mod_probes_configuration base))"

definition new_updating_dialog ::
  "module_full \<Rightarrow> resource_identifier list \<Rightarrow> module_information list \<Rightarrow> prepared_configuration_identifier list \<Rightarrow>
    module_dialog option" where
  "new_updating_dialog base resources modules available =
     map_option (\<lambda>c.
       \<lparr>md_base = base, md_modules = modules, md_artifacts = None, md_selector = None, md_configurator = c,
        md_button = sending_button False, md_shown = new_dialog True True\<rparr>)
       (new_module_configurator True (Some base) (mod_artifact base) resources (map mod_name modules) available
         (mod_probes_configuration base))"

text \<open>The modules whose names the configuration may not have: for an update, the others.\<close>

definition validate_cloning :: "module_dialog \<Rightarrow> module_dialog" where
  "validate_cloning d =
     d\<lparr>md_button := button_set_disabled
       (\<not> validate_module_configuration (configure (md_configurator d)) (mod_project_id (md_base d)) (md_modules d))
       (md_button d)\<rparr>"

definition validate_updating :: "module_dialog \<Rightarrow> module_dialog" where
  "validate_updating d =
     d\<lparr>md_button := button_set_disabled
       (\<not> validate_module_configuration (configure (md_configurator d)) (mod_project_id (md_base d))
          (filter (\<lambda>m. mod_id m \<noteq> mod_id (md_base d)) (md_modules d)))
       (md_button d)\<rparr>"

definition configure_in :: "(module_dialog \<Rightarrow> module_dialog) \<Rightarrow> configurator_op \<Rightarrow> module_dialog \<Rightarrow> module_dialog" where
  "configure_in validate op d =
     (let (c, calls) = configurator_step op (md_configurator d); d1 = d\<lparr>md_configurator := c\<rparr>
      in if calls then validate d1 else d1)"

text \<open>The selector is made by the first drawing after artifacts have arrived, and kept.\<close>

definition artifacts_arrive :: "assembled_artifact list \<Rightarrow> module_dialog \<Rightarrow> module_dialog" where
  "artifacts_arrive artifacts d =
     d\<lparr>md_artifacts := Some artifacts,
       md_selector :=
         (case md_selector d of
            Some s \<Rightarrow> Some s
          | None \<Rightarrow>
              if is_not_empty_array (Some artifacts)
              then new_artifact_selector artifacts (mod_artifact (md_base d)) else None)\<rparr>"

definition choose_artifact ::
  "(module_dialog \<Rightarrow> module_dialog) \<Rightarrow> string \<Rightarrow> module_dialog \<Rightarrow> module_dialog" where
  "choose_artifact changed suggestion d =
     (case md_selector d of
        None \<Rightarrow> d
      | Some s \<Rightarrow>
          (case selector_select_item suggestion s of
             Settled (s', calls) \<Rightarrow>
               let d1 = d\<lparr>md_selector := Some s'\<rparr> in if values_reported calls = [] then d1 else changed d1
           | _ \<Rightarrow> d))"

text \<open>
  The configuration that is sent has the chosen artifact; without a selector this is an error, which the actions
  after it do not survive.
\<close>

definition sent_configuration :: "module_dialog \<Rightarrow> module_configuration_draft option" where
  "sent_configuration d =
     map_option (\<lambda>s. (configure (md_configurator d))\<lparr>draft_artifact := the (selector_value s)\<rparr>) (md_selector d)"

fun run_actions ::
  "(int \<Rightarrow> module_full \<Rightarrow> module_configuration_draft \<Rightarrow> module_dialog_effect) \<Rightarrow> dialog_action list \<Rightarrow> module_dialog \<Rightarrow>
    module_dialog \<times> module_dialog_effect list" where
  "run_actions send [] d = (d, [])"
| "run_actions send (Send_configuration # actions) d =
     (case sent_configuration d of
        None \<Rightarrow> (d, [Selector_missing])
      | Some configuration \<Rightarrow>
          let (d', effects) = run_actions send actions d
          in (d', send (mod_project_id (md_base d)) (md_base d) configuration # effects))"
| "run_actions send (Close_dialog # actions) d =
     run_actions send actions (d\<lparr>md_shown := fst (close_dialog (md_shown d))\<rparr>)"
| "run_actions send (Tell_user # actions) d =
     (let (d', effects) = run_actions send actions d in (d', User_told # effects))"

definition click_send ::
  "(int \<Rightarrow> module_full \<Rightarrow> module_configuration_draft \<Rightarrow> module_dialog_effect) \<Rightarrow> module_dialog \<Rightarrow>
    module_dialog \<times> module_dialog_effect list" where
  "click_send send d =
     (if dialog_shown (md_shown d) then run_actions send (button_clicked (md_button d)) d else (d, []))"

definition on_sent :: "module_dialog \<Rightarrow> module_dialog" where
  "on_sent d = d\<lparr>md_button := button_on_click Tell_user (md_button d)\<rparr>"

datatype module_dialog_op =
    Configure_module configurator_op | Artifacts_arrive "assembled_artifact list" | Choose_artifact string
  | Click_send | On_sent | Dismiss_dialog

fun cloning_dialog_step :: "module_dialog_op \<Rightarrow> module_dialog \<Rightarrow> module_dialog \<times> module_dialog_effect list" where
  "cloning_dialog_step (Configure_module op) d = (configure_in validate_cloning op d, [])"
| "cloning_dialog_step (Artifacts_arrive artifacts) d = (artifacts_arrive artifacts d, [])"
| "cloning_dialog_step (Choose_artifact suggestion) d = (choose_artifact (\<lambda>d. d) suggestion d, [])"
| "cloning_dialog_step Click_send d = click_send Clone_module d"
| "cloning_dialog_step On_sent d = (on_sent d, [])"
| "cloning_dialog_step Dismiss_dialog d = (d\<lparr>md_shown := fst (close_dialog (md_shown d))\<rparr>, [])"

fun updating_dialog_step :: "module_dialog_op \<Rightarrow> module_dialog \<Rightarrow> module_dialog \<times> module_dialog_effect list" where
  "updating_dialog_step (Configure_module op) d = (configure_in validate_updating op d, [])"
| "updating_dialog_step (Artifacts_arrive artifacts) d = (artifacts_arrive artifacts d, [])"
| "updating_dialog_step (Choose_artifact suggestion) d = (choose_artifact validate_updating suggestion d, [])"
| "updating_dialog_step Click_send d = click_send Update_module d"
| "updating_dialog_step On_sent d = (on_sent d, [])"
| "updating_dialog_step Dismiss_dialog d = (d\<lparr>md_shown := fst (close_dialog (md_shown d))\<rparr>, [])"

section \<open>What a cloning sends\<close>

definition cloning_valid :: "module_dialog \<Rightarrow> bool" where
  "cloning_valid d \<longleftrightarrow>
     validate_module_configuration (configure (md_configurator d)) (mod_project_id (md_base d)) (md_modules d)"

definition clicks_ok :: "dialog_action list \<Rightarrow> bool" where
  "clicks_ok actions \<longleftrightarrow> take 2 actions = [Send_configuration, Close_dialog] \<and> set (drop 2 actions) \<subseteq> {Tell_user}"

definition cloning_ok :: "module_dialog \<Rightarrow> bool" where
  "cloning_ok d \<longleftrightarrow>
     configurator_ok (md_configurator d) \<and> before_update_consumers (button_disabled (md_button d)) = [] \<and>
     before_update_consumers (dialog_visible (md_shown d)) = [] \<and> clicks_ok (button_click (md_button d)) \<and>
     (button_is_disabled (md_button d) \<or> cloning_valid d)"

definition sent :: "module_dialog_effect list \<Rightarrow> module_dialog_effect list" where
  "sent effects = filter (\<lambda>e. e \<noteq> User_told \<and> e \<noteq> Selector_missing) effects"

fun clones_valid :: "int \<Rightarrow> module_information list \<Rightarrow> module_dialog_effect \<Rightarrow> bool" where
  "clones_valid project modules (Clone_module project' base configuration) \<longleftrightarrow>
     project' = project \<and> validate_module_configuration configuration project modules"
| "clones_valid project modules effect \<longleftrightarrow> effect \<in> {User_told, Selector_missing}"

lemma button_set_disabled_result [simp]:
  "before_update_consumers (button_disabled b) = [] \<Longrightarrow> button_is_disabled (button_set_disabled v b) = v"
  "button_click (button_set_disabled v b) = button_click b"
  "before_update_consumers (button_disabled (button_set_disabled v b)) = before_update_consumers (button_disabled b)"
  by (simp_all add: button_is_disabled_def button_set_disabled_def)

lemma button_on_click_result [simp]:
  "button_is_disabled (button_on_click u b) = button_is_disabled b"
  "button_click (button_on_click u b) = button_click b @ [u]"
  "button_disabled (button_on_click u b) = button_disabled b"
  by (simp_all add: button_is_disabled_def button_on_click_def event_handle_def)

lemma clicks_okE: "clicks_ok actions \<Longrightarrow> \<exists>n. actions = Send_configuration # Close_dialog # replicate n Tell_user"
proof -
  assume ok: "clicks_ok actions"
  then have "drop 2 actions = replicate (length (drop 2 actions)) Tell_user"
    by (intro replicate_eqI) (auto simp: clicks_ok_def)
  moreover have "actions = take 2 actions @ drop 2 actions" by simp
  ultimately show ?thesis using ok by (metis append_Cons append_Nil clicks_ok_def)
qed

lemma run_tells: "run_actions send (replicate n Tell_user) d = (d, replicate n User_told)"
  by (induction n) (simp_all add: split_beta)

lemma sent_simps [simp]:
  "sent [] = []" "sent (xs @ ys) = sent xs @ sent ys" "sent (User_told # xs) = sent xs"
  "sent (Selector_missing # xs) = sent xs" "sent (replicate n User_told) = []"
  "sent (Clone_module p b c # xs) = Clone_module p b c # sent xs"
  by (simp_all add: sent_def)

lemma configure_in_cloning_ok: "cloning_ok d \<Longrightarrow> cloning_ok (configure_in validate_cloning op d)"
proof -
  assume ok: "cloning_ok d"
  let ?c = "fst (configurator_step op (md_configurator d))"
  have c: "configurator_ok ?c" using ok by (simp add: cloning_ok_def configurator_step_ok)
  show ?thesis
  proof (cases "snd (configurator_step op (md_configurator d))")
    case True
    with ok c show ?thesis by (simp add: configure_in_def split_beta Let_def cloning_ok_def validate_cloning_def cloning_valid_def)
  next
    case False
    have "validated ?c = validated (md_configurator d)"
      using ok False by (simp add: cloning_ok_def silent_keeps_validated)
    from validation_reads [OF this, of "draft_artifact (configure ?c)"]
    have "validate_module_configuration (configure ?c) project modules \<longleftrightarrow>
        validate_module_configuration (configure (md_configurator d)) project modules" for project modules
      by simp
    with False ok c show ?thesis by (simp add: configure_in_def split_beta Let_def cloning_ok_def cloning_valid_def)
  qed
qed

lemma sent_valid:
  "sent_configuration d = Some configuration \<Longrightarrow> cloning_valid d \<Longrightarrow>
   validate_module_configuration configuration (mod_project_id (md_base d)) (md_modules d)"
  by (auto simp: sent_configuration_def cloning_valid_def validation_reads [OF refl])

lemma click_send_cloning:
  assumes "cloning_ok d"
  shows "cloning_ok (fst (click_send Clone_module d))"
    and "list_all (clones_valid (mod_project_id (md_base d)) (md_modules d)) (snd (click_send Clone_module d))"
    and "length (sent (snd (click_send Clone_module d))) + of_bool (dialog_shown (md_shown (fst (click_send Clone_module d)))) \<le>
      of_bool (dialog_shown (md_shown d))"
    and "md_base (fst (click_send Clone_module d)) = md_base d \<and> md_modules (fst (click_send Clone_module d)) = md_modules d"
proof -
  obtain n where n: "button_click (md_button d) = Send_configuration # Close_dialog # replicate n Tell_user"
    using assms clicks_okE by (auto simp: cloning_ok_def)
  have clicked: "button_clicked (md_button d) = (if button_is_disabled (md_button d) then [] else button_click (md_button d))"
    by (simp add: button_clicked_def event_execute_def comp_def)
  let ?closed = "d\<lparr>md_shown := fst (close_dialog (md_shown d))\<rparr>"
  have closed: "cloning_ok ?closed" "\<not> dialog_shown (md_shown ?closed)"
    using assms by (simp_all add: cloning_ok_def cloning_valid_def dialog_set_visible_def split_beta dialog_shown_def)
  have click: "click_send Clone_module d =
      (if \<not> dialog_shown (md_shown d) \<or> button_is_disabled (md_button d) then (d, [])
       else case sent_configuration d of
         None \<Rightarrow> (d, [Selector_missing])
       | Some c \<Rightarrow> (?closed, Clone_module (mod_project_id (md_base d)) (md_base d) c # replicate n User_told))"
    by (simp add: click_send_def clicked n run_tells split: option.split)
  have valid: "cloning_valid d" if "\<not> button_is_disabled (md_button d)"
    using that assms by (simp add: cloning_ok_def)
  show "cloning_ok (fst (click_send Clone_module d))"
    "list_all (clones_valid (mod_project_id (md_base d)) (md_modules d)) (snd (click_send Clone_module d))"
    "length (sent (snd (click_send Clone_module d))) + of_bool (dialog_shown (md_shown (fst (click_send Clone_module d)))) \<le>
      of_bool (dialog_shown (md_shown d))"
    "md_base (fst (click_send Clone_module d)) = md_base d \<and> md_modules (fst (click_send Clone_module d)) = md_modules d"
    using assms closed valid sent_valid [of d] unfolding click
    by (simp_all add: list_all_iff split: option.split)
qed

lemma dialog_closed [simp]:
  "dialog_shown d \<or> before_update_consumers (dialog_visible d) = [] \<Longrightarrow>
   before_update_consumers (dialog_visible d) = [] \<Longrightarrow> \<not> dialog_shown (fst (close_dialog d))"
  by (simp add: dialog_set_visible_def split_beta dialog_shown_def)

lemma cloning_dialog_step_ok:
  assumes ok: "cloning_ok d"
  shows "cloning_ok (fst (cloning_dialog_step op d)) \<and>
    list_all (clones_valid (mod_project_id (md_base d)) (md_modules d)) (snd (cloning_dialog_step op d)) \<and>
    length (sent (snd (cloning_dialog_step op d))) + of_bool (dialog_shown (md_shown (fst (cloning_dialog_step op d)))) \<le>
      of_bool (dialog_shown (md_shown d)) \<and>
    md_base (fst (cloning_dialog_step op d)) = md_base d \<and> md_modules (fst (cloning_dialog_step op d)) = md_modules d"
proof (cases op)
  case (Configure_module configurator_op)
  have "md_shown (configure_in validate_cloning configurator_op d) = md_shown d"
    "md_base (configure_in validate_cloning configurator_op d) = md_base d"
    "md_modules (configure_in validate_cloning configurator_op d) = md_modules d"
    by (simp_all add: configure_in_def split_beta Let_def validate_cloning_def)
  with Configure_module ok show ?thesis by (simp add: configure_in_cloning_ok)
next
  case Click_send
  with click_send_cloning [OF ok] show ?thesis by simp
next
  case (Choose_artifact suggestion)
  with ok show ?thesis
    by (auto simp: choose_artifact_def cloning_ok_def cloning_valid_def Let_def split: option.split settled.split)
next
  case On_sent
  obtain n where "button_click (md_button d) = Send_configuration # Close_dialog # replicate n Tell_user"
    using ok clicks_okE by (auto simp: cloning_ok_def)
  with On_sent ok show ?thesis by (auto simp: on_sent_def cloning_ok_def cloning_valid_def clicks_ok_def)
next
  case Dismiss_dialog
  have "before_update_consumers (dialog_visible (fst (close_dialog (md_shown d)))) = []"
    using ok by (simp add: cloning_ok_def dialog_set_visible_def split_beta)
  with Dismiss_dialog ok show ?thesis by (simp add: cloning_ok_def cloning_valid_def)
next
  case (Artifacts_arrive artifacts)
  with ok show ?thesis by (simp add: artifacts_arrive_def cloning_ok_def cloning_valid_def)
qed

lemma new_cloning_dialog_ok:
  assumes "new_cloning_dialog base resources modules available = Some d"
  shows "cloning_ok d" and "md_base d = base" and "md_modules d = modules" and "dialog_shown (md_shown d)"
  using assms
  by (auto simp: new_cloning_dialog_def cloning_ok_def new_configurator_ok sending_button_def new_button_def
      new_property_def new_dialog_def clicks_ok_def button_is_disabled_def dialog_shown_def)

text \<open>
  C4. Whatever the user does in the dialog that clones a module, and whenever the artifacts and applications
  arrive: what the cloning service is asked to install is a valid configuration for the project, with a name that none
  of its modules has, and it is asked at most once. Its button follows the validity although not every change tells the
  dialog, and although the artifact that is sent is not the one that was validated.
\<close>
theorem cloning_sends_valid:
  assumes "new_cloning_dialog base resources modules available = Some d"
  shows "let effects = snd (emit_run cloning_dialog_step ops d)
    in list_all (clones_valid (mod_project_id base) modules) effects \<and> length (sent effects) \<le> 1"
proof -
  have "list_all (clones_valid (mod_project_id (md_base d)) (md_modules d)) (snd (emit_run cloning_dialog_step ops d)) \<and>
      length (sent (snd (emit_run cloning_dialog_step ops d))) \<le> of_bool (dialog_shown (md_shown d))" if "cloning_ok d" for d
    using that
  proof (induction ops arbitrary: d)
    case (Cons op ops)
    note step = cloning_dialog_step_ok [OF Cons.prems, of op]
    from Cons.IH [OF conjunct1 [OF step]] step show ?case by (simp; linarith)
  qed simp
  from this [of d] new_cloning_dialog_ok [OF assms] show ?thesis by (simp add: Let_def)
qed

definition sample_cloning :: module_dialog where
  "sample_cloning = the (new_cloning_dialog (sample_module []) [the (mod_resource_id (sample_module []))]
     [module_information.truncate (sample_module [])] [])"

theorem cloning_sends_valid_witness:
  "let effects = snd (emit_run cloning_dialog_step
       [Artifacts_arrive [mod_artifact (sample_module [])], Configure_module (Type_name ''other''), On_sent, Click_send, Click_send]
       sample_cloning)
   in list_all (clones_valid (mod_project_id (sample_module [])) [module_information.truncate (sample_module [])]) effects \<and>
     length (sent effects) \<le> 1"
proof (rule cloning_sends_valid)
  have "new_cloning_dialog (sample_module []) [the (mod_resource_id (sample_module []))]
     [module_information.truncate (sample_module [])] [] \<noteq> None"
    by (simp add: new_cloning_dialog_def new_module_configurator_def new_selector_def Let_def)
  then show "new_cloning_dialog (sample_module []) [the (mod_resource_id (sample_module []))]
     [module_information.truncate (sample_module [])] [] = Some sample_cloning"
    by (auto simp: sample_cloning_def)
qed

text \<open>The run of the witness does send a configuration, and tells its user.\<close>

lemma new_panels_unchecked:
  assumes "mod_parameters m = None" and "mod_ports m = None" and "mod_url m = None"
    and "mod_manual_configurations m = None" and "mod_prepared_configurations m = None"
    and "mod_additional_files m = Some []"
  shows "\<not> panel_checked (new_panels (Some m) None part)"
proof -
  have "\<not> panel_checked (checked_panel False)"
    by (simp add: checked_panel_def panel_on_check_result(2) new_panel_ok)
      (simp add: panel_checked_def new_panel_def property_consume_def new_property_def)
  with assms show ?thesis by (cases part) (simp_all add: truthy_array_def url_text_def probe_text_def truthy_string_def)
qed

lemma sample_cloning_parts:
  "cf_name (md_configurator sample_cloning) = Some (name_field [mod_name (sample_module [])] (mod_name (sample_module [])))"
  "cf_module_names (md_configurator sample_cloning) = [mod_name (sample_module [])]"
  "\<not> part_checked part (md_configurator sample_cloning)"
  "md_selector sample_cloning = None" "md_modules sample_cloning = [module_information.truncate (sample_module [])]"
  "md_base sample_cloning = sample_module []" "md_button sample_cloning = sending_button True"
  "md_shown sample_cloning = new_dialog True True"
  using new_panels_unchecked [of "sample_module []" part]
  by (simp_all add: sample_cloning_def new_cloning_dialog_def new_module_configurator_def new_selector_def Let_def
      name_or_def part_checked_def sample_module_def module_information.defs)

lemma validate_unchecked:
  assumes "\<And>part. \<not> part_checked part c"
  shows "validate_module_configuration (configure c) project modules \<longleftrightarrow> module_name_ok (configure_name c) project modules"
  using assms configure_name_nonempty [of c]
  by (simp add: validate_module_configuration_def configure_def module_ports_ok_def module_url_ok_def
      module_files_ok_def create_module_name_def truthy_string_def truthy_bool_def)

lemma sample_cloning_sends:
  "length (snd (emit_run cloning_dialog_step
       [Artifacts_arrive [mod_artifact (sample_module [])], Configure_module (Type_name ''other''), On_sent, Click_send, Click_send]
       sample_cloning)) = 2"
proof -
  let ?c = "md_configurator sample_cloning"
  let ?c' = "fst (type_name ''other'' ?c)"
  have named: "snd (type_name ''other'' ?c)" "text_of (the (cf_name ?c')) = ''other''"
    by (simp_all add: type_name_def sample_cloning_parts split_beta name_field_def plain_text_def)
      (simp_all add: sample_module_def, code_simp+)
  have some: "cf_name ?c' \<noteq> None" by (simp add: type_name_def sample_cloning_parts split_beta)
  with named have "configure_name ?c' = ''other''"
    by (auto simp: configure_name_def name_or_def)
  moreover have "\<not> part_checked part ?c'" for part
    using sample_cloning_parts(3) [of part] by (simp add: type_name_def part_checked_def split_beta split: option.split)
  moreover have "module_name_ok ''other'' 5 [module_information.truncate (sample_module [])]" by code_simp
  ultimately have valid: "validate_module_configuration (configure ?c') 5 [module_information.truncate (sample_module [])]"
    by (simp add: validate_unchecked)
  have five: "mod_project_id (sample_module []) = 5" by (simp add: sample_module_def)
  show ?thesis
    using named(1) valid
    by (simp add: artifacts_arrive_def sample_cloning_parts is_not_empty_array_def new_artifact_selector_def new_selector_def
        Let_def configure_in_def split_beta validate_cloning_def five on_sent_def click_send_def button_clicked_def sending_button_def new_button_def
        event_execute_def new_property_def button_on_click_def event_handle_def button_set_disabled_def button_is_disabled_def
        new_dialog_def dialog_shown_def dialog_set_visible_def sent_configuration_def property_set_def prevented_def
        notify_updated_def)
qed

text \<open>
  The dialog that updates a module can be confirmed as soon as it is shown: before the artifacts arrive, or in a
  project without assembled ones, this is an error, and after that it sends the module's own settings with its own
  artifact, whether or not they are valid and the artifact is among those that may be chosen.
\<close>
theorem updating_starts_enabled:
  assumes "new_updating_dialog base resources modules available = Some d" and "artifacts \<noteq> []"
  shows "snd (emit_run updating_dialog_step [Artifacts_arrive [], Click_send] d) = [Selector_missing] \<and>
    snd (emit_run updating_dialog_step [Artifacts_arrive artifacts, Click_send] d) =
      [Update_module (mod_project_id base) base ((configure (md_configurator d))\<lparr>draft_artifact := mod_artifact base\<rparr>)]"
proof -
  from assms(1) have d: "md_base d = base" "md_selector d = None" "md_button d = sending_button False"
    "md_shown d = new_dialog True True"
    by (auto simp: new_updating_dialog_def)
  have clicked: "button_clicked (sending_button False) = [Send_configuration, Close_dialog]"
    by (simp add: button_clicked_def sending_button_def new_button_def event_execute_def button_on_click_def
        event_handle_def button_is_disabled_def new_property_def)
  have shown: "dialog_shown (new_dialog True True)" by (simp add: new_dialog_def dialog_shown_def new_property_def)
  show ?thesis using assms(2)
    by (simp add: click_send_def artifacts_arrive_def d clicked shown is_not_empty_array_def new_artifact_selector_def
        new_selector_def Let_def sent_configuration_def selector_value_def new_property_def split_beta)
qed

definition sample_updating :: module_dialog where
  "sample_updating = the (new_updating_dialog (sample_module []) [the (mod_resource_id (sample_module []))]
     [module_information.truncate (sample_module [])] [])"

theorem updating_starts_enabled_witness:
  "snd (emit_run updating_dialog_step [Artifacts_arrive [], Click_send] sample_updating) = [Selector_missing] \<and>
   snd (emit_run updating_dialog_step [Artifacts_arrive [sample_artifact], Click_send] sample_updating) =
     [Update_module (mod_project_id (sample_module [])) (sample_module [])
       ((configure (md_configurator sample_updating))\<lparr>draft_artifact := mod_artifact (sample_module [])\<rparr>)]"
proof (rule updating_starts_enabled)
  have "new_updating_dialog (sample_module []) [the (mod_resource_id (sample_module []))]
     [module_information.truncate (sample_module [])] [] \<noteq> None"
    by (simp add: new_updating_dialog_def new_module_configurator_def new_selector_def Let_def)
  then show "new_updating_dialog (sample_module []) [the (mod_resource_id (sample_module []))]
     [module_information.truncate (sample_module [])] [] = Some sample_updating"
    by (auto simp: sample_updating_def)
qed simp

section \<open>The installation of modules\<close>

text \<open>
  One configurator for each chosen artifact, under the name of the artifact, and beside them the grid of their panels.
  The properties \<open>project\<close> and \<open>projects\<close>, the executors of the loaded resources, and the available configurations
  are fixed. The searcher of artifacts is another widget: its choice arrives as an operation.
\<close>

record installation_dialog =
  in_project :: "project option"
  in_executors :: "resource_identifier list"
  in_available :: "prepared_configuration_identifier list"
  in_projects :: "(project, unit) selector"
  in_artifacts :: "assembled_artifact list option"
  in_modules :: "module_information list option"
  in_configurators :: "(string, module_configurator) js_map"
  in_grid :: "(string, string \<times> unit panel, unit) grid"
  in_button :: "dialog_action button"
  in_shown :: "unit dialog"

datatype installation_effect =
    Install_modules int "module_configuration_draft list"
  | Request_modules
  | Request_artifacts int
  | Installation_told
  | Installation_fails

definition project_item :: "project \<Rightarrow> project selector_item" where
  "project_item p = \<lparr>item_value = p, item_suggestion = project_name p\<rparr>"

definition new_installation_dialog ::
  "project option \<Rightarrow> assembled_artifact list option \<Rightarrow> project list \<Rightarrow> resource_identifier list \<Rightarrow>
    prepared_configuration_identifier list \<Rightarrow> installation_dialog option" where
  "new_installation_dialog project artifacts projects executors available =
     map_option (\<lambda>selector.
       \<lparr>in_project = project, in_executors = executors, in_available = available,
        in_projects = fst (selector_on_select () selector), in_artifacts = artifacts, in_modules = Some [],
        in_configurators = [], in_grid = new_grid, in_button = sending_button True, in_shown = new_dialog True True\<rparr>)
       (new_selector (\<lambda>_. True) project_item projects None False)"

definition chosen_project :: "installation_dialog \<Rightarrow> project" where
  "chosen_project d = (case in_project d of Some p \<Rightarrow> p | None \<Rightarrow> the (selector_value (in_projects d)))"

definition validate_installation :: "installation_dialog \<Rightarrow> module_configurator \<Rightarrow> bool" where
  "validate_installation d c \<longleftrightarrow>
     validate_module_configuration (configure c) (project_id (chosen_project d)) (or_empty (in_modules d))"

text \<open>The names that a module may not have are those of the project that the selector shows.\<close>

definition new_installed ::
  "installation_dialog \<Rightarrow> assembled_artifact \<Rightarrow> module_configurator option" where
  "new_installed d artifact =
     new_module_configurator False None artifact (in_executors d)
       (map mod_name (filter (\<lambda>m. mod_project_id m = project_id (the (selector_value (in_projects d)))) (or_empty (in_modules d))))
       (in_available d) None"

definition add_artifact :: "assembled_artifact \<Rightarrow> installation_dialog \<Rightarrow> installation_dialog option" where
  "add_artifact artifact d =
     (if artifact_name artifact \<in> set (keys_value (in_grid d)) then Some d
      else
        map_option (\<lambda>c.
          d\<lparr>in_grid := fst (push_widget fst (artifact_name artifact, new_panel Plain_panel False None None) (in_grid d)),
            in_configurators := map_put (artifact_name artifact) c (in_configurators d)\<rparr>)
          (new_installed d artifact))"

fun add_artifacts :: "assembled_artifact list \<Rightarrow> installation_dialog \<Rightarrow> installation_dialog option" where
  "add_artifacts [] d = Some d"
| "add_artifacts (artifact # artifacts) d = Option.bind (add_artifact artifact d) (add_artifacts artifacts)"

definition drop_absent :: "assembled_artifact list \<Rightarrow> installation_dialog \<Rightarrow> installation_dialog" where
  "drop_absent artifacts d =
     fold (\<lambda>(key, panel) d.
       if list_ex (\<lambda>a. artifact_name a = key) artifacts then d
       else d\<lparr>in_grid := fst (remove_widget fst (key, panel) (in_grid d)),
              in_configurators := map_remove key (in_configurators d)\<rparr>)
       (grid_widgets (in_grid d)) d"

definition set_button :: "bool \<Rightarrow> installation_dialog \<Rightarrow> installation_dialog" where
  "set_button disabled d = d\<lparr>in_button := button_set_disabled disabled (in_button d)\<rparr>"

definition validate_configurations :: "installation_dialog \<Rightarrow> installation_dialog" where
  "validate_configurations d =
     (if in_configurators d = [] then set_button True d
      else if list_ex (\<lambda>c. \<not> validate_installation d c) (map_values (in_configurators d)) then set_button True d
      else set_button False d)"

text \<open>Without executors the first new configurator is an error, and nothing after it happens.\<close>

definition select_artifacts ::
  "assembled_artifact list \<Rightarrow> installation_dialog \<Rightarrow> installation_dialog \<times> installation_effect list" where
  "select_artifacts artifacts d =
     (case add_artifacts artifacts d of
        None \<Rightarrow> (d, [Installation_fails])
      | Some d1 \<Rightarrow> (validate_configurations (drop_absent artifacts d1), []))"

definition reload_artifacts :: "assembled_artifact list \<Rightarrow> installation_dialog \<Rightarrow> installation_dialog" where
  "reload_artifacts artifacts d =
     d\<lparr>in_artifacts := Some (unique artifact_name artifacts), in_configurators := [], in_grid := fst (clear_grid (in_grid d))\<rparr>"

definition configure_installed :: "string \<Rightarrow> configurator_op \<Rightarrow> installation_dialog \<Rightarrow> installation_dialog" where
  "configure_installed name op d =
     (case map_get (in_configurators d) name of
        None \<Rightarrow> d
      | Some c \<Rightarrow>
          let (c', calls) = configurator_step op c;
              d1 = d\<lparr>in_configurators := map_put name c' (in_configurators d)\<rparr>
          in if calls then set_button (\<not> validate_installation d1 c') d1 else d1)"

fun run_installation ::
  "dialog_action list \<Rightarrow> installation_dialog \<Rightarrow> installation_dialog \<times> installation_effect list" where
  "run_installation [] d = (d, [])"
| "run_installation (Send_configuration # actions) d =
     (let (d', effects) = run_installation actions d
      in (d', Install_modules (project_id (chosen_project d)) (map configure (map_values (in_configurators d))) # effects))"
| "run_installation (Close_dialog # actions) d =
     run_installation actions (d\<lparr>in_shown := fst (close_dialog (in_shown d))\<rparr>)"
| "run_installation (Tell_user # actions) d =
     (let (d', effects) = run_installation actions d in (d', Installation_told # effects))"

definition click_install :: "installation_dialog \<Rightarrow> installation_dialog \<times> installation_effect list" where
  "click_install d =
     (if dialog_shown (in_shown d) then run_installation (button_clicked (in_button d)) d else (d, []))"

definition load_installation :: "project list \<Rightarrow> installation_dialog \<Rightarrow> installation_effect list" where
  "load_installation projects d =
     Request_modules #
     (if in_artifacts d = None
      then [Request_artifacts (project_id (case in_project d of Some p \<Rightarrow> p | None \<Rightarrow> hd projects))] else [])"

definition choose_project :: "string \<Rightarrow> installation_dialog \<Rightarrow> installation_dialog \<times> installation_effect list" where
  "choose_project name d =
     (if in_project d \<noteq> None then (d, [])
      else case selector_select_item name (in_projects d) of
        Settled (s, calls) \<Rightarrow>
          (d\<lparr>in_projects := s\<rparr>, map (\<lambda>p. Request_artifacts (project_id (the p))) (values_reported calls))
      | _ \<Rightarrow> (d, []))"

datatype installation_op =
    Select_artifacts "assembled_artifact list" | Reload_artifacts "assembled_artifact list"
  | Modules_arrive "module_information list" | Choose_project string | Configure_installed string configurator_op
  | Click_install | On_install

fun installation_dialog_step ::
  "installation_op \<Rightarrow> installation_dialog \<Rightarrow> installation_dialog \<times> installation_effect list" where
  "installation_dialog_step (Select_artifacts artifacts) d = select_artifacts artifacts d"
| "installation_dialog_step (Reload_artifacts artifacts) d = (reload_artifacts artifacts d, [])"
| "installation_dialog_step (Modules_arrive modules) d = (d\<lparr>in_modules := Some modules\<rparr>, [])"
| "installation_dialog_step (Choose_project name) d = choose_project name d"
| "installation_dialog_step (Configure_installed name op) d = (configure_installed name op d, [])"
| "installation_dialog_step Click_install d = click_install d"
| "installation_dialog_step On_install d = (d\<lparr>in_button := button_on_click Tell_user (in_button d)\<rparr>, [])"

section \<open>What an installation holds and sends\<close>

text \<open>The configurators and the panels go together: the same distinct names, in the same order.\<close>

definition panels_match :: "installation_dialog \<Rightarrow> bool" where
  "panels_match d \<longleftrightarrow>
     grid_ok (in_grid d) \<and> list_all (\<lambda>item. item_key item = fst (item_widget item)) (grid_items (in_grid d)) \<and>
     map_keys (in_configurators d) = map item_key (grid_items (in_grid d)) \<and>
     distinct (map item_key (grid_items (in_grid d)))"

definition buttons_free :: "installation_dialog \<Rightarrow> bool" where
  "buttons_free d \<longleftrightarrow>
     before_update_consumers (button_disabled (in_button d)) = [] \<and>
     before_update_consumers (dialog_visible (in_shown d)) = [] \<and> clicks_ok (button_click (in_button d))"

lemma add_artifact_match:
  assumes "panels_match d" and "add_artifact artifact d = Some d'"
  shows "panels_match d'" and "set (map_keys (in_configurators d')) = insert (artifact_name artifact) (set (map_keys (in_configurators d)))"
    and "in_button d' = in_button d" and "in_shown d' = in_shown d"
proof -
  let ?name = "artifact_name artifact"
  have keys: "keys_value (in_grid d) = map_keys (in_configurators d)" using assms(1) by (simp add: panels_match_def keys_value_ok)
  note pushed = grid_ops_refine(2) [of "in_grid d" "new_grid_item fst (?name, new_panel Plain_panel False None None) (Some ?name)"]
  have own: "new_grid_item fst (?name, new_panel Plain_panel False None None) (Some ?name) =
      own_item fst (?name, new_panel Plain_panel False None None :: unit panel)"
    by (simp add: new_grid_item_def own_item_def)
  show "panels_match d'" "set (map_keys (in_configurators d')) = insert ?name (set (map_keys (in_configurators d)))"
    "in_button d' = in_button d" "in_shown d' = in_shown d"
    using assms pushed
    by (auto simp: add_artifact_def keys panels_match_def js.keys_put set_add_def push_widget_def own own_item_def
        split: if_splits)
qed

lemma add_artifacts_match:
  assumes "panels_match d" and "add_artifacts artifacts d = Some d'"
  shows "panels_match d'" and "set (map_keys (in_configurators d')) = artifact_name ` set artifacts \<union> set (map_keys (in_configurators d))"
    and "in_button d' = in_button d" and "in_shown d' = in_shown d"
proof -
  have "panels_match d' \<and> set (map_keys (in_configurators d')) = artifact_name ` set artifacts \<union> set (map_keys (in_configurators d)) \<and>
      in_button d' = in_button d \<and> in_shown d' = in_shown d"
    using assms
  proof (induction artifacts arbitrary: d)
    case (Cons a artifacts)
    then obtain e where e: "add_artifact a d = Some e" "add_artifacts artifacts e = Some d'" by (auto split: bind_splits)
    with Cons add_artifact_match [OF Cons.prems(1) e(1)] show ?case by auto
  qed simp
  then show "panels_match d'" "set (map_keys (in_configurators d')) = artifact_name ` set artifacts \<union> set (map_keys (in_configurators d))"
    "in_button d' = in_button d" "in_shown d' = in_shown d" by auto
qed

lemma without_first_distinct:
  "distinct (map f xs) \<Longrightarrow> without_first (\<lambda>x. f x = k) xs = filter (\<lambda>x. f x \<noteq> k) xs"
  by (induction xs) (auto simp: image_iff intro!: filter_True [symmetric])

lemma remove_one_match:
  assumes "panels_match d"
  shows "panels_match (d\<lparr>in_grid := fst (remove_widget fst (key, panel) (in_grid d)),
      in_configurators := map_remove key (in_configurators d)\<rparr>)"
proof -
  have distinct: "distinct (map item_key (grid_items (in_grid d)))" using assms by (simp add: panels_match_def)
  have "map item_key (filter (\<lambda>x. item_key x \<noteq> key) xs) = set_remove key (map item_key xs)"
    for xs :: "(string, string \<times> unit panel) grid_item list"
    by (induction xs) (simp_all add: set_remove_def)
  moreover note grid_remove_key [of "in_grid d" key]
  ultimately show ?thesis using assms
    by (auto simp: panels_match_def remove_widget_def without_first_distinct [OF distinct] js.keys_remove list_all_iff
        set_remove_def)
qed

lemma drop_absent_match:
  assumes "panels_match d"
  shows "panels_match (drop_absent artifacts d)"
    and "set (map_keys (in_configurators (drop_absent artifacts d))) =
      set (map_keys (in_configurators d)) \<inter> artifact_name ` set artifacts"
    and "in_button (drop_absent artifacts d) = in_button d" and "in_shown (drop_absent artifacts d) = in_shown d"
proof -
  let ?remove = "\<lambda>(key, panel) d. if list_ex (\<lambda>a. artifact_name a = key) artifacts then d
       else d\<lparr>in_grid := fst (remove_widget fst (key, panel) (in_grid d)),
              in_configurators := map_remove key (in_configurators d)\<rparr>"
  have "panels_match (fold ?remove ws d) \<and>
      set (map_keys (in_configurators (fold ?remove ws d))) =
        set (map_keys (in_configurators d)) - (fst ` set ws - artifact_name ` set artifacts) \<and>
      in_button (fold ?remove ws d) = in_button d \<and> in_shown (fold ?remove ws d) = in_shown d"
    if "panels_match d" for ws d
    using that
  proof (induction ws arbitrary: d)
    case (Cons w ws)
    obtain key panel where w: "w = (key, panel)" by (cases w)
    show ?case
    proof (cases "list_ex (\<lambda>a. artifact_name a = key) artifacts")
      case True
      with Cons.IH [OF Cons.prems] show ?thesis by (auto simp: w list_ex_iff)
    next
      case False
      with Cons.IH [OF remove_one_match [OF Cons.prems, of key panel]] show ?thesis
        by (auto simp: w js.keys_remove set_remove_def list_ex_iff)
    qed
  qed simp
  note all = this [OF assms, of "grid_widgets (in_grid d)"]
  have "fst ` set (grid_widgets (in_grid d)) = set (map_keys (in_configurators d))"
    using assms by (force simp: panels_match_def grid_widgets_def list_all_iff image_iff)
  with all show "panels_match (drop_absent artifacts d)"
    "set (map_keys (in_configurators (drop_absent artifacts d))) =
      set (map_keys (in_configurators d)) \<inter> artifact_name ` set artifacts"
    "in_button (drop_absent artifacts d) = in_button d" "in_shown (drop_absent artifacts d) = in_shown d"
    by (auto simp: drop_absent_def)
qed

lemma set_button_simps [simp]:
  "in_grid (set_button b d) = in_grid d" "in_configurators (set_button b d) = in_configurators d"
  "in_shown (set_button b d) = in_shown d" "button_click (in_button (set_button b d)) = button_click (in_button d)"
  "before_update_consumers (button_disabled (in_button (set_button b d))) = before_update_consumers (button_disabled (in_button d))"
  "panels_match (set_button b d) = panels_match d" "buttons_free (set_button b d) = buttons_free d"
  "validate_installation (set_button b d) c = validate_installation d c"
  "buttons_free d \<Longrightarrow> button_is_disabled (in_button (set_button b d)) = b"
  by (simp_all add: set_button_def panels_match_def buttons_free_def validate_installation_def chosen_project_def
      split: option.split)

lemma validate_configurations_simps [simp]:
  "panels_match (validate_configurations d) = panels_match d" "buttons_free (validate_configurations d) = buttons_free d"
  "in_configurators (validate_configurations d) = in_configurators d" "in_grid (validate_configurations d) = in_grid d"
  "validate_installation (validate_configurations d) c = validate_installation d c"
  by (simp_all add: validate_configurations_def)

lemma validate_configurations_button:
  "buttons_free d \<Longrightarrow> button_is_disabled (in_button (validate_configurations d)) \<longleftrightarrow>
     in_configurators d = [] \<or> \<not> list_all (validate_installation d) (map_values (in_configurators d))"
  by (auto simp: validate_configurations_def list_ex_iff list_all_iff)

lemma run_installation_frame [simp]:
  "in_grid (fst (run_installation actions d)) = in_grid d"
  "in_configurators (fst (run_installation actions d)) = in_configurators d"
  "in_button (fst (run_installation actions d)) = in_button d"
  "before_update_consumers (dialog_visible (in_shown (fst (run_installation actions d)))) =
     before_update_consumers (dialog_visible (in_shown d))"
proof (induction actions arbitrary: d)
  case (Cons action actions)
  { case 1 with Cons(1) show ?case by (cases action) (simp_all add: split_beta) }
  { case 2 with Cons(2) show ?case by (cases action) (simp_all add: split_beta) }
  { case 3 with Cons(3) show ?case by (cases action) (simp_all add: split_beta) }
  { case 4 with Cons(4) show ?case
      by (cases action) (simp_all add: split_beta dialog_set_visible_def) }
qed simp_all

lemma clicks_ok_tell: "clicks_ok actions \<Longrightarrow> clicks_ok (actions @ [Tell_user])"
  by (drule clicks_okE) (auto simp: clicks_ok_def)

lemma select_artifacts_result:
  assumes match: "panels_match d" and free: "buttons_free d"
  shows "panels_match (fst (select_artifacts artifacts d))" and "buttons_free (fst (select_artifacts artifacts d))"
    and "snd (select_artifacts artifacts d) = [] \<Longrightarrow>
      set (map_keys (in_configurators (fst (select_artifacts artifacts d)))) = artifact_name ` set artifacts \<and>
      (button_is_disabled (in_button (fst (select_artifacts artifacts d))) \<longleftrightarrow>
        artifacts = [] \<or> \<not> list_all (validate_installation (fst (select_artifacts artifacts d)))
          (map_values (in_configurators (fst (select_artifacts artifacts d)))))"
proof -
  have "panels_match (fst (select_artifacts artifacts d)) \<and> buttons_free (fst (select_artifacts artifacts d)) \<and>
    (snd (select_artifacts artifacts d) = [] \<longrightarrow>
      set (map_keys (in_configurators (fst (select_artifacts artifacts d)))) = artifact_name ` set artifacts \<and>
      (button_is_disabled (in_button (fst (select_artifacts artifacts d))) \<longleftrightarrow>
        artifacts = [] \<or> \<not> list_all (validate_installation (fst (select_artifacts artifacts d)))
          (map_values (in_configurators (fst (select_artifacts artifacts d))))))"
  proof (cases "add_artifacts artifacts d")
    case None
    with assms show ?thesis by (simp add: select_artifacts_def)
  next
    case (Some d1)
    note added = add_artifacts_match [OF match Some] and removed = drop_absent_match [OF add_artifacts_match(1) [OF match Some], of artifacts]
    let ?d2 = "drop_absent artifacts d1"
    have free: "buttons_free ?d2" using free added removed by (simp add: buttons_free_def)
    have names: "set (map_keys (in_configurators ?d2)) = artifact_name ` set artifacts" using added removed by auto
    then have "in_configurators ?d2 = [] \<longleftrightarrow> artifacts = []" by (auto simp: map_keys_def)
    with free names removed(1) validate_configurations_button [OF free] show ?thesis
      by (simp add: select_artifacts_def Some list_all_iff)
  qed
  then show "panels_match (fst (select_artifacts artifacts d))" "buttons_free (fst (select_artifacts artifacts d))"
    "snd (select_artifacts artifacts d) = [] \<Longrightarrow>
      set (map_keys (in_configurators (fst (select_artifacts artifacts d)))) = artifact_name ` set artifacts \<and>
      (button_is_disabled (in_button (fst (select_artifacts artifacts d))) \<longleftrightarrow>
        artifacts = [] \<or> \<not> list_all (validate_installation (fst (select_artifacts artifacts d)))
          (map_values (in_configurators (fst (select_artifacts artifacts d)))))" by auto
qed

lemma map_keys_again: "map_get m k = Some v \<Longrightarrow> map_keys (map_put k w m) = map_keys m"
  using js.lookup_keys [of m k] by (simp add: js.keys_put set_add_def)

lemma installation_dialog_step_ok:
  assumes "panels_match d \<and> buttons_free d"
  shows "panels_match (fst (installation_dialog_step op d)) \<and> buttons_free (fst (installation_dialog_step op d))"
proof (cases op)
  case (Select_artifacts artifacts)
  with assms select_artifacts_result [of d artifacts] show ?thesis by simp
next
  case (Reload_artifacts artifacts)
  with assms grid_ops_refine(6) [of "in_grid d"] show ?thesis
    by (simp add: reload_artifacts_def panels_match_def buttons_free_def map_keys_def)
next
  case (Choose_project name)
  with assms show ?thesis
    by (auto simp: choose_project_def panels_match_def buttons_free_def split: settled.split)
next
  case (Configure_installed name op)
  show ?thesis
  proof (cases "map_get (in_configurators d) name")
    case None
    with assms Configure_installed show ?thesis by (simp add: configure_installed_def)
  next
    case (Some c)
    have "panels_match (d\<lparr>in_configurators := map_put name c' (in_configurators d)\<rparr>) = panels_match d \<and>
        buttons_free (d\<lparr>in_configurators := map_put name c' (in_configurators d)\<rparr>) = buttons_free d" for c'
      by (simp add: panels_match_def buttons_free_def map_keys_again [OF Some])
    with assms Configure_installed Some show ?thesis
      by (simp add: configure_installed_def split_beta Let_def)
  qed
next
  case Click_install
  with assms show ?thesis by (simp add: click_install_def panels_match_def buttons_free_def)
next
  case On_install
  with assms show ?thesis by (simp add: panels_match_def buttons_free_def clicks_ok_tell)
qed (use assms in \<open>simp add: panels_match_def buttons_free_def\<close>)

lemma installation_run_ok:
  assumes "new_installation_dialog project given projects executors available = Some d"
  shows "panels_match (fst (emit_run installation_dialog_step ops d)) \<and> buttons_free (fst (emit_run installation_dialog_step ops d))"
proof (rule emit_run_invariant [of "\<lambda>d. panels_match d \<and> buttons_free d" installation_dialog_step])
  show "panels_match d \<and> buttons_free d"
    using assms
    by (auto simp: new_installation_dialog_def panels_match_def buttons_free_def map_keys_def new_grid_def grid_ok_def
        new_property_def sending_button_def new_button_def new_dialog_def clicks_ok_def)
qed (rule installation_dialog_step_ok)

text \<open>Only the lack of executors makes a new configurator fail, and then there never is any.\<close>

definition executors_kept :: "resource_identifier list \<Rightarrow> installation_dialog \<Rightarrow> bool" where
  "executors_kept executors d \<longleftrightarrow> in_executors d = executors \<and> (executors = [] \<longrightarrow> in_configurators d = [])"

lemma new_installed_None: "new_installed d artifact = None \<longleftrightarrow> in_executors d = []"
  by (simp add: new_installed_def new_module_configurator_def new_selector_def Let_def)

lemma add_artifact_executors:
  "add_artifact artifact d = Some d' \<Longrightarrow> executors_kept executors d \<Longrightarrow> executors_kept executors d'"
  using new_installed_None [of d artifact] by (auto simp: add_artifact_def executors_kept_def split: if_splits)

lemma add_artifacts_executors:
  "add_artifacts artifacts d = Some d' \<Longrightarrow> executors_kept executors d \<Longrightarrow> executors_kept executors d'"
  by (induction artifacts arbitrary: d) (auto split: bind_splits dest: add_artifact_executors)

lemma no_panels: "panels_match d \<Longrightarrow> in_configurators d = [] \<Longrightarrow> keys_value (in_grid d) = []"
  by (simp add: panels_match_def keys_value_ok map_keys_def)

lemma add_artifacts_None:
  assumes "panels_match d" and "executors_kept executors d"
  shows "add_artifacts artifacts d = None \<longleftrightarrow> executors = [] \<and> artifacts \<noteq> []"
  using assms
proof (induction artifacts arbitrary: d)
  case (Cons a artifacts)
  show ?case
  proof (cases "add_artifact a d")
    case None
    then have "new_installed d a = None" by (simp add: add_artifact_def split: if_splits)
    with Cons.prems(2) None show ?thesis by (simp add: new_installed_None executors_kept_def)
  next
    case (Some e)
    with Cons.prems(2) no_panels [OF Cons.prems(1)] have "executors \<noteq> []"
      using new_installed_None [of d a] by (auto simp: add_artifact_def executors_kept_def)
    with Some Cons.IH [OF add_artifact_match(1) [OF Cons.prems(1) Some] add_artifact_executors [OF Some Cons.prems(2)]]
    show ?thesis by simp
  qed
qed simp

lemma drop_absent_executors: "executors_kept executors d \<Longrightarrow> executors_kept executors (drop_absent artifacts d)"
proof -
  have "executors_kept executors (fold (\<lambda>(key, panel) d. if list_ex (\<lambda>a. artifact_name a = key) artifacts then d
       else d\<lparr>in_grid := fst (remove_widget fst (key, panel) (in_grid d)),
              in_configurators := map_remove key (in_configurators d)\<rparr>) ws d)"
    if "executors_kept executors d" for ws and d :: installation_dialog
    using that by (induction ws arbitrary: d) (auto simp: executors_kept_def map_remove_def split_beta)
  then show "executors_kept executors d \<Longrightarrow> executors_kept executors (drop_absent artifacts d)"
    by (simp add: drop_absent_def)
qed

lemma run_installation_executors:
  "executors_kept executors (fst (run_installation actions d)) = executors_kept executors d"
proof -
  have "in_executors (fst (run_installation actions d)) = in_executors d"
  proof (induction actions arbitrary: d)
    case (Cons action actions)
    then show ?case by (cases action) (simp_all add: split_beta)
  qed simp
  then show ?thesis by (simp add: executors_kept_def)
qed

lemma set_button_executors [simp]:
  "executors_kept executors (set_button b d) = executors_kept executors d"
  "executors_kept executors (validate_configurations d) = executors_kept executors d"
  by (simp_all add: set_button_def validate_configurations_def executors_kept_def)

lemma installation_step_executors:
  assumes "executors_kept executors d"
  shows "executors_kept executors (fst (installation_dialog_step op d))"
proof (cases op)
  case (Select_artifacts artifacts)
  with assms show ?thesis
    by (auto simp: select_artifacts_def intro: drop_absent_executors add_artifacts_executors split: option.split)
next
  case (Choose_project name)
  with assms show ?thesis by (auto simp: choose_project_def executors_kept_def split: settled.split)
next
  case (Configure_installed name op)
  with assms show ?thesis
    by (auto simp: configure_installed_def executors_kept_def set_button_def split_beta Let_def map_get_def split: option.split)
next
  case Click_install
  with assms show ?thesis by (simp add: click_install_def run_installation_executors)
qed (use assms in \<open>simp_all add: executors_kept_def reload_artifacts_def\<close>)

lemma installation_run_executors:
  assumes "new_installation_dialog project given projects executors available = Some d"
  shows "executors_kept executors (fst (emit_run installation_dialog_step ops d))"
proof (rule emit_run_invariant [of "executors_kept executors" installation_dialog_step])
  show "executors_kept executors d"
    using assms by (auto simp: new_installation_dialog_def executors_kept_def)
qed (rule installation_step_executors)

text \<open>
  C5. Wherever the user of the installation dialog is, choosing artifacts leaves one configurator and one panel for each
  name among them, the panels in the order of the configurators, whatever was chosen before; and the button is enabled
  exactly if there is one and all of them are valid. The choice fails exactly if there are no executors and at least
  one artifact is chosen, and then it changes nothing.
\<close>
theorem chosen_artifacts_configured:
  assumes "new_installation_dialog project given projects executors available = Some d"
  shows "let before = fst (emit_run installation_dialog_step ops d);
      (s, effects) = select_artifacts artifacts before
    in map_keys (in_configurators s) = map fst (grid_widgets (in_grid s)) \<and> distinct (map_keys (in_configurators s)) \<and>
      (if executors = [] \<and> artifacts \<noteq> [] then effects = [Installation_fails] \<and> s = before
       else effects = [] \<and>
         set (map_keys (in_configurators s)) = artifact_name ` set artifacts \<and>
         (button_is_disabled (in_button s) \<longleftrightarrow>
            artifacts = [] \<or> \<not> list_all (validate_installation s) (map_values (in_configurators s))))"
proof -
  let ?d = "fst (emit_run installation_dialog_step ops d)"
  have ok: "panels_match ?d" "buttons_free ?d" using installation_run_ok [OF assms, of ops] by auto
  note chosen = select_artifacts_result [OF ok, of artifacts]
  have "map item_key items = map (fst \<circ> item_widget) items" if "list_all (\<lambda>item. item_key item = fst (item_widget item)) items"
    for items :: "(string, string \<times> unit panel) grid_item list" using that by (induction items) simp_all
  from this [of "grid_items (in_grid (fst (select_artifacts artifacts ?d)))"] chosen(1)
  have "map_keys (in_configurators (fst (select_artifacts artifacts ?d))) =
      map fst (grid_widgets (in_grid (fst (select_artifacts artifacts ?d))))"
    unfolding panels_match_def grid_widgets_def by simp
  moreover have "distinct (map_keys (in_configurators (fst (select_artifacts artifacts ?d))))"
    using chosen(1) unfolding panels_match_def by simp
  moreover note fails = add_artifacts_None [OF ok(1) installation_run_executors [OF assms], of artifacts]
  moreover have "select_artifacts artifacts ?d = (?d, [Installation_fails])" if "executors = []" "artifacts \<noteq> []"
    using that fails by (simp add: select_artifacts_def)
  moreover have "snd (select_artifacts artifacts ?d) = []" if "\<not> (executors = [] \<and> artifacts \<noteq> [])"
    using that fails by (auto simp: select_artifacts_def split: option.split)
  ultimately show ?thesis using chosen(3) by (auto simp: Let_def split_beta)
qed

text \<open>
  C6. Once several modules are chosen the dialog installs invalid configurations: a change of one configurator that
  makes it valid enables the button, whatever the others are, and then all of them are sent.
\<close>
theorem installation_ignores_others:
  assumes "new_installation_dialog project given projects executors available = Some d0"
    and "d = fst (emit_run installation_dialog_step ops d0)" and "dialog_shown (in_shown d)"
    and "map_get (in_configurators d) name = Some c" and "snd (configurator_step op c)"
    and "validate_installation d (fst (configurator_step op c))"
    and "map_get (in_configurators d) other = Some c'" and "other \<noteq> name" and "\<not> validate_installation d c'"
  shows "\<exists>configurations. Install_modules (project_id (chosen_project d)) configurations \<in>
      set (snd (emit_run installation_dialog_step [Configure_installed name op, Click_install] d)) \<and>
    \<not> list_all (\<lambda>x. validate_module_configuration x (project_id (chosen_project d)) (or_empty (in_modules d))) configurations"
proof -
  let ?e = "d\<lparr>in_configurators := map_put name (fst (configurator_step op c)) (in_configurators d)\<rparr>"
  have ok: "buttons_free d" using installation_run_ok [OF assms(1), of ops] assms(2) by simp
  have same: "validate_installation ?e = validate_installation d" "chosen_project ?e = chosen_project d"
    by (simp_all add: fun_eq_iff validate_installation_def chosen_project_def split: option.split)
  have free: "buttons_free ?e" using ok by (simp add: buttons_free_def)
  have step: "configure_installed name op d = set_button False ?e"
    using assms(4-6) same by (simp add: configure_installed_def split_beta Let_def)
  obtain n where clicks: "button_click (in_button d) = Send_configuration # Close_dialog # replicate n Tell_user"
    using ok clicks_okE by (auto simp: buttons_free_def)
  have shown: "dialog_shown (in_shown (set_button False ?e))" using assms(3) by simp
  have chosen: "chosen_project (set_button False ?e) = chosen_project d"
    by (simp add: set_button_def chosen_project_def split: option.split)
  have "map_get (in_configurators ?e) other = Some c'" using assms(7,8) by simp
  then have "c' \<in> set (map_values (in_configurators ?e))"
    by (force simp: map_get_def map_values_def dest: map_of_SomeD)
  then have "\<not> list_all (\<lambda>x. validate_module_configuration x (project_id (chosen_project d)) (or_empty (in_modules d)))
      (map configure (map_values (in_configurators ?e)))"
    using assms(9) by (auto simp: list_all_iff validate_installation_def)
  moreover have "Install_modules (project_id (chosen_project d)) (map configure (map_values (in_configurators ?e)))
      \<in> set (snd (installation_dialog_step Click_install (set_button False ?e)))"
    using free shown by (simp add: click_install_def button_clicked_def event_execute_def comp_def clicks split_beta chosen)
  ultimately show ?thesis by (auto simp: step)
qed

definition snapshot_artifact :: assembled_artifact where
  "snapshot_artifact = sample_artifact\<lparr>artifact_name := ''lib'', artifact_version := ''1-SNAPSHOT''\<rparr>"

definition sample_installation :: installation_dialog where
  "sample_installation = the (new_installation_dialog (Some sample_project) (Some [sample_artifact, snapshot_artifact])
     [sample_project] [sample_resource] [])"

lemma sample_installation_new:
  "new_installation_dialog (Some sample_project) (Some [sample_artifact, snapshot_artifact]) [sample_project]
     [sample_resource] [] = Some sample_installation"
  by (simp add: sample_installation_def new_installation_dialog_def new_selector_def Let_def)

definition sample_chosen :: installation_dialog where
  "sample_chosen = fst (emit_run installation_dialog_step [Select_artifacts [sample_artifact, snapshot_artifact]] sample_installation)"

definition sample_configurator :: "assembled_artifact \<Rightarrow> module_configurator" where
  "sample_configurator artifact = the (new_installed sample_installation artifact)"

lemma sample_configurator_new: "new_installed sample_installation artifact = Some (sample_configurator artifact)"
  by (simp add: sample_configurator_def new_installed_def new_module_configurator_def new_selector_def Let_def
      sample_installation_def new_installation_dialog_def)

theorem chosen_artifacts_configured_witness:
  "let (s, effects) = select_artifacts [snapshot_artifact] (fst (emit_run installation_dialog_step
      [Select_artifacts [sample_artifact, snapshot_artifact]] sample_installation))
   in effects = [] \<and> set (map_keys (in_configurators s)) = {''lib''}"
proof -
  have some: "\<not> ([sample_resource] = [] \<and> [snapshot_artifact] \<noteq> [])" by simp
  have names: "artifact_name ` set [snapshot_artifact] = {''lib''}" by (simp add: snapshot_artifact_def)
  from chosen_artifacts_configured [OF sample_installation_new,
      of "[Select_artifacts [sample_artifact, snapshot_artifact]]" "[snapshot_artifact]",
      unfolded Let_def split_beta if_not_P [OF some] names]
  show ?thesis unfolding Let_def split_beta by (elim conjE) (intro conjI)
qed

lemma sample_configurator_parts:
  "cf_name (sample_configurator artifact) = Some (name_field [] (default_name artifact))"
  "cf_panels (sample_configurator artifact) = new_panels None None"
  "cf_parameters (sample_configurator artifact) = plain_text None None None"
  by (simp_all add: sample_configurator_def new_installed_def new_module_configurator_def new_selector_def Let_def name_or_def
      sample_installation_def new_installation_dialog_def or_empty_def)

lemma new_installed_frame [simp]:
  "new_installed (d\<lparr>in_grid := g, in_configurators := cs\<rparr>) = new_installed d"
  by (simp add: new_installed_def fun_eq_iff)

lemma sample_chosen_parts:
  "in_configurators sample_chosen =
     [(''app'', sample_configurator sample_artifact), (''lib'', sample_configurator snapshot_artifact)]"
  "in_project sample_chosen = Some sample_project" "in_modules sample_chosen = Some []"
  "dialog_shown (in_shown sample_chosen)"
proof -
  have d: "in_project sample_installation = Some sample_project" "in_modules sample_installation = Some []"
    "dialog_shown (in_shown sample_installation)" "in_configurators sample_installation = []"
    "in_grid sample_installation = new_grid"
    by (simp_all add: sample_installation_def new_installation_dialog_def new_selector_def Let_def dialog_shown_def
        new_dialog_def new_property_def)
  have names: "artifact_name sample_artifact = ''app''" "artifact_name snapshot_artifact = ''lib''"
    by (simp_all add: sample_artifact_def snapshot_artifact_def)
  have frame: "in_project (validate_configurations e) = in_project e" "in_modules (validate_configurations e) = in_modules e"
    "in_shown (validate_configurations e) = in_shown e" for e
    by (simp_all add: validate_configurations_def set_button_def)
  obtain g where added: "add_artifacts [sample_artifact, snapshot_artifact] sample_installation =
      Some (sample_installation\<lparr>in_grid := g, in_configurators :=
        [(''app'', sample_configurator sample_artifact), (''lib'', sample_configurator snapshot_artifact)]\<rparr>)"
    and widgets: "map fst (grid_widgets g) = [''app'', ''lib'']"
    by (simp add: add_artifact_def d sample_configurator_new names push_widget_def push_item_def set_keys_def split_beta
        new_grid_def new_grid_item_def keys_value_def new_property_def property_set_def prevented_def map_put_def grid_widgets_def)
  have "drop_absent [sample_artifact, snapshot_artifact] e = e" if "grid_widgets (in_grid e) = grid_widgets g" for e
  proof -
    from widgets obtain p q where "grid_widgets g = [(''app'', p), (''lib'', q)]" by (auto simp: map_eq_Cons_conv)
    with that show ?thesis by (simp add: drop_absent_def names)
  qed
  then show "in_configurators sample_chosen =
     [(''app'', sample_configurator sample_artifact), (''lib'', sample_configurator snapshot_artifact)]"
    "in_project sample_chosen = Some sample_project" "in_modules sample_chosen = Some []"
    "dialog_shown (in_shown sample_chosen)"
    by (simp_all add: sample_chosen_def select_artifacts_def added d frame del: add_artifacts.simps)
qed

theorem installation_ignores_others_witness:
  "\<exists>configurations. Install_modules (project_id (chosen_project sample_chosen)) configurations \<in>
      set (snd (emit_run installation_dialog_step [Configure_installed ''app'' (Type_parameters ''-x''), Click_install] sample_chosen)) \<and>
    \<not> list_all (\<lambda>x. validate_module_configuration x (project_id (chosen_project sample_chosen))
      (or_empty (in_modules sample_chosen))) configurations"
proof (rule installation_ignores_others [OF sample_installation_new sample_chosen_def])
  let ?c = "sample_configurator sample_artifact" and ?c' = "sample_configurator snapshot_artifact"
  let ?e = "fst (configurator_step (Type_parameters ''-x'') ?c)"
  show "dialog_shown (in_shown sample_chosen)" by (rule sample_chosen_parts)
  show "map_get (in_configurators sample_chosen) ''app'' = Some ?c" "map_get (in_configurators sample_chosen) ''lib'' = Some ?c'"
    by (simp_all add: sample_chosen_parts map_get_def)
  have typed: "snd (edit_field ''-x'' (plain_text None None None))" by code_simp
  then show "snd (configurator_step (Type_parameters ''-x'') ?c)"
    by (simp add: type_parameters_def sample_configurator_parts split_beta)
  have no_part: "\<not> part_checked part (sample_configurator artifact)" for part artifact
    using new_panels_unchecked [of "sample_module []" part]
    by (cases part) (simp_all add: part_checked_def sample_configurator_parts sample_module_def truthy_array_def)
  have named: "configure_name (sample_configurator artifact) = default_name artifact" for artifact
    by (simp add: configure_name_def sample_configurator_parts name_field_def plain_text_def text_of_def name_or_def)
      (simp add: default_name_def)
  have "\<not> part_checked part ?e" for part
    using no_part [of part sample_artifact] by (simp add: type_parameters_def part_checked_def split_beta)
  moreover have "configure_name ?e = default_name sample_artifact"
    using named [of sample_artifact] by (simp add: type_parameters_def configure_name_def split_beta)
  moreover have "module_name_ok (default_name sample_artifact) 1 []" by code_simp
  ultimately show "validate_installation sample_chosen ?e"
    by (simp add: validate_installation_def validate_unchecked sample_chosen_parts or_empty_def chosen_project_def sample_project_def Let_def)
  have "\<not> module_name_ok (default_name snapshot_artifact) 1 []" by code_simp
  then show "\<not> validate_installation sample_chosen ?c'"
    by (simp add: validate_installation_def validate_unchecked no_part named sample_chosen_parts or_empty_def
        chosen_project_def sample_project_def Let_def)
qed simp

end
