(* ===== verification/Saving_Dialogs.thy ===== *)
theory Saving_Dialogs
  imports Managed_Panels Platform_Collections
begin

text \<open>
  What the dialogs with a button that saves have in common: they close when they save, and their button is enabled only
  over what may be sent. The contract is the locale \<open>saving_dialog\<close>; the dialogs of resources, projects, applications and
  configurations are its interpretations.
\<close>

section \<open>A dialog that empties its fields when it closes\<close>

definition closing_dialog :: "unit dialog" where
  "closing_dialog = fst (dialog_on_close () (new_dialog True True))"

definition closing_frame :: "unit dialog \<Rightarrow> bool" where
  "closing_frame shown \<longleftrightarrow>
     before_update_consumers (dialog_visible shown) = [] \<and> after_update_consumers (dialog_visible shown) = [On_close ()]"

lemma closing_dialog_frame [simp]: "closing_frame closing_dialog" "dialog_shown closing_dialog"
  by (simp_all add: closing_frame_def closing_dialog_def dialog_on_close_def new_dialog_def property_consume_def
      new_property_def dialog_shown_def)

lemma close_dialog_frame:
  assumes "closing_frame shown"
  shows "closing_frame (fst (close_dialog shown))" and "\<not> dialog_shown (fst (close_dialog shown))"
    and "snd (close_dialog shown) = [] \<longleftrightarrow> property_value (dialog_visible shown) = Some False"
    and "snd (close_dialog shown) = [] \<Longrightarrow> \<not> dialog_shown shown"
  using assms
  by (auto simp: closing_frame_def dialog_set_visible_def split_beta property_set_def prevented_def notify_updated_def
      dialog_shown_def split: option.splits if_splits)

section \<open>Typing in a field\<close>

lemma typed_text:
  assumes "before_update_consumers (field_text f) = []" and "field_mask f = None"
  shows "text_of (fst (field_set_text v f)) = v" and "property_value (field_text (fst (field_set_text v f))) = Some v"
  using assms by (auto simp: field_set_text_def Let_def split_beta mismatch_def field_set_error_def text_of_def)

text \<open>An error that the field shows at least where its text is not what its expression asks for.\<close>

definition field_fine :: "unit text_field \<Rightarrow> bool" where
  "field_fine f \<longleftrightarrow>
     before_update_consumers (field_error f) = [] \<and>
     (before_update_consumers (field_text f) = [] \<or>
       field_mask f = field_regexp f \<and> \<not> mismatch (text_of f) (field_mask f)) \<and>
     (mismatch (text_of f) (field_regexp f) \<longrightarrow> error_of f)"

lemma field_fine_set: "field_fine f \<Longrightarrow> field_fine (fst (field_set_text v f))"
  by (auto simp: field_fine_def field_set_text_def Let_def split_beta field_set_error_def text_of_def error_of_def
      property_set_def prevented_def split: option.splits if_splits)

lemma field_fine_error: "field_fine f \<Longrightarrow> error_shown e \<Longrightarrow> field_fine (fst (field_set_error e f))"
  by (auto simp: field_fine_def field_set_error_def split_beta text_of_def error_of_def)

lemma field_fine_new [simp]: "field_fine (new_text_field None False False r None p t)"
  by (simp add: field_fine_def mismatch_def) (simp add: new_text_field_def new_property_def)

section \<open>Saving once\<close>

text \<open>
  \<open>ok\<close> is the dialog's invariant, \<open>allowed\<close> the operations it survives and \<open>accepted\<close> what may be sent;
  \<open>sends\<close> tells requests from other effects. An operation that sends something closes the dialog, and a closed dialog sends nothing and stays closed.
\<close>

locale saving_dialog =
  fixes step :: "'op \<Rightarrow> 'd \<Rightarrow> 'd \<times> 'e list"
    and ok :: "'d \<Rightarrow> bool"
    and allowed :: "'op \<Rightarrow> bool"
    and accepted :: "'e \<Rightarrow> bool"
    and sends :: "'e \<Rightarrow> bool"
    and shown :: "'d \<Rightarrow> bool"
  assumes step_ok: "ok d \<Longrightarrow> allowed op \<Longrightarrow> ok (fst (step op d))"
    and step_accepted: "ok d \<Longrightarrow> allowed op \<Longrightarrow> list_all accepted (snd (step op d))"
    and step_closes: "ok d \<Longrightarrow> allowed op \<Longrightarrow>
      length (filter sends (snd (step op d))) + of_bool (shown (fst (step op d))) \<le> (of_bool (shown d) :: nat)"
begin

lemma run_saved:
  "ok d \<Longrightarrow> list_all allowed ops \<Longrightarrow>
   ok (fst (emit_run step ops d)) \<and> list_all accepted (snd (emit_run step ops d)) \<and>
   length (filter sends (snd (emit_run step ops d))) + of_bool (shown (fst (emit_run step ops d))) \<le> (of_bool (shown d) :: nat)"
proof (induction ops arbitrary: d)
  case (Cons op ops)
  then have op: "allowed op" "list_all allowed ops" by simp_all
  show ?case
    using Cons.IH [OF step_ok [OF Cons.prems(1) op(1)] op(2)] step_accepted [OF Cons.prems(1) op(1)]
      step_closes [OF Cons.prems(1) op(1)]
    by simp
qed simp

lemma saved_once:
  assumes "ok d" and "list_all allowed ops"
  shows "list_all accepted (snd (emit_run step ops d))" and "length (filter sends (snd (emit_run step ops d))) \<le> 1"
  using run_saved [OF assms] by (auto simp: of_bool_def split: if_splits)

end

end
