(* ===== verification/Resource_Dialogs.thy ===== *)
theory Resource_Dialogs
  imports Saving_Dialogs Regexps Catalog
begin

text \<open>
  The dialogs that add and change a resource, \<open>component/embeddable/resource/ResourceAdditionDialog.ts\<close> and
  \<open>ResourceEditingDialog.ts\<close>, with the fields of the four types of resources, \<open>OpenShiftResourceFields.ts\<close>,
  \<open>GitResourceFields.ts\<close>, \<open>ArtifactsResourceFields.ts\<close> and \<open>ProxyResourceFields.ts\<close>. The object that is sent is its name
  and the values of the fields under their keys.
\<close>

section \<open>Fields\<close>

text \<open>The mapper of a value: only the port of a proxy is sent as a number.\<close>

record resource_field =
  rf_field :: "unit text_field"
  rf_required :: bool
  rf_number :: bool

definition resource_text :: "rx \<Rightarrow> bool \<Rightarrow> resource_field" where
  "resource_text r required =
     \<lparr>rf_field = new_text_field None False False (Some (matches r)) None None None, rf_required = required,
      rf_number = False\<rparr>"

definition password_text :: "bool \<Rightarrow> resource_field" where
  "password_text required =
     \<lparr>rf_field = new_text_field None False False (Some (matches PASSWORD_REGEX)) None (Some True) None,
      rf_required = required, rf_number = False\<rparr>"

definition proxy_port :: resource_field where
  "proxy_port =
     \<lparr>rf_field = field_prevent no_leading_zero
        (new_text_field None False False (Some (matches PORT_REGEX)) (Some (matches PORT_REGEX)) None None),
      rf_required = False, rf_number = True\<rparr>"

definition open_shift_fields :: "(string, resource_field) js_map" where
  "open_shift_fields =
     [(''apiUrl'', resource_text URL_REGEX True), (''privateRegistryUrl'', resource_text URL_WITHOUT_SCHEME_REGEX True),
      (''applicationsDomain'', resource_text HOST_NAME_REGEX True), (''userName'', resource_text USER_NAME_REGEX True),
      (''password'', password_text True)]"

definition git_fields :: "(string, resource_field) js_map" where
  "git_fields =
     [(''url'', resource_text GIT_URL_REGEX True), (''userName'', resource_text USER_NAME_REGEX False),
      (''password'', password_text False)]"

definition artifacts_fields :: "(string, resource_field) js_map" where
  "artifacts_fields =
     [(''url'', resource_text URL_WITHOUT_SCHEME_REGEX True), (''userName'', resource_text USER_NAME_REGEX False),
      (''password'', password_text False)]"

definition proxy_fields :: "(string, resource_field) js_map" where
  "proxy_fields =
     [(''host'', resource_text HOST_NAME_AND_IP_REGEX True), (''port'', proxy_port),
      (''userName'', resource_text USER_NAME_REGEX False), (''password'', password_text False)]"

definition resource_fields :: "string \<Rightarrow> (string, resource_field) js_map" where
  "resource_fields type =
     (if type = OPEN_SHIFT_RESOURCE then open_shift_fields
      else if type = GIT_RESOURCE then git_fields
      else if type = ARTIFACTS_RESOURCE then artifacts_fields
      else if type = PROXY_RESOURCE then proxy_fields
      else [])"

section \<open>The dialogs\<close>

text \<open>\<open>rd_own\<close> is the resource that is changed, its identifier and its name.\<close>

record resource_dialog =
  rd_type :: string
  rd_own :: "(int \<times> string) option"
  rd_ids :: "resource_identifier list"
  rd_name :: "unit text_field"
  rd_fields :: "(string, resource_field) js_map"
  rd_button :: "unit button"
  rd_shown :: "unit dialog"

datatype sent_value = Sent_text "string option" | Sent_number "string option"

record sent_resource =
  sent_type :: string
  sent_id :: "int option"
  sent_name :: "string option"
  sent_values :: "(string \<times> sent_value) list"

datatype resource_effect = Request_ids | Add_resource sent_resource | Update_resource sent_resource

definition resource_name_field :: "string option \<Rightarrow> unit text_field" where
  "resource_name_field name = new_text_field name False False (Some (matches ENTITY_NAME_REGEX)) None None None"

definition new_resource_addition :: "string \<Rightarrow> resource_dialog \<times> resource_effect list" where
  "new_resource_addition type =
     (\<lparr>rd_type = type, rd_own = None, rd_ids = [], rd_name = resource_name_field None, rd_fields = resource_fields type,
       rd_button = new_button True, rd_shown = closing_dialog\<rparr>, [Request_ids])"

text \<open>The fields of a changed resource start with its texts; a property it does not have leaves \<open>undefined\<close>.\<close>

definition start_field :: "string option \<Rightarrow> unit text_field \<Rightarrow> unit text_field" where
  "start_field v f =
     (case v of
        Some text \<Rightarrow> fst (field_set_text text f)
      | None \<Rightarrow>
          (let f1 = fst (field_set_error \<lparr>error_shown = False, error_text = field_default_error f\<rparr> f)
           in f1\<lparr>field_text := fst (property_set (=) None (field_text f1))\<rparr>))"

definition resource_duplicate :: "resource_dialog \<Rightarrow> bool" where
  "resource_duplicate d \<longleftrightarrow>
     list_ex (\<lambda>i. rid_type i = rd_type d \<and> property_value (field_text (rd_name d)) = Some (rid_name i) \<and>
       (case rd_own d of None \<Rightarrow> True | Some (_, name) \<Rightarrow> rid_name i \<noteq> name)) (rd_ids d)"

definition validate_resource_duplicates :: "resource_dialog \<Rightarrow> resource_dialog" where
  "validate_resource_duplicates d =
     (if resource_duplicate d
      then d\<lparr>rd_name := fst (field_set_error \<lparr>error_shown = True, error_text = Some []\<rparr> (rd_name d))\<rparr> else d)"

definition resource_disabled :: "resource_dialog \<Rightarrow> bool" where
  "resource_disabled d \<longleftrightarrow>
     text_of (rd_name d) = [] \<or> list_ex (\<lambda>r. rf_required r \<and> text_of (rf_field r) = []) (map_values (rd_fields d)) \<or>
     error_of (rd_name d) \<or> list_ex (\<lambda>r. error_of (rf_field r)) (map_values (rd_fields d))"

definition validate_resource :: "resource_dialog \<Rightarrow> resource_dialog" where
  "validate_resource d =
     (let d1 = validate_resource_duplicates d
      in d1\<lparr>rd_button := button_set_disabled (resource_disabled d1) (rd_button d1)\<rparr>)"

text \<open>
  A field that was set calls its consumer as soon as that is registered, so the dialog validates while its fields are
  still being filled, before the identifiers are known.
\<close>

definition fill_resource_field :: "(string \<Rightarrow> string option) \<Rightarrow> string \<Rightarrow> resource_dialog \<Rightarrow> resource_dialog" where
  "fill_resource_field texts key d =
     (case map_get (rd_fields d) key of
        None \<Rightarrow> d
      | Some r \<Rightarrow>
          let f = start_field (texts key) (rf_field r);
              d1 = d\<lparr>rd_fields := map_put key (r\<lparr>rf_field := f\<rparr>) (rd_fields d)\<rparr>
          in if property_pending (field_text f) \<noteq> None then validate_resource d1 else d1)"

definition new_resource_editing ::
  "string \<Rightarrow> int \<Rightarrow> string \<Rightarrow> (string \<Rightarrow> string option) \<Rightarrow> resource_dialog \<times> resource_effect list" where
  "new_resource_editing type i name texts =
     (fold (fill_resource_field texts) (map_keys (resource_fields type))
       \<lparr>rd_type = type, rd_own = Some (i, name), rd_ids = [], rd_name = resource_name_field (Some name),
        rd_fields = resource_fields type, rd_button = new_button True, rd_shown = closing_dialog\<rparr>, [Request_ids])"

definition type_resource_name :: "string \<Rightarrow> resource_dialog \<Rightarrow> resource_dialog" where
  "type_resource_name v d =
     (let (f, changed) = edit_field v (rd_name d); d1 = d\<lparr>rd_name := f\<rparr> in if changed then validate_resource d1 else d1)"

definition type_resource_field :: "string \<Rightarrow> string \<Rightarrow> resource_dialog \<Rightarrow> resource_dialog" where
  "type_resource_field key v d =
     (case map_get (rd_fields d) key of
        None \<Rightarrow> d
      | Some r \<Rightarrow>
          let (f, changed) = edit_field v (rf_field r);
              d1 = d\<lparr>rd_fields := map_put key (r\<lparr>rf_field := f\<rparr>) (rd_fields d)\<rparr>
          in if changed then validate_resource d1 else d1)"

text \<open>The action of \<open>onClose\<close> empties the fields.\<close>

definition close_resource_dialog :: "resource_dialog \<Rightarrow> resource_dialog" where
  "close_resource_dialog d =
     (let (shown, calls) = close_dialog (rd_shown d); d1 = d\<lparr>rd_shown := shown\<rparr>
      in if calls = [] then d1
         else fold (\<lambda>key. type_resource_field key []) (map_keys (rd_fields d1)) (type_resource_name [] d1))"

definition sent_of :: "resource_dialog \<Rightarrow> sent_resource" where
  "sent_of d =
     \<lparr>sent_type = rd_type d, sent_id = map_option fst (rd_own d), sent_name = property_value (field_text (rd_name d)),
      sent_values = map (\<lambda>(key, r). (key,
        (if rf_number r then Sent_number else Sent_text) (property_value (field_text (rf_field r))))) (rd_fields d)\<rparr>"

definition known_type :: "string \<Rightarrow> bool" where
  "known_type type \<longleftrightarrow> type \<in> {OPEN_SHIFT_RESOURCE, GIT_RESOURCE, ARTIFACTS_RESOURCE, PROXY_RESOURCE}"

text \<open>\<open>button.click\<close>: by the mouse, or by the timer that a press of the enter key starts.\<close>

definition save_resource :: "resource_dialog \<Rightarrow> resource_dialog \<times> resource_effect list" where
  "save_resource d =
     (if button_is_disabled (rd_button d) then (d, [])
      else (close_resource_dialog d,
        if known_type (rd_type d)
        then [(case rd_own d of None \<Rightarrow> Add_resource | Some _ \<Rightarrow> Update_resource) (sent_of d)] else []))"

datatype resource_op =
    Type_resource_name string | Type_resource_field string string | Ids_arrive "resource_identifier list"
  | Save_resource | Close_resource

text \<open>Only a dialog that is shown can be typed in.\<close>

fun resource_step :: "resource_op \<Rightarrow> resource_dialog \<Rightarrow> resource_dialog \<times> resource_effect list" where
  "resource_step (Type_resource_name v) d = (if dialog_shown (rd_shown d) then type_resource_name v d else d, [])"
| "resource_step (Type_resource_field key v) d =
     (if dialog_shown (rd_shown d) then type_resource_field key v d else d, [])"
| "resource_step (Ids_arrive ids) d = (validate_resource_duplicates (d\<lparr>rd_ids := ids\<rparr>), [])"
| "resource_step Save_resource d = save_resource d"
| "resource_step Close_resource d = (close_resource_dialog d, [])"

section \<open>What is sent\<close>

definition same_fields :: "(string, resource_field) js_map \<Rightarrow> (string, resource_field) js_map \<Rightarrow> bool" where
  "same_fields xs ys \<longleftrightarrow>
     list_all2 (\<lambda>(key, r) (key', r'). key = key' \<and> rf_required r = rf_required r' \<and> rf_number r = rf_number r' \<and>
       field_regexp (rf_field r) = field_regexp (rf_field r') \<and> field_fine (rf_field r)) xs ys"

lemma proxy_port_fine: "field_fine (rf_field proxy_port)"
  by (simp add: proxy_port_def field_prevent_def field_fine_def mismatch_def)
    (simp add: property_prevent_def new_text_field_def new_property_def text_of_def)

lemma same_fields_new: "same_fields (resource_fields type) (resource_fields type)"
  by (simp add: same_fields_def resource_fields_def open_shift_fields_def git_fields_def artifacts_fields_def
      proxy_fields_def resource_text_def password_text_def proxy_port_fine)

lemma same_fields_put:
  assumes "same_fields xs ys" and "map_get xs key = Some r" and "field_fine f" and "field_regexp f = field_regexp (rf_field r)"
  shows "same_fields (map_put key (r\<lparr>rf_field := f\<rparr>) xs) ys"
proof -
  have "list_all2 P xs ys \<Longrightarrow> map_of xs key = Some r \<Longrightarrow> (\<And>y. P (key, r) y \<Longrightarrow> P (key, w) y) \<Longrightarrow>
      list_all2 P (AList.update key w xs) ys" for w and P :: "string \<times> resource_field \<Rightarrow> string \<times> resource_field \<Rightarrow> bool"
  proof (induction xs arbitrary: ys)
    case (Cons x xs)
    then show ?case by (cases x; cases ys) (auto split: if_splits)
  qed simp
  from this [of "\<lambda>(key, r) (key', r'). key = key' \<and> rf_required r = rf_required r' \<and> rf_number r = rf_number r' \<and>
       field_regexp (rf_field r) = field_regexp (rf_field r') \<and> field_fine (rf_field r)" "r\<lparr>rf_field := f\<rparr>"] assms
  show ?thesis by (auto simp: same_fields_def map_get_def map_put_def)
qed

lemma duplicates_frame [simp]:
  "rd_type (validate_resource_duplicates d) = rd_type d" "rd_own (validate_resource_duplicates d) = rd_own d"
  "rd_ids (validate_resource_duplicates d) = rd_ids d" "rd_fields (validate_resource_duplicates d) = rd_fields d"
  "rd_button (validate_resource_duplicates d) = rd_button d" "rd_shown (validate_resource_duplicates d) = rd_shown d"
  "field_text (rd_name (validate_resource_duplicates d)) = field_text (rd_name d)"
  "field_regexp (rd_name (validate_resource_duplicates d)) = field_regexp (rd_name d)"
  "field_mask (rd_name (validate_resource_duplicates d)) = field_mask (rd_name d)"
  "resource_duplicate (validate_resource_duplicates d) = resource_duplicate d"
  "field_fine (rd_name d) \<Longrightarrow> field_fine (rd_name (validate_resource_duplicates d))"
  "field_fine (rd_name d) \<Longrightarrow> resource_duplicate d \<Longrightarrow> error_of (rd_name (validate_resource_duplicates d))"
  by (auto simp: validate_resource_duplicates_def field_fine_error resource_duplicate_def field_set_error_def split_beta
      field_fine_def error_of_def text_of_def split: option.split)

text \<open>
  The invariant of the dialog that adds: its fields are those of its type, an enabled button stands for texts that
  are complete, match and do not name another resource, and a closed dialog is empty. What holds before a validation
  holds after it, and then the button tells the truth.
\<close>

definition fields_ok :: "string \<Rightarrow> resource_identifier list \<Rightarrow> resource_dialog \<Rightarrow> bool" where
  "fields_ok type ids d \<longleftrightarrow>
     rd_type d = type \<and> rd_own d = None \<and> rd_ids d = ids \<and> same_fields (rd_fields d) (resource_fields type) \<and>
     field_fine (rd_name d) \<and> field_regexp (rd_name d) = Some (matches ENTITY_NAME_REGEX) \<and>
     before_update_consumers (field_text (rd_name d)) = [] \<and> field_mask (rd_name d) = None \<and>
     before_update_consumers (button_disabled (rd_button d)) = [] \<and>
     closing_frame (rd_shown d)"

definition addition_ok :: "string \<Rightarrow> resource_identifier list \<Rightarrow> resource_dialog \<Rightarrow> bool" where
  "addition_ok type ids d \<longleftrightarrow> fields_ok type ids d \<and>
     (button_is_disabled (rd_button d) \<or> \<not> resource_disabled d \<and> \<not> resource_duplicate d) \<and>
     (dialog_shown (rd_shown d) \<or> button_is_disabled (rd_button d))"

lemma validate_resource_result:
  assumes "fields_ok type ids d"
  shows "fields_ok type ids (validate_resource d)"
    and "button_is_disabled (rd_button (validate_resource d)) \<or>
      \<not> resource_disabled (validate_resource d) \<and> \<not> resource_duplicate (validate_resource d)"
    and "text_of (rd_name d) = [] \<Longrightarrow> button_is_disabled (rd_button (validate_resource d))"
    and "rd_shown (validate_resource d) = rd_shown d" and "text_of (rd_name (validate_resource d)) = text_of (rd_name d)"
  using assms duplicates_frame(12) [of d]
  by (auto simp: validate_resource_def fields_ok_def resource_disabled_def resource_duplicate_def Let_def text_of_def
      button_is_disabled_def button_set_disabled_def)

lemma unchanged_text:
  assumes "field_fine f" and "property_value (field_text (fst (field_set_text v f))) = property_value (field_text f)"
  shows "text_of (fst (field_set_text v f)) = text_of f" and "error_of (fst (field_set_text v f)) \<Longrightarrow> error_of f"
  using assms
  by (auto simp: field_set_text_def Let_def split_beta text_of_def field_fine_def error_of_def field_set_error_def
      property_set_def prevented_def split: option.splits if_splits)

lemma type_resource_name_ok:
  assumes fields: "fields_ok type ids d"
    and truth: "button_is_disabled (rd_button d) \<or> \<not> resource_disabled d \<and> \<not> resource_duplicate d"
    and shown: "dialog_shown (rd_shown d) \<or> v = []"
  shows "addition_ok type ids (type_resource_name v d)"
    and "rd_shown (type_resource_name v d) = rd_shown d"
    and "v = [] \<Longrightarrow> text_of (rd_name (type_resource_name v d)) = []"
proof -
  let ?f = "fst (field_set_text v (rd_name d))"
  let ?d = "d\<lparr>rd_name := ?f\<rparr>"
  have name: "before_update_consumers (field_text (rd_name d)) = []" "field_mask (rd_name d) = None" "field_fine (rd_name d)"
    using fields by (simp_all add: fields_ok_def)
  have fine: "fields_ok type ids ?d"
    using fields field_fine_set [of "rd_name d" v]
    by (auto simp: fields_ok_def field_set_text_def Let_def split_beta field_set_error_def)
  have now: "property_value (field_text ?f) = Some v"
    using name by (auto simp: field_set_text_def Let_def split_beta mismatch_def field_set_error_def)
  have step: "type_resource_name v d =
      (if property_value (field_text (rd_name d)) \<noteq> Some v then validate_resource ?d else ?d)"
    by (simp add: type_resource_name_def split_beta Let_def now eq_commute)
  note valid = validate_resource_result [OF fine]
  show "addition_ok type ids (type_resource_name v d)"
  proof (cases "property_value (field_text (rd_name d)) = Some v")
    case True
    with now name(3) have "text_of ?f = text_of (rd_name d)" "error_of ?f \<Longrightarrow> error_of (rd_name d)"
      using unchanged_text [of "rd_name d" v] by simp_all
    then have "resource_disabled ?d \<Longrightarrow> resource_disabled d" by (auto simp: resource_disabled_def)
    moreover have "resource_duplicate ?d = resource_duplicate d" using True now by (simp add: resource_duplicate_def)
    moreover have "v = [] \<Longrightarrow> resource_disabled d" using True by (simp add: resource_disabled_def text_of_def)
    ultimately show ?thesis using fine truth shown True by (auto simp: step addition_ok_def)
  next
    case False
    moreover have "dialog_shown (rd_shown d) \<or> button_is_disabled (rd_button (validate_resource ?d))"
      using shown valid(3) now by (auto simp: text_of_def)
    ultimately show ?thesis using valid by (simp add: step addition_ok_def)
  qed
  show "rd_shown (type_resource_name v d) = rd_shown d" using valid(4) by (simp add: step)
  show "v = [] \<Longrightarrow> text_of (rd_name (type_resource_name v d)) = []"
    unfolding step using valid(5) now by (simp add: text_of_def)
qed

lemma type_resource_field_ok:
  assumes ok: "addition_ok type ids d" and shown: "dialog_shown (rd_shown d) \<or> text_of (rd_name d) = []"
  shows "addition_ok type ids (type_resource_field key v d)"
    and "rd_shown (type_resource_field key v d) = rd_shown d"
    and "text_of (rd_name (type_resource_field key v d)) = text_of (rd_name d)"
proof -
  have "addition_ok type ids (type_resource_field key v d) \<and> rd_shown (type_resource_field key v d) = rd_shown d \<and>
      text_of (rd_name (type_resource_field key v d)) = text_of (rd_name d)"
  proof (cases "map_get (rd_fields d) key")
    case None
    with ok show ?thesis by (simp add: type_resource_field_def)
  next
    case (Some r)
    let ?f = "fst (field_set_text v (rf_field r))"
    let ?d = "d\<lparr>rd_fields := map_put key (r\<lparr>rf_field := ?f\<rparr>) (rd_fields d)\<rparr>"
    have same: "same_fields (rd_fields d) (resource_fields type)" using ok by (simp add: addition_ok_def fields_ok_def)
    have r: "(key, r) \<in> set (rd_fields d)" using Some by (simp add: map_get_def map_of_SomeD)
    with same have fine_r: "field_fine (rf_field r)"
      by (force simp: same_fields_def list_all2_conv_all_nth in_set_conv_nth)
    then have "same_fields (rd_fields ?d) (resource_fields type)"
      using same_fields_put [OF same Some field_fine_set [OF fine_r]] by simp
    then have fine: "fields_ok type ids ?d" using ok by (simp add: addition_ok_def fields_ok_def)
    note valid = validate_resource_result [OF fine]
    show ?thesis
    proof (cases "property_value (field_text ?f) = property_value (field_text (rf_field r))")
      case True
      have "snd e = w \<or> e \<in> set xs" if "e \<in> set (map_put key w xs)" for e w and xs :: "(string, resource_field) js_map"
        using that by (induction xs) (auto simp: map_put_def split: if_splits)
      then have "snd e = r\<lparr>rf_field := ?f\<rparr> \<or> e \<in> set (rd_fields d)" if "e \<in> set (rd_fields ?d)" for e
        using that by simp
      then have "resource_disabled ?d \<Longrightarrow> resource_disabled d"
        using unchanged_text [OF fine_r True] r
        by (fastforce simp: resource_disabled_def list_ex_iff map_values_def)
      moreover have "resource_duplicate ?d = resource_duplicate d" by (simp add: resource_duplicate_def)
      ultimately show ?thesis using fine ok True Some
        by (auto simp: type_resource_field_def split_beta Let_def addition_ok_def)
    next
      case False
      with fine valid shown Some show ?thesis
        by (auto simp: type_resource_field_def split_beta Let_def addition_ok_def)
    qed
  qed
  then show "addition_ok type ids (type_resource_field key v d)" "rd_shown (type_resource_field key v d) = rd_shown d"
    "text_of (rd_name (type_resource_field key v d)) = text_of (rd_name d)" by auto
qed

lemma close_resource_dialog_ok:
  assumes ok: "addition_ok type ids d"
  shows "addition_ok type ids (close_resource_dialog d)" and "\<not> dialog_shown (rd_shown (close_resource_dialog d))"
proof -
  let ?d = "d\<lparr>rd_shown := fst (close_dialog (rd_shown d))\<rparr>"
  have frame: "closing_frame (rd_shown d)" using ok by (simp add: addition_ok_def fields_ok_def)
  note closed = close_dialog_frame [OF frame]
  have empties: "addition_ok type ids (fold (\<lambda>key. type_resource_field key []) keys e) \<and>
      \<not> dialog_shown (rd_shown (fold (\<lambda>key. type_resource_field key []) keys e))"
    if "addition_ok type ids e" "text_of (rd_name e) = []" "\<not> dialog_shown (rd_shown e)" for keys e
    using that by (induction keys arbitrary: e) (simp_all add: type_resource_field_ok)
  have fields: "fields_ok type ids ?d" using ok closed(1) by (simp add: addition_ok_def fields_ok_def)
  have truth: "button_is_disabled (rd_button ?d) \<or> \<not> resource_disabled ?d \<and> \<not> resource_duplicate ?d"
    using ok by (simp add: addition_ok_def resource_disabled_def resource_duplicate_def)
  note cleared = type_resource_name_ok [OF fields truth, of "[]"]
  have "addition_ok type ids (close_resource_dialog d) \<and> \<not> dialog_shown (rd_shown (close_resource_dialog d))"
  proof (cases "snd (close_dialog (rd_shown d)) = []")
    case True
    with ok fields truth closed(2,4) show ?thesis
      by (simp add: close_resource_dialog_def split_beta Let_def addition_ok_def)
  next
    case False
    with empties [of "type_resource_name [] ?d"] cleared closed show ?thesis
      by (simp add: close_resource_dialog_def split_beta Let_def)
  qed
  then show "addition_ok type ids (close_resource_dialog d)" "\<not> dialog_shown (rd_shown (close_resource_dialog d))" by auto
qed

text \<open>What the server gets: complete, matching, and with a name of its own.\<close>

fun sent_string :: "sent_value \<Rightarrow> string" where
  "sent_string (Sent_text v) = (case v of None \<Rightarrow> [] | Some s \<Rightarrow> s)"
| "sent_string (Sent_number v) = (case v of None \<Rightarrow> [] | Some s \<Rightarrow> s)"

definition resource_accepted :: "string \<Rightarrow> resource_identifier list \<Rightarrow> sent_resource \<Rightarrow> bool" where
  "resource_accepted type ids s \<longleftrightarrow>
     sent_type s = type \<and>
     (case sent_name s of
        None \<Rightarrow> False
      | Some name \<Rightarrow> name \<noteq> [] \<and> matches ENTITY_NAME_REGEX name \<and> (type, name) \<notin> (\<lambda>i. (rid_type i, rid_name i)) ` set ids) \<and>
     list_all2 (\<lambda>(key, v) (key', r). key = key' \<and> \<not> (rf_required r \<and> sent_string v = []) \<and>
         \<not> mismatch (sent_string v) (field_regexp (rf_field r)))
       (sent_values s) (resource_fields type)"

lemma enabled_accepted:
  assumes ok: "addition_ok type ids d" and enabled: "\<not> button_is_disabled (rd_button d)"
  shows "resource_accepted type ids (sent_of d)"
proof -
  have d: "fields_ok type ids d" "\<not> resource_disabled d" "\<not> resource_duplicate d" using ok enabled by (auto simp: addition_ok_def)
  then have named: "text_of (rd_name d) \<noteq> []" "\<not> error_of (rd_name d)" "rd_type d = type" "rd_ids d = ids" "rd_own d = None"
    by (auto simp: resource_disabled_def fields_ok_def)
  then obtain name where name: "property_value (field_text (rd_name d)) = Some name" "name \<noteq> []"
    by (auto simp: text_of_def split: option.splits)
  have "matches ENTITY_NAME_REGEX name"
    using d(1) named name by (auto simp: fields_ok_def field_fine_def mismatch_def text_of_def)
  moreover have "(type, name) \<notin> (\<lambda>i. (rid_type i, rid_name i)) ` set ids"
    using d(3) named name by (auto simp: resource_duplicate_def list_ex_iff)
  moreover have "list_all2 (\<lambda>(key, v) (key', r). key = key' \<and> \<not> (rf_required r \<and> sent_string v = []) \<and>
         \<not> mismatch (sent_string v) (field_regexp (rf_field r))) (sent_values (sent_of d)) (resource_fields type)"
  proof -
    let ?sent = "\<lambda>(key, r). (key, (if rf_number r then Sent_number else Sent_text) (property_value (field_text (rf_field r))))"
    have read: "sent_string (snd (?sent (key, r))) = text_of (rf_field r)" for key r
      by (simp add: text_of_def)
    have each: "(rf_required r \<longrightarrow> text_of (rf_field r) \<noteq> []) \<and> \<not> error_of (rf_field r)" if "(key, r) \<in> set (rd_fields d)" for key r
      using d(2) that by (force simp: resource_disabled_def list_ex_iff map_values_def)
    have same: "same_fields (rd_fields d) (resource_fields type)" using d(1) by (simp add: fields_ok_def)
    show ?thesis
      unfolding sent_of_def sent_resource.simps list_all2_map1
      using same unfolding same_fields_def
      by (rule list.rel_mono_strong) (use each in \<open>fastforce simp: field_fine_def text_of_def split: if_splits\<close>)
  qed
  ultimately show ?thesis using name named by (simp add: resource_accepted_def sent_of_def)
qed

lemma new_addition_ok:
  "addition_ok type ids (fst (resource_step (Ids_arrive ids) (fst (new_resource_addition type))))"
proof -
  let ?d = "(fst (new_resource_addition type))\<lparr>rd_ids := ids\<rparr>"
  have "fields_ok type ids ?d" and "button_is_disabled (rd_button ?d)"
    by (simp_all add: new_resource_addition_def fields_ok_def same_fields_new resource_name_field_def)
      (simp_all add: new_text_field_def new_property_def new_button_def button_is_disabled_def)
  then have "fields_ok type ids (validate_resource_duplicates ?d)" "button_is_disabled (rd_button (validate_resource_duplicates ?d))"
    by (simp_all add: fields_ok_def)
  then show ?thesis by (simp add: addition_ok_def)
qed

definition resource_effect_accepted :: "string \<Rightarrow> resource_identifier list \<Rightarrow> resource_effect \<Rightarrow> bool" where
  "resource_effect_accepted type ids e =
     (case e of Add_resource s \<Rightarrow> resource_accepted type ids s | _ \<Rightarrow> False)"

lemma addition_step:
  assumes ok: "addition_ok type ids d" and op: "op \<notin> range Ids_arrive"
  shows "addition_ok type ids (fst (resource_step op d)) \<and>
    list_all (resource_effect_accepted type ids) (snd (resource_step op d)) \<and>
    length (snd (resource_step op d)) + of_bool (dialog_shown (rd_shown (fst (resource_step op d)))) \<le>
      (of_bool (dialog_shown (rd_shown d)) :: nat)"
proof (cases op)
  case (Type_resource_name v)
  with ok type_resource_name_ok [of type ids d v] show ?thesis by (auto simp: addition_ok_def)
next
  case (Type_resource_field key v)
  with ok type_resource_field_ok [OF ok, of key v] show ?thesis by auto
next
  case Save_resource
  show ?thesis
  proof (cases "button_is_disabled (rd_button d)")
    case True
    with Save_resource ok show ?thesis by (simp add: save_resource_def)
  next
    case False
    with ok have "dialog_shown (rd_shown d)" "rd_own d = None" by (auto simp: addition_ok_def fields_ok_def)
    with False Save_resource ok close_resource_dialog_ok [OF ok] enabled_accepted [OF ok] show ?thesis
      by (simp add: save_resource_def resource_effect_accepted_def)
  qed
next
  case Close_resource
  with close_resource_dialog_ok [OF ok] show ?thesis by simp
qed (use op in simp)

interpretation resource_saving: saving_dialog resource_step "addition_ok type ids" "\<lambda>op. op \<notin> range Ids_arrive"
  "resource_effect_accepted type ids" "\<lambda>_. True" "\<lambda>d. dialog_shown (rd_shown d)" for type ids
  by unfold_locales (use addition_step in \<open>simp; blast\<close>)+

text \<open>
  C7. Once the identifiers of the resources are known, the dialog that adds a resource sends, whatever is typed and
  clicked and whichever keys are pressed, at most one request, with the fields of its type: every text that is required
  is there, every text matches the expression of its field, and the name is no other resource's of the type.
\<close>
theorem resource_added_once:
  assumes "list_all (\<lambda>op. op \<notin> range Ids_arrive) ops"
  shows "let effects = snd (emit_run resource_step (Ids_arrive ids # ops) (fst (new_resource_addition type)))
    in list_all (resource_effect_accepted type ids) effects \<and> length effects \<le> 1"
  using resource_saving.saved_once [OF new_addition_ok assms] by (simp add: Let_def)

theorem resource_added_once_witness:
  "let effects = snd (emit_run resource_step (Ids_arrive [\<lparr>rid_id = 1, rid_name = ''nexus'', rid_type = ARTIFACTS_RESOURCE\<rparr>] #
      [Type_resource_name ''repo'', Type_resource_field ''url'' ''nexus.local'', Save_resource, Save_resource])
      (fst (new_resource_addition ARTIFACTS_RESOURCE)))
   in list_all (resource_effect_accepted ARTIFACTS_RESOURCE
        [\<lparr>rid_id = 1, rid_name = ''nexus'', rid_type = ARTIFACTS_RESOURCE\<rparr>]) effects \<and> length effects \<le> 1"
  by (rule resource_added_once) auto

text \<open>
  Identifiers that arrive late let a duplicate through: a name that another resource of the type has, typed
  before the answer, is marked when it arrives, but the button stays enabled and the request is sent.
\<close>
theorem late_ids_let_duplicate:
  "let ids = [\<lparr>rid_id = 1, rid_name = ''proxy'', rid_type = PROXY_RESOURCE\<rparr>];
       run = emit_run resource_step [Type_resource_name ''proxy'', Type_resource_field ''host'' ''10.0.0.1'', Ids_arrive ids]
         (fst (new_resource_addition PROXY_RESOURCE))
   in error_of (rd_name (fst run)) \<and>
     map (\<lambda>e. case e of Add_resource s \<Rightarrow> sent_name s | _ \<Rightarrow> None) (snd (resource_step Save_resource (fst run))) = [Some ''proxy'']"
  by code_simp

end
