(* ===== verification/Project_Dialogs.thy ===== *)
theory Project_Dialogs
  imports Module_Configurators Resource_Dialogs
begin

text \<open>
  The dialogs that add and change a project, \<open>component/embeddable/project/ProjectAdditionDialog.ts\<close> and
  \<open>ProjectEditingDialog.ts\<close>, with \<open>ProjectNotificationsConfigurator.ts\<close> and \<open>ProjectOpenShiftConfigurator.ts\<close>. The two
  configurators are drawn with the dialog, so that the conditional ones exist from the start.
\<close>

section \<open>Notifications\<close>

record notifications_form =
  nt_url :: "unit text_field"
  nt_message :: "unit text_field"
  nt_proxy :: "(resource_identifier, unit) selector option"
  nt_panel :: "unit panel option"

definition new_notifications ::
  "resource_identifier list \<Rightarrow> project_notifications_configuration option \<Rightarrow> notifications_form" where
  "new_notifications proxies initial =
     (let proxy = Option.bind initial project_notifications_configuration_proxy_id in
      \<lparr>nt_url = plain_text (map_option project_notifications_configuration_url initial) (Some (matches URL_REGEX)) None,
       nt_message = plain_text (map_option project_notifications_configuration_additional_message initial) None None,
       nt_proxy = map_option (\<lambda>s. fst (selector_on_select () s)) (new_selector (\<lambda>_. True) resource_item proxies proxy False),
       nt_panel = (if proxies = [] then None else Some (checked_panel (proxy \<noteq> None)))\<rparr>)"

definition configure_notifications :: "notifications_form \<Rightarrow> project_notifications_configuration" where
  "configure_notifications n =
     \<lparr>project_notifications_configuration_url = text_of (nt_url n),
      project_notifications_configuration_additional_message = text_of (nt_message n),
      project_notifications_configuration_proxy_id =
        (case nt_panel n of
           None \<Rightarrow> None
         | Some p \<Rightarrow> if panel_checked p then Option.bind (nt_proxy n) selector_value else None)\<rparr>"

datatype notifications_op =
    Type_notification_url string | Type_notification_message string | Select_proxy string | On_proxy_panel "unit panel_op"

fun notifications_step :: "notifications_op \<Rightarrow> notifications_form \<Rightarrow> notifications_form \<times> bool" where
  "notifications_step (Type_notification_url v) n =
     (let (f, changed) = edit_field v (nt_url n) in (n\<lparr>nt_url := f\<rparr>, changed))"
| "notifications_step (Type_notification_message v) n =
     (let (f, changed) = edit_field v (nt_message n) in (n\<lparr>nt_message := f\<rparr>, changed))"
| "notifications_step (Select_proxy suggestion) n =
     (case map_option (selector_select_item suggestion) (nt_proxy n) of
        Some (Settled (s, calls)) \<Rightarrow> (n\<lparr>nt_proxy := Some s\<rparr>, values_reported calls \<noteq> [])
      | _ \<Rightarrow> (n, False))"
| "notifications_step (On_proxy_panel op) n =
     (case nt_panel n of
        None \<Rightarrow> (n, False)
      | Some p \<Rightarrow>
          let (p', effects) = panel_step op p in (n\<lparr>nt_panel := Some p'\<rparr>, check_values effects \<noteq> []))"

section \<open>The node selector\<close>

definition node_item :: "open_shift_label list \<Rightarrow> int \<Rightarrow> unit pair_item" where
  "node_item labels =
     key_value_item (Some (matches OPEN_SHIFT_LABEL_REGEX)) (Some (matches OPEN_SHIFT_LABEL_REGEX)) None None None None
       (map (\<lambda>l. (label_name l, label_value l)) labels)"

definition node_labels :: "project_open_shift_configuration option \<Rightarrow> open_shift_label list" where
  "node_labels initial = or_empty (Option.bind initial project_open_shift_configuration_platform_pods_node_selector)"

definition new_node_selector ::
  "project_open_shift_configuration option \<Rightarrow> (unit pair_item, unit) collection" where
  "new_node_selector initial =
     (let labels = node_labels initial
      in key_value_collection [] (node_item labels) (map (\<lambda>l. (label_name l, label_value l)) labels))"

definition pair_edits :: "pair_edit \<Rightarrow> 'u pair_item \<Rightarrow> bool" where
  "pair_edits e p =
     (case e of
        Edit_name v \<Rightarrow> snd (edit_pair e p)
      | Edit_content v \<Rightarrow> snd (edit_field v (pair_content p)))"

definition act_on_nodes ::
  "open_shift_label list \<Rightarrow> pair_edit item_action \<Rightarrow> (unit pair_item, unit) collection \<Rightarrow>
    (unit pair_item, unit) collection \<times> bool" where
  "act_on_nodes labels act c =
     (collection_act (pair_functions []) (node_item labels) (\<lambda>p. disabled_of (pair_name p)) edit_pair act c,
      act \<noteq> Clear_items \<and> act_changes (\<lambda>p. disabled_of (pair_name p)) pair_edits act c)"

definition configure_nodes :: "(unit pair_item, unit) collection \<Rightarrow> project_open_shift_configuration" where
  "configure_nodes c =
     \<lparr>project_open_shift_configuration_platform_pods_node_selector =
        Some (map (\<lambda>p. \<lparr>label_name = text_of (pair_name p), label_value = text_of (pair_content p)\<rparr>) (collection_widgets c))\<rparr>"

section \<open>The dialogs\<close>

record project_dialog =
  pj_own :: "project option"
  pj_names :: "string list"
  pj_name :: "unit text_field"
  pj_git :: "(resource_identifier, unit) selector option"
  pj_initialization :: "(resource_identifier, unit) selector option"
  pj_labels :: "open_shift_label list"
  pj_nodes :: "(unit pair_item, unit) collection"
  pj_notifications :: notifications_form
  pj_button :: "unit button"
  pj_shown :: "unit dialog"

datatype project_effect = Request_names | Add_project project_request | Update_project project_update_request

text \<open>Without a repository or an executor the dialog cannot be made.\<close>

definition new_project_addition ::
  "resource_identifier list \<Rightarrow> resource_identifier list \<Rightarrow> resource_identifier list \<Rightarrow> project_dialog option" where
  "new_project_addition gits executors proxies =
     (case (new_selector (\<lambda>_. True) resource_item gits None False, new_selector (\<lambda>_. True) resource_item executors None False) of
        (Some git, Some initialization) \<Rightarrow>
          Some \<lparr>pj_own = None, pj_names = [], pj_name = resource_name_field None, pj_git = Some git,
            pj_initialization = Some initialization, pj_labels = [], pj_nodes = new_node_selector None,
            pj_notifications = new_notifications proxies None, pj_button = new_button True, pj_shown = closing_dialog\<rparr>
      | _ \<Rightarrow> None)"

definition new_project_editing :: "project \<Rightarrow> resource_identifier list \<Rightarrow> project_dialog" where
  "new_project_editing project proxies =
     \<lparr>pj_own = Some project, pj_names = [], pj_name = resource_name_field (Some (project_name project)), pj_git = None,
      pj_initialization = None, pj_labels = node_labels (project_open_shift_configuration project),
      pj_nodes = new_node_selector (project_open_shift_configuration project),
      pj_notifications = new_notifications proxies (project_notifications_configuration project),
      pj_button = new_button True, pj_shown = closing_dialog\<rparr>"

definition project_duplicate :: "project_dialog \<Rightarrow> bool" where
  "project_duplicate d \<longleftrightarrow>
     map_option project_name (pj_own d) \<noteq> Some (text_of (pj_name d)) \<and> text_of (pj_name d) \<in> set (pj_names d)"

definition validate_project_duplicates :: "project_dialog \<Rightarrow> project_dialog" where
  "validate_project_duplicates d =
     (if project_duplicate d
      then d\<lparr>pj_name := fst (field_set_error \<lparr>error_shown = True, error_text = Some []\<rparr> (pj_name d))\<rparr> else d)"

definition validate_project :: "project_dialog \<Rightarrow> project_dialog" where
  "validate_project d =
     (let d1 = validate_project_duplicates d
      in d1\<lparr>pj_button := button_set_disabled (text_of (pj_name d1) = [] \<or> error_of (pj_name d1)) (pj_button d1)\<rparr>)"

definition type_project_name :: "string \<Rightarrow> project_dialog \<Rightarrow> project_dialog" where
  "type_project_name v d =
     (let (f, changed) = edit_field v (pj_name d); d1 = d\<lparr>pj_name := f\<rparr> in if changed then validate_project d1 else d1)"

text \<open>Only the dialog that changes a project listens to its configurators.\<close>

definition on_notifications :: "notifications_op \<Rightarrow> project_dialog \<Rightarrow> project_dialog" where
  "on_notifications op d =
     (let (n, changed) = notifications_step op (pj_notifications d); d1 = d\<lparr>pj_notifications := n\<rparr>
      in if changed \<and> pj_own d \<noteq> None then validate_project d1 else d1)"

definition on_nodes :: "pair_edit item_action \<Rightarrow> project_dialog \<Rightarrow> project_dialog" where
  "on_nodes act d =
     (let (c, changed) = act_on_nodes (pj_labels d) act (pj_nodes d); d1 = d\<lparr>pj_nodes := c\<rparr>
      in if changed \<and> pj_own d \<noteq> None then validate_project d1 else d1)"

definition select_in ::
  "(resource_identifier, unit) selector option \<Rightarrow> string \<Rightarrow> (resource_identifier, unit) selector option" where
  "select_in selector suggestion =
     (case selector of
        None \<Rightarrow> None
      | Some s \<Rightarrow> (case selector_select_item suggestion s of Settled (s', _) \<Rightarrow> Some s' | _ \<Rightarrow> Some s))"

definition reset_in :: "(resource_identifier, unit) selector option \<Rightarrow> (resource_identifier, unit) selector option" where
  "reset_in selector =
     (case selector of
        None \<Rightarrow> None
      | Some s \<Rightarrow> (case selector_reset s of Settled (s', _) \<Rightarrow> Some s' | _ \<Rightarrow> Some s))"

definition close_project_dialog :: "project_dialog \<Rightarrow> project_dialog" where
  "close_project_dialog d =
     (let (shown, calls) = close_dialog (pj_shown d); d1 = d\<lparr>pj_shown := shown\<rparr>
      in if calls = [] then d1
         else (let d2 = type_project_name [] d1
               in d2\<lparr>pj_git := reset_in (pj_git d2), pj_initialization := reset_in (pj_initialization d2)\<rparr>))"

text \<open>Without a selected repository \<open>selected().id\<close> throws, and the dialog stays.\<close>

definition project_request_of :: "project_dialog \<Rightarrow> project_request option" where
  "project_request_of d =
     map_option (\<lambda>git.
       \<lparr>project_request_name = text_of (pj_name d), project_request_git_resource_id = rid_id git,
        project_request_initialization_resource_id = Option.bind (pj_initialization d) selector_value,
        project_request_open_shift_configuration = Some (configure_nodes (pj_nodes d)),
        project_request_notifications_configuration = Some (configure_notifications (pj_notifications d))\<rparr>)
       (Option.bind (pj_git d) selector_value)"

definition project_update_of :: "project \<Rightarrow> project_dialog \<Rightarrow> project_update_request" where
  "project_update_of project d =
     \<lparr>project_update_request_id = project_id project, project_update_request_name = text_of (pj_name d),
      project_update_request_open_shift_configuration = Some (configure_nodes (pj_nodes d)),
      project_update_request_notifications_configuration = Some (configure_notifications (pj_notifications d))\<rparr>"

definition save_project :: "project_dialog \<Rightarrow> project_dialog \<times> project_effect list" where
  "save_project d =
     (if button_is_disabled (pj_button d) then (d, [])
      else case pj_own d of
          Some p \<Rightarrow> (close_project_dialog d, [Update_project (project_update_of p d)])
        | None \<Rightarrow>
            (case project_request_of d of
               None \<Rightarrow> (d, [])
             | Some request \<Rightarrow> (close_project_dialog d, [Add_project request])))"

datatype project_op =
    Type_project_name string | On_notifications notifications_op | On_nodes "pair_edit item_action"
  | Select_git string | Select_initialization string | Names_arrive "string list" | Save_project | Close_project

definition when_shown :: "(project_dialog \<Rightarrow> project_dialog) \<Rightarrow> project_dialog \<Rightarrow> project_dialog" where
  "when_shown f d = (if dialog_shown (pj_shown d) then f d else d)"

fun project_step :: "project_op \<Rightarrow> project_dialog \<Rightarrow> project_dialog \<times> project_effect list" where
  "project_step (Type_project_name v) d = (when_shown (type_project_name v) d, [])"
| "project_step (On_notifications op) d = (when_shown (on_notifications op) d, [])"
| "project_step (On_nodes act) d = (when_shown (on_nodes act) d, [])"
| "project_step (Select_git v) d = (when_shown (\<lambda>d. d\<lparr>pj_git := select_in (pj_git d) v\<rparr>) d, [])"
| "project_step (Select_initialization v) d =
     (when_shown (\<lambda>d. d\<lparr>pj_initialization := select_in (pj_initialization d) v\<rparr>) d, [])"
| "project_step (Names_arrive names) d = (validate_project_duplicates (d\<lparr>pj_names := names\<rparr>), [])"
| "project_step Save_project d = save_project d"
| "project_step Close_project d = (close_project_dialog d, [])"

section \<open>What is sent\<close>

text \<open>
  A name that may be sent: the project's own, or one that matches and that no project has. The frame of a dialog is what
  every operation keeps; \<open>dialog_ok\<close> adds that an enabled button stands for such a name, and only while the dialog is shown.
\<close>

definition good_project_name :: "project option \<Rightarrow> string list \<Rightarrow> string \<Rightarrow> bool" where
  "good_project_name own names name \<longleftrightarrow>
     name \<noteq> [] \<and> (map_option project_name own = Some name \<or> matches ENTITY_NAME_REGEX name \<and> name \<notin> set names)"

definition project_frame :: "project option \<Rightarrow> string list \<Rightarrow> project_dialog \<Rightarrow> bool" where
  "project_frame own names d \<longleftrightarrow>
     pj_own d = own \<and> pj_names d = names \<and> field_regexp (pj_name d) = Some (matches ENTITY_NAME_REGEX) \<and>
     field_mask (pj_name d) = None \<and> before_update_consumers (field_text (pj_name d)) = [] \<and>
     before_update_consumers (field_error (pj_name d)) = [] \<and>
     (map_option project_name own = Some (text_of (pj_name d)) \<or> error_of (pj_name d) \<or>
       \<not> mismatch (text_of (pj_name d)) (Some (matches ENTITY_NAME_REGEX))) \<and>
     before_update_consumers (button_disabled (pj_button d)) = [] \<and>
     closing_frame (pj_shown d)"

definition dialog_ok :: "project option \<Rightarrow> string list \<Rightarrow> project_dialog \<Rightarrow> bool" where
  "dialog_ok own names d \<longleftrightarrow> project_frame own names d \<and>
     (button_is_disabled (pj_button d) \<or> good_project_name own names (text_of (pj_name d)) \<and> dialog_shown (pj_shown d))"

lemma project_duplicates_frame [simp]:
  "pj_own (validate_project_duplicates d) = pj_own d" "pj_names (validate_project_duplicates d) = pj_names d"
  "pj_button (validate_project_duplicates d) = pj_button d" "pj_shown (validate_project_duplicates d) = pj_shown d"
  "text_of (pj_name (validate_project_duplicates d)) = text_of (pj_name d)"
  "project_frame own names d \<Longrightarrow> project_frame own names (validate_project_duplicates d)"
  "project_frame own names d \<Longrightarrow> project_duplicate d \<Longrightarrow> error_of (pj_name (validate_project_duplicates d))"
  by (auto simp: validate_project_duplicates_def project_frame_def field_set_error_def split_beta error_of_def text_of_def
      split: option.split)

lemma validate_project_result:
  assumes "project_frame own names d"
  shows "project_frame own names (validate_project d)"
    and "button_is_disabled (pj_button (validate_project d)) \<or> good_project_name own names (text_of (pj_name d))"
    and "text_of (pj_name d) = [] \<Longrightarrow> button_is_disabled (pj_button (validate_project d))"
    and "pj_shown (validate_project d) = pj_shown d" and "text_of (pj_name (validate_project d)) = text_of (pj_name d)"
proof -
  have button: "button_is_disabled (pj_button (validate_project d)) \<longleftrightarrow>
      text_of (pj_name d) = [] \<or> error_of (pj_name (validate_project_duplicates d))"
    using assms by (auto simp: validate_project_def Let_def project_frame_def button_is_disabled_def button_set_disabled_def)
  show "project_frame own names (validate_project d)"
    using project_duplicates_frame(6) [OF assms] by (simp add: validate_project_def Let_def project_frame_def button_set_disabled_def)
  show "text_of (pj_name d) = [] \<Longrightarrow> button_is_disabled (pj_button (validate_project d))" using button by simp
  show "pj_shown (validate_project d) = pj_shown d" "text_of (pj_name (validate_project d)) = text_of (pj_name d)"
    by (simp_all add: validate_project_def Let_def)
  show "button_is_disabled (pj_button (validate_project d)) \<or> good_project_name own names (text_of (pj_name d))"
    using project_duplicates_frame(6,7) [OF assms] assms
    by (auto simp: button good_project_name_def project_frame_def project_duplicate_def mismatch_def)
qed

lemma validate_project_ok:
  assumes "project_frame own names d" and "dialog_shown (pj_shown d)"
  shows "dialog_ok own names (validate_project d)"
  using validate_project_result [OF assms(1)] assms(2) by (auto simp: dialog_ok_def)

lemma type_project_name_result:
  assumes frame: "project_frame own names d"
    and truth: "button_is_disabled (pj_button d) \<or> good_project_name own names (text_of (pj_name d))"
  shows "project_frame own names (type_project_name v d)"
    and "button_is_disabled (pj_button (type_project_name v d)) \<or>
      good_project_name own names (text_of (pj_name (type_project_name v d)))"
    and "pj_shown (type_project_name v d) = pj_shown d" and "text_of (pj_name (type_project_name v d)) = v"
proof -
  let ?f = "fst (field_set_text v (pj_name d))"
  let ?d = "d\<lparr>pj_name := ?f\<rparr>"
  have put: "property_value (field_text ?f) = Some v" and now: "text_of ?f = v"
    using frame typed_text [of "pj_name d" v] by (simp_all add: project_frame_def)
  have same: "property_value (field_text (pj_name d)) = Some v \<Longrightarrow> text_of (pj_name d) = v" by (simp add: text_of_def)
  have kept: "field_regexp ?f = field_regexp (pj_name d)" "field_mask ?f = field_mask (pj_name d)"
    "before_update_consumers (field_text ?f) = []" "before_update_consumers (field_error ?f) = []"
    using frame by (simp_all add: project_frame_def field_set_text_def Let_def split_beta field_set_error_def)
  have error: "error_of ?f = (if property_value (field_text (pj_name d)) = Some v then error_of (pj_name d)
      else mismatch v (Some (matches ENTITY_NAME_REGEX)))"
    using frame by (auto simp: project_frame_def field_set_text_def Let_def split_beta field_set_error_def error_of_def mismatch_def)
  have framed: "project_frame own names ?d"
    using frame kept error now same by (auto simp: project_frame_def)
  have step: "type_project_name v d =
      (if property_value (field_text (pj_name d)) \<noteq> Some v then validate_project ?d else ?d)"
    by (simp add: type_project_name_def edit_field_def Let_def put eq_commute)
  note valid = validate_project_result [OF framed]
  show "project_frame own names (type_project_name v d)" using valid(1) framed by (simp add: step)
  show "button_is_disabled (pj_button (type_project_name v d)) \<or>
      good_project_name own names (text_of (pj_name (type_project_name v d)))"
    unfolding step using valid(2,5) truth now same by auto
  show "pj_shown (type_project_name v d) = pj_shown d" using valid(4) by (simp add: step)
  show "text_of (pj_name (type_project_name v d)) = v" unfolding step using valid(5) now by simp
qed

lemma close_project_dialog_ok:
  assumes ok: "dialog_ok own names d"
  shows "dialog_ok own names (close_project_dialog d)" and "\<not> dialog_shown (pj_shown (close_project_dialog d))"
proof -
  let ?d = "d\<lparr>pj_shown := fst (close_dialog (pj_shown d))\<rparr>"
  have shown: "closing_frame (pj_shown d)" using ok by (simp add: dialog_ok_def project_frame_def)
  note closed = close_dialog_frame [OF shown]
  have frame: "project_frame own names ?d" using ok closed(1) by (simp add: dialog_ok_def project_frame_def)
  have truth: "button_is_disabled (pj_button ?d) \<or> good_project_name own names (text_of (pj_name ?d))"
    using ok by (auto simp: dialog_ok_def)
  note cleared = type_project_name_result [OF frame truth, of "[]"]
  have "button_is_disabled (pj_button (type_project_name [] ?d))"
    using cleared(2,4) by (simp add: good_project_name_def)
  moreover have "button_is_disabled (pj_button d)" if "snd (close_dialog (pj_shown d)) = []"
    using closed(4) that ok by (auto simp: dialog_ok_def)
  ultimately show "dialog_ok own names (close_project_dialog d)" "\<not> dialog_shown (pj_shown (close_project_dialog d))"
    using frame cleared closed(2)
    by (auto simp: close_project_dialog_def split_beta Let_def dialog_ok_def project_frame_def)
qed

text \<open>What the configurators and the selectors do leaves the name, the button and the dialog alone.\<close>

lemma other_fields_ok [simp]:
  "dialog_ok own names (d\<lparr>pj_git := git\<rparr>) = dialog_ok own names d"
  "dialog_ok own names (d\<lparr>pj_initialization := initialization\<rparr>) = dialog_ok own names d"
  "dialog_ok own names (d\<lparr>pj_nodes := nodes\<rparr>) = dialog_ok own names d"
  "dialog_ok own names (d\<lparr>pj_notifications := notifications\<rparr>) = dialog_ok own names d"
  by (simp_all add: dialog_ok_def project_frame_def)

lemma other_fields_shown:
  assumes "dialog_ok own names d" and "dialog_shown (pj_shown d)"
  shows "dialog_ok own names (validate_project (d\<lparr>pj_nodes := nodes\<rparr>))"
    and "dialog_ok own names (validate_project (d\<lparr>pj_notifications := notifications\<rparr>))"
  using assms by (intro validate_project_ok; simp add: dialog_ok_def project_frame_def)+

lemma configured_ok:
  assumes "dialog_ok own names d" and "dialog_shown (pj_shown d)"
  shows "dialog_ok own names (on_notifications op d)" and "dialog_ok own names (on_nodes act d)"
  using assms other_fields_shown [OF assms]
  by (simp_all add: on_notifications_def on_nodes_def split_beta Let_def)

definition project_accepted :: "project option \<Rightarrow> string list \<Rightarrow> project_effect \<Rightarrow> bool" where
  "project_accepted own names e =
     (case e of
        Add_project r \<Rightarrow> own = None \<and> good_project_name own names (project_request_name r)
      | Update_project u \<Rightarrow>
          map_option project_id own = Some (project_update_request_id u) \<and>
          good_project_name own names (project_update_request_name u)
      | Request_names \<Rightarrow> False)"

lemma enabled_project_accepted:
  assumes ok: "dialog_ok own names d"
  shows "list_all (project_accepted own names) (snd (save_project d))"
proof (cases "button_is_disabled (pj_button d)")
  case False
  with ok have "good_project_name own names (text_of (pj_name d))" "pj_own d = own" by (auto simp: dialog_ok_def project_frame_def)
  then show ?thesis
    by (auto simp: save_project_def project_request_of_def project_update_of_def project_accepted_def split: option.split)
qed (simp add: save_project_def)

lemma save_project_ok:
  assumes ok: "dialog_ok own names d"
  shows "dialog_ok own names (fst (save_project d))"
    and "length (snd (save_project d)) + of_bool (dialog_shown (pj_shown (fst (save_project d)))) \<le>
      (of_bool (dialog_shown (pj_shown d)) :: nat)"
proof -
  have shown: "dialog_shown (pj_shown d)" if "\<not> button_is_disabled (pj_button d)" using ok that by (simp add: dialog_ok_def)
  show "dialog_ok own names (fst (save_project d))"
    using ok close_project_dialog_ok(1) [OF ok] by (simp add: save_project_def split: option.split)
  show "length (snd (save_project d)) + of_bool (dialog_shown (pj_shown (fst (save_project d)))) \<le>
      (of_bool (dialog_shown (pj_shown d)) :: nat)"
    using shown close_project_dialog_ok(2) [OF ok] by (simp add: save_project_def split: option.split)
qed

lemma kept_shown [simp]:
  "pj_shown (validate_project d) = pj_shown d"
  "pj_shown (type_project_name v d) = pj_shown d"
  "pj_shown (on_notifications op d) = pj_shown d" "pj_shown (on_nodes act d) = pj_shown d"
  by (simp_all add: validate_project_def type_project_name_def on_notifications_def on_nodes_def Let_def split_beta)

lemma project_step_ok:
  assumes ok: "dialog_ok own names d" and op: "op \<notin> range Names_arrive"
  shows "dialog_ok own names (fst (project_step op d)) \<and>
    list_all (project_accepted own names) (snd (project_step op d)) \<and>
    length (snd (project_step op d)) + of_bool (dialog_shown (pj_shown (fst (project_step op d)))) \<le>
      (of_bool (dialog_shown (pj_shown d)) :: nat)"
proof (cases op)
  case (Type_project_name v)
  have "dialog_ok own names (type_project_name v d)" if "dialog_shown (pj_shown d)"
    using ok that type_project_name_result [of own names d v] by (auto simp: dialog_ok_def)
  with Type_project_name ok show ?thesis by (simp add: when_shown_def)
next
  case Save_project
  with enabled_project_accepted [OF ok] save_project_ok [OF ok] show ?thesis by simp
next
  case Close_project
  with close_project_dialog_ok [OF ok] show ?thesis by simp
qed (use op ok configured_ok in \<open>simp_all add: when_shown_def\<close>)

lemma new_project_ok:
  assumes "new_project_addition gits executors proxies = Some d \<and> own = None \<or>
    d = new_project_editing project proxies \<and> own = Some project"
  shows "dialog_ok own names (fst (project_step (Names_arrive names) d))"
proof -
  have "project_frame own names (d\<lparr>pj_names := names\<rparr>) \<and> button_is_disabled (pj_button d)"
    using assms
    by (auto simp: new_project_addition_def new_project_editing_def project_frame_def resource_name_field_def
        new_text_field_def new_property_def new_button_def button_is_disabled_def text_of_def mismatch_def split: option.splits)
  then show ?thesis by (simp add: dialog_ok_def)
qed

interpretation project_saving: saving_dialog project_step "dialog_ok own names" "\<lambda>op. op \<notin> range Names_arrive"
  "project_accepted own names" "\<lambda>_. True" "\<lambda>d. dialog_shown (pj_shown d)" for own names
  by unfold_locales (use project_step_ok in \<open>simp; blast\<close>)+

text \<open>
  C8. Once the names of the projects are known, each of the two dialogs of a project sends, whatever is typed, selected
  and clicked, at most one request: the dialog that adds sends an addition and the dialog that changes a project an
  update of that project, with a name that is its own or that matches the expression of names and no project has.
\<close>
theorem project_saved_once:
  assumes "list_all (\<lambda>op. op \<notin> range Names_arrive) ops"
    and "new_project_addition gits executors proxies = Some d \<and> own = None \<or>
      d = new_project_editing project proxies \<and> own = Some project"
  shows "let effects = snd (emit_run project_step (Names_arrive names # ops) d)
    in list_all (project_accepted own names) effects \<and> length effects \<le> 1"
  using project_saving.saved_once [OF new_project_ok [OF assms(2)] assms(1)] by (simp add: Let_def)

theorem project_saved_once_witness:
  "case new_project_addition [\<lparr>rid_id = 1, rid_name = ''git'', rid_type = GIT_RESOURCE\<rparr>]
      [\<lparr>rid_id = 2, rid_name = ''cluster'', rid_type = OPEN_SHIFT_RESOURCE\<rparr>] [] of
     None \<Rightarrow> False
   | Some d \<Rightarrow>
       let effects = snd (emit_run project_step (Names_arrive [''web''] #
         [Type_project_name ''web'', Save_project, Type_project_name ''shop'', Save_project, Save_project]) d)
       in list_all (project_accepted None [''web'']) effects \<and> length effects \<le> 1"
proof -
  obtain d where d: "new_project_addition [\<lparr>rid_id = 1, rid_name = ''git'', rid_type = GIT_RESOURCE\<rparr>]
      [\<lparr>rid_id = 2, rid_name = ''cluster'', rid_type = OPEN_SHIFT_RESOURCE\<rparr>] [] = Some d"
    by (simp add: new_project_addition_def new_selector_def)
  from project_saved_once [of "[Type_project_name ''web'', Save_project, Type_project_name ''shop'', Save_project, Save_project]",
      OF _ disjI1, OF _ conjI, OF _ d refl]
  show ?thesis unfolding d option.case by auto
qed

text \<open>
  The notification URL is sent as it was typed, whatever it is: neither the field's expression nor the error that
  the field shows keeps a new project with a good name from being added.
\<close>
theorem project_sends_any_url:
  "case new_project_addition gits executors proxies of
     None \<Rightarrow> True
   | Some d \<Rightarrow>
       map (\<lambda>e. case e of
           Add_project r \<Rightarrow> map_option project_notifications_configuration_url (project_request_notifications_configuration r)
         | _ \<Rightarrow> None)
         (snd (emit_run project_step [On_notifications (Type_notification_url url), Type_project_name ''shop'', Save_project] d)) =
       [Some url]"
proof (cases "new_project_addition gits executors proxies")
  case (Some d)
  have good: "matches ENTITY_NAME_REGEX ''shop''" by code_simp
  let ?n = "fst (notifications_step (Type_notification_url url) (pj_notifications d))"
  let ?d = "d\<lparr>pj_notifications := ?n\<rparr>"
  have d: "pj_own d = None" "pj_names d = []" "pj_name d = resource_name_field None" "dialog_shown (pj_shown d)"
    "pj_button d = new_button True" "Option.bind (pj_git d) selector_value \<noteq> None"
    "pj_notifications d = new_notifications proxies None"
    using Some
    by (auto simp: new_project_addition_def new_selector_def closing_dialog_def dialog_on_close_def new_dialog_def
        dialog_shown_def property_consume_def new_property_def selector_value_def js_at_def split: option.splits if_splits)
  have url: "text_of (nt_url ?n) = url"
    unfolding d by (simp add: split_beta edit_field_def Let_def, subst typed_text(1))
      (simp_all add: new_notifications_def plain_text_def new_text_field_def new_property_def)
  have enabled: "\<not> button_is_disabled (pj_button (type_project_name ''shop'' ?d))"
    using good
    by (simp add: type_project_name_def edit_field_def Let_def d resource_name_field_def new_text_field_def new_property_def
        field_set_text_def field_set_error_def mismatch_def validate_project_def validate_project_duplicates_def
        project_duplicate_def split_beta text_of_def error_of_def new_button_def button_set_disabled_def button_is_disabled_def)
  have kept: "pj_notifications (type_project_name v e) = pj_notifications e" "pj_own (type_project_name v e) = pj_own e"
    "pj_git (type_project_name v e) = pj_git e" for v e
    by (simp_all add: type_project_name_def validate_project_def validate_project_duplicates_def Let_def split_beta)
  obtain git where git: "Option.bind (pj_git d) selector_value = Some git" using d(6) by auto
  have "on_notifications (Type_notification_url url) d = ?d" by (simp add: on_notifications_def Let_def split_beta d(1))
  then show ?thesis
    using Some enabled url git
    by (simp add: when_shown_def d(1,4) save_project_def project_request_of_def kept configure_notifications_def del: notifications_step.simps)
qed simp

end
