(* ===== verification/Setting_Dialogs.thy ===== *)
theory Setting_Dialogs
  imports Saving_Dialogs Regexps Catalog Selectors Samples
begin

text \<open>
  Three smaller dialogs: \<open>component/embeddable/configuration/PeparedConfigurationAdditionDialog.ts\<close>, which adds a prepared
  configuration to a project, \<open>module/prepared/ModulePreparedCofigurationAdditionDialog.ts\<close>, which chooses one for a
  module, and \<open>user/UserPrivilegesEditingDialog.ts\<close>, which changes the rights of a user.
\<close>

section \<open>Adding a prepared configuration\<close>

record configuration_dialog =
  cd_project :: int
  cd_ids :: "prepared_configuration_identifier list"
  cd_name :: "unit text_field"
  cd_profile :: "unit text_field"
  cd_content :: "unit code_editor"
  cd_button :: "unit button"
  cd_shown :: "unit dialog"

datatype configuration_effect = Add_configuration prepared_configuration_request | Configuration_added

definition configuration_name_expression :: "(string \<Rightarrow> bool) option" where
  "configuration_name_expression = map_option matches (CONFIG_FILE_NAME_REGEX CONFIGURATION_FILE_FORMATS)"

definition new_configuration_dialog :: "prepared_configuration_identifier list \<Rightarrow> int \<Rightarrow> configuration_dialog" where
  "new_configuration_dialog ids project =
     \<lparr>cd_project = project, cd_ids = ids,
      cd_name = new_text_field None False False configuration_name_expression None None None,
      cd_profile = new_text_field None False False (Some (matches ENTITY_NAME_REGEX)) None None None,
      cd_content = new_code_editor (Some []) None None, cd_button = new_button True, cd_shown = closing_dialog\<rparr>"

definition content_of :: "configuration_dialog \<Rightarrow> string" where
  "content_of d = (case property_value (editor_text (cd_content d)) of None \<Rightarrow> [] | Some v \<Rightarrow> v)"

definition configuration_duplicate :: "configuration_dialog \<Rightarrow> bool" where
  "configuration_duplicate d \<longleftrightarrow>
     list_ex (\<lambda>i. pcid_name i = text_of (cd_name d) \<and> pcid_profile i = text_of (cd_profile d)) (cd_ids d)"

text \<open>Unlike in the other dialogs, the error of the name is set anew, to true or false.\<close>

definition expression_rejects :: "(string \<Rightarrow> bool) option \<Rightarrow> string \<Rightarrow> bool" where
  "expression_rejects r v \<longleftrightarrow> (case r of None \<Rightarrow> False | Some f \<Rightarrow> \<not> f v)"

definition validate_configuration_duplicates :: "configuration_dialog \<Rightarrow> configuration_dialog" where
  "validate_configuration_duplicates d =
     d\<lparr>cd_name := fst (field_set_error
        \<lparr>error_shown = expression_rejects configuration_name_expression (text_of (cd_name d)) \<or> configuration_duplicate d,
         error_text = Some []\<rparr> (cd_name d))\<rparr>"

definition validate_new_configuration :: "configuration_dialog \<Rightarrow> configuration_dialog" where
  "validate_new_configuration d =
     (let d1 = validate_configuration_duplicates d
      in d1\<lparr>cd_button := button_set_disabled
           (text_of (cd_name d1) = [] \<or> text_of (cd_profile d1) = [] \<or> content_of d1 = [] \<or>
            error_of (cd_name d1) \<or> error_of (cd_profile d1)) (cd_button d1)\<rparr>)"

definition type_configuration_name :: "string \<Rightarrow> configuration_dialog \<Rightarrow> configuration_dialog" where
  "type_configuration_name v d =
     (let (f, changed) = edit_field v (cd_name d); d1 = d\<lparr>cd_name := f\<rparr>
      in if changed then validate_new_configuration (d1\<lparr>cd_content := editor_set_file_name v (cd_content d1)\<rparr>) else d1)"

definition type_configuration_profile :: "string \<Rightarrow> configuration_dialog \<Rightarrow> configuration_dialog" where
  "type_configuration_profile v d =
     (let (f, changed) = edit_field v (cd_profile d); d1 = d\<lparr>cd_profile := f\<rparr>
      in if changed then validate_new_configuration d1 else d1)"

definition type_configuration_content :: "string \<Rightarrow> configuration_dialog \<Rightarrow> configuration_dialog" where
  "type_configuration_content v d =
     (let e = editor_set_text v (cd_content d); d1 = d\<lparr>cd_content := e\<rparr>
      in if property_value (editor_text e) \<noteq> property_value (editor_text (cd_content d))
         then validate_new_configuration d1 else d1)"

definition close_configuration_dialog :: "configuration_dialog \<Rightarrow> configuration_dialog" where
  "close_configuration_dialog d =
     (let (shown, calls) = close_dialog (cd_shown d); d1 = d\<lparr>cd_shown := shown\<rparr>
      in if calls = [] then d1
         else type_configuration_content [] (type_configuration_profile [] (type_configuration_name [] d1)))"

definition configuration_request_of :: "configuration_dialog \<Rightarrow> prepared_configuration_request" where
  "configuration_request_of d =
     \<lparr>prepared_configuration_request_project_id = cd_project d, prepared_configuration_request_profile = text_of (cd_profile d),
      prepared_configuration_request_name = text_of (cd_name d), prepared_configuration_request_configuration = content_of d\<rparr>"

definition save_new_configuration :: "configuration_dialog \<Rightarrow> configuration_dialog \<times> configuration_effect list" where
  "save_new_configuration d =
     (if button_is_disabled (cd_button d) then (d, [])
      else (close_configuration_dialog d, [Add_configuration (configuration_request_of d)]))"

datatype configuration_dialog_op =
    Type_configuration_name string | Type_configuration_profile string | Type_configuration_content string
  | Save_new_configuration | Configuration_stored | Close_configuration

fun configuration_dialog_step ::
  "configuration_dialog_op \<Rightarrow> configuration_dialog \<Rightarrow> configuration_dialog \<times> configuration_effect list" where
  "configuration_dialog_step (Type_configuration_name v) d =
     (if dialog_shown (cd_shown d) then type_configuration_name v d else d, [])"
| "configuration_dialog_step (Type_configuration_profile v) d =
     (if dialog_shown (cd_shown d) then type_configuration_profile v d else d, [])"
| "configuration_dialog_step (Type_configuration_content v) d =
     (if dialog_shown (cd_shown d) then type_configuration_content v d else d, [])"
| "configuration_dialog_step Save_new_configuration d = save_new_configuration d"
| "configuration_dialog_step Configuration_stored d = (close_configuration_dialog d, [Configuration_added])"
| "configuration_dialog_step Close_configuration d = (close_configuration_dialog d, [])"

subsection \<open>What is added\<close>

definition good_configuration ::
  "prepared_configuration_identifier list \<Rightarrow> string \<Rightarrow> string \<Rightarrow> string \<Rightarrow> bool" where
  "good_configuration ids name profile content \<longleftrightarrow>
     name \<noteq> [] \<and> \<not> expression_rejects configuration_name_expression name \<and>
     profile \<noteq> [] \<and> matches ENTITY_NAME_REGEX profile \<and> content \<noteq> [] \<and>
     (name, profile) \<notin> (\<lambda>i. (pcid_name i, pcid_profile i)) ` set ids"

definition good_texts :: "configuration_dialog \<Rightarrow> bool" where
  "good_texts d = good_configuration (cd_ids d) (text_of (cd_name d)) (text_of (cd_profile d)) (content_of d)"

definition unmasked_field :: "unit text_field \<Rightarrow> bool" where
  "unmasked_field f \<longleftrightarrow>
     field_mask f = None \<and> before_update_consumers (field_text f) = [] \<and> before_update_consumers (field_error f) = []"

lemma unmasked_field_ops [simp]:
  "unmasked_field f \<Longrightarrow> unmasked_field (fst (field_set_text v f))" "unmasked_field f \<Longrightarrow> unmasked_field (fst (field_set_error e f))"
  "unmasked_field f \<Longrightarrow> property_value (field_text (fst (field_set_text v f))) = Some v"
  "unmasked_field f \<Longrightarrow> text_of (fst (field_set_text v f)) = v"
  "text_of (fst (field_set_error e f)) = text_of f"
  "unmasked_field f \<Longrightarrow> error_of (fst (field_set_error e f)) = error_shown e"
  "field_regexp (fst (field_set_error e f)) = field_regexp f" "field_regexp (fst (field_set_text v f)) = field_regexp f"
  by (auto simp: unmasked_field_def field_set_text_def field_set_error_def Let_def split_beta text_of_def error_of_def mismatch_def
      split: option.split)

definition configuration_frame :: "prepared_configuration_identifier list \<Rightarrow> int \<Rightarrow> configuration_dialog \<Rightarrow> bool" where
  "configuration_frame ids project d \<longleftrightarrow>
     cd_ids d = ids \<and> cd_project d = project \<and> unmasked_field (cd_name d) \<and> field_fine (cd_profile d) \<and> unmasked_field (cd_profile d) \<and>
     field_regexp (cd_profile d) = Some (matches ENTITY_NAME_REGEX) \<and>
     before_update_consumers (editor_text (cd_content d)) = [] \<and>
     before_update_consumers (button_disabled (cd_button d)) = [] \<and> closing_frame (cd_shown d)"

definition configuration_dialog_ok :: "prepared_configuration_identifier list \<Rightarrow> int \<Rightarrow> configuration_dialog \<Rightarrow> bool" where
  "configuration_dialog_ok ids project d \<longleftrightarrow> configuration_frame ids project d \<and>
     (button_is_disabled (cd_button d) \<or> good_texts d \<and> dialog_shown (cd_shown d))"

lemma validate_new_configuration_result:
  assumes "configuration_frame ids project d"
  shows "configuration_frame ids project (validate_new_configuration d)"
    and "button_is_disabled (cd_button (validate_new_configuration d)) \<or> good_texts (validate_new_configuration d)"
    and "text_of (cd_name d) = [] \<Longrightarrow> button_is_disabled (cd_button (validate_new_configuration d))"
    and "cd_shown (validate_new_configuration d) = cd_shown d"
    and "text_of (cd_name (validate_new_configuration d)) = text_of (cd_name d)"
  using assms
  by (auto simp: validate_new_configuration_def validate_configuration_duplicates_def Let_def configuration_frame_def
      button_is_disabled_def button_set_disabled_def good_texts_def good_configuration_def content_of_def
      configuration_duplicate_def list_ex_iff field_fine_def mismatch_def)

text \<open>A step of the form: it keeps the frame, and an enabled button keeps standing for good texts.\<close>

definition form_step :: "(configuration_dialog \<Rightarrow> configuration_dialog) \<Rightarrow> bool" where
  "form_step f \<longleftrightarrow> (\<forall>ids project d. configuration_frame ids project d \<and> (button_is_disabled (cd_button d) \<or> good_texts d) \<longrightarrow>
     configuration_frame ids project (f d) \<and> (button_is_disabled (cd_button (f d)) \<or> good_texts (f d)) \<and> cd_shown (f d) = cd_shown d)"

lemma form_stepI:
  assumes "\<And>ids project d. configuration_frame ids project d \<Longrightarrow> configuration_frame ids project (g d)"
    and "\<And>d. cd_shown (g d) = cd_shown d" and "\<And>d. cd_button (g d) = cd_button d"
    and "\<And>ids project d. configuration_frame ids project d \<Longrightarrow> \<not> changed d \<Longrightarrow> good_texts d \<Longrightarrow> good_texts (g d)"
    and "\<And>d. f d = (if changed d then validate_new_configuration (g d) else g d)"
  shows "form_step f"
  using assms(1-4) validate_new_configuration_result by (fastforce simp: form_step_def assms(5))

lemma property_set_any:
  "before_update_consumers p = [] \<Longrightarrow> property_value (fst (property_set (=) v p)) = v"
  by (auto simp: property_set_def prevented_def split: option.split)

lemma form_steps:
  "form_step (type_configuration_name v)" "form_step (type_configuration_profile v)" "form_step (type_configuration_content v)"
proof -
  let ?name = "\<lambda>d. property_value (field_text (cd_name d)) \<noteq> Some v"
  let ?set_name = "\<lambda>d. d\<lparr>cd_name := fst (field_set_text v (cd_name d))\<rparr>"
  have edit: "edit_field v f = (fst (field_set_text v f), property_value (field_text f) \<noteq> Some v)" if "unmasked_field f" for f :: "unit text_field"
    using that by (auto simp: edit_field_def Let_def)
  have keep: "text_of f = v" if "property_value (field_text f) = Some v" for f :: "unit text_field" using that by (simp add: text_of_def)
  show "form_step (type_configuration_name v)"
    unfolding form_step_def
  proof (intro allI impI)
    fix ids project d
    assume d: "configuration_frame ids project d \<and> (button_is_disabled (cd_button d) \<or> good_texts d)"
    then have plain: "unmasked_field (cd_name d)" by (simp add: configuration_frame_def)
    let ?d = "(?set_name d)\<lparr>cd_content := editor_set_file_name v (cd_content d)\<rparr>"
    have framed: "configuration_frame ids project ?d" "configuration_frame ids project (?set_name d)"
      using d by (simp_all add: configuration_frame_def editor_set_file_name_def)
    have same: "good_texts (?set_name d) = good_texts d" if "\<not> ?name d"
      using that plain keep [of "cd_name d"] by (simp add: good_texts_def content_of_def)
    show "configuration_frame ids project (type_configuration_name v d) \<and>
        (button_is_disabled (cd_button (type_configuration_name v d)) \<or> good_texts (type_configuration_name v d)) \<and>
        cd_shown (type_configuration_name v d) = cd_shown d"
      using d framed same validate_new_configuration_result [OF framed(1)]
      by (auto simp: type_configuration_name_def Let_def edit [OF plain])
  qed
  show "form_step (type_configuration_profile v)"
    unfolding form_step_def
  proof (intro allI impI)
    fix ids project d
    assume d: "configuration_frame ids project d \<and> (button_is_disabled (cd_button d) \<or> good_texts d)"
    then have plain: "unmasked_field (cd_profile d)" by (simp add: configuration_frame_def)
    let ?d = "d\<lparr>cd_profile := fst (field_set_text v (cd_profile d))\<rparr>"
    have framed: "configuration_frame ids project ?d" using d by (simp add: configuration_frame_def field_fine_set)
    have same: "good_texts ?d = good_texts d" if "property_value (field_text (cd_profile d)) = Some v"
      using that plain keep [of "cd_profile d"] by (simp add: good_texts_def content_of_def)
    show "configuration_frame ids project (type_configuration_profile v d) \<and>
        (button_is_disabled (cd_button (type_configuration_profile v d)) \<or> good_texts (type_configuration_profile v d)) \<and>
        cd_shown (type_configuration_profile v d) = cd_shown d"
      using d framed same validate_new_configuration_result [OF framed]
      by (auto simp: type_configuration_profile_def Let_def edit [OF plain])
  qed
  show "form_step (type_configuration_content v)"
    by (rule form_stepI [where g = "\<lambda>d. d\<lparr>cd_content := editor_set_text v (cd_content d)\<rparr>" and
          changed = "\<lambda>d. property_value (editor_text (editor_set_text v (cd_content d))) \<noteq> property_value (editor_text (cd_content d))"])
      (auto simp: configuration_frame_def editor_set_text_def good_texts_def content_of_def type_configuration_content_def Let_def
          property_set_any)
qed

lemma form_stepD:
  assumes "form_step f" and "configuration_frame ids project d \<and> (button_is_disabled (cd_button d) \<or> good_texts d)"
  shows "configuration_frame ids project (f d)" and "button_is_disabled (cd_button (f d)) \<or> good_texts (f d)"
    and "cd_shown (f d) = cd_shown d"
  using assms unfolding form_step_def by blast+

lemma form_step_ok:
  assumes "form_step f" and ok: "configuration_dialog_ok ids project d" and "dialog_shown (cd_shown d)"
  shows "configuration_dialog_ok ids project (f d)" and "dialog_shown (cd_shown (f d))"
  using form_stepD [OF assms(1), of ids project d] assms(2,3) by (auto simp: configuration_dialog_ok_def)

lemma close_configuration_dialog_ok:
  assumes ok: "configuration_dialog_ok ids project d"
  shows "configuration_dialog_ok ids project (close_configuration_dialog d)"
    and "\<not> dialog_shown (cd_shown (close_configuration_dialog d))"
proof -
  let ?d = "d\<lparr>cd_shown := fst (close_dialog (cd_shown d))\<rparr>"
  let ?name = "type_configuration_name [] ?d" and ?profile = "type_configuration_profile []" and ?content = "type_configuration_content []"
  have "closing_frame (cd_shown d)" using ok by (simp add: configuration_dialog_ok_def configuration_frame_def)
  note closed = close_dialog_frame [OF this]
  have d: "configuration_frame ids project ?d \<and> (button_is_disabled (cd_button ?d) \<or> good_texts ?d)"
    using ok closed(1) by (auto simp: configuration_dialog_ok_def configuration_frame_def good_texts_def content_of_def)
  note n = form_stepD [OF form_steps(1) d, of "[]"]
  note p = form_stepD [OF form_steps(2), of ids project ?name "[]"]
  note c = form_stepD [OF form_steps(3), of ids project "?profile ?name" "[]"]
  have "text_of (cd_name ?name) = []"
    using d validate_new_configuration_result(5) [of ids project "?d\<lparr>cd_name := fst (field_set_text [] (cd_name d)),
        cd_content := editor_set_file_name [] (cd_content d)\<rparr>"]
    by (auto simp: type_configuration_name_def edit_field_def Let_def configuration_frame_def editor_set_file_name_def)
  moreover have "text_of (cd_name (?profile e)) = text_of (cd_name e)" "text_of (cd_name (?content e)) = text_of (cd_name e)" for e
    by (simp_all add: type_configuration_profile_def type_configuration_content_def split_beta Let_def
        validate_new_configuration_def validate_configuration_duplicates_def)
  ultimately have "\<not> good_texts (?content (?profile ?name))" by (simp add: good_texts_def good_configuration_def)
  with n p c have after: "configuration_frame ids project (?content (?profile ?name))"
    "button_is_disabled (cd_button (?content (?profile ?name)))"
    "cd_shown (?content (?profile ?name)) = fst (close_dialog (cd_shown d))" by auto
  moreover have "button_is_disabled (cd_button d)" if "snd (close_dialog (cd_shown d)) = []"
    using closed(4) that ok by (auto simp: configuration_dialog_ok_def)
  ultimately show "configuration_dialog_ok ids project (close_configuration_dialog d)"
    "\<not> dialog_shown (cd_shown (close_configuration_dialog d))"
    using d closed(2) by (auto simp: close_configuration_dialog_def split_beta Let_def configuration_dialog_ok_def)
qed

definition configuration_accepted ::
  "prepared_configuration_identifier list \<Rightarrow> int \<Rightarrow> configuration_effect \<Rightarrow> bool" where
  "configuration_accepted ids project e =
     (case e of
        Configuration_added \<Rightarrow> True
      | Add_configuration r \<Rightarrow>
          prepared_configuration_request_project_id r = project \<and>
          good_configuration ids (prepared_configuration_request_name r) (prepared_configuration_request_profile r)
            (prepared_configuration_request_configuration r))"

definition is_addition :: "configuration_effect \<Rightarrow> bool" where
  "is_addition e \<longleftrightarrow> e \<noteq> Configuration_added"

lemma configuration_step_ok:
  assumes ok: "configuration_dialog_ok ids project d"
  shows "configuration_dialog_ok ids project (fst (configuration_dialog_step op d)) \<and>
    list_all (configuration_accepted ids project) (snd (configuration_dialog_step op d)) \<and>
    length (filter is_addition (snd (configuration_dialog_step op d))) +
      of_bool (dialog_shown (cd_shown (fst (configuration_dialog_step op d)))) \<le> (of_bool (dialog_shown (cd_shown d)) :: nat)"
proof (cases op)
  case Save_new_configuration
  have good: "good_texts d" "dialog_shown (cd_shown d)" if "\<not> button_is_disabled (cd_button d)"
    using ok that by (simp_all add: configuration_dialog_ok_def)
  with ok close_configuration_dialog_ok [OF ok] show ?thesis
    by (auto simp: Save_new_configuration save_new_configuration_def configuration_accepted_def configuration_request_of_def
        is_addition_def good_texts_def configuration_dialog_ok_def configuration_frame_def)
next
  case (Type_configuration_name v)
  with ok form_step_ok [OF form_steps(1) ok, of v] show ?thesis by simp
next
  case (Type_configuration_profile v)
  with ok form_step_ok [OF form_steps(2) ok, of v] show ?thesis by simp
next
  case (Type_configuration_content v)
  with ok form_step_ok [OF form_steps(3) ok, of v] show ?thesis by simp
qed (use close_configuration_dialog_ok [OF ok] in \<open>simp_all add: configuration_accepted_def is_addition_def\<close>)

interpretation configuration_saving: saving_dialog configuration_dialog_step "configuration_dialog_ok ids project" "\<lambda>_. True"
  "configuration_accepted ids project" is_addition "\<lambda>d. dialog_shown (cd_shown d)" for ids project
  by unfold_locales (use configuration_step_ok in blast)+

lemma new_configuration_dialog_ok: "configuration_dialog_ok ids project (new_configuration_dialog ids project)"
  by (simp add: new_configuration_dialog_def configuration_dialog_ok_def configuration_frame_def)
    (simp add: unmasked_field_def new_text_field_def new_property_def new_code_editor_def new_button_def button_is_disabled_def)

text \<open>
  C37. The dialog that adds a prepared configuration sends, whatever is typed and clicked and whatever arrives, at most
  one configuration, of its project: with a profile that matches, with a file name of a known format that the profile
  does not have yet, and with a content.
\<close>
theorem configuration_added_once:
  "let effects = snd (emit_run configuration_dialog_step ops (new_configuration_dialog ids project))
   in list_all (configuration_accepted ids project) effects \<and> length (filter is_addition effects) \<le> 1"
  using configuration_saving.saved_once [OF new_configuration_dialog_ok, of ops] by (simp add: Let_def list_all_iff)

section \<open>Choosing a prepared configuration for a module\<close>

text \<open>
  The two selectors are made when the dialog is drawn: first the profile's, then, if there is a name to offer, the
  name's. Reading the chosen profile before its selector exists is a type error.
\<close>

record choice_dialog =
  ch_ids :: "prepared_configuration_identifier list"
  ch_project :: int
  ch_profile :: "(string, unit) selector option"
  ch_name :: "(string, unit) selector option"
  ch_shown :: "unit dialog"

definition new_choice_dialog :: "prepared_configuration_identifier list \<Rightarrow> int \<Rightarrow> choice_dialog" where
  "new_choice_dialog ids project =
     \<lparr>ch_ids = ids, ch_project = project, ch_profile = None, ch_name = None, ch_shown = new_dialog True True\<rparr>"

definition string_selector :: "string list \<Rightarrow> (string, unit) selector option" where
  "string_selector strings =
     map_option (\<lambda>s. fst (selector_on_select () s))
       (new_selector (\<lambda>v. v \<noteq> []) (\<lambda>v. \<lparr>item_value = v, item_suggestion = v\<rparr>) strings None False)"

definition profile_choices :: "choice_dialog \<Rightarrow> string list" where
  "profile_choices d = unique (\<lambda>p. p) (map pcid_profile (filter (\<lambda>i. pcid_project_id i = ch_project d) (ch_ids d)))"

definition name_offered :: "choice_dialog \<Rightarrow> prepared_configuration_identifier \<Rightarrow> bool option" where
  "name_offered d i =
     (if pcid_profile i \<in> set (profile_choices d) \<and> ch_profile d = None then Some True
      else case ch_profile d of
          None \<Rightarrow> None
        | Some s \<Rightarrow> Some (selector_value s = Some (pcid_profile i) \<and> pcid_project_id i = ch_project d))"

definition name_choices :: "choice_dialog \<Rightarrow> string list option" where
  "name_choices d =
     (case those (map (name_offered d) (ch_ids d)) of
        None \<Rightarrow> None
      | Some offered \<Rightarrow> Some (unique (\<lambda>n. n) (map (pcid_name \<circ> fst) (filter snd (zip (ch_ids d) offered)))))"

text \<open>What is drawn: \<open>None\<close> is the type error, otherwise whether there is a content and whether there is a button.\<close>

definition choice_possible :: "choice_dialog \<Rightarrow> bool option" where
  "choice_possible d =
     (if profile_choices d = [] then Some False else map_option (\<lambda>names. names \<noteq> []) (name_choices d))"

definition draw_profile :: "choice_dialog \<Rightarrow> choice_dialog" where
  "draw_profile d =
     (if profile_choices d \<noteq> [] \<and> ch_profile d = None
      then d\<lparr>ch_profile := string_selector (unique (\<lambda>p. p) (map pcid_profile (ch_ids d)))\<rparr> else d)"

definition draw_name :: "choice_dialog \<Rightarrow> choice_dialog" where
  "draw_name d =
     (case (name_choices d, ch_name d) of
        (Some names, None) \<Rightarrow> if names = [] then d else d\<lparr>ch_name := string_selector names\<rparr>
      | _ \<Rightarrow> d)"

definition draw_choice :: "choice_dialog \<Rightarrow> (choice_dialog \<times> bool) option" where
  "draw_choice d =
     (case choice_possible d of
        None \<Rightarrow> None
      | Some content \<Rightarrow>
          let d1 = (if content then draw_name (draw_profile d) else d)
          in map_option (Pair d1) (choice_possible d1))"

datatype choice_effect = Chosen "prepared_configuration_identifier option" | Selection_failed

text \<open>A profile that is selected offers its names to the other selector, if that was drawn.\<close>

definition select_profile :: "string \<Rightarrow> choice_dialog \<Rightarrow> choice_dialog \<times> choice_effect list" where
  "select_profile profile d =
     (case map_option (selector_select_item profile) (ch_profile d) of
        Some (Settled (s, calls)) \<Rightarrow>
          let d1 = d\<lparr>ch_profile := Some s\<rparr>
          in if values_reported calls = [] then (d1, [])
             else (case (ch_name d, name_choices d1) of
                 (Some n, Some names) \<Rightarrow>
                   (case selector_set_available (\<lambda>v. \<lparr>item_value = v, item_suggestion = v\<rparr>) names n of
                      Settled (n', _) \<Rightarrow> (d1\<lparr>ch_name := Some n'\<rparr>, [])
                    | _ \<Rightarrow> (d1, [Selection_failed]))
               | _ \<Rightarrow> (d1, []))
      | Some _ \<Rightarrow> (d, [Selection_failed])
      | None \<Rightarrow> (d, []))"

definition select_name :: "string \<Rightarrow> choice_dialog \<Rightarrow> choice_dialog" where
  "select_name name d =
     (case map_option (selector_select_item name) (ch_name d) of
        Some (Settled (s, _)) \<Rightarrow> d\<lparr>ch_name := Some s\<rparr>
      | _ \<Rightarrow> d)"

definition click_choice :: "choice_dialog \<Rightarrow> choice_dialog \<times> choice_effect list" where
  "click_choice d =
     (d\<lparr>ch_shown := fst (close_dialog (ch_shown d))\<rparr>,
      [Chosen (find (\<lambda>i. Some (pcid_name i) = Option.bind (ch_name d) selector_value \<and>
         Some (pcid_profile i) = Option.bind (ch_profile d) selector_value) (ch_ids d))])"

datatype choice_op = Select_profile string | Select_name string | Click_choice

fun choice_step :: "choice_op \<Rightarrow> choice_dialog \<Rightarrow> choice_dialog \<times> choice_effect list" where
  "choice_step (Select_profile profile) d = select_profile profile d"
| "choice_step (Select_name name) d = (select_name name d, [])"
| "choice_step Click_choice d = click_choice d"

text \<open>A selector of distinct strings that nobody prevents, its value at its index, reporting to one consumer.\<close>

definition strings_ok :: "string list \<Rightarrow> (string, unit) selector \<Rightarrow> bool" where
  "strings_ok names s \<longleftrightarrow>
     before_update_consumers (selector_selected s) = [] \<and> before_update_consumers (selector_index s) = [] \<and>
     after_update_consumers (selector_selected s) = [()] \<and> distinct names \<and>
     selector_items s = map (\<lambda>v. \<lparr>item_value = v, item_suggestion = v\<rparr>) names \<and>
     (\<exists>i < length names. selector_position s = Some i \<and> selector_value s = Some (names ! i))"

lemma first_index_nth: "distinct xs \<Longrightarrow> j < length xs \<Longrightarrow> first_index (\<lambda>x. x = xs ! j) xs = Some j"
proof (induction xs arbitrary: j)
  case (Cons x xs)
  then show ?case by (cases j) auto
qed simp

lemma index_of_string:
  "distinct names \<Longrightarrow> j < length names \<Longrightarrow>
     index_of_value (map (\<lambda>v. \<lparr>item_value = v, item_suggestion = v\<rparr>) names) (Some (names ! j)) = j"
  by (simp add: index_of_value_first comp_def first_index_nth)

lemma values_reported_Value [simp]:
  "values_reported (Value_call (Updated a v) # calls) = v # values_reported calls"
  by (simp add: values_reported_def map_filter_def)

lemma set_string_index:
  assumes "before_update_consumers (selector_selected s) = []" "before_update_consumers (selector_index s) = []"
    "after_update_consumers (selector_selected s) = [()]" "distinct names" "j < length names"
    "selector_items s = map (\<lambda>v. \<lparr>item_value = v, item_suggestion = v\<rparr>) names" "selector_position s \<noteq> Some j"
  shows "\<exists>s' calls. selector_set_index selector_depth j s = Settled (s', calls) \<and> strings_ok names s' \<and>
    selector_value s' = Some (names ! j) \<and>
    values_reported calls = (if selector_value s = Some (names ! j) then [] else [Some (names ! j)])"
proof -
  note I = property_set_changed [OF assms(2), of j] and V = property_set_changed [OF assms(1), of "names ! j"]
    and U = property_set_unchanged [of "selector_selected s" "names ! j"]
  have "js_at (selector_items s) j = Some \<lparr>item_value = names ! j, item_suggestion = names ! j\<rparr>"
    using assms(5,6) by (simp add: js_at_def)
  then show ?thesis
    using assms I V U index_of_string [OF assms(4,5)]
    by (cases "selector_value s = Some (names ! j)")
      (auto simp: selector_depth_eq Let_def split_beta selector_value_def selector_position_def strings_ok_def
        property_set_keeps_consumers)
qed

lemma select_string:
  assumes "strings_ok names s" and "j < length names"
  shows "\<exists>s' calls. selector_set_index selector_depth j s = Settled (s', calls) \<and> strings_ok names s' \<and>
    selector_value s' = Some (names ! j) \<and>
    values_reported calls = (if selector_value s = Some (names ! j) then [] else [Some (names ! j)])"
proof (cases "selector_position s = Some j")
  case True
  with assms property_set_unchanged [of "selector_index s" j] show ?thesis
    by (auto simp: selector_depth_eq Let_def split_beta selector_value_def selector_position_def strings_ok_def
        property_set_keeps_consumers)
next
  case False
  with assms show ?thesis by (intro set_string_index) (simp_all add: strings_ok_def)
qed

lemma select_string_item:
  assumes "strings_ok names s"
  shows "\<exists>s' calls. selector_select_item v s = Settled (s', calls) \<and> strings_ok names s' \<and>
    (v \<in> set names \<longrightarrow> selector_value s' = Some v) \<and>
    (values_reported calls = [] \<longrightarrow> selector_value s' = selector_value s)"
proof -
  let ?j = "index_or_first (\<lambda>item. item_suggestion item = v) (selector_items s)"
  have "first_index (\<lambda>item. item_suggestion item = v) (map (\<lambda>v. \<lparr>item_value = v, item_suggestion = v\<rparr>) names) =
      first_index (\<lambda>x. x = v) names"
    by (induction names) simp_all
  with assms have j: "?j = index_or_first (\<lambda>x. x = v) names" by (simp add: index_or_first_def strings_ok_def)
  have "names \<noteq> []" using assms by (auto simp: strings_ok_def)
  with j have "?j < length names" "v \<in> set names \<longrightarrow> names ! ?j = v"
    using first_index_None [of "\<lambda>x. x = v" names]
    by (auto simp: index_or_first_def list_all_iff split: option.split dest: first_index_Some)
  with select_string [OF assms this(1)] show ?thesis
    by (auto simp: selector_select_item_def selector_select_index_def split: if_splits)
qed

lemma set_available_strings:
  assumes "strings_ok names s" and "distinct names'" and "names' \<noteq> []"
  shows "\<exists>s' calls. selector_set_available (\<lambda>v. \<lparr>item_value = v, item_suggestion = v\<rparr>) names' s = Settled (s', calls) \<and>
    strings_ok names' s'"
proof -
  let ?s = "s\<lparr>selector_items := map (\<lambda>v. \<lparr>item_value = v, item_suggestion = v\<rparr>) names'\<rparr>"
  obtain selected where selected: "selector_value s = Some selected" using assms(1) by (auto simp: strings_ok_def)
  define j where "j = index_or_first (\<lambda>v. v = selected) names'"
  have j: "j < length names'"
    using assms(3) by (auto simp: j_def index_or_first_def split: option.split dest: first_index_Some)
  have pre: "before_update_consumers (selector_selected ?s) = []" "before_update_consumers (selector_index ?s) = []"
    "after_update_consumers (selector_selected ?s) = [()]"
    "selector_items ?s = map (\<lambda>v. \<lparr>item_value = v, item_suggestion = v\<rparr>) names'"
    using assms(1) by (simp_all add: strings_ok_def)
  show ?thesis
  proof (cases "selector_position s = Some j")
    case True
    have "\<exists>s' calls. selector_set_value selector_depth (js_at names' j) ?s = Settled (s', calls) \<and> strings_ok names' s'"
      using pre True assms(2) j index_of_string [OF assms(2) j]
        property_set_changed [OF pre(1), of "names' ! j"] property_set_unchanged [of "selector_selected ?s" "names' ! j"]
      by (cases "selector_value s = Some (names' ! j)")
        (auto simp: js_at_def selector_depth_eq Let_def split_beta strings_ok_def selector_value_def
          selector_position_def property_set_keeps_consumers)
    with True selected show ?thesis
      by (simp add: selector_set_available_def selector_value_def selector_position_def j_def [symmetric])
  next
    case False
    then have "selector_position ?s \<noteq> Some j" by (simp add: selector_position_def)
    from set_string_index [OF pre(1,2,3) assms(2) j pre(4) this] False selected show ?thesis
      by (auto simp: selector_set_available_def selector_value_def selector_position_def j_def [symmetric])
  qed
qed

definition own_ids :: "prepared_configuration_identifier list \<Rightarrow> int \<Rightarrow> prepared_configuration_identifier list" where
  "own_ids ids project = filter (\<lambda>i. pcid_project_id i = project) ids"

definition own_names :: "prepared_configuration_identifier list \<Rightarrow> int \<Rightarrow> string \<Rightarrow> string list" where
  "own_names ids project profile =
     unique (\<lambda>n. n) (map pcid_name (filter (\<lambda>i. pcid_profile i = profile) (own_ids ids project)))"

lemma unique_strings: "unique (\<lambda>x. x) xs = set_of_array xs"
  using conjunct1 [OF unique_correct [of "\<lambda>x. x" xs]] by simp

lemma set_of_array_Nil [simp]: "set_of_array xs = [] \<longleftrightarrow> xs = []"
  using set_set_of_array [of xs] by (metis set_empty)

lemma those_map_all_Some: "those (map (\<lambda>x. Some (f x)) xs) = Some (map f xs)"
  by (induction xs) simp_all

lemma map_fst_filter_zip: "map (g \<circ> fst) (filter snd (zip xs (map f xs))) = map g (filter f xs)"
  by (induction xs) simp_all

text \<open>What the dialog offers before and after the profile's selector is there.\<close>

lemma profile_choices_own: "profile_choices d = set_of_array (map pcid_profile (own_ids (ch_ids d) (ch_project d)))"
  by (simp add: profile_choices_def own_ids_def unique_strings)

lemma name_choices_drawn:
  assumes "ch_profile d = Some s" and "selector_value s = Some p"
  shows "name_choices d = Some (own_names (ch_ids d) (ch_project d) p)"
proof -
  have "name_offered d = (\<lambda>i. Some (p = pcid_profile i \<and> pcid_project_id i = ch_project d))"
    using assms by (simp add: name_offered_def fun_eq_iff)
  then show ?thesis
    by (simp add: name_choices_def those_map_all_Some map_fst_filter_zip own_names_def own_ids_def conj_commute eq_commute [of p])
qed

lemma name_choices_new:
  assumes "ch_profile d = None"
  shows "name_choices d =
    (if pcid_profile ` set (ch_ids d) \<subseteq> pcid_profile ` set (own_ids (ch_ids d) (ch_project d))
     then Some (unique (\<lambda>n. n) (map pcid_name (ch_ids d))) else None)"
proof -
  let ?own = "pcid_profile ` set (own_ids (ch_ids d) (ch_project d))"
  have offered: "name_offered d = (\<lambda>i. if pcid_profile i \<in> ?own then Some True else None)"
    using assms by (simp add: name_offered_def fun_eq_iff profile_choices_own)
  have "those (map (name_offered d) is') =
      (if pcid_profile ` set is' \<subseteq> ?own then Some (map (\<lambda>i. True) is') else None)" for is'
    by (induction is') (simp_all add: offered)
  then show ?thesis
    by (simp add: name_choices_def map_fst_filter_zip [of pcid_name _ "\<lambda>i. True"])
qed

definition choice_ok :: "prepared_configuration_identifier list \<Rightarrow> int \<Rightarrow> choice_dialog \<Rightarrow> bool" where
  "choice_ok ids project d \<longleftrightarrow>
     ch_ids d = ids \<and> ch_project d = project \<and>
     (\<exists>sp sn p. ch_profile d = Some sp \<and> ch_name d = Some sn \<and> selector_value sp = Some p \<and>
        strings_ok (set_of_array (map pcid_profile ids)) sp \<and> strings_ok (own_names ids project p) sn)"

lemma own_names_facts [simp]:
  "distinct (own_names ids project p)"
  "own_names ids project p = [] \<longleftrightarrow> p \<notin> pcid_profile ` set (own_ids ids project)"
  "set (own_names ids project p) = pcid_name ` {i \<in> set (own_ids ids project). pcid_profile i = p}"
  by (auto simp: own_names_def unique_strings filter_empty_conv)

lemma strings_ok_value: "strings_ok names s \<Longrightarrow> \<exists>v\<in>set names. selector_value s = Some v"
  by (auto simp: strings_ok_def)

lemma select_profile_ok:
  assumes all: "pcid_profile ` set ids \<subseteq> pcid_profile ` set (own_ids ids project)" and ok: "choice_ok ids project d"
  shows "snd (select_profile profile d) = [] \<and> choice_ok ids project (fst (select_profile profile d)) \<and>
    (profile \<in> pcid_profile ` set ids \<longrightarrow>
      Option.bind (ch_profile (fst (select_profile profile d))) selector_value = Some profile)"
proof -
  from ok obtain sp sn p where d: "ch_ids d = ids" "ch_project d = project" "ch_profile d = Some sp" "ch_name d = Some sn"
    "selector_value sp = Some p" and sp: "strings_ok (set_of_array (map pcid_profile ids)) sp"
    and sn: "strings_ok (own_names ids project p) sn"
    by (auto simp: choice_ok_def)
  from select_string_item [OF sp, of profile] obtain s' calls where
    s': "selector_select_item profile sp = Settled (s', calls)" "strings_ok (set_of_array (map pcid_profile ids)) s'"
      "profile \<in> pcid_profile ` set ids \<longrightarrow> selector_value s' = Some profile"
      "values_reported calls = [] \<longrightarrow> selector_value s' = selector_value sp" by auto
  from strings_ok_value [OF s'(2)] obtain q where q: "q \<in> pcid_profile ` set ids" "selector_value s' = Some q" by auto
  let ?d1 = "d\<lparr>ch_profile := Some s'\<rparr>"
  have names: "name_choices ?d1 = Some (own_names ids project q)"
    using name_choices_drawn [of ?d1 s' q] q(2) d by simp
  show ?thesis
  proof (cases "values_reported calls = []")
    case True
    with d s' sn show ?thesis by (auto simp: select_profile_def choice_ok_def)
  next
    case False
    from q all have "own_names ids project q \<noteq> []" by auto
    with set_available_strings [OF sn own_names_facts(1) this] False d s' names q show ?thesis
      by (auto simp: select_profile_def choice_ok_def)
  qed
qed

lemma select_name_ok:
  assumes "choice_ok ids project d"
  shows "choice_ok ids project (select_name name d) \<and> ch_profile (select_name name d) = ch_profile d \<and>
    (\<forall>i\<in>set (own_ids ids project). Option.bind (ch_profile d) selector_value = Some (pcid_profile i) \<longrightarrow> pcid_name i = name \<longrightarrow>
      Option.bind (ch_name (select_name name d)) selector_value = Some name)"
proof -
  from assms obtain sp sn p where d: "ch_ids d = ids" "ch_project d = project" "ch_profile d = Some sp" "ch_name d = Some sn"
    "selector_value sp = Some p" and sp: "strings_ok (set_of_array (map pcid_profile ids)) sp"
    and sn: "strings_ok (own_names ids project p) sn"
    by (auto simp: choice_ok_def)
  from select_string_item [OF sn, of name] obtain s' calls where
    "selector_select_item name sn = Settled (s', calls)" "strings_ok (own_names ids project p) s'"
      "name \<in> set (own_names ids project p) \<longrightarrow> selector_value s' = Some name" by auto
  with d sp show ?thesis by (auto simp: select_name_def choice_ok_def)
qed

lemma choice_step_ok:
  assumes "pcid_profile ` set ids \<subseteq> pcid_profile ` set (own_ids ids project)" and "choice_ok ids project d"
  shows "choice_ok ids project (fst (choice_step op d))"
proof (cases op)
  case (Select_profile profile)
  with select_profile_ok [OF assms, of profile] show ?thesis by simp
next
  case (Select_name name)
  with select_name_ok [OF assms(2), of name] show ?thesis by simp
next
  case Click_choice
  with assms(2) show ?thesis by (simp add: click_choice_def choice_ok_def)
qed

lemma new_string_selector:
  assumes "distinct names" and "names \<noteq> []"
  shows "\<exists>s. string_selector names = Some s \<and> strings_ok names s \<and> selector_value s = Some (hd names)"
  using assms
  by (simp add: string_selector_def new_selector_def Let_def strings_ok_def selector_on_select_def property_consume_def
      new_property_def selector_value_def selector_position_def js_at_def hd_conv_nth)

lemma draw_choice_result:
  "case draw_choice (new_choice_dialog ids project) of
     None \<Rightarrow> own_ids ids project \<noteq> [] \<and> \<not> pcid_profile ` set ids \<subseteq> pcid_profile ` set (own_ids ids project)
   | Some (d, button) \<Rightarrow>
       (button \<longleftrightarrow> own_ids ids project \<noteq> []) \<and>
       (button \<longrightarrow> pcid_profile ` set ids \<subseteq> pcid_profile ` set (own_ids ids project) \<and> choice_ok ids project d)"
proof -
  let ?d = "new_choice_dialog ids project" and ?own = "own_ids ids project"
  have d: "ch_ids ?d = ids" "ch_project ?d = project" "ch_profile ?d = None" "ch_name ?d = None"
    by (simp_all add: new_choice_dialog_def)
  show ?thesis
  proof (cases "?own = [] \<or> \<not> pcid_profile ` set ids \<subseteq> pcid_profile ` set ?own")
    case True
    with d show ?thesis
      by (auto simp: draw_choice_def choice_possible_def profile_choices_own name_choices_new Let_def)
  next
    case False
    then have own: "?own \<noteq> []" and all: "pcid_profile ` set ids \<subseteq> pcid_profile ` set ?own" by auto
    then have "ids \<noteq> []" by (auto simp: own_ids_def)
    with new_string_selector [of "set_of_array (map pcid_profile ids)"] obtain sp where
      sp: "string_selector (set_of_array (map pcid_profile ids)) = Some sp"
        "strings_ok (set_of_array (map pcid_profile ids)) sp" by auto
    from strings_ok_value [OF sp(2)] all obtain p where
      p: "selector_value sp = Some p" "p \<in> pcid_profile ` set ?own" by auto
    with new_string_selector [of "own_names ids project p"] obtain sn where
      sn: "string_selector (own_names ids project p) = Some sn" "strings_ok (own_names ids project p) sn" by auto
    let ?d1 = "?d\<lparr>ch_profile := Some sp\<rparr>" and ?d2 = "?d\<lparr>ch_profile := Some sp, ch_name := Some sn\<rparr>"
    have possible: "choice_possible ?d = Some True"
      using d own all \<open>ids \<noteq> []\<close> by (simp add: choice_possible_def profile_choices_own name_choices_new unique_strings)
    have drawn: "draw_profile ?d = ?d1"
      using d own sp by (simp add: draw_profile_def profile_choices_own unique_strings)
    have names: "name_choices ?d1 = Some (own_names ids project p)" "name_choices ?d2 = Some (own_names ids project p)"
      using name_choices_drawn [of ?d1 sp p] name_choices_drawn [of ?d2 sp p] p d by simp_all
    have "draw_name ?d1 = ?d2"
      using d p sn names by (simp add: draw_name_def)
    moreover have "choice_possible ?d2 = Some True"
      using d own p names by (simp add: choice_possible_def profile_choices_own)
    moreover have "choice_ok ids project ?d2" using d sp sn p by (simp add: choice_ok_def)
    ultimately show ?thesis using possible drawn own all by (simp add: draw_choice_def Let_def)
  qed
qed

text \<open>
  C10. The dialog that chooses a prepared configuration mixes projects up. It fails to be drawn exactly if its project
  has configurations but another project has a profile that its own does not have; otherwise there is a button exactly
  if the project has configurations. Whatever was selected before, who then selects the profile and the name of one of
  the project's configurations and clicks hands over the first configuration of that profile and name of any project.
\<close>
theorem choice_crosses_projects:
  "let own = filter (\<lambda>i. pcid_project_id i = project) ids
   in case draw_choice (new_choice_dialog ids project) of
      None \<Rightarrow> own \<noteq> [] \<and> \<not> pcid_profile ` set ids \<subseteq> pcid_profile ` set own
    | Some (d, button) \<Rightarrow>
        (own \<noteq> [] \<longrightarrow> pcid_profile ` set ids \<subseteq> pcid_profile ` set own) \<and>
        (button \<longleftrightarrow> own \<noteq> []) \<and>
        (\<forall>i\<in>set own. snd (emit_run choice_step
             [Select_profile (pcid_profile i), Select_name (pcid_name i), Click_choice] (fst (emit_run choice_step ops d))) =
           [Chosen (find (\<lambda>j. pcid_name j = pcid_name i \<and> pcid_profile j = pcid_profile i) ids)])"
proof (cases "draw_choice (new_choice_dialog ids project)")
  case None
  with draw_choice_result [of ids project] show ?thesis by (simp add: own_ids_def)
next
  case (Some drawn)
  obtain d button where drawn: "drawn = (d, button)" by (cases drawn)
  note result = draw_choice_result [of ids project, unfolded Some drawn option.case prod.case]
  have "snd (emit_run choice_step [Select_profile (pcid_profile i), Select_name (pcid_name i), Click_choice]
        (fst (emit_run choice_step ops d))) =
      [Chosen (find (\<lambda>j. pcid_name j = pcid_name i \<and> pcid_profile j = pcid_profile i) ids)]"
    if own: "i \<in> set (own_ids ids project)" for i
  proof -
    from own have "own_ids ids project \<noteq> []" by auto
    with result have all: "pcid_profile ` set ids \<subseteq> pcid_profile ` set (own_ids ids project)"
      and "choice_ok ids project d" by auto
    from choice_step_ok [OF all] this(2) have ok: "choice_ok ids project (fst (emit_run choice_step ops d))"
      by (rule emit_run_invariant)
    define d1 where "d1 = select_profile (pcid_profile i) (fst (emit_run choice_step ops d))"
    define d2 where "d2 = select_name (pcid_name i) (fst d1)"
    have "pcid_profile i \<in> pcid_profile ` set ids" using own by (auto simp: own_ids_def)
    with select_profile_ok [OF all ok, of "pcid_profile i"] have d1: "snd d1 = []" "choice_ok ids project (fst d1)"
      "Option.bind (ch_profile (fst d1)) selector_value = Some (pcid_profile i)"
      by (simp_all add: d1_def)
    with select_name_ok [OF d1(2), of "pcid_name i"] own have "choice_ok ids project d2"
      "Option.bind (ch_profile d2) selector_value = Some (pcid_profile i)"
      "Option.bind (ch_name d2) selector_value = Some (pcid_name i)"
      by (simp_all add: d2_def)
    moreover from this(1) have "ch_ids d2 = ids" by (simp add: choice_ok_def)
    ultimately show ?thesis using d1(1)
      by (simp add: d1_def [symmetric] d2_def [symmetric] click_choice_def)
  qed
  with result Some drawn show ?thesis by (auto simp: own_ids_def)
qed

theorem choice_crosses_projects_witness:
  "let ids = [\<lparr>pcid_id = 7, pcid_project_id = 2, pcid_profile = ''dev'', pcid_name = ''app.yml''\<rparr>,
              \<lparr>pcid_id = 8, pcid_project_id = 1, pcid_profile = ''dev'', pcid_name = ''app.yml''\<rparr>]
   in \<exists>d. draw_choice (new_choice_dialog ids 1) = Some (d, True) \<and>
      snd (emit_run choice_step [Select_profile ''dev'', Select_name ''app.yml'', Click_choice] d) =
        [Chosen (Some \<lparr>pcid_id = 7, pcid_project_id = 2, pcid_profile = ''dev'', pcid_name = ''app.yml''\<rparr>)]"
  unfolding Let_def
  using choice_crosses_projects [of 1 "[\<lparr>pcid_id = 7, pcid_project_id = 2, pcid_profile = ''dev'', pcid_name = ''app.yml''\<rparr>,
      \<lparr>pcid_id = 8, pcid_project_id = 1, pcid_profile = ''dev'', pcid_name = ''app.yml''\<rparr>]" "[]"]
  by (auto simp: Let_def split: option.splits)

section \<open>The rights of a user\<close>

text \<open>
  A box for every action that is not reserved to administrators and one for every project, once the user and the
  projects are there; checking a box changes the user, who is sent as a whole.
\<close>

record privileges_dialog =
  pv_id :: int
  pv_user :: "user option"
  pv_projects :: "project list"
  pv_actions :: "(string \<times> unit toggle) list option"
  pv_project_boxes :: "(int \<times> unit toggle) list option"
  pv_shown :: "unit dialog"

datatype privileges_effect = Request_user int | Request_projects | Update_user "user option" | Updated_notice string | Update_failed

definition new_privileges_dialog :: "int \<Rightarrow> privileges_dialog \<times> privileges_effect list" where
  "new_privileges_dialog i =
     (\<lparr>pv_id = i, pv_user = None, pv_projects = [], pv_actions = None, pv_project_boxes = None,
       pv_shown = new_dialog True True\<rparr>, [Request_user i, Request_projects])"

definition editable_actions :: "string list" where
  "editable_actions =
     filter (\<lambda>a. a \<noteq> action_action PROJECTS_MANAGEMENT \<and> a \<noteq> action_action ADMINISTRATION)
       (map side_bar_action_id SIDE_BAR_ACTIONS)"

definition right_box :: "'k list \<Rightarrow> 'k \<Rightarrow> 'k \<times> unit toggle" where
  "right_box rights k = (k, fst (toggle_on_check () (new_toggle False (k \<in> set rights))))"

definition draw_privileges :: "privileges_dialog \<Rightarrow> privileges_dialog" where
  "draw_privileges d =
     (case pv_user d of
        None \<Rightarrow> d
      | Some u \<Rightarrow>
          d\<lparr>pv_actions := (case pv_actions d of
              None \<Rightarrow> Some (map (right_box (user_available_actions u)) editable_actions) | Some boxes \<Rightarrow> Some boxes),
            pv_project_boxes := (case pv_project_boxes d of
              None \<Rightarrow>
                if pv_projects d = [] then None
                else Some (map (\<lambda>p. right_box (user_available_projects u) (project_id p)) (pv_projects d))
            | Some boxes \<Rightarrow> Some boxes)\<rparr>)"

definition change_right :: "'k \<Rightarrow> bool \<Rightarrow> 'k list \<Rightarrow> 'k list" where
  "change_right k checked rights = (if checked then rights @ [k] else with_out (=) rights k)"

fun checked_reports :: "(bool, unit) property_call list \<Rightarrow> bool list" where
  "checked_reports [] = []"
| "checked_reports (Updated _ (Some b) # calls) = b # checked_reports calls"
| "checked_reports (call # calls) = checked_reports calls"

text \<open>A click on the \<open>i\<close>-th box: the new rights are those that the reports of the box leave.\<close>

definition click_right ::
  "nat \<Rightarrow> ('k \<times> unit toggle) list \<Rightarrow> 'k list \<Rightarrow> ('k \<times> unit toggle) list \<times> 'k list" where
  "click_right i boxes rights =
     (case js_at boxes i of
        None \<Rightarrow> (boxes, rights)
      | Some (k, t) \<Rightarrow>
          (let (t', calls) = toggle_click_box t
           in (boxes[i := (k, t')], fold (change_right k) (checked_reports calls) rights)))"

datatype privileges_op =
    User_arrives user | Projects_arrive "project list" | Click_action nat | Click_project nat | Click_save_rights | Update_done
  | Close_privileges

fun privileges_step :: "privileges_op \<Rightarrow> privileges_dialog \<Rightarrow> privileges_dialog \<times> privileges_effect list" where
  "privileges_step (User_arrives u) d = (draw_privileges (d\<lparr>pv_user := Some u\<rparr>), [])"
| "privileges_step (Projects_arrive ps) d = (draw_privileges (d\<lparr>pv_projects := ps\<rparr>), [])"
| "privileges_step (Click_action i) d =
     (case (pv_user d, pv_actions d) of
        (Some u, Some boxes) \<Rightarrow>
          (let (boxes', rights) = click_right i boxes (user_available_actions u)
           in (d\<lparr>pv_actions := Some boxes', pv_user := Some (u\<lparr>user_available_actions := rights\<rparr>)\<rparr>, []))
      | _ \<Rightarrow> (d, []))"
| "privileges_step (Click_project i) d =
     (case (pv_user d, pv_project_boxes d) of
        (Some u, Some boxes) \<Rightarrow>
          (let (boxes', rights) = click_right i boxes (user_available_projects u)
           in (d\<lparr>pv_project_boxes := Some boxes', pv_user := Some (u\<lparr>user_available_projects := rights\<rparr>)\<rparr>, []))
      | _ \<Rightarrow> (d, []))"
| "privileges_step Click_save_rights d = (d, [Update_user (pv_user d)])"
| "privileges_step Update_done d =
     (case pv_user d of
        None \<Rightarrow> (d, [Update_failed])
      | Some u \<Rightarrow> (d\<lparr>pv_shown := fst (close_dialog (pv_shown d))\<rparr>, [Updated_notice (user_name u)]))"
| "privileges_step Close_privileges d = (d\<lparr>pv_shown := fst (close_dialog (pv_shown d))\<rparr>, [])"

text \<open>Rights and boxes agree: what is checked was granted, what has no box stays as it was.\<close>

definition rights_ok :: "'k list \<Rightarrow> ('k \<times> unit toggle) list \<Rightarrow> 'k list \<Rightarrow> bool" where
  "rights_ok first boxes rights \<longleftrightarrow>
     set rights = {k. \<exists>t. (k, t) \<in> set boxes \<and> toggle_is_checked t} \<union> (set first - set (map fst boxes))"

definition boxes_ok :: "('k \<times> unit toggle) list \<Rightarrow> bool" where
  "boxes_ok boxes \<longleftrightarrow> distinct (map fst boxes) \<and>
     list_all (\<lambda>(k, t). before_update_consumers (toggle_checked t) = [] \<and> after_update_consumers (toggle_checked t) = [()] \<and>
       property_value (toggle_checked t) \<noteq> None \<and> \<not> toggle_is_disabled t) boxes"

lemma right_box_simps [simp]:
  "fst (right_box rights k) = k" "toggle_is_checked (snd (right_box rights k)) \<longleftrightarrow> k \<in> set rights"
  "before_update_consumers (toggle_checked (snd (right_box rights k))) = []"
  "after_update_consumers (toggle_checked (snd (right_box rights k))) = [()]"
  "property_value (toggle_checked (snd (right_box rights k))) = Some (k \<in> set rights)"
  "\<not> toggle_is_disabled (snd (right_box rights k))"
  by (simp_all add: right_box_def toggle_on_check_def new_toggle_def property_consume_def new_property_def toggle_is_checked_def
      toggle_is_disabled_def)

lemma right_boxes_ok:
  assumes "distinct ks"
  shows "boxes_ok (map (right_box rights) ks)" and "rights_ok rights (map (right_box rights) ks) rights"
proof -
  have boxes: "(k, t) \<in> set (map (right_box rights) ks) \<longleftrightarrow> k \<in> set ks \<and> t = snd (right_box rights k)" for k t
    by (auto simp: right_box_def)
  show "boxes_ok (map (right_box rights) ks)"
    using assms by (auto simp: boxes_ok_def list_all_iff split_beta comp_def)
  show "rights_ok rights (map (right_box rights) ks) rights"
    unfolding rights_ok_def boxes by (auto simp: comp_def)
qed

lemma toggle_click:
  assumes "before_update_consumers (toggle_checked t) = []" "after_update_consumers (toggle_checked t) = [()]"
    "property_value (toggle_checked t) \<noteq> None" "\<not> toggle_is_disabled t"
  shows "toggle_is_checked (fst (toggle_click_box t)) \<longleftrightarrow> \<not> toggle_is_checked t"
    and "checked_reports (snd (toggle_click_box t)) = [\<not> toggle_is_checked t]"
    and "before_update_consumers (toggle_checked (fst (toggle_click_box t))) = []"
    and "after_update_consumers (toggle_checked (fst (toggle_click_box t))) = [()]"
    and "property_value (toggle_checked (fst (toggle_click_box t))) \<noteq> None"
    and "\<not> toggle_is_disabled (fst (toggle_click_box t))"
  using assms
  by (auto simp: toggle_click_box_def toggle_set_checked_def toggle_is_checked_def toggle_is_disabled_def split_beta
      property_set_def prevented_def notify_updated_def split: option.splits)

lemma map_of_update_nth:
  "distinct (map fst xs) \<Longrightarrow> i < length xs \<Longrightarrow> xs ! i = (k, v) \<Longrightarrow> map_of (xs[i := (k, w)]) = (map_of xs)(k \<mapsto> w)"
proof (induction xs arbitrary: i)
  case (Cons x xs)
  show ?case
  proof (cases i)
    case (Suc j)
    with Cons.prems have "(k, v) \<in> set xs" by (metis Suc_less_eq length_Cons nth_Cons_Suc nth_mem)
    then have "k \<in> fst ` set xs" by (metis fst_conv image_eqI)
    with Cons.prems have "fst x \<noteq> k" by auto
    with Cons Suc show ?thesis by (cases x) (auto simp: fun_eq_iff)
  qed (use Cons.prems in \<open>auto simp: fun_eq_iff\<close>)
qed simp

lemma click_right_ok:
  assumes boxes: "boxes_ok boxes" and rights: "rights_ok first boxes rights"
  shows "boxes_ok (fst (click_right i boxes rights))"
    and "rights_ok first (fst (click_right i boxes rights)) (snd (click_right i boxes rights))"
    and "map fst (fst (click_right i boxes rights)) = map fst boxes"
proof -
  have "boxes_ok (fst (click_right i boxes rights)) \<and>
      rights_ok first (fst (click_right i boxes rights)) (snd (click_right i boxes rights)) \<and>
      map fst (fst (click_right i boxes rights)) = map fst boxes"
  proof (cases "i < length boxes")
    case False
    with boxes rights show ?thesis by (simp add: click_right_def js_at_def)
  next
    case True
    obtain k t where kt: "boxes ! i = (k, t)" by fastforce
    then have "(k, t) \<in> set boxes" using True nth_mem by metis
    with boxes have t: "before_update_consumers (toggle_checked t) = []" "after_update_consumers (toggle_checked t) = [()]"
      "property_value (toggle_checked t) \<noteq> None" "\<not> toggle_is_disabled t"
      by (auto simp: boxes_ok_def list_all_iff)
    let ?t = "fst (toggle_click_box t)"
    have click: "click_right i boxes rights = (boxes[i := (k, ?t)], change_right k (\<not> toggle_is_checked t) rights)"
      using True kt toggle_click(2) [OF t] by (simp add: click_right_def js_at_def split_beta)
    have keys: "map fst (boxes[i := (k, ?t)]) = map fst boxes"
      using True kt by (metis fst_conv list_update_id map_update nth_map)
    have distinct: "distinct (map fst boxes)" using boxes by (simp add: boxes_ok_def)
    have others: "(k', t') \<in> set (boxes[i := (k, ?t)]) \<longleftrightarrow>
        (if k' = k then t' = ?t else (k', t') \<in> set boxes)" for k' t'
    proof -
      have "map_of (boxes[i := (k, ?t)]) = (map_of boxes)(k \<mapsto> ?t)"
        by (rule map_of_update_nth [OF distinct True kt])
      moreover have "(k', t') \<in> set (boxes[i := (k, ?t)]) \<longleftrightarrow> map_of (boxes[i := (k, ?t)]) k' = Some t'"
        using distinct keys by simp
      ultimately show ?thesis using distinct by auto
    qed
    have only: "t' = t" if "(k, t') \<in> set boxes" for t'
      using that distinct \<open>(k, t) \<in> set boxes\<close> by (metis eq_key_imp_eq_value)
    have "boxes_ok (boxes[i := (k, ?t)])"
      unfolding boxes_ok_def list_all_iff
    proof (rule conjI, use keys distinct in simp, rule ballI)
      fix x
      assume x: "x \<in> set (boxes[i := (k, ?t)])"
      then have "x = (k, ?t) \<or> x \<in> set boxes" by (meson set_update_subset_insert subsetD insert_iff)
      then show "case x of (k, t) \<Rightarrow> before_update_consumers (toggle_checked t) = [] \<and> after_update_consumers (toggle_checked t) = [()] \<and>
          property_value (toggle_checked t) \<noteq> None \<and> \<not> toggle_is_disabled t"
        using boxes toggle_click(3-6) [OF t] by (elim disjE) (simp_all add: boxes_ok_def list_all_iff)
    qed
    moreover have "rights_ok first (boxes[i := (k, ?t)]) (change_right k (\<not> toggle_is_checked t) rights)"
    proof -
      let ?old = "{k. \<exists>t. (k, t) \<in> set boxes \<and> toggle_is_checked t}"
      have new: "{k'. \<exists>t'. (k', t') \<in> set (boxes[i := (k, ?t)]) \<and> toggle_is_checked t'} =
          (if toggle_is_checked t then ?old - {k} else insert k ?old)"
        unfolding others using toggle_click(1) [OF t] only by (auto split: if_splits)
      have "k \<in> set (map fst boxes)" using \<open>(k, t) \<in> set boxes\<close> by (metis fst_conv image_eqI list.set_map)
      moreover have "set (change_right k (\<not> toggle_is_checked t) rights) =
          (if toggle_is_checked t then set rights - {k} else insert k (set rights))"
        by (auto simp: change_right_def with_out_def)
      ultimately show ?thesis using rights unfolding rights_ok_def new keys by (cases "toggle_is_checked t"; simp only: if_True if_False; blast)
    qed
    ultimately show ?thesis using click keys by simp
  qed
  then show "boxes_ok (fst (click_right i boxes rights))"
    "rights_ok first (fst (click_right i boxes rights)) (snd (click_right i boxes rights))"
    "map fst (fst (click_right i boxes rights)) = map fst boxes" by simp_all
qed

text \<open>The invariant once the user has arrived: the boxes of the projects come with the projects.\<close>

definition same_user :: "user \<Rightarrow> user \<Rightarrow> bool" where
  "same_user u v \<longleftrightarrow>
     u\<lparr>user_available_actions := user_available_actions v, user_available_projects := user_available_projects v\<rparr> = v"

definition privileges_ok :: "user \<Rightarrow> privileges_dialog \<Rightarrow> bool" where
  "privileges_ok u d \<longleftrightarrow>
     (case (pv_user d, pv_actions d) of
        (Some v, Some boxes) \<Rightarrow>
          same_user u v \<and> boxes_ok boxes \<and> map fst boxes = editable_actions \<and>
          rights_ok (user_available_actions u) boxes (user_available_actions v) \<and>
          distinct (map project_id (pv_projects d)) \<and>
          (case pv_project_boxes d of
             None \<Rightarrow> user_available_projects v = user_available_projects u
           | Some pboxes \<Rightarrow> boxes_ok pboxes \<and> rights_ok (user_available_projects u) pboxes (user_available_projects v))
      | _ \<Rightarrow> False)"

lemma editable_actions_distinct: "distinct editable_actions"
  by code_simp

definition distinct_projects :: "privileges_op \<Rightarrow> bool" where
  "distinct_projects op \<longleftrightarrow>
     (case op of Projects_arrive ps \<Rightarrow> distinct (map project_id ps) | User_arrives _ \<Rightarrow> False | _ \<Rightarrow> True)"

lemma user_arrives_ok:
  assumes "pv_actions d = None" and "pv_project_boxes d = None" and "distinct (map project_id (pv_projects d))"
  shows "privileges_ok u (fst (privileges_step (User_arrives u) d))"
  using assms right_boxes_ok [OF editable_actions_distinct, of "user_available_actions u"]
    right_boxes_ok [OF assms(3), of "user_available_projects u"]
  by (simp add: privileges_ok_def draw_privileges_def same_user_def comp_def)

lemma privileges_step_ok:
  assumes ok: "privileges_ok u d" and op: "distinct_projects op"
  shows "privileges_ok u (fst (privileges_step op d))"
proof -
  obtain v boxes where v: "pv_user d = Some v" "pv_actions d = Some boxes"
    using ok by (auto simp: privileges_ok_def split: option.splits)
  with ok have facts: "same_user u v" "boxes_ok boxes" "map fst boxes = editable_actions"
    "rights_ok (user_available_actions u) boxes (user_available_actions v)" by (simp_all add: privileges_ok_def)
  show ?thesis
  proof (cases op)
    case (Projects_arrive ps)
    with op have ps: "distinct (map project_id ps)" by (simp add: distinct_projects_def)
    with ok v Projects_arrive right_boxes_ok [OF ps, of "user_available_projects u"] show ?thesis
      by (cases "pv_project_boxes d") (simp_all add: privileges_ok_def draw_privileges_def comp_def)
  next
    case (Click_action i)
    with ok v click_right_ok [OF facts(2,4), of i] show ?thesis
      by (simp add: privileges_ok_def split_beta same_user_def split: option.splits)
        (cases u; cases v; simp)+
  next
    case (Click_project i)
    show ?thesis
    proof (cases "pv_project_boxes d")
      case (Some pboxes)
      with ok v have p: "boxes_ok pboxes" "rights_ok (user_available_projects u) pboxes (user_available_projects v)"
        by (simp_all add: privileges_ok_def)
      from ok v Click_project Some click_right_ok [OF p, of i] show ?thesis
        by (simp add: privileges_ok_def split_beta same_user_def) (cases u; cases v; simp)
    qed (use ok v Click_project in simp)
  next
    case (User_arrives w)
    with op show ?thesis by (simp add: distinct_projects_def)
  qed (use ok v in \<open>simp_all add: privileges_ok_def\<close>)
qed

text \<open>
  C9. The boxes of the rights say what is saved: once the user has arrived, after whatever is clicked and arrives,
  the user that would be sent has exactly the actions whose boxes are checked, besides those that have no box, which stay
  as they were, and the projects likewise; nothing else of the user has changed.
\<close>
theorem privileges_as_checked:
  assumes "list_all distinct_projects ops" and "distinct (map project_id ps)"
  shows "privileges_ok u (fst (emit_run privileges_step (Projects_arrive ps # User_arrives u # ops) (fst (new_privileges_dialog i))))"
proof -
  let ?d = "fst (privileges_step (User_arrives u) (fst (privileges_step (Projects_arrive ps) (fst (new_privileges_dialog i)))))"
  have start: "privileges_ok u ?d"
    by (rule user_arrives_ok) (use assms(2) in \<open>simp_all add: new_privileges_dialog_def draw_privileges_def\<close>)
  have "privileges_ok u (fst (emit_run privileges_step ops d))" if "privileges_ok u d" for d
    using assms(1) that by (induction ops arbitrary: d) (simp_all add: privileges_step_ok del: privileges_step.simps)
  from this [OF start] show ?thesis by simp
qed

theorem privileges_as_checked_witness:
  "privileges_ok (sample_user [''x''])
     (fst (emit_run privileges_step (Projects_arrive [sample_project] # User_arrives (sample_user [''x'']) # [Click_action 0, Click_action 2, Click_action 0, Click_save_rights])
       (fst (new_privileges_dialog 5))))"
  by (rule privileges_as_checked) (simp_all add: distinct_projects_def)

end
