(* ===== verification/Spec2Isabelle.thy ===== *)
theory Spec2Isabelle
  imports Prelude Extensions Reactive Synchronization Model Constants Catalog Streams Client Api Samples Services Loaders
    EntityStreams Regexps Validators Widgets Selection Contexts Entry Text_Fields Forms Collections
    Platform_Collections Selectors Grids Filters
    Entity_Cards Pages Listing_Pages
    Managed_Panels File_Loaders Item_Readings Module_Configurators Module_Dialogs
    Saving_Dialogs Resource_Dialogs Project_Dialogs Setting_Dialogs
begin

text \<open>
  A verification library of the management panel of the ART platform, the TypeScript program under
  \<open>src/management-panel/src/main/web/src\<close>; every path below is relative to that directory. The panel is a
  single-page application: a browser client of the management server that lists and edits the entities of the
  platform (resources, projects, assemblies, modules, files, users) over one RSocket connection, keeps them
  current from streams of server events, and draws them with a widget framework of its own over React.

  \<^bold>\<open>How the parts interact.\<close> Pages ask a \<^emph>\<open>context\<close> (\<open>Contexts\<close>) for the data they need; the context runs the
  \<^emph>\<open>loaders\<close> (\<open>Loaders\<close>) in a \<^emph>\<open>synchronizer\<close> (\<open>Synchronization\<close>); loaders and services call the \<^emph>\<open>API\<close>
  (\<open>Api\<close>), which filters answers by the rights of the user and sends requests through the \<^emph>\<open>client\<close> (\<open>Client\<close>).
  The client's subscriptions feed the \<^emph>\<open>streams\<close> (\<open>Streams\<close>, \<open>EntityStreams\<close>), which widgets subscribe to.
  \<^emph>\<open>Widgets\<close> (\<open>Widgets\<close>, \<open>Selection\<close>) redraw when one of their reactive \<^emph>\<open>properties\<close> (\<open>Reactive\<close>) changes;
  fields, collections, selectors and forms are built from such properties. The \<^emph>\<open>entry point\<close> (\<open>Entry\<close>) holds the
  user of the session and decides which page a path shows.

  \<^bold>\<open>Theories and code.\<close>
  \<^item> \<open>Prelude\<close>: the collections of hints, JavaScript arrays (\<open>js_at\<close>, \<open>js_last\<close>) and insertion-ordered maps and
    sets, runs of operations with the effects that they emit, altogether (\<open>emit_run\<close>) or step by step (\<open>emit_trace\<close>,
    for the theorems that say at which moment something happens).
  \<^item> \<open>Extensions\<close>: \<open>framework/extensions/extensions.ts\<close>.
  \<^item> \<open>Reactive\<close>: \<open>framework/pattern/Property.ts\<close>, \<open>Event.ts\<close>, \<open>Lazy.ts\<close>, \<open>HookContainer.ts\<close>, \<open>ArrayCache.ts\<close>. A
    property is a record of its value, the previous and the pending value and the tokens of its consumers; each
    operation returns the calls it makes.
  \<^item> \<open>Synchronization\<close>: \<open>framework/pattern/Synchronizer.ts\<close>.
  \<^item> \<open>Model\<close>, \<open>Constants\<close>, \<open>Catalog\<close>, \<open>Samples\<close>: the types of \<open>model/*.ts\<close>, the constants of \<open>constants/*.ts\<close>, the
    decision tables over module states, technologies, resources and rights, and sample values for witnesses.
  \<^item> \<open>Streams\<close>, \<open>EntityStreams\<close>: \<open>framework/pattern/Stream.ts\<close>, \<open>streams/*.ts\<close> and the production of events in
    \<open>component/stream/StreamsActivator.tsx\<close>.
  \<^item> \<open>Client\<close>: \<open>client/PlatformClient.ts\<close>.
  \<^item> \<open>Api\<close>: \<open>api/*.ts\<close> except the connections to external platforms.
  \<^item> \<open>Services\<close>: \<open>service/Module{Installation,Updating,Cloning}Service.ts\<close>.
  \<^item> \<open>Loaders\<close>: \<open>loader/*.ts\<close>.
  \<^item> \<open>Regexps\<close>, \<open>Validators\<close>: \<open>constants/Regexps.ts\<close> with a matcher by derivatives, and \<open>validator/*.ts\<close>.
  \<^item> \<open>Widgets\<close>: \<open>framework/widgets/Widget.tsx\<close>, \<open>framework/renderer/WidgetRenderer.tsx\<close>, \<open>framework/hooks/Hooks.ts\<close>,
    \<open>framework/pattern/Trigger.ts\<close>, \<open>Configurable.ts\<close>: the life cycle of a widget as an inductive relation.
  \<^item> \<open>Selection\<close>: \<open>framework/pattern/Conditional.ts\<close>, \<open>Hooked.tsx\<close>, \<open>Optional.ts\<close>, \<open>When.ts\<close>: widgets that choose
    which widget to draw.
  \<^item> \<open>Contexts\<close>: \<open>context/PlatformContext.ts\<close>.
  \<^item> \<open>Entry\<close>: \<open>component/entry/EntryPoint.ts\<close> and
    \<open>framework/dsl/simple/SimpleRouter.tsx\<close>.
  \<^item> \<open>Text_Fields\<close>: \<open>framework/dsl/managed/ManagedTextField.tsx\<close>, \<open>ManagedButton.tsx\<close>.
  \<^item> \<open>Forms\<close>: the pages of
    authorization and registration.
  \<^item> \<open>Collections\<close>, \<open>Platform_Collections\<close>: \<open>framework/dsl/managed/ManagedCollection.tsx\<close> and the collections of
    strings, pairs, files and ports of \<open>component/embeddable/common/PlatformCollections.ts\<close>.
  \<^item> \<open>Selectors\<close>: \<open>framework/dsl/managed/ManagedSelector.tsx\<close> and \<open>ManagedSearcher.tsx\<close>.
  \<^item> \<open>Grids\<close>: \<open>framework/dsl/managed/ManagedGrid.tsx\<close>, a list of keyed widgets beside the property of its keys.
  \<^item> \<open>Filters\<close>: \<open>component/embeddable/filter/Filter.ts\<close> over the searchers of
    \<open>component/embeddable/common/PlatformSearchers.ts\<close>.
  \<^item> \<open>Entity_Cards\<close>: \<open>component/embeddable/module/ModuleCard.tsx\<close>,
    \<open>component/embeddable/assembly/AssemblyCard.tsx\<close>, \<open>calculator/DurationCalculator.ts\<close>.
  \<^item> \<open>Pages\<close>, \<open>Listing_Pages\<close>: \<open>framework/dsl/managed/ManagedTabs.tsx\<close>, \<open>component/pages/module/ModulesPage.tsx\<close>,
    \<open>component/pages/assemblies/AssembliesPage.tsx\<close>, \<open>component/pages/configuration/ConfigurationsPage.tsx\<close> and
    \<open>component/embeddable/configuration/PreparedConfigurationEditor.tsx\<close>.
  \<^item> \<open>Managed_Panels\<close>, \<open>File_Loaders\<close>: \<open>ManagedCheckbox.tsx\<close>, \<open>ManagedPanel.tsx\<close>, \<open>ManagedDialog.tsx\<close> and
    \<open>ManagedFileLoader.tsx\<close> of \<open>framework/dsl/managed\<close>.
  \<^item> \<open>Module_Configurators\<close>, \<open>Module_Dialogs\<close>: \<open>component/embeddable/module/configurator/*.ts\<close>,
    \<open>component/embeddable/module/application/ModuleApplicationsCollection.tsx\<close>, and the dialogs
    \<open>ModuleCloningDialog.ts\<close>, \<open>ModuleUpdatingDialog.ts\<close>, \<open>ModulesInstallationDialog.tsx\<close> of
    \<open>component/embeddable/module\<close>. \<open>Item_Readings\<close> holds what they need of collections.
  \<^item> \<open>Resource_Dialogs\<close>, \<open>Project_Dialogs\<close>: the dialogs that add and change resources and projects, with their fields
    and configurators, of \<open>component/embeddable/resource\<close> and \<open>component/embeddable/project\<close>.
  \<^item> \<open>Setting_Dialogs\<close>: \<open>configuration/PeparedConfigurationAdditionDialog.ts\<close>,
    \<open>module/prepared/ModulePreparedCofigurationAdditionDialog.ts\<close> and \<open>user/UserPrivilegesEditingDialog.ts\<close> of
    \<open>component/embeddable\<close>. \<open>Saving_Dialogs\<close> holds the contract that these dialogs share.

  \<^bold>\<open>State and operations.\<close> An object is a record, an operation a function from the old state to the new one and
  the list of effects it emits (calls of consumers, requests, notifications, navigation), in the order of the
  code. A callback is a token; the answer to a request is an operation of its own, so an interleaving is a list
  of operations. \<open>None\<close> is \<open>undefined\<close> or \<open>null\<close>. Errors are values: \<open>sum\<close> types, \<open>option\<close> or a constructor
  of the result (\<open>Type_error\<close>, \<open>Too_deep\<close>). Consumers that assign in turn are followed inside the operation
  where the code's own consumers do so (text and error of a field, the items of a collection, index and value
  of a selector), and are later operations otherwise.

  \<^bold>\<open>What the lemmas show.\<close> The services and the loads of resources complete once, with all that was asked for, and at
  the last answer: these theorems give the effects of every single step (\<open>Services\<close>, \<open>Loaders\<close>, over the locale \<open>completion_barrier\<close> and \<open>list_loading\<close>); streams and client deliver to
  exactly the live subscriptions (locale \<open>subscription_channel\<close>), where which streams are open is read off the
  history of the client and not off its state; the activator neither loses nor doubles an event, of a project either,
  as far as the rights of the user go;
  the API hides what the user may not see and maps errors; validators equal declarative specifications; the
  expressions accept exactly their languages. A widget on screen redraws on every change (\<open>Widgets\<close>); an optional
  widget is a sequence of periods of display (\<open>Selection\<close>); contexts become ready and private pages are shown to
  nobody without a user (\<open>Contexts\<close>, \<open>Entry\<close>). A collection keeps all items outside its lock valid and distinct
  through any run of its user's actions: this is proved once in the locale \<open>item_laws\<close>, whose interpretations
  are the code's own kinds of items. Selections settle (\<open>Selectors\<close>); keys and items of a grid stay together
  (\<open>Grids\<close>); the cards of a page are those of its listing, in its order, proved once for all pages in the locale
  \<open>listed_cards\<close> (\<open>Pages\<close>, \<open>Listing_Pages\<close>); a page draws its filter as an operation of its own, and only a drawn
  filter offers and filters values. The configurator of a module tells its dialog of every change that the
  validation can see, which rests on the locale \<open>item_reading\<close> (what is read of an item survives all that the collection
  does to it), and so a cloning sends only valid configurations (\<open>Module_Configurators\<close>, \<open>Module_Dialogs\<close>).
  A dialog that saves sends at most one request, with a good name, which follows once for all from the locale
  \<open>saving_dialog\<close>, whose interpretations are the dialogs of resources, projects and configurations; the boxes of a user's
  rights say what is saved, and a choice of a prepared configuration may give one of another project
  (\<open>Setting_Dialogs\<close>). Where the code does not do what it means to, the theorem states what
  it does, on a concrete or a general run.

  \<^bold>\<open>Bounds and fuel.\<close> \<open>settle\<close> in \<open>Entry\<close> follows redirects for a given number of steps; the theorems show
  that the stated number arrives or that none does. The chains of a selector are at most \<open>selector_depth\<close> (4)
  deep and those of a searcher \<open>searcher_depth\<close> (twice the items and five), as the theorems show. Chunked
  requests recurse over the bytes. No other definition needs fuel.

  \<^bold>\<open>Parameters.\<close> Code outside the repository is an argument: the path matching of the router, deep equality of
  values where a type has no equality of its own, the content of answers, React (the order in which it mounts,
  renders and unmounts is the relation of \<open>Widgets\<close>), timers, transport and codec of the client (effects and
  operations).

  \<^bold>\<open>Not modelled.\<close> Drawing itself: themes, styles, grids, icons, the simple widgets and the drawn parts of the
  managed ones, the drawer and the menu of a card; the cards of projects, resources, users and applications, the dialogs
  of applications and of assemblies with their configurators, forms of the kind of the modelled ones; the remaining
  pages and the side bar, which lay widgets out; the theme, which is taken as fixed while a page is shown; Russian texts,
  except where they tell cases apart (then they are constructors); the cache of debounced functions and
  \<open>clone\<close>, a copy of an immutable value; the bootstrap of streams, which calls the modelled activations in turn;
  \<open>api/ExternalPlatformApi.ts\<close>, a pass-through of a fetch; the servers in Java and Kotlin, other programs.
\<close>

end
